(* ===== verification/Prelude.thy ===== *)
theory Prelude
  imports Main "HOL-Library.Word" "HOL-Library.Multiset" "HOL-Library.List_Lexorder" "HOL-Library.Char_ord"
begin

text \<open>
  Shared vocabulary of the development. It holds the result type of fallible Go
  functions and its sequencing combinator, the 64-bit signed integers of Go with their
  wrap-around, the string functions of the Go standard library that the sources call,
  generic lemmas on tables (lists of rows), on lookups by predicate and on sums, and the contracts
  (locales) of codecs and of operations on a state that the components interpret.
  Nothing here models a file of the repository.
\<close>

named_theorems int64_simps \<open>unfolding of the 64-bit bounds for linear arithmetic\<close>
named_theorems result_simps \<open>inversion of results that succeed\<close>

section \<open>Results\<close>

text \<open>
  A Go function returning \<open>(T, error)\<close> returns \<open>Inl\<close> of the error or \<open>Inr\<close> of the
  value; \<open>and_then\<close> is the early return on \<open>err != nil\<close>.
\<close>

fun and_then :: "'e + 'a \<Rightarrow> ('a \<Rightarrow> 'e + 'b) \<Rightarrow> 'e + 'b" where
  "and_then (Inl e) f = Inl e"
| "and_then (Inr x) f = f x"

lemma and_then_Inr [result_simps]: "and_then m f = Inr y \<longleftrightarrow> (\<exists>x. m = Inr x \<and> f x = Inr y)"
  by (cases m) auto

lemma and_then_Inl: "and_then m f = Inl e \<longleftrightarrow> m = Inl e \<or> (\<exists>x. m = Inr x \<and> f x = Inl e)"
  by (cases m) auto

lemma if_Inl_Inr [result_simps]: "(if c then Inl e else m) = Inr y \<longleftrightarrow> \<not> c \<and> m = Inr y"
  by simp

lemma and_then_assoc [simp]: "and_then (and_then m f) g = and_then m (\<lambda>x. and_then (f x) g)"
  by (cases m) auto

lemma and_then_cong: "m = m' \<Longrightarrow> (\<And>x. m' = Inr x \<Longrightarrow> f x = g x) \<Longrightarrow> and_then m f = and_then m' g"
  by (cases m') auto

text \<open>A loop whose body may fail: it stops at the first error.\<close>

fun fold_result :: "('a \<Rightarrow> 's \<Rightarrow> 'e + 's) \<Rightarrow> 'a list \<Rightarrow> 's \<Rightarrow> 'e + 's" where
  "fold_result f [] s = Inr s"
| "fold_result f (x # xs) s = and_then (f x s) (fold_result f xs)"

lemma fold_result_append:
  "fold_result f (xs @ ys) s = and_then (fold_result f xs s) (fold_result f ys)"
  by (induction xs arbitrary: s) (simp_all cong: and_then_cong)

lemma fold_result_invariant:
  assumes "fold_result f xs s = Inr s'" and "P s"
    and step: "\<And>x t t'. x \<in> set xs \<Longrightarrow> P t \<Longrightarrow> f x t = Inr t' \<Longrightarrow> P t'"
  shows "P s'"
  using assms
proof (induction xs arbitrary: s)
  case Nil
  then show ?case by simp
next
  case (Cons x xs)
  from Cons.prems(1) obtain t where t: "f x s = Inr t" "fold_result f xs t = Inr s'"
    by (auto simp: and_then_Inr)
  have "P t" using Cons.prems(3)[of x s t] Cons.prems(2) t(1) by simp
  with t(2) show ?case
    by (rule Cons.IH) (use Cons.prems(3) in auto)
qed

section \<open>64-bit signed integers\<close>

text \<open>
  A Go \<open>int64\<close> is an \<^typ>\<open>int\<close> in \<open>[MinInt64, MaxInt64]\<close>; \<open>wrap64\<close> is the two's complement
  wrap-around of an arithmetic result and is written wherever Go arithmetic can leave the range.
\<close>

definition MaxInt64 :: int where
  "MaxInt64 = 9223372036854775807"

definition MinInt64 :: int where
  "MinInt64 = - 9223372036854775808"

definition wrap64 :: "int \<Rightarrow> int" where
  "wrap64 x = (x + 9223372036854775808) mod 18446744073709551616 - 9223372036854775808"

definition int64 :: "int \<Rightarrow> bool" where
  "int64 x \<longleftrightarrow> MinInt64 \<le> x \<and> x \<le> MaxInt64"

declare MaxInt64_def [int64_simps] MinInt64_def [int64_simps] int64_def [int64_simps]

lemma wrap64_id [simp]: "int64 x \<Longrightarrow> wrap64 x = x"
  by (simp add: wrap64_def int64_simps)

lemma int64_wrap64 [simp]: "int64 (wrap64 x)"
  unfolding wrap64_def int64_simps
  using pos_mod_bound[of 18446744073709551616 "x + 9223372036854775808"]
    pos_mod_sign[of 18446744073709551616 "x + 9223372036854775808"]
  by linarith

lemma wrap64_idem [simp]: "wrap64 (wrap64 x) = wrap64 x"
  by simp

lemma wrap64_cong: "wrap64 x mod 18446744073709551616 = x mod 18446744073709551616"
  unfolding wrap64_def by (simp add: mod_diff_left_eq)

lemma int64_0 [simp]: "int64 0" and int64_1 [simp]: "int64 1"
  by (simp_all add: int64_simps)

section \<open>Strings\<close>

text \<open>
  A Go string is a byte sequence; here a \<^typ>\<open>string\<close>, one \<^typ>\<open>char\<close> per byte. \<open><\<close> on
  strings is the bytewise lexicographic order of Go (theories List_Lexorder and Char_ord).
\<close>

definition has_prefix :: "string \<Rightarrow> string \<Rightarrow> bool" where
  "has_prefix s p \<longleftrightarrow> take (length p) s = p"

definition has_suffix :: "string \<Rightarrow> string \<Rightarrow> bool" where
  "has_suffix s p \<longleftrightarrow> length p \<le> length s \<and> drop (length s - length p) s = p"

text \<open>
  \<open>strings.TrimSpace\<close> strips the runes with the Unicode White\_Space property: the ASCII
  controls 9 to 13 and 32, and the UTF-8 encodings of U+0085, U+00A0, U+1680, U+2000 to
  U+200A, U+2028, U+2029, U+202F, U+205F and U+3000.
\<close>

definition ascii_space :: "char \<Rightarrow> bool" where
  "ascii_space c \<longleftrightarrow> (let n = (of_char c :: nat) in (9 \<le> n \<and> n \<le> 13) \<or> n = 32)"

definition wide_spaces :: "nat list list" where
  "wide_spaces =
     [[194, 133], [194, 160], [225, 154, 128]]
     @ map (\<lambda>n. [226, 128, n]) ([128..<139] @ [168, 169, 175])
     @ [[226, 129, 159], [227, 128, 128]]"

definition space_prefix :: "string \<Rightarrow> nat" where
  "space_prefix s =
     (if s \<noteq> [] \<and> ascii_space (hd s) then 1
      else if map of_char (take 2 s) \<in> set wide_spaces then 2
      else if map of_char (take 3 s) \<in> set wide_spaces then 3 else 0)"

definition space_suffix :: "string \<Rightarrow> nat" where
  "space_suffix s =
     (if s \<noteq> [] \<and> ascii_space (last s) then 1
      else if map of_char (drop (length s - 2) s) \<in> set wide_spaces then 2
      else if map of_char (drop (length s - 3) s) \<in> set wide_spaces then 3 else 0)"

lemma space_prefix_empty [simp]: "space_prefix [] = 0" and space_suffix_empty [simp]: "space_suffix [] = 0"
  by (auto simp: space_prefix_def space_suffix_def wide_spaces_def)

function trim_left :: "string \<Rightarrow> string" where
  "trim_left s = (if s = [] \<or> space_prefix s = 0 then s else trim_left (drop (space_prefix s) s))"
  by pat_completeness auto
termination
  by (relation "measure length") auto

function trim_right :: "string \<Rightarrow> string" where
  "trim_right s =
     (if s = [] \<or> space_suffix s = 0 then s else trim_right (take (length s - space_suffix s) s))"
  by pat_completeness auto
termination
  by (relation "measure length") auto

declare trim_left.simps [simp del] trim_right.simps [simp del]

definition trim_space :: "string \<Rightarrow> string" where
  "trim_space s = trim_right (trim_left s)"

lemma length_trim_left: "length (trim_left s) \<le> length s"
proof (induction s rule: trim_left.induct)
  case (1 s)
  show ?case
    using 1 by (cases "s = [] \<or> space_prefix s = 0") (auto simp: trim_left.simps[of s])
qed

lemma length_trim_right: "length (trim_right s) \<le> length s"
proof (induction s rule: trim_right.induct)
  case (1 s)
  show ?case
    using 1 by (cases "s = [] \<or> space_suffix s = 0") (auto simp: trim_right.simps[of s])
qed

text \<open>A string is left alone by the trim exactly when neither end carries a space rune.\<close>

lemma trim_left_shorter: "space_prefix s \<noteq> 0 \<Longrightarrow> length (trim_left s) < length s"
  using length_trim_left[of "drop (space_prefix s) s"]
  by (cases "s = []") (auto simp: trim_left.simps[of s] simp flip: length_greater_0_conv)

lemma trim_right_shorter: "space_suffix s \<noteq> 0 \<Longrightarrow> length (trim_right s) < length s"
  using length_trim_right[of "take (length s - space_suffix s) s"]
  by (cases "s = []") (auto simp: trim_right.simps[of s] simp flip: length_greater_0_conv)

lemma trim_left_id: "space_prefix s = 0 \<Longrightarrow> trim_left s = s"
  by (simp add: trim_left.simps[of s])

lemma trim_right_id: "space_suffix s = 0 \<Longrightarrow> trim_right s = s"
  by (simp add: trim_right.simps[of s])

lemma trim_space_id_iff: "trim_space s = s \<longleftrightarrow> space_prefix s = 0 \<and> space_suffix s = 0"
proof
  assume eq: "trim_space s = s"
  have "length s \<le> length (trim_left s)"
    using eq length_trim_right[of "trim_left s"] by (simp add: trim_space_def)
  then have l: "space_prefix s = 0"
    using trim_left_shorter[of s] by fastforce
  then have "trim_right s = s"
    using eq by (simp add: trim_space_def trim_left_id)
  with l show "space_prefix s = 0 \<and> space_suffix s = 0"
    using trim_right_shorter[of s] by fastforce
qed (simp add: trim_space_def trim_left_id trim_right_id)

text \<open>Character classes the sources spell out as ranges or as regular expressions.\<close>

definition is_digit :: "char \<Rightarrow> bool" where
  "is_digit c \<longleftrightarrow> (let n = (of_char c :: nat) in 48 \<le> n \<and> n \<le> 57)"

definition is_lower :: "char \<Rightarrow> bool" where
  "is_lower c \<longleftrightarrow> (let n = (of_char c :: nat) in 97 \<le> n \<and> n \<le> 122)"

definition is_upper :: "char \<Rightarrow> bool" where
  "is_upper c \<longleftrightarrow> (let n = (of_char c :: nat) in 65 \<le> n \<and> n \<le> 90)"

definition is_alnum :: "char \<Rightarrow> bool" where
  "is_alnum c \<longleftrightarrow> is_upper c \<or> is_lower c \<or> is_digit c"

definition is_lower_hex :: "char \<Rightarrow> bool" where
  "is_lower_hex c \<longleftrightarrow> is_digit c \<or> (let n = (of_char c :: nat) in 97 \<le> n \<and> n \<le> 102)"

text \<open>\<open>^A B{0,n}$\<close>: one character of a first class, then at most \<open>n\<close> of a second.\<close>

fun head_tail_pattern :: "(char \<Rightarrow> bool) \<Rightarrow> (char \<Rightarrow> bool) \<Rightarrow> nat \<Rightarrow> string \<Rightarrow> bool" where
  "head_tail_pattern a b n [] = False"
| "head_tail_pattern a b n (c # cs) = (a c \<and> list_all b cs \<and> length cs \<le> n)"

lemma head_tail_pattern_nonempty: "head_tail_pattern a b n s \<Longrightarrow> s \<noteq> []"
  by (cases s) auto

lemma head_tail_pattern_length: "head_tail_pattern a b n s \<Longrightarrow> length s \<le> Suc n"
  by (cases s) auto

lemma not_space_prefix:
  assumes "\<forall>c \<in> set s. (of_char c :: nat) < 128 \<and> \<not> ascii_space c"
  shows "space_prefix s = 0"
proof (cases s)
  case Nil
  then show ?thesis by simp
next
  case (Cons c cs)
  with assms have c: "(of_char c :: nat) < 128" "\<not> ascii_space c" by auto
  have "xs \<notin> set wide_spaces" if "xs \<noteq> []" "hd xs < 128" for xs
    using that by (auto simp: wide_spaces_def)
  then have "map of_char (take 2 s) \<notin> set wide_spaces" "map of_char (take 3 s) \<notin> set wide_spaces"
    using Cons c(1) by (auto simp: take_Cons')
  then show ?thesis using Cons c(2) by (simp add: space_prefix_def)
qed

lemma wide_spaces_last: "xs \<in> set wide_spaces \<Longrightarrow> xs \<noteq> [] \<and> 128 \<le> last xs"
  by (auto simp: wide_spaces_def)

lemma not_space_suffix:
  assumes "\<forall>c \<in> set s. (of_char c :: nat) < 128 \<and> \<not> ascii_space c"
  shows "space_suffix s = 0"
proof (cases "s = []")
  case True
  then show ?thesis by simp
next
  case False
  then have l: "(of_char (last s) :: nat) < 128" "\<not> ascii_space (last s)"
    using assms by auto
  have "map of_char (drop (length s - k) s) \<notin> set wide_spaces" if "0 < k" for k
  proof
    assume w: "map of_char (drop (length s - k) s) \<in> set wide_spaces"
    then have ne: "drop (length s - k) s \<noteq> []" using wide_spaces_last by fastforce
    have "(128::nat) \<le> last (map of_char (drop (length s - k) s))"
      using wide_spaces_last[OF w] by simp
    also have "\<dots> = of_char (last s)"
      using ne by (simp add: last_map last_drop)
    finally show False using l(1) by simp
  qed
  then show ?thesis using l(2) False by (simp add: space_suffix_def)
qed

lemma trim_space_plain:
  "\<forall>c \<in> set s. (of_char c :: nat) < 128 \<and> \<not> ascii_space c \<Longrightarrow> trim_space s = s"
  by (simp add: trim_space_id_iff not_space_prefix not_space_suffix)

section \<open>Tables\<close>

text \<open>
  A database table is a list of rows. A statement with a \<open>WHERE\<close> clause finds the rows
  satisfying it, updates exactly those rows, and reports how many they are.
\<close>

definition update_where :: "('r \<Rightarrow> bool) \<Rightarrow> ('r \<Rightarrow> 'r) \<Rightarrow> 'r list \<Rightarrow> 'r list" where
  "update_where p f rows = map (\<lambda>r. if p r then f r else r) rows"

definition rows_affected :: "('r \<Rightarrow> bool) \<Rightarrow> 'r list \<Rightarrow> nat" where
  "rows_affected p rows = length (filter p rows)"

text \<open>\<open>INSERT\<close> under a unique key: it fails when a row with the key exists.\<close>

definition insert_row :: "('r \<Rightarrow> 'k) \<Rightarrow> 'r \<Rightarrow> 'r list \<Rightarrow> 'r list option" where
  "insert_row k r rows = (if k r \<in> k ` set rows then None else Some (rows @ [r]))"

definition unique_key :: "('r \<Rightarrow> 'k) \<Rightarrow> 'r list \<Rightarrow> bool" where
  "unique_key k rows \<longleftrightarrow> distinct (map k rows)"

lemma find_SomeD: "List.find p xs = Some x \<Longrightarrow> x \<in> set xs \<and> p x"
  by (auto simp: find_Some_iff)

lemma find_NoneD: "List.find p xs = None \<Longrightarrow> x \<in> set xs \<Longrightarrow> \<not> p x"
  by (auto simp: find_None_iff)

lemma set_update_where: "set (update_where p f rows) = f ` {r \<in> set rows. p r} \<union> {r \<in> set rows. \<not> p r}"
  by (auto simp: update_where_def image_iff)

lemma update_where_cases:
  assumes "r \<in> set (update_where p f rows)"
  obtains (upd) s where "s \<in> set rows" "p s" "r = f s" | (same) "r \<in> set rows" "\<not> p r"
  using assms by (auto simp: set_update_where)

lemma map_update_where [simp]:
  "(\<And>r. k (f r) = k r) \<Longrightarrow> map k (update_where p f rows) = map k rows"
  by (auto simp: update_where_def)

lemma unique_key_update_where [simp]:
  "(\<And>r. k (f r) = k r) \<Longrightarrow> unique_key k (update_where p f rows) = unique_key k rows"
  by (simp add: unique_key_def)

lemma insert_row_Some:
  "insert_row k r rows = Some rows' \<longleftrightarrow> k r \<notin> k ` set rows \<and> rows' = rows @ [r]"
  by (auto simp: insert_row_def)

lemma unique_key_insert_row: "unique_key k rows \<Longrightarrow> insert_row k r rows = Some rows' \<Longrightarrow> unique_key k rows'"
  by (auto simp: insert_row_Some unique_key_def)

lemma unique_keyD: "unique_key k rows \<Longrightarrow> r \<in> set rows \<Longrightarrow> s \<in> set rows \<Longrightarrow> k r = k s \<Longrightarrow> r = s"
  by (auto simp: unique_key_def distinct_map inj_on_def)

lemma unique_key_find:
  assumes "unique_key k rows" and "r \<in> set rows" and "p r" and "\<And>s. p s \<Longrightarrow> k s = k r"
  shows "List.find p rows = Some r"
proof -
  obtain s where s: "List.find p rows = Some s"
    using assms(2,3) by (metis find_NoneD option.exhaust)
  then have "s \<in> set rows" "p s" using find_SomeD by fastforce+
  with assms have "s = r" by (metis unique_keyD)
  with s show ?thesis by simp
qed

lemma rows_affected_unique:
  assumes "unique_key k rows" and "r \<in> set rows" and "p r" and "\<And>s. p s \<Longrightarrow> k s = k r"
  shows "rows_affected p rows = 1"
proof -
  have "set (filter p rows) = {r}"
    using assms by (auto dest: unique_keyD)
  moreover have "distinct (filter p rows)"
    using assms(1) by (simp add: unique_key_def distinct_map)
  ultimately show ?thesis
    unfolding rows_affected_def using distinct_card by fastforce
qed

lemma rows_affected_pos: "rows_affected p rows \<noteq> 0 \<longleftrightarrow> (\<exists>r \<in> set rows. p r)"
  by (auto simp: rows_affected_def filter_empty_conv)

section \<open>Sums over tables\<close>

definition sum_where :: "('r \<Rightarrow> bool) \<Rightarrow> ('r \<Rightarrow> int) \<Rightarrow> 'r list \<Rightarrow> int" where
  "sum_where p v rows = sum_list (map v (filter p rows))"

lemma sum_where_append [simp]: "sum_where p v (xs @ ys) = sum_where p v xs + sum_where p v ys"
  by (simp add: sum_where_def)

lemma sum_where_Nil [simp]: "sum_where p v [] = 0"
  by (simp add: sum_where_def)

lemma sum_where_Cons [simp]: "sum_where p v (x # xs) = (if p x then v x else 0) + sum_where p v xs"
  by (simp add: sum_where_def)

lemma sum_where_none: "(\<And>r. r \<in> set rows \<Longrightarrow> \<not> p r) \<Longrightarrow> sum_where p v rows = 0"
  by (induction rows) auto

lemma sum_where_cong:
  "(\<And>r. r \<in> set rows \<Longrightarrow> p r = q r) \<Longrightarrow> (\<And>r. r \<in> set rows \<Longrightarrow> p r \<Longrightarrow> v r = w r) \<Longrightarrow>
   sum_where p v rows = sum_where q w rows"
  by (induction rows) auto

lemma sum_where_nonneg: "(\<And>r. r \<in> set rows \<Longrightarrow> p r \<Longrightarrow> 0 \<le> v r) \<Longrightarrow> 0 \<le> sum_where p v rows"
  by (induction rows) auto

lemma sum_where_update_where:
  assumes "unique_key k rows" and "r \<in> set rows" and "q r" and "\<And>s. q s \<Longrightarrow> k s = k r"
  shows "sum_where p v (update_where q f rows) =
         sum_where p v rows - (if p r then v r else 0) + (if p (f r) then v (f r) else 0)"
  using assms(1,2)
proof (induction rows)
  case Nil
  then show ?case by simp
next
  case (Cons x xs)
  have uk: "unique_key k xs" using Cons.prems(1) by (simp add: unique_key_def)
  show ?case
  proof (cases "x = r")
    case True
    have "\<not> q s" if "s \<in> set xs" for s
      using that Cons.prems(1) True assms(4)[of s] by (auto simp: unique_key_def image_iff)
    then have "update_where q f xs = xs"
      by (auto simp: update_where_def intro: map_idI)
    then show ?thesis using True assms(3) by (simp add: update_where_def)
  next
    case False
    then have "r \<in> set xs" using Cons.prems(2) by simp
    moreover from this have "\<not> q x"
      using False Cons.prems(1) assms(4)[of x] by (auto simp: unique_key_def image_iff)
    ultimately show ?thesis
      using Cons.IH[OF uk] by (simp add: update_where_def)
  qed
qed

section \<open>Canonical codecs\<close>

text \<open>
  The contract of a printer and a parser that are inverse to each other on the valid values: what
  is printed parses back, and what parses was printed, so every value has exactly one text.
\<close>

locale canonical_codec =
  fixes prints :: "'a \<Rightarrow> 't" and parses :: "'t \<Rightarrow> 'e + 'a" and valid :: "'a \<Rightarrow> bool"
  assumes parses_prints: "valid x \<Longrightarrow> parses (prints x) = Inr x"
    and prints_parses: "parses t = Inr x \<Longrightarrow> valid x \<and> prints x = t"
begin

lemma parses_iff: "parses t = Inr x \<longleftrightarrow> valid x \<and> t = prints x"
  using parses_prints prints_parses by blast

lemma prints_inj: "valid x \<Longrightarrow> valid y \<Longrightarrow> prints x = prints y \<longleftrightarrow> x = y"
  by (metis parses_prints sum.inject(2))

end

section \<open>Sequences of operations\<close>

text \<open>
  An operation that fails leaves the state as it was. A history is a sequence of operations, in the
  order in which they commit.
\<close>

definition committed :: "('c \<Rightarrow> 's \<Rightarrow> 'e + ('r \<times> 's)) \<Rightarrow> 'c \<Rightarrow> 's \<Rightarrow> 's" where
  "committed step c s = (case step c s of Inl _ \<Rightarrow> s | Inr (_, s') \<Rightarrow> s')"

definition run_all :: "('c \<Rightarrow> 's \<Rightarrow> 'e + ('r \<times> 's)) \<Rightarrow> 'c list \<Rightarrow> 's \<Rightarrow> 's" where
  "run_all step cs s = fold (committed step) cs s"

lemma run_all_simps [simp]:
  "run_all step [] s = s" "run_all step (c # cs) s = run_all step cs (committed step c s)"
  "run_all step (cs @ ds) s = run_all step ds (run_all step cs s)"
  by (simp_all add: run_all_def)

text \<open>Operations that keep an invariant keep it along every history.\<close>

locale operations =
  fixes step :: "'c \<Rightarrow> 's \<Rightarrow> 'e + ('r \<times> 's)" and inv :: "'s \<Rightarrow> bool"
  assumes step_inv: "inv s \<Longrightarrow> step c s = Inr (r, s') \<Longrightarrow> inv s'"
begin

lemma committed_inv: "inv s \<Longrightarrow> inv (committed step c s)"
  by (auto simp: committed_def split: sum.splits intro: step_inv)

lemma run_all_inv: "inv s \<Longrightarrow> inv (run_all step cs s)"
  by (induction cs arbitrary: s) (simp_all add: committed_inv)

end

text \<open>Operations that only move a state forward in an order do so along every history.\<close>

locale monotone_operations = operations +
  fixes forward :: "'b \<Rightarrow> 'b \<Rightarrow> bool"
  assumes forward_refl: "forward s s"
    and forward_trans: "forward s t \<Longrightarrow> forward t u \<Longrightarrow> forward s u"
    and step_forward: "inv s \<Longrightarrow> step c s = Inr (r, s') \<Longrightarrow> forward s s'"
begin

lemma committed_forward: "inv s \<Longrightarrow> forward s (committed step c s)"
  by (auto simp: committed_def forward_refl split: sum.splits intro: step_forward)

lemma run_all_forward: "inv s \<Longrightarrow> forward s (run_all step cs s)"
proof (induction cs arbitrary: s)
  case (Cons c cs)
  show ?case
    using forward_trans[OF committed_forward Cons.IH[OF committed_inv], OF Cons.prems Cons.prems] by simp
qed (simp add: forward_refl)

end

end
