(* ===== verification/Errors.thy ===== *)
theory Errors
  imports Prelude
begin

text \<open>
  Errors of the program (internal/domain/error.go). An error value is a message made by
  \<open>errors.New\<close>, a message wrapped around a cause (\<open>fmt.Errorf\<close> with \<open>%w\<close>), or the domain's
  own \<open>Error\<close> with a stable code, a detail, a retry flag and an optional cause. The sentinel
  errors of the packages are messages of their own, so that \<open>errors.Is\<close> is equality along the
  chain of causes.
\<close>

datatype ErrorCode =
    CodeInvalidArgument | CodeNotFound | CodeConflict | CodeForbidden
  | CodeUnauthenticated | CodeUnavailable | CodeInternal | CodeOther string

datatype goerror =
    New string
  | Wrapf string goerror
  | Error ErrorCode string bool "goerror option"

type_synonym 'a result = "goerror + 'a"

definition validErrorCode :: "ErrorCode \<Rightarrow> bool" where
  "validErrorCode code \<longleftrightarrow> (case code of CodeOther _ \<Rightarrow> False | _ \<Rightarrow> True)"

definition NewError :: "ErrorCode \<Rightarrow> string \<Rightarrow> goerror" where
  "NewError code detail =
     (if \<not> validErrorCode code then Error CodeInternal ''internal error'' False None
      else Error code detail False None)"

definition WrapError :: "ErrorCode \<Rightarrow> string \<Rightarrow> goerror \<Rightarrow> goerror" where
  "WrapError code detail cause =
     (case NewError code detail of Error c d r _ \<Rightarrow> Error c d r (Some cause) | e \<Rightarrow> e)"

fun WithRetryable :: "goerror \<Rightarrow> goerror" where
  "WithRetryable (Error c d _ cause) = Error c d True cause"
| "WithRetryable e = e"

fun Unwrap :: "goerror \<Rightarrow> goerror option" where
  "Unwrap (New _) = None"
| "Unwrap (Wrapf _ e) = Some e"
| "Unwrap (Error _ _ _ cause) = cause"

text \<open>\<open>errors.As\<close> for \<open>*Error\<close>: the first domain error along the chain of causes.\<close>

fun ErrorCodeOf :: "goerror \<Rightarrow> ErrorCode" where
  "ErrorCodeOf (New _) = CodeInternal"
| "ErrorCodeOf (Wrapf _ e) = ErrorCodeOf e"
| "ErrorCodeOf (Error code _ _ _) = code"

fun errors_Is :: "goerror \<Rightarrow> goerror \<Rightarrow> bool" where
  "errors_Is (New m) t = (New m = t)"
| "errors_Is (Wrapf m e) t = (Wrapf m e = t \<or> errors_Is e t)"
| "errors_Is (Error c d r None) t = (Error c d r None = t)"
| "errors_Is (Error c d r (Some e)) t = (Error c d r (Some e) = t \<or> errors_Is e t)"

lemma errors_Is_refl [simp]: "errors_Is e e"
  by (cases "(e, e)" rule: errors_Is.cases) auto

lemma NewError_valid [simp]: "validErrorCode code \<Longrightarrow> NewError code detail = Error code detail False None"
  by (simp add: NewError_def)

lemma validErrorCode_simps [simp]:
  "validErrorCode CodeInvalidArgument" "validErrorCode CodeNotFound" "validErrorCode CodeConflict"
  "validErrorCode CodeForbidden" "validErrorCode CodeUnauthenticated" "validErrorCode CodeUnavailable"
  "validErrorCode CodeInternal"
  by (simp_all add: validErrorCode_def)

text \<open>An error built by the constructors never carries a code outside the closed set.\<close>

lemma ErrorCodeOf_NewError: "validErrorCode (ErrorCodeOf (NewError code detail))"
  by (simp add: NewError_def)

lemma ErrorCodeOf_WrapError: "validErrorCode (ErrorCodeOf (WrapError code detail cause))"
  by (simp add: WrapError_def NewError_def)

lemma errors_Is_WrapError: "errors_Is cause t \<Longrightarrow> errors_Is (WrapError code detail cause) t"
  by (simp add: WrapError_def NewError_def)

end
