(* ===== verification/Clock.thy ===== *)
theory Clock
  imports Errors
begin

text \<open>
  Authoritative time (internal/domain/clock.go) and the part of the Go package time it
  uses. A time is an exact instant, in nanoseconds since 1970, and a location. The zero
  \<open>time.Time\<close> is the first instant of year 1 in UTC, which is outside the range that a
  64-bit nanosecond count can express; \<open>UnixNano\<close> wraps around there, as the Go
  implementation does. Monotonic clock readings are not part of a time.
\<close>

datatype Location = UTC | Zoned string int

record Time =
  unix_nano :: int
  location :: Location

type_synonym Duration = int

definition Second :: Duration where
  "Second = 1000000000"

definition Minute :: Duration where
  "Minute = 60 * Second"

definition zero_nano :: int where
  "zero_nano = - 62135596800000000000"

definition zero_time :: Time where
  "zero_time = \<lparr>unix_nano = zero_nano, location = UTC\<rparr>"

definition IsZeroTime :: "Time \<Rightarrow> bool" where
  "IsZeroTime t \<longleftrightarrow> unix_nano t = zero_nano"

definition Before :: "Time \<Rightarrow> Time \<Rightarrow> bool" where
  "Before t u \<longleftrightarrow> unix_nano t < unix_nano u"

definition After :: "Time \<Rightarrow> Time \<Rightarrow> bool" where
  "After t u \<longleftrightarrow> unix_nano u < unix_nano t"

definition EqualTime :: "Time \<Rightarrow> Time \<Rightarrow> bool" where
  "EqualTime t u \<longleftrightarrow> unix_nano t = unix_nano u"

definition AddDuration :: "Time \<Rightarrow> Duration \<Rightarrow> Time" where
  "AddDuration t d = t\<lparr>unix_nano := unix_nano t + d\<rparr>"

text \<open>\<open>Sub\<close> saturates at the extreme durations.\<close>

definition SubTime :: "Time \<Rightarrow> Time \<Rightarrow> Duration" where
  "SubTime t u = max MinInt64 (min MaxInt64 (unix_nano t - unix_nano u))"

text \<open>\<open>Truncate\<close> rounds down to a multiple of the duration since the zero time.\<close>

definition TruncateTime :: "Time \<Rightarrow> Duration \<Rightarrow> Time" where
  "TruncateTime t d =
     (if d \<le> 0 then t else t\<lparr>unix_nano := unix_nano t - (unix_nano t - zero_nano) mod d\<rparr>)"

definition ToUTC :: "Time \<Rightarrow> Time" where
  "ToUTC t = t\<lparr>location := UTC\<rparr>"

fun Zone :: "Time \<Rightarrow> string \<times> int" where
  "Zone t = (case location t of UTC \<Rightarrow> (''UTC'', 0) | Zoned name offset \<Rightarrow> (name, offset))"

definition UnixNano :: "Time \<Rightarrow> int" where
  "UnixNano t = wrap64 (unix_nano t)"

definition Unix_UTC :: "int \<Rightarrow> Time" where
  "Unix_UTC n = \<lparr>unix_nano = n, location = UTC\<rparr>"

definition ErrTimestampNotUTC :: goerror where
  "ErrTimestampNotUTC = New ''timestamp must use UTC''"

definition RequireUTC :: "Time \<Rightarrow> Time result" where
  "RequireUTC value =
     (let (name, offset) = Zone value in
      if offset \<noteq> 0 \<or> name \<noteq> ''UTC'' \<or> location value \<noteq> UTC
      then Inl ErrTimestampNotUTC
      else Inr (Unix_UTC (UnixNano value)))"

section \<open>Facts\<close>

lemma RequireUTC_eq:
  "RequireUTC t = (if location t = UTC then Inr (Unix_UTC (wrap64 (unix_nano t))) else Inl ErrTimestampNotUTC)"
  by (auto simp: RequireUTC_def UnixNano_def Let_def split: Location.splits)

lemma RequireUTC_Inr [result_simps]:
  "RequireUTC t = Inr u \<longleftrightarrow> location t = UTC \<and> u = Unix_UTC (wrap64 (unix_nano t))"
  by (auto simp: RequireUTC_eq)

lemma Unix_UTC_sel [simp]: "unix_nano (Unix_UTC n) = n" "location (Unix_UTC n) = UTC"
  by (simp_all add: Unix_UTC_def)

lemma Unix_UTC_inject [simp]: "Unix_UTC m = Unix_UTC n \<longleftrightarrow> m = n"
  by (simp add: Unix_UTC_def)

text \<open>A representable time: in UTC, and within the years 1678 to 2262.\<close>

definition utc_time :: "Time \<Rightarrow> bool" where
  "utc_time t \<longleftrightarrow> location t = UTC \<and> int64 (unix_nano t)"

lemma utc_time_Unix_UTC [simp]: "utc_time (Unix_UTC n) \<longleftrightarrow> int64 n"
  by (simp add: utc_time_def)

lemma RequireUTC_utc_time: "utc_time t \<Longrightarrow> RequireUTC t = Inr t"
  by (simp add: RequireUTC_eq utc_time_def Unix_UTC_def)

lemma RequireUTC_result: "RequireUTC t = Inr u \<Longrightarrow> utc_time u"
  by (auto simp: RequireUTC_Inr)

lemma utc_time_not_zero: "utc_time t \<Longrightarrow> \<not> IsZeroTime t"
  by (simp add: utc_time_def IsZeroTime_def zero_nano_def int64_simps)

lemma Truncate_props:
  assumes "0 < d"
  shows "unix_nano (TruncateTime t d) \<le> unix_nano t" "unix_nano t < unix_nano (TruncateTime t d) + d"
    "(unix_nano (TruncateTime t d) - zero_nano) mod d = 0"
proof -
  let ?x = "unix_nano t - zero_nano"
  have "0 \<le> ?x mod d" "?x mod d < d" using assms by simp_all
  then show "unix_nano (TruncateTime t d) \<le> unix_nano t" "unix_nano t < unix_nano (TruncateTime t d) + d"
    using assms by (simp_all add: TruncateTime_def)
  have "unix_nano (TruncateTime t d) - zero_nano = ?x - ?x mod d"
    using assms by (simp add: TruncateTime_def)
  then show "(unix_nano (TruncateTime t d) - zero_nano) mod d = 0"
    by (simp add: minus_mod_eq_mult_div)
qed

section \<open>Properties\<close>

text \<open>
  C40: a timestamp that \<open>RequireUTC\<close> lets through is a representable UTC time, the same instant when the
  argument is representable, and never the zero time: the zero time itself is let through as another
  instant, so a test of the result for zero, as the validators of runs, leases, extensions and
  settlements make it, never fires.
\<close>

theorem RequireUTC_never_zero:
  assumes "RequireUTC t = Inr u"
  shows "utc_time u \<and> (int64 (unix_nano t) \<longrightarrow> u = t) \<and> \<not> IsZeroTime u \<and>
    (\<exists>v. RequireUTC zero_time = Inr v \<and> unix_nano v = - 6795364578871345152)"
proof -
  have "RequireUTC zero_time = Inr (Unix_UTC (- 6795364578871345152))"
    by (simp add: RequireUTC_eq zero_time_def zero_nano_def wrap64_def)
  moreover have "int64 (unix_nano t) \<longrightarrow> u = t"
    using assms by (auto simp: RequireUTC_Inr Unix_UTC_def)
  ultimately show ?thesis
    using RequireUTC_result[OF assms] by (simp add: utc_time_not_zero)
qed

theorem RequireUTC_never_zero_witness:
  "RequireUTC \<lparr>unix_nano = 7, location = UTC\<rparr> = Inr (Unix_UTC 7) \<and> \<not> IsZeroTime (Unix_UTC 7)"
  using RequireUTC_never_zero[of "\<lparr>unix_nano = 7, location = UTC\<rparr>" "Unix_UTC 7"]
  by (simp add: RequireUTC_Inr int64_simps)

end
