(* ===== verification/Identifiers.thy ===== *)
theory Identifiers
  imports Clock
begin

text \<open>
  Identifiers (internal/domain/id.go). An \<open>ID\<close> is sixteen bytes, held here as the 128-bit
  word they spell in big-endian order, so that the zero identifier is the word 0 and
  equality is equality of words. Parsing, printing and the construction of a fresh
  identifier work on the byte sequence, as the source does. The random source is an argument.
\<close>

unbundle bit_operations_syntax

type_synonym ID = "128 word"
type_synonym byte = "8 word"

section \<open>Bytes\<close>

fun be_bytes :: "nat \<Rightarrow> nat \<Rightarrow> byte list" where
  "be_bytes 0 n = []"
| "be_bytes (Suc k) n = be_bytes k (n div 256) @ [of_nat (n mod 256)]"

definition be_value :: "byte list \<Rightarrow> nat" where
  "be_value bs = foldl (\<lambda>a b. a * 256 + unat b) 0 bs"

definition ID_bytes :: "ID \<Rightarrow> byte list" where
  "ID_bytes x = be_bytes 16 (unat x)"

definition ID_of_bytes :: "byte list \<Rightarrow> ID" where
  "ID_of_bytes bs = of_nat (be_value bs)"

section \<open>Package encoding/hex\<close>

definition hex_digits :: string where
  "hex_digits = ''0123456789abcdef''"

definition hex_encode :: "byte list \<Rightarrow> string" where
  "hex_encode bs = concat (map (\<lambda>b. [hex_digits ! (unat b div 16), hex_digits ! (unat b mod 16)]) bs)"

definition from_hex_char :: "char \<Rightarrow> nat option" where
  "from_hex_char c =
     (let n = of_char c :: nat in
      if 48 \<le> n \<and> n \<le> 57 then Some (n - 48)
      else if 97 \<le> n \<and> n \<le> 102 then Some (n - 97 + 10)
      else if 65 \<le> n \<and> n \<le> 70 then Some (n - 65 + 10)
      else None)"

fun hex_decode :: "string \<Rightarrow> byte list option" where
  "hex_decode [] = Some []"
| "hex_decode [c] = None"
| "hex_decode (c # d # s) =
     (case (from_hex_char c, from_hex_char d) of
        (Some a, Some b) \<Rightarrow> map_option (Cons (of_nat (a * 16 + b))) (hex_decode s)
      | _ \<Rightarrow> None)"

section \<open>Operations\<close>

definition ErrInvalidID :: goerror where
  "ErrInvalidID = New ''invalid UUIDv7 identifier''"

definition IsZero :: "ID \<Rightarrow> bool" where
  "IsZero x \<longleftrightarrow> x = 0"

text \<open>
  \<open>strings.ToLower\<close> on ASCII bytes. A string with another byte is refused by \<open>ParseID\<close> in
  any case, since \<open>hex.Decode\<close> refuses it with the same error.
\<close>

definition ascii_lower :: "string \<Rightarrow> string" where
  "ascii_lower s = map (\<lambda>c. if is_upper c then char_of (of_char c + (32 :: nat)) else c) s"

definition subslice :: "'a list \<Rightarrow> nat \<Rightarrow> nat \<Rightarrow> 'a list" where
  "subslice xs i j = take (j - i) (drop i xs)"

definition ParseID :: "string \<Rightarrow> ID result" where
  "ParseID value =
     (if length value \<noteq> 36 \<or> value \<noteq> ascii_lower value \<or> value ! 8 \<noteq> CHR ''-'' \<or> value ! 13 \<noteq> CHR ''-''
         \<or> value ! 18 \<noteq> CHR ''-'' \<or> value ! 23 \<noteq> CHR ''-''
      then Inl ErrInvalidID
      else
        (let compact = subslice value 0 8 @ subslice value 9 13 @ subslice value 14 18 @ subslice value 19 23 @ subslice value 24 36 in
         case hex_decode compact of
           None \<Rightarrow> Inl ErrInvalidID
         | Some bytes \<Rightarrow>
             if drop_bit 4 (bytes ! 6) \<noteq> 7 \<or> drop_bit 6 (bytes ! 8) \<noteq> 2 then Inl ErrInvalidID
             else Inr (ID_of_bytes bytes)))"

definition ID_String :: "ID \<Rightarrow> string" where
  "ID_String x =
     (let bytes = ID_bytes x in
      hex_encode (subslice bytes 0 4) @ ''-'' @ hex_encode (subslice bytes 4 6) @ ''-'' @
      hex_encode (subslice bytes 6 8) @ ''-'' @ hex_encode (subslice bytes 8 10) @ ''-'' @
      hex_encode (subslice bytes 10 16))"

definition MarshalText :: "ID \<Rightarrow> string result" where
  "MarshalText x = (if IsZero x then Inl ErrInvalidID else Inr (ID_String x))"

definition UnmarshalText :: "string \<Rightarrow> ID result" where
  "UnmarshalText text = and_then (ParseID text) (\<lambda>parsed. Inr parsed)"

text \<open>
  \<open>newID\<close>: \<open>random\<close> is what \<open>io.ReadFull\<close> delivers, sixteen bytes or an error. The loop
  stores the low byte of the millisecond count at the positions 5 down to 0.
\<close>

definition UnixMilli :: "Time \<Rightarrow> int" where
  "UnixMilli t = wrap64 (unix_nano t div 1000000)"

fun store_milliseconds :: "nat \<Rightarrow> int \<Rightarrow> byte list \<Rightarrow> byte list" where
  "store_milliseconds 0 ms bs = bs"
| "store_milliseconds (Suc i) ms bs = store_milliseconds i (drop_bit 8 ms) (bs[i := of_int ms])"

definition newID :: "Time \<Rightarrow> byte list result \<Rightarrow> ID result" where
  "newID now random =
     (let milliseconds = UnixMilli now in
      if milliseconds < 0 \<or> milliseconds > 2 ^ 48 - 1
      then Inl (Wrapf ''timestamp outside UUIDv7 range'' ErrInvalidID)
      else case random of
        Inl err \<Rightarrow> Inl (Wrapf ''generate ID randomness'' err)
      | Inr read \<Rightarrow>
          (let bytes = store_milliseconds 6 milliseconds read;
               bytes = bytes[6 := (bytes ! 6 AND 0x0f) OR 0x70];
               bytes = bytes[8 := (bytes ! 8 AND 0x3f) OR 0x80]
           in Inr (ID_of_bytes bytes)))"

section \<open>Facts on bytes\<close>

lemma length_be_bytes [simp]: "length (be_bytes k n) = k"
  by (induction k arbitrary: n) auto

lemma be_value_Nil [simp]: "be_value [] = 0"
  and be_value_snoc [simp]: "be_value (bs @ [b]) = be_value bs * 256 + unat b"
  by (simp_all add: be_value_def)

lemma unat_byte_of_nat [simp]: "n < 256 \<Longrightarrow> unat (of_nat n :: byte) = n"
  by (simp add: unat_of_nat take_bit_nat_eq_self)

lemma unat_byte_less [simp]: "unat (b :: byte) < 256"
  using unsigned_less[of b, where ?'a = nat] by simp

lemma be_value_be_bytes: "n < 256 ^ k \<Longrightarrow> be_value (be_bytes k n) = n"
proof (induction k arbitrary: n)
  case (Suc k)
  have "n div 256 < 256 ^ k" using Suc.prems by (simp add: less_mult_imp_div_less mult.commute)
  then show ?case by (simp add: Suc.IH)
qed simp

lemma be_bytes_be_value: "be_bytes (length bs) (be_value bs) = bs"
proof (induction bs rule: rev_induct)
  case (snoc b bs)
  have "(be_value bs * 256 + unat b) div 256 = be_value bs" "(be_value bs * 256 + unat b) mod 256 = unat b"
    by (simp_all add: div_add1_eq)
  with snoc show ?case by simp
qed simp

lemma be_value_less: "be_value bs < 256 ^ length bs"
proof (induction bs rule: rev_induct)
  case (snoc b bs)
  then show ?case using unat_byte_less[of b] by (simp del: unat_byte_less)
qed simp

lemma length_ID_bytes [simp]: "length (ID_bytes x) = 16"
  by (simp add: ID_bytes_def)

lemma ID_of_bytes_ID_bytes [simp]: "ID_of_bytes (ID_bytes x) = x"
  using unsigned_less[of x, where ?'a = nat] by (simp add: ID_of_bytes_def ID_bytes_def be_value_be_bytes)

lemma ID_bytes_ID_of_bytes [simp]:
  assumes "length bs = 16" shows "ID_bytes (ID_of_bytes bs) = bs"
proof -
  have "be_value bs < 2 ^ 128" using be_value_less[of bs] assms by simp
  then have "unat (of_nat (be_value bs) :: ID) = be_value bs"
    by (simp add: unat_of_nat take_bit_nat_eq_self)
  then show ?thesis using be_bytes_be_value[of bs] assms by (simp add: ID_bytes_def ID_of_bytes_def)
qed

section \<open>Facts on the hexadecimal encoding\<close>

lemma hex_encode_Nil [simp]: "hex_encode [] = []"
  and hex_encode_Cons: "hex_encode (b # bs) = hex_digits ! (unat b div 16) # hex_digits ! (unat b mod 16) # hex_encode bs"
  and hex_encode_append: "hex_encode (bs @ cs) = hex_encode bs @ hex_encode cs"
  by (simp_all add: hex_encode_def)

lemma length_hex_encode [simp]: "length (hex_encode bs) = 2 * length bs"
  by (induction bs) (simp_all add: hex_encode_Cons)

lemma from_hex_char_digit [simp]: "n < 16 \<Longrightarrow> from_hex_char (hex_digits ! n) = Some n"
proof -
  have "\<forall>n \<in> set [0..<16]. from_hex_char (hex_digits ! n) = Some n" by code_simp
  then show "n < 16 \<Longrightarrow> from_hex_char (hex_digits ! n) = Some n" by simp
qed

lemma hex_digit_not_upper [simp]: "n < 16 \<Longrightarrow> \<not> is_upper (hex_digits ! n)"
proof -
  have "\<forall>n \<in> set [0..<16]. \<not> is_upper (hex_digits ! n)" by code_simp
  then show "n < 16 \<Longrightarrow> \<not> is_upper (hex_digits ! n)" by simp
qed

lemma byte_nibbles [simp]: "unat (b :: byte) div 16 < 16"
  using unat_byte_less[of b] by linarith

lemma hex_decode_encode [simp]: "hex_decode (hex_encode bs) = Some bs"
proof (induction bs)
  case (Cons b bs)
  have "(of_nat (unat b div 16 * 16 + unat b mod 16) :: byte) = b" by (simp only: div_mult_mod_eq) simp
  with Cons show ?case by (simp add: hex_encode_Cons del: of_nat_add of_nat_mult)
qed simp

text \<open>Conversely, a lower-case string that decodes is the encoding of the decoded bytes.\<close>

lemma from_hex_char_lower:
  assumes "from_hex_char c = Some n" "\<not> is_upper c" shows "n < 16 \<and> hex_digits ! n = c"
proof -
  have "\<forall>k \<in> set [48..<58]. hex_digits ! (k - 48) = char_of k" by code_simp
  from bspec[OF this[unfolded set_upt], of "of_char c"] have digits: "48 \<le> (of_char c :: nat) \<Longrightarrow> of_char c < (58 :: nat) \<Longrightarrow> hex_digits ! (of_char c - 48) = c"
    by simp
  have "\<forall>k \<in> set [97..<103]. hex_digits ! (k - 97 + 10) = char_of k" by code_simp
  from bspec[OF this[unfolded set_upt], of "of_char c"] have letters: "97 \<le> (of_char c :: nat) \<Longrightarrow> of_char c < (103 :: nat) \<Longrightarrow> hex_digits ! (of_char c - 97 + 10) = c"
    by simp
  consider "48 \<le> (of_char c :: nat)" "of_char c < (58 :: nat)" "n = of_char c - 48"
    | "97 \<le> (of_char c :: nat)" "of_char c < (103 :: nat)" "n = of_char c - 97 + 10"
    using assms unfolding from_hex_char_def is_upper_def Let_def by (auto split: if_splits)
  then show ?thesis using digits letters by cases simp_all
qed

lemma hex_encode_decode:
  "hex_decode s = Some bs \<Longrightarrow> (\<forall>c \<in> set s. \<not> is_upper c) \<Longrightarrow> hex_encode bs = s"
proof (induction s arbitrary: bs rule: hex_decode.induct)
  case (3 c d s)
  then obtain a b cs where ab: "from_hex_char c = Some a" "from_hex_char d = Some b"
    and cs: "hex_decode s = Some cs" "bs = of_nat (a * 16 + b) # cs"
    by (auto split: option.splits)
  have a: "a < 16" "hex_digits ! a = c" and b: "b < 16" "hex_digits ! b = d"
    using from_hex_char_lower[OF ab(1)] from_hex_char_lower[OF ab(2)] 3(3) by auto
  then have "unat (of_nat (a * 16 + b) :: byte) = a * 16 + b" by (intro unat_byte_of_nat) simp
  then show ?case using 3 ab cs a b by (simp add: hex_encode_Cons div_add1_eq)
qed auto

lemma length_hex_decode: "hex_decode s = Some bs \<Longrightarrow> length s = 2 * length bs"
  by (induction s arbitrary: bs rule: hex_decode.induct) (auto split: option.splits)

lemma ascii_lower_id: "ascii_lower s = s \<longleftrightarrow> (\<forall>c \<in> set s. \<not> is_upper c)"
proof -
  have "char_of (of_char c + 32 :: nat) \<noteq> c" if "is_upper c" for c
  proof
    assume "char_of (of_char c + 32 :: nat) = c"
    then have "(of_char c + 32 :: nat) mod 256 = of_char c" by (metis of_char_of)
    moreover have "(of_char c :: nat) < 100"
      using that by (simp add: is_upper_def Let_def)
    ultimately show False by simp
  qed
  then have "(if is_upper c then char_of (of_char c + 32 :: nat) else c) = c \<longleftrightarrow> \<not> is_upper c" for c by simp
  then show ?thesis by (induction s) (simp_all add: ascii_lower_def)
qed

section \<open>Printing and parsing\<close>

text \<open>The identifiers \<open>ParseID\<close> can return: version 7 and the RFC 9562 variant.\<close>

definition uuid7 :: "ID \<Rightarrow> bool" where
  "uuid7 x \<longleftrightarrow> drop_bit 4 (ID_bytes x ! 6) = 7 \<and> drop_bit 6 (ID_bytes x ! 8) = 2"

lemma slice_append: "i \<le> j \<Longrightarrow> j \<le> k \<Longrightarrow> subslice xs i j @ subslice xs j k = subslice xs i k"
proof -
  assume "i \<le> j" "j \<le> k"
  then have "k - i = (j - i) + (k - j)" "j = (j - i) + i" by simp_all
  then show ?thesis unfolding subslice_def by (metis drop_drop take_add)
qed

lemma length_slice [simp]: "length (subslice xs i j) = min (j - i) (length xs - i)"
  by (simp add: subslice_def min.commute)

lemma slice_all: "subslice xs 0 (length xs) = xs"
  by (simp add: subslice_def)

lemma set_slice: "set (subslice xs i j) \<subseteq> set xs"
  unfolding subslice_def by (metis set_drop_subset set_take_subset subset_trans)

text \<open>A string of length 36 falls into five groups and four separators, and conversely.\<close>

lemma ID_groups:
  assumes "length a = 8" "length b = 4" "length c = 4" "length d = 4" "length e = 12"
  defines "s \<equiv> a @ ''-'' @ b @ ''-'' @ c @ ''-'' @ d @ ''-'' @ e"
  shows "length s = 36" "s ! 8 = CHR ''-''" "s ! 13 = CHR ''-''" "s ! 18 = CHR ''-''" "s ! 23 = CHR ''-''"
    "subslice s 0 8 = a" "subslice s 9 13 = b" "subslice s 14 18 = c" "subslice s 19 23 = d" "subslice s 24 36 = e"
  using assms by (simp_all add: subslice_def nth_append)

lemma ID_ungroup:
  assumes "length s = 36" "s ! 8 = CHR ''-''" "s ! 13 = CHR ''-''" "s ! 18 = CHR ''-''" "s ! 23 = CHR ''-''"
  shows "subslice s 0 8 @ ''-'' @ subslice s 9 13 @ ''-'' @ subslice s 14 18 @ ''-'' @ subslice s 19 23 @ ''-'' @ subslice s 24 36 = s"
proof -
  have one: "[s ! i] = subslice s i (Suc i)" if "i < 36" for i
    using that assms(1) by (simp add: subslice_def take_Suc_conv_app_nth hd_drop_conv_nth[symmetric] take_Suc)
  have dash: "subslice s 8 9 = ''-''" "subslice s 13 14 = ''-''" "subslice s 18 19 = ''-''" "subslice s 23 24 = ''-''"
    using one[of 8] one[of 13] one[of 18] one[of 23] assms(2-5) by simp_all
  have "subslice s 0 8 @ subslice s 8 9 @ subslice s 9 13 @ subslice s 13 14 @ subslice s 14 18 @ subslice s 18 19
    @ subslice s 19 23 @ subslice s 23 24 @ subslice s 24 36 = s"
    using assms(1) slice_all[of s] by (simp add: slice_append)
  then show ?thesis unfolding dash .
qed

lemma ID_String_groups:
  fixes x :: ID
  defines "bs \<equiv> ID_bytes x"
  shows "length (hex_encode (subslice bs 0 4)) = 8" "length (hex_encode (subslice bs 4 6)) = 4"
    "length (hex_encode (subslice bs 6 8)) = 4" "length (hex_encode (subslice bs 8 10)) = 4"
    "length (hex_encode (subslice bs 10 16)) = 12"
  by (simp_all add: bs_def)

lemma hex_encode_not_upper: "c \<in> set (hex_encode bs) \<Longrightarrow> \<not> is_upper c"
  by (auto simp: hex_encode_def)

lemma ID_String_not_upper: "c \<in> set (ID_String x) \<Longrightarrow> \<not> is_upper c"
proof -
  have "\<not> is_upper CHR ''-''" by code_simp
  then show "c \<in> set (ID_String x) \<Longrightarrow> \<not> is_upper c"
    by (auto simp: ID_String_def Let_def dest: hex_encode_not_upper)
qed

lemma ParseID_ID_String: "ParseID (ID_String x) = (if uuid7 x then Inr x else Inl ErrInvalidID)"
proof -
  let ?s = "ID_String x" and ?b = "ID_bytes x"
  note g = ID_groups[OF ID_String_groups[of x]]
  have S: "?s = hex_encode (subslice ?b 0 4) @ ''-'' @ hex_encode (subslice ?b 4 6) @ ''-'' @ hex_encode (subslice ?b 6 8) @ ''-''
    @ hex_encode (subslice ?b 8 10) @ ''-'' @ hex_encode (subslice ?b 10 16)"
    by (simp add: ID_String_def Let_def)
  have "subslice ?s 0 8 @ subslice ?s 9 13 @ subslice ?s 14 18 @ subslice ?s 19 23 @ subslice ?s 24 36 = hex_encode (subslice ?b 0 16)"
    unfolding S g by (simp add: slice_append flip: hex_encode_append append_assoc)
  moreover have "subslice ?b 0 16 = ?b" using slice_all[of ?b] by simp
  moreover have "?s = ascii_lower ?s" using ID_String_not_upper[of _ x] ascii_lower_id by metis
  ultimately show ?thesis using g(1-5)[folded S] by (simp add: ParseID_def uuid7_def)
qed

lemma ID_String_ParseID:
  assumes "ParseID s = Inr x" shows "ID_String x = s \<and> uuid7 x"
proof -
  from assms have s: "length s = 36" "ascii_lower s = s" "s ! 8 = CHR ''-''" "s ! 13 = CHR ''-''"
      "s ! 18 = CHR ''-''" "s ! 23 = CHR ''-''"
    and d: "\<exists>bs. hex_decode (subslice s 0 8 @ subslice s 9 13 @ subslice s 14 18 @ subslice s 19 23 @ subslice s 24 36) = Some bs
      \<and> drop_bit 4 (bs ! 6) = 7 \<and> drop_bit 6 (bs ! 8) = 2 \<and> x = ID_of_bytes bs"
    by (auto simp: ParseID_def Let_def split: if_splits option.splits)
  let ?c = "subslice s 0 8 @ subslice s 9 13 @ subslice s 14 18 @ subslice s 19 23 @ subslice s 24 36"
  from d obtain bs where bs: "hex_decode ?c = Some bs" "drop_bit 4 (bs ! 6) = 7" "drop_bit 6 (bs ! 8) = 2" "x = ID_of_bytes bs"
    by blast
  have len: "length bs = 16" using length_hex_decode[OF bs(1)] s(1) by simp
  then have x: "ID_bytes x = bs" by (simp add: bs(4))
  have "\<forall>c \<in> set ?c. \<not> is_upper c" using s(2) set_slice[of s] by (fastforce simp: ascii_lower_id)
  from hex_encode_decode[OF bs(1) this] have c: "hex_encode bs = ?c" .
  have groups: "bs = subslice bs 0 4 @ subslice bs 4 6 @ subslice bs 6 8 @ subslice bs 8 10 @ subslice bs 10 16"
    using slice_all[of bs] len by (simp add: slice_append)
  have "hex_encode (subslice bs 0 4) @ hex_encode (subslice bs 4 6) @ hex_encode (subslice bs 6 8) @ hex_encode (subslice bs 8 10) @ hex_encode (subslice bs 10 16) = ?c"
    by (metis c groups hex_encode_append)
  then have "hex_encode (subslice bs 0 4) = subslice s 0 8" "hex_encode (subslice bs 4 6) = subslice s 9 13"
    "hex_encode (subslice bs 6 8) = subslice s 14 18" "hex_encode (subslice bs 8 10) = subslice s 19 23"
    "hex_encode (subslice bs 10 16) = subslice s 24 36"
    using len s(1) by simp_all
  then have "ID_String x = s" using ID_ungroup[OF s(1,3-6)] by (simp add: ID_String_def x)
  then show ?thesis using bs(2,3) by (simp add: uuid7_def x)
qed

section \<open>Order and fresh identifiers\<close>

lemma less_append_iff:
  fixes xs ys :: "'a :: linorder list"
  assumes "length xs = length ys"
  shows "xs @ us < ys @ vs \<longleftrightarrow> xs < ys \<or> xs = ys \<and> us < vs"
  using assms by (induction xs ys rule: list_induct2) auto

lemma be_value_Cons: "be_value (b # bs) = unat b * 256 ^ length bs + be_value bs"
proof (induction bs rule: rev_induct)
  case (snoc c bs)
  have "be_value (b # bs @ [c]) = be_value (b # bs) * 256 + unat c"
    using be_value_snoc[of "b # bs" c] by simp
  with snoc show ?case by (simp add: algebra_simps)
qed (use be_value_snoc[of "[]" b] in simp)

lemma be_value_less_iff:
  "length bs = length cs \<Longrightarrow> bs < cs \<longleftrightarrow> be_value bs < be_value cs"
proof (induction bs cs rule: list_induct2)
  case (Cons b bs c cs)
  let ?m = "256 ^ length cs :: nat"
  have bounds: "be_value bs < ?m" "be_value cs < ?m"
    using be_value_less[of bs] be_value_less[of cs] Cons.hyps by simp_all
  have lt: "unat b * ?m + be_value bs < unat c * ?m + be_value cs" if "unat b < unat c"
  proof -
    have "(unat b + 1) * ?m \<le> unat c * ?m" using that by (intro mult_right_mono) simp_all
    then show ?thesis using bounds by simp
  qed
  have gt: "unat c * ?m + be_value cs < unat b * ?m + be_value bs" if "unat c < unat b"
  proof -
    have "(unat c + 1) * ?m \<le> unat b * ?m" using that by (intro mult_right_mono) simp_all
    then show ?thesis using bounds by simp
  qed
  show ?case
    using lt gt Cons by (cases b c rule: linorder_cases) (auto simp: be_value_Cons word_less_nat_alt)
qed simp

lemma hex_digits_mono: "i < 16 \<Longrightarrow> j < 16 \<Longrightarrow> hex_digits ! i < hex_digits ! j \<longleftrightarrow> i < j"
proof -
  have "\<forall>i \<in> set [0..<16]. \<forall>j \<in> set [0..<16]. hex_digits ! i < hex_digits ! j \<longleftrightarrow> i < j" by code_simp
  then show "i < 16 \<Longrightarrow> j < 16 \<Longrightarrow> hex_digits ! i < hex_digits ! j \<longleftrightarrow> i < j" unfolding set_upt by simp
qed

lemma hex_digits_inj: "i < 16 \<Longrightarrow> j < 16 \<Longrightarrow> hex_digits ! i = hex_digits ! j \<longleftrightarrow> i = j"
  using hex_digits_mono[of i j] hex_digits_mono[of j i] by (cases i j rule: linorder_cases) auto

lemma less_nibbles: "a < b \<longleftrightarrow> a div 16 < b div 16 \<or> a div 16 = b div 16 \<and> a mod 16 < b mod (16 :: nat)"
proof -
  have "a = 16 * (a div 16) + a mod 16" "b = 16 * (b div 16) + b mod 16" "a mod 16 < 16" "b mod 16 < 16" by simp_all
  then show ?thesis by (cases "a div 16" "b div 16" rule: linorder_cases) linarith+
qed

lemma hex_encode_less_iff:
  "length bs = length cs \<Longrightarrow> hex_encode bs < hex_encode cs \<longleftrightarrow> bs < cs"
proof (induction bs cs rule: list_induct2)
  case (Cons b bs c cs)
  have split: "unat b < unat c \<longleftrightarrow> unat b div 16 < unat c div 16 \<or> unat b div 16 = unat c div 16 \<and> unat b mod 16 < unat c mod 16"
    by (rule less_nibbles)
  have "b = c \<longleftrightarrow> unat b div 16 = unat c div 16 \<and> unat b mod 16 = unat c mod 16"
    by (metis div_mult_mod_eq word_unat_eq_iff)
  with Cons split show ?case
    by (auto simp: hex_encode_Cons hex_digits_mono hex_digits_inj word_less_nat_alt)
qed simp

lemma hex_encode_eq_iff: "hex_encode bs = hex_encode cs \<longleftrightarrow> bs = cs"
  by (metis hex_decode_encode option.inject)

lemma ID_bytes_less_iff: "ID_bytes x < ID_bytes y \<longleftrightarrow> x < y"
  using unsigned_less[of x, where ?'a = nat] unsigned_less[of y, where ?'a = nat]
  by (simp add: be_value_less_iff ID_bytes_def be_value_be_bytes word_less_nat_alt)

lemma ID_String_less_iff: "ID_String x < ID_String y \<longleftrightarrow> x < y"
proof -
  have groups: "subslice (ID_bytes z) 0 4 @ subslice (ID_bytes z) 4 6 @ subslice (ID_bytes z) 6 8 @ subslice (ID_bytes z) 8 10
      @ subslice (ID_bytes z) 10 16 = ID_bytes z" for z
    using slice_all[of "ID_bytes z"] by (simp add: slice_append)
  have "ID_bytes x < ID_bytes y \<longleftrightarrow> ID_String x < ID_String y"
    by (subst groups[of x, symmetric], subst groups[of y, symmetric])
      (simp add: ID_String_def Let_def less_append_iff hex_encode_less_iff hex_encode_eq_iff)
  then show ?thesis by (simp add: ID_bytes_less_iff)
qed

lemma store_milliseconds:
  "0 \<le> ms \<Longrightarrow> k \<le> length bs \<Longrightarrow> store_milliseconds k ms bs = be_bytes k (nat ms) @ drop k bs"
proof (induction k arbitrary: ms bs)
  case (Suc k)
  have "drop_bit 8 ms = int (nat ms div 256)"
    using Suc.prems(1) by (simp add: drop_bit_int_def zdiv_int)
  moreover have "(of_int ms :: byte) = of_nat (nat ms mod 256)"
    using Suc.prems(1) by (simp add: word_unat_eq_iff unat_of_nat take_bit_eq_mod flip: of_nat_nat)
  moreover have "drop k (bs[k := v]) = v # drop (Suc k) bs" for v
    using Suc.prems(2) by (simp add: drop_update_swap Cons_nth_drop_Suc[symmetric])
  ultimately show ?case using Suc.prems by (simp add: Suc.IH)
qed simp

lemma version_bits: "drop_bit 4 ((b AND 0x0f) OR 0x70 :: byte) = 7"
  by (simp add: drop_bit_or drop_bit_and)
lemma variant_bits: "drop_bit 6 ((b AND 0x3f) OR 0x80 :: byte) = 2"
  by (simp add: drop_bit_or drop_bit_and)

lemma newID_bytes:
  assumes "newID now (Inr read) = Inr x" "length read = 16"
  shows "uuid7 x" and "0 \<le> UnixMilli now" and "UnixMilli now < 256 ^ 6"
    and "take 6 (ID_bytes x) = be_bytes 6 (nat (UnixMilli now))"
proof -
  let ?ms = "UnixMilli now" and ?b = "store_milliseconds 6 (UnixMilli now) read"
  from assms(1) show ms: "0 \<le> ?ms" "?ms < 256 ^ 6"
    by (auto simp: newID_def Let_def split: if_splits)
  have b: "?b = be_bytes 6 (nat ?ms) @ drop 6 read"
    using ms(1) assms(2) by (intro store_milliseconds) simp_all
  then have len: "length ?b = 16" using assms(2) by simp
  let ?c = "?b[6 := (?b ! 6 AND 0x0f) OR 0x70]"
  let ?d = "?c[8 := (?c ! 8 AND 0x3f) OR 0x80]"
  have x: "ID_bytes x = ?d"
    using assms(1) len by (auto simp: newID_def Let_def split: if_splits)
  show "uuid7 x" unfolding uuid7_def x using len by (simp add: version_bits variant_bits)
  show "take 6 (ID_bytes x) = be_bytes 6 (nat ?ms)" unfolding x using b by simp
qed

lemma newID_time_order:
  assumes "newID t (Inr r) = Inr x" "newID u (Inr s) = Inr y" "length r = 16" "length s = 16"
    and "UnixMilli t < UnixMilli u"
  shows "x < y"
proof -
  note x = newID_bytes[OF assms(1,3)] and y = newID_bytes[OF assms(2,4)]
  have "be_value (be_bytes 6 (nat (UnixMilli t))) < be_value (be_bytes 6 (nat (UnixMilli u)))"
    using x(2,3) y(2,3) assms(5) by (subst (1 2) be_value_be_bytes) auto
  then have "take 6 (ID_bytes x) < take 6 (ID_bytes y)"
    using x(4) y(4) by (simp add: be_value_less_iff)
  then have "take 6 (ID_bytes x) @ drop 6 (ID_bytes x) < take 6 (ID_bytes y) @ drop 6 (ID_bytes y)"
    by (subst less_append_iff) simp_all
  then show ?thesis by (simp add: ID_bytes_less_iff)
qed

section \<open>The codec\<close>

interpretation id_codec: canonical_codec ID_String ParseID uuid7
  by unfold_locales (simp_all add: ParseID_ID_String ID_String_ParseID)

section \<open>Properties\<close>

text \<open>
  C39: identifiers have one canonical text. \<open>ParseID\<close> accepts exactly the texts that \<open>String\<close> prints for
  the identifiers of version 7, and the order of the texts is the order of the identifiers, so
  \<open>ORDER BY id\<close>, a sort by text and a sort by value agree.
\<close>

theorem identifier_round_trip:
  "(ParseID s = Inr x \<longleftrightarrow> uuid7 x \<and> s = ID_String x) \<and> (ID_String x < ID_String y \<longleftrightarrow> x < y) \<and>
   (ID_String x = ID_String y \<longleftrightarrow> x = y)"
proof -
  have "ID_String x = ID_String y \<longleftrightarrow> x = y"
    using ID_String_less_iff[of x y] ID_String_less_iff[of y x] by (cases x y rule: linorder_cases) auto
  then show ?thesis by (simp add: id_codec.parses_iff ID_String_less_iff)
qed

text \<open>
  Generated identifiers are valid and sort by the clock. Every identifier that \<open>newID\<close> makes from
  sixteen random bytes parses back from its text, and of two identifiers the one of the later millisecond is the
  greater one, whatever the random bytes were.
\<close>

theorem new_identifiers_ordered:
  assumes "newID t (Inr r) = Inr x" "newID u (Inr s) = Inr y" "length r = 16" "length s = 16"
    and "UnixMilli t < UnixMilli u"
  shows "ParseID (ID_String x) = Inr x \<and> ParseID (ID_String y) = Inr y \<and> x < y \<and> ID_String x < ID_String y"
  using id_codec.parses_iff newID_bytes(1)[OF assms(1,3)] newID_bytes(1)[OF assms(2,4)] newID_time_order[OF assms]
  by (simp add: ID_String_less_iff)

lemma newID_defined:
  "0 \<le> UnixMilli t \<Longrightarrow> UnixMilli t < 2 ^ 48 \<Longrightarrow> \<exists>x. newID t (Inr r) = Inr x"
  by (simp add: newID_def Let_def)

theorem new_identifiers_ordered_witness:
  "\<exists>x y. newID \<lparr>unix_nano = 5000000, location = UTC\<rparr> (Inr (replicate 16 255)) = Inr x \<and>
     newID \<lparr>unix_nano = 6000000, location = UTC\<rparr> (Inr (replicate 16 0)) = Inr y \<and>
     ParseID (ID_String x) = Inr x \<and> ID_String x < ID_String y"
proof -
  let ?t = "\<lparr>unix_nano = 5000000, location = UTC\<rparr>" and ?u = "\<lparr>unix_nano = 6000000, location = UTC\<rparr>"
  have ms: "UnixMilli ?t = 5" "UnixMilli ?u = 6" by (simp_all add: UnixMilli_def wrap64_def)
  obtain x y where "newID ?t (Inr (replicate 16 255)) = Inr x" "newID ?u (Inr (replicate 16 0)) = Inr y"
    using newID_defined[of ?t] newID_defined[of ?u] ms by fastforce
  then show ?thesis using new_identifiers_ordered[of ?t "replicate 16 255" x ?u "replicate 16 0" y] ms by auto
qed

end
