(* ===== verification/Decimal.thy ===== *)
theory Decimal
  imports Identifiers
begin

text \<open>
  Exact fixed-point decimals and resource quantities (internal/domain/decimal.go), with the
  conversions of package strconv they use. A \<open>Decimal\<close> is a 64-bit coefficient and a scale;
  arithmetic on the coefficient is written with its wrap-around. JSON encoding is that of the
  printed string, so the string conversions carry the content of the JSON methods.
\<close>

section \<open>Packages strconv and strings\<close>

definition digit_char :: "nat \<Rightarrow> char" where
  "digit_char n = char_of (48 + n)"

definition digit_value :: "char \<Rightarrow> nat" where
  "digit_value c = of_char c - 48"

fun FormatUint :: "nat \<Rightarrow> string" where
  "FormatUint n = (if n < 10 then [digit_char n] else FormatUint (n div 10) @ [digit_char (n mod 10)])"

declare FormatUint.simps [simp del]

definition FormatInt :: "int \<Rightarrow> string" where
  "FormatInt i = (if i < 0 then CHR ''-'' # FormatUint (nat (- i)) else FormatUint (nat i))"

definition digits_value :: "string \<Rightarrow> nat" where
  "digits_value s = foldl (\<lambda>a c. a * 10 + digit_value c) 0 s"

text \<open>\<open>strconv.ParseInt(s, 10, 64)\<close>: \<open>None\<close> stands for a syntax or range error.\<close>

definition ParseInt64 :: "string \<Rightarrow> int option" where
  "ParseInt64 s =
     (let negative = (s \<noteq> [] \<and> hd s = CHR ''-'');
          digits = (if s \<noteq> [] \<and> (hd s = CHR ''-'' \<or> hd s = CHR ''+'') then tl s else s)
      in if digits = [] \<or> \<not> list_all is_digit digits then None
         else let n = (if negative then - int (digits_value digits) else int (digits_value digits))
              in if int64 n then Some n else None)"

text \<open>\<open>strings.Split\<close> for a separator of one byte.\<close>

fun Split :: "char \<Rightarrow> string \<Rightarrow> string list" where
  "Split c [] = [[]]"
| "Split c (x # xs) =
     (if x = c then [] # Split c xs
      else case Split c xs of y # ys \<Rightarrow> (x # y) # ys | [] \<Rightarrow> [[x]])"

section \<open>Decimal\<close>

definition MaxDecimalScale :: nat where
  "MaxDecimalScale = 18"

definition ErrInvalidDecimal :: goerror where
  "ErrInvalidDecimal = New ''invalid decimal''"

definition ErrDecimalOverflow :: goerror where
  "ErrDecimalOverflow = New ''decimal arithmetic overflow''"

definition ErrScaleMismatch :: goerror where
  "ErrScaleMismatch = New ''decimal scales differ''"

definition ErrUnitMismatch :: goerror where
  "ErrUnitMismatch = New ''resource quantity units differ''"

definition ErrQuantityUnderflow :: goerror where
  "ErrQuantityUnderflow = New ''resource quantity underflow''"

record Decimal =
  coefficient :: int
  scale :: nat

definition NewDecimal :: "int \<Rightarrow> nat \<Rightarrow> Decimal result" where
  "NewDecimal c s = (if s > MaxDecimalScale then Inl ErrInvalidDecimal else Inr \<lparr>coefficient = c, scale = s\<rparr>)"

definition ParseDecimal :: "string \<Rightarrow> Decimal result" where
  "ParseDecimal value =
     (if value = [] \<or> trim_space value \<noteq> value \<or> has_prefix value ''+'' then Inl ErrInvalidDecimal
      else
        let negative = has_prefix value ''-'';
            digits = (if negative then tl value else value);
            parts = Split (CHR ''.'') digits
        in if length parts > 2 \<or> parts ! 0 = [] \<or> (length parts = 2 \<and> parts ! 1 = [])
              \<or> length parts = 2 \<and> length (parts ! 1) > MaxDecimalScale
           then Inl ErrInvalidDecimal
           else
             let all = concat parts
             in if \<not> list_all is_digit all then Inl ErrInvalidDecimal
                else if length (parts ! 0) > 1 \<and> parts ! 0 ! 0 = CHR ''0''
                     \<or> negative \<and> all = replicate (length all) (CHR ''0'')
                then Inl ErrInvalidDecimal
                else case ParseInt64 (if negative then CHR ''-'' # all else all) of
                    None \<Rightarrow> Inl ErrInvalidDecimal
                  | Some c \<Rightarrow> Inr \<lparr>coefficient = c, scale = (if length parts = 2 then length (parts ! 1) else 0)\<rparr>)"

definition IsNegative :: "Decimal \<Rightarrow> bool" where
  "IsNegative d \<longleftrightarrow> coefficient d < 0"

definition Decimal_Add :: "Decimal \<Rightarrow> Decimal \<Rightarrow> Decimal result" where
  "Decimal_Add d other =
     (if scale d \<noteq> scale other then Inl ErrScaleMismatch
      else if coefficient other > 0 \<and> coefficient d > wrap64 (MaxInt64 - coefficient other)
           \<or> coefficient other < 0 \<and> coefficient d < wrap64 (MinInt64 - coefficient other)
      then Inl ErrDecimalOverflow
      else Inr \<lparr>coefficient = wrap64 (coefficient d + coefficient other), scale = scale d\<rparr>)"

definition Decimal_Sub :: "Decimal \<Rightarrow> Decimal \<Rightarrow> Decimal result" where
  "Decimal_Sub d other =
     (if scale d \<noteq> scale other then Inl ErrScaleMismatch
      else if coefficient other > 0 \<and> coefficient d < wrap64 (MinInt64 + coefficient other)
           \<or> coefficient other < 0 \<and> coefficient d > wrap64 (MaxInt64 + coefficient other)
      then Inl ErrDecimalOverflow
      else Inr \<lparr>coefficient = wrap64 (coefficient d - coefficient other), scale = scale d\<rparr>)"

text \<open>The loop that prefixes zeros until there are more digits than the scale.\<close>

function pad_digits :: "nat \<Rightarrow> string \<Rightarrow> string" where
  "pad_digits n digits = (if length digits \<le> n then pad_digits n (CHR ''0'' # digits) else digits)"
  by pat_completeness auto
termination
  by (relation "measure (\<lambda>(n, digits). Suc n - length digits)") auto

declare pad_digits.simps [simp del]

definition Decimal_String :: "Decimal \<Rightarrow> string" where
  "Decimal_String d =
     (if scale d = 0 then FormatInt (coefficient d)
      else
        let negative = coefficient d < 0;
            magnitude = (if negative then nat (wrap64 (- wrap64 (coefficient d + 1))) + 1 else nat (coefficient d));
            digits = pad_digits (scale d) (FormatUint magnitude);
            cut = length digits - scale d
        in if negative then ''-'' @ take cut digits @ ''.'' @ drop cut digits
           else take cut digits @ ''.'' @ drop cut digits)"

section \<open>Quantity\<close>

record Quantity =
  amount :: Decimal
  unit :: string

text \<open>The range loop over the runes of the unit; a rune beyond ASCII is refused like its first byte.\<close>

definition validUnit :: "string \<Rightarrow> bool" where
  "validUnit u \<longleftrightarrow>
     1 \<le> length u \<and> length u \<le> 63 \<and>
     list_all (\<lambda>(index, c). is_lower c \<or> is_digit c \<and> index > 0 \<or> c = CHR ''_'' \<and> index > 0) (enumerate 0 u)"

definition NewQuantity :: "Decimal \<Rightarrow> string \<Rightarrow> Quantity result" where
  "NewQuantity a u =
     (if IsNegative a \<or> \<not> validUnit u
      then Inl (Wrapf ''amount must be nonnegative and unit canonical'' ErrInvalidDecimal)
      else Inr \<lparr>amount = a, unit = u\<rparr>)"

definition Quantity_Add :: "Quantity \<Rightarrow> Quantity \<Rightarrow> Quantity result" where
  "Quantity_Add q other =
     (if unit q \<noteq> unit other then Inl ErrUnitMismatch
      else and_then (Decimal_Add (amount q) (amount other)) (\<lambda>a. NewQuantity a (unit q)))"

definition Quantity_Sub :: "Quantity \<Rightarrow> Quantity \<Rightarrow> Quantity result" where
  "Quantity_Sub q other =
     (if unit q \<noteq> unit other then Inl ErrUnitMismatch
      else and_then (Decimal_Sub (amount q) (amount other))
        (\<lambda>a. if IsNegative a then Inl ErrQuantityUnderflow else NewQuantity a (unit q)))"

section \<open>Arithmetic\<close>

text \<open>The well-formed decimals and quantities: what the constructors return.\<close>

definition decimal_ok :: "Decimal \<Rightarrow> bool" where
  "decimal_ok d \<longleftrightarrow> int64 (coefficient d) \<and> scale d \<le> MaxDecimalScale"

definition quantity_ok :: "Quantity \<Rightarrow> bool" where
  "quantity_ok q \<longleftrightarrow> decimal_ok (amount q) \<and> 0 \<le> coefficient (amount q) \<and> validUnit (unit q)"

lemma Decimal_Add_eq:
  assumes "decimal_ok d" "decimal_ok e"
  shows "Decimal_Add d e =
    (if scale d \<noteq> scale e then Inl ErrScaleMismatch
     else if int64 (coefficient d + coefficient e) then Inr \<lparr>coefficient = coefficient d + coefficient e, scale = scale d\<rparr>
     else Inl ErrDecimalOverflow)"
proof -
  have "0 < coefficient e \<Longrightarrow> int64 (MaxInt64 - coefficient e)" "coefficient e < 0 \<Longrightarrow> int64 (MinInt64 - coefficient e)"
    using assms by (simp_all add: decimal_ok_def int64_simps)
  then show ?thesis using assms by (auto simp: Decimal_Add_def decimal_ok_def int64_simps)
qed

lemma Decimal_Sub_eq:
  assumes "decimal_ok d" "decimal_ok e"
  shows "Decimal_Sub d e =
    (if scale d \<noteq> scale e then Inl ErrScaleMismatch
     else if int64 (coefficient d - coefficient e) then Inr \<lparr>coefficient = coefficient d - coefficient e, scale = scale d\<rparr>
     else Inl ErrDecimalOverflow)"
proof -
  have "0 < coefficient e \<Longrightarrow> int64 (MinInt64 + coefficient e)" "coefficient e < 0 \<Longrightarrow> int64 (MaxInt64 + coefficient e)"
    using assms by (simp_all add: decimal_ok_def int64_simps)
  then show ?thesis using assms by (auto simp: Decimal_Sub_def decimal_ok_def int64_simps)
qed

lemma Decimal_Add_ok: "decimal_ok d \<Longrightarrow> decimal_ok e \<Longrightarrow> Decimal_Add d e = Inr r \<Longrightarrow> decimal_ok r"
  by (auto simp: Decimal_Add_eq decimal_ok_def split: if_splits)

lemma Decimal_Sub_ok: "decimal_ok d \<Longrightarrow> decimal_ok e \<Longrightarrow> Decimal_Sub d e = Inr r \<Longrightarrow> decimal_ok r"
  by (auto simp: Decimal_Sub_eq decimal_ok_def split: if_splits)

lemma NewQuantity_Inr [result_simps]:
  "NewQuantity a u = Inr q \<longleftrightarrow> 0 \<le> coefficient a \<and> validUnit u \<and> q = \<lparr>amount = a, unit = u\<rparr>"
  by (auto simp: NewQuantity_def IsNegative_def)

section \<open>Printing and parsing\<close>

lemma is_digit_digit_char [simp]: "n < 10 \<Longrightarrow> is_digit (digit_char n)"
  and digit_value_digit_char [simp]: "n < 10 \<Longrightarrow> digit_value (digit_char n) = n"
  by (simp_all add: is_digit_def digit_char_def digit_value_def Let_def)

lemma digit_value_less: "is_digit c \<Longrightarrow> digit_value c < 10"
  by (auto simp: is_digit_def digit_value_def Let_def)

lemma digit_char_digit_value: "is_digit c \<Longrightarrow> digit_char (digit_value c) = c"
  by (simp add: is_digit_def digit_value_def digit_char_def Let_def)

lemma digit_value_inj: "is_digit c \<Longrightarrow> is_digit d \<Longrightarrow> digit_value c = digit_value d \<Longrightarrow> c = d"
  by (metis digit_char_digit_value)

lemma digits_value_Nil [simp]: "digits_value [] = 0"
  and digits_value_snoc [simp]: "digits_value (s @ [c]) = digits_value s * 10 + digit_value c"
  by (simp_all add: digits_value_def)

lemma digits_value_zero [simp]: "digits_value (CHR ''0'' # s) = digits_value s"
  by (simp add: digits_value_def digit_value_def)

lemma digits_value_less: "list_all is_digit s \<Longrightarrow> digits_value s < 10 ^ length s"
proof (induction s rule: rev_induct)
  case (snoc c s)
  then have "digits_value s + 1 \<le> 10 ^ length s" "digit_value c < 10" by (auto dest: digit_value_less)
  then have "(digits_value s + 1) * 10 \<le> 10 ^ length s * 10" "digit_value c < 10" by (simp_all only: mult_le_mono1)
  then show ?case by simp
qed simp

lemma digits_value_Cons: "digits_value (c # s) = digit_value c * 10 ^ length s + digits_value s"
proof (induction s rule: rev_induct)
  case (snoc d s)
  have "digits_value (c # s @ [d]) = digits_value (c # s) * 10 + digit_value d"
    using digits_value_snoc[of "c # s" d] by simp
  with snoc show ?case by (simp add: algebra_simps)
qed (use digits_value_snoc[of "[]" c] in simp)

lemma digits_value_inj:
  "length s = length t \<Longrightarrow> list_all is_digit s \<Longrightarrow> list_all is_digit t \<Longrightarrow> digits_value s = digits_value t \<Longrightarrow> s = t"
proof (induction s arbitrary: t rule: rev_induct)
  case (snoc c s)
  then obtain t' d where t: "t = t' @ [d]" by (cases t rule: rev_cases) auto
  have "digit_value c < 10" "digit_value d < 10" using snoc.prems t by (auto dest: digit_value_less)
  moreover have eq: "digits_value s * 10 + digit_value c = digits_value t' * 10 + digit_value d"
    using snoc.prems(4) t by simp
  ultimately have high: "digits_value s = digits_value t'" by linarith
  then have "digit_value c = digit_value d" using eq by simp
  with high snoc t show ?case by (auto dest: digit_value_inj)
qed simp

lemma FormatUint_digits [simp]: "list_all is_digit (FormatUint n)"
proof (induction n rule: FormatUint.induct)
  case (1 n)
  then show ?case by (cases "n < 10") (simp_all add: FormatUint.simps[of n])
qed

lemma FormatUint_value [simp]: "digits_value (FormatUint n) = n"
proof (induction n rule: FormatUint.induct)
  case (1 n)
  then show ?case
    using digits_value_snoc[of "[]"] by (cases "n < 10") (simp_all add: FormatUint.simps[of n])
qed

lemma FormatUint_nonempty [simp]: "FormatUint n \<noteq> []"
  by (simp add: FormatUint.simps[of n])

lemma FormatUint_length_le: "0 < k \<Longrightarrow> n < 10 ^ k \<Longrightarrow> length (FormatUint n) \<le> k"
proof (induction n arbitrary: k rule: FormatUint.induct)
  case (1 n)
  show ?case
  proof (cases "n < 10")
    case False
    obtain j where k: "k = Suc j" using 1(2) by (cases k) auto
    have "0 < j" using 1(3) k False by (cases j) auto
    have "n div 10 < 10 ^ j" using 1(3) k by (simp add: less_mult_imp_div_less mult.commute)
    then show ?thesis using 1(1)[OF False \<open>0 < j\<close>] k False by (simp add: FormatUint.simps[of n])
  qed (use 1 in \<open>simp add: FormatUint.simps[of n]\<close>)
qed

lemma FormatUint_no_leading_zero: "1 < length (FormatUint n) \<Longrightarrow> hd (FormatUint n) \<noteq> CHR ''0''"
proof
  assume len: "1 < length (FormatUint n)" and zero: "hd (FormatUint n) = CHR ''0''"
  then obtain s where s: "FormatUint n = CHR ''0'' # s" "s \<noteq> []" by (cases "FormatUint n") auto
  then have "list_all is_digit s" "digits_value s = n"
    using FormatUint_digits[of n] FormatUint_value[of n] by simp_all
  then have "n < 10 ^ length s" using digits_value_less by blast
  then have "length (FormatUint n) \<le> length s" using s(2) by (intro FormatUint_length_le) auto
  then show False using s(1) by simp
qed

lemma pad_digits_eq: "pad_digits n s = replicate (Suc n - length s) (CHR ''0'') @ s"
proof (induction n s rule: pad_digits.induct)
  case (1 n s)
  then show ?case
    by (cases "length s \<le> n") (simp_all add: pad_digits.simps[of n s] Suc_diff_le replicate_append_same flip: replicate_Suc append_Cons)
qed

lemma digits_value_zeros [simp]: "digits_value (replicate k (CHR ''0'') @ s) = digits_value s"
  by (induction k) simp_all

lemma is_digit_zero [simp]: "is_digit CHR ''0''"
  by code_simp

lemma pad_digits_digits: "list_all is_digit s \<Longrightarrow> list_all is_digit (pad_digits n s)"
  and pad_digits_value [simp]: "digits_value (pad_digits n s) = digits_value s"
  and pad_digits_length: "length (pad_digits n s) = max (Suc n) (length s)"
  by (auto simp: pad_digits_eq list_all_iff)

text \<open>The digits of a magnitude at a scale: padded, they split into a nonempty integer part without
  superfluous zero and a fraction of the length of the scale.\<close>

lemma pad_digits_no_leading_zero:
  assumes "Suc n < length (pad_digits n (FormatUint m))"
  shows "hd (pad_digits n (FormatUint m)) \<noteq> CHR ''0''"
  using assms FormatUint_no_leading_zero[of m] by (auto simp: pad_digits_eq pad_digits_length)

lemma pad_digits_unique:
  assumes "list_all is_digit s" "length s = Suc n \<or> Suc n < length s \<and> hd s \<noteq> CHR ''0''"
  shows "pad_digits n (FormatUint (digits_value s)) = s"
proof (rule digits_value_inj)
  let ?m = "digits_value s"
  have "s \<noteq> []" using assms(2) by auto
  then have le: "length (FormatUint ?m) \<le> length s"
    using digits_value_less[OF assms(1)] by (intro FormatUint_length_le) auto
  moreover have "length s \<le> length (FormatUint ?m)" if "hd s \<noteq> CHR ''0''"
  proof -
    obtain c t where s: "s = c # t" using \<open>s \<noteq> []\<close> by (cases s) auto
    have "digit_value c \<noteq> digit_value CHR ''0''"
      using that assms(1) s digit_value_inj[of c "CHR ''0''"] by auto
    then have "1 * 10 ^ length t \<le> digit_value c * 10 ^ length t"
      by (intro mult_right_mono) (simp_all add: digit_value_def)
    then have "10 ^ length t \<le> ?m" unfolding s digits_value_Cons by linarith
    also have "?m < 10 ^ length (FormatUint ?m)"
      using digits_value_less[OF FormatUint_digits, of ?m] by simp
    finally show ?thesis using s by (simp add: Suc_le_eq)
  qed
  ultimately show "length (pad_digits n (FormatUint ?m)) = length s"
    using assms(2) by (auto simp: pad_digits_length)
qed (use assms in \<open>simp_all add: pad_digits_digits\<close>)

lemma Split_plain: "c \<notin> set s \<Longrightarrow> Split c s = [s]"
  by (induction s) auto

lemma Split_one: "c \<notin> set s \<Longrightarrow> c \<notin> set t \<Longrightarrow> Split c (s @ c # t) = [s, t]"
  by (induction s) (auto simp: Split_plain)

lemma Split_inv:
  "Split c s \<noteq> []" "\<forall>p \<in> set (Split c s). c \<notin> set p"
  "Split c s = [p] \<Longrightarrow> s = p" "Split c s = [p, q] \<Longrightarrow> s = p @ c # q"
proof (induction s arbitrary: p q)
  case (Cons x xs)
  { case 1 show ?case by (auto split: list.splits) }
  { case 2 show ?case using Cons(2) by (auto split: list.splits) }
  { case 3 then show ?case using Cons(1,3) by (auto split: list.splits if_splits) }
  { case 4 then show ?case using Cons(1,3,4) by (auto split: list.splits if_splits) }
qed auto

lemma digit_not_sign: "is_digit c \<Longrightarrow> c \<noteq> CHR ''-'' \<and> c \<noteq> CHR ''+'' \<and> c \<noteq> CHR ''.''"
  by (auto simp: is_digit_def Let_def)

lemma ParseInt64_digits:
  assumes "list_all is_digit s" "s \<noteq> []"
  shows "ParseInt64 s = (if int64 (int (digits_value s)) then Some (int (digits_value s)) else None)"
    and "ParseInt64 (CHR ''-'' # s) = (if int64 (- int (digits_value s)) then Some (- int (digits_value s)) else None)"
proof -
  have "hd s \<noteq> CHR ''-'' \<and> hd s \<noteq> CHR ''+'' \<and> hd s \<noteq> CHR ''.''"
    using assms by (intro digit_not_sign) (cases s, simp_all)
  then show "ParseInt64 s = (if int64 (int (digits_value s)) then Some (int (digits_value s)) else None)"
    using assms by (simp add: ParseInt64_def Let_def)
  show "ParseInt64 (CHR ''-'' # s) = (if int64 (- int (digits_value s)) then Some (- int (digits_value s)) else None)"
    using assms by (simp add: ParseInt64_def Let_def)
qed

lemma digits_zero_iff:
  "list_all is_digit s \<Longrightarrow> s = replicate (length s) (CHR ''0'') \<longleftrightarrow> digits_value s = 0"
proof
  assume "list_all is_digit s" "digits_value s = 0"
  then show "s = replicate (length s) (CHR ''0'')"
    using digits_value_zeros[of "length s" "[]"]
    by (intro digits_value_inj) (simp_all add: list_all_iff)
next
  assume "s = replicate (length s) (CHR ''0'')"
  then show "digits_value s = 0" by (metis append_Nil2 digits_value_Nil digits_value_zeros)
qed

text \<open>
  The canonical texts: an optional minus sign, an integer part without superfluous zero and
  an optional fraction of at most 18 digits. \<open>decimal_text\<close> names the three parts.
\<close>

definition decimal_text :: "bool \<Rightarrow> string \<Rightarrow> string option \<Rightarrow> string" where
  "decimal_text negative whole fraction =
     (if negative then ''-'' else []) @ whole @ (case fraction of None \<Rightarrow> [] | Some f \<Rightarrow> CHR ''.'' # f)"

abbreviation all_digits :: "string \<Rightarrow> string option \<Rightarrow> string" where
  "all_digits whole fraction \<equiv> whole @ (case fraction of None \<Rightarrow> [] | Some f \<Rightarrow> f)"

definition canonical_parts :: "bool \<Rightarrow> string \<Rightarrow> string option \<Rightarrow> bool" where
  "canonical_parts negative whole fraction \<longleftrightarrow>
     list_all is_digit (all_digits whole fraction) \<and> whole \<noteq> [] \<and> (1 < length whole \<longrightarrow> hd whole \<noteq> CHR ''0'') \<and>
     (\<forall>f. fraction = Some f \<longrightarrow> f \<noteq> [] \<and> length f \<le> MaxDecimalScale) \<and>
     (negative \<longrightarrow> digits_value (all_digits whole fraction) \<noteq> 0)"

definition parts_value :: "bool \<Rightarrow> string \<Rightarrow> string option \<Rightarrow> int" where
  "parts_value negative whole fraction =
     (if negative then - int (digits_value (all_digits whole fraction)) else int (digits_value (all_digits whole fraction)))"

definition parts_scale :: "string option \<Rightarrow> nat" where
  "parts_scale fraction = (case fraction of None \<Rightarrow> 0 | Some f \<Rightarrow> length f)"

lemma decimal_text_plain:
  assumes "list_all is_digit (all_digits whole fraction)"
  shows "trim_space (decimal_text negative whole fraction) = decimal_text negative whole fraction"
proof (rule trim_space_plain, intro ballI)
  fix c assume "c \<in> set (decimal_text negative whole fraction)"
  then have "c = CHR ''-'' \<or> c = CHR ''.'' \<or> is_digit c"
    using assms by (auto simp: decimal_text_def list_all_iff split: option.splits if_splits)
  then show "(of_char c :: nat) < 128 \<and> \<not> ascii_space c"
    by (auto simp: is_digit_def ascii_space_def Let_def)
qed

lemma ParseDecimal_text:
  assumes "canonical_parts negative whole fraction"
  shows "ParseDecimal (decimal_text negative whole fraction) =
    (if int64 (parts_value negative whole fraction)
     then Inr \<lparr>coefficient = parts_value negative whole fraction, scale = parts_scale fraction\<rparr>
     else Inl ErrInvalidDecimal)"
proof -
  have digits: "list_all is_digit (all_digits whole fraction)" and ne: "whole \<noteq> []"
    using assms by (auto simp: canonical_parts_def)
  obtain c cs where whole: "whole = c # cs" using ne by (cases whole) auto
  then have "is_digit c" using digits by simp
  note c = digit_not_sign[OF this]
  have nodot: "CHR ''.'' \<notin> set (all_digits whole fraction)"
    using digits by (auto simp: list_all_iff dest: digit_not_sign)
  have prefix: "\<not> has_prefix (whole @ r) ''-''" "\<not> has_prefix (whole @ r) ''+''" for r
    using c by (simp_all add: has_prefix_def whole)
  have first: "whole ! 0 = hd whole" by (simp add: whole)
  have sign: "has_prefix (CHR ''-'' # r) ''-''" "\<not> has_prefix (CHR ''-'' # r) ''+''" for r
    by (simp_all add: has_prefix_def)
  note trim = decimal_text_plain[OF digits, of negative]
  have zero: "negative \<Longrightarrow> all_digits whole fraction \<noteq> replicate (length (all_digits whole fraction)) (CHR ''0'')"
    using assms digits_zero_iff[OF digits] by (simp add: canonical_parts_def)
  have neall: "all_digits whole fraction \<noteq> []" using ne by simp
  note parse = ParseInt64_digits[OF digits neall]
  show ?thesis
  proof (cases fraction)
    case None
    then have parts: "Split (CHR ''.'') whole = [whole]" using nodot by (simp add: Split_plain)
    show ?thesis
      using assms trim zero digits parse[unfolded None option.case append_Nil2] ne prefix[of "[]"] first sign None
      by (cases negative; simp add: ParseDecimal_def decimal_text_def Let_def parts canonical_parts_def parts_value_def parts_scale_def; blast)
  next
    case (Some f)
    then have parts: "Split (CHR ''.'') (whole @ CHR ''.'' # f) = [whole, f]" using nodot by (simp add: Split_one)
    show ?thesis
      using assms trim zero digits parse[unfolded Some option.case] ne prefix[of "CHR ''.'' # f"] first sign Some
      by (cases negative; simp add: ParseDecimal_def decimal_text_def Let_def parts canonical_parts_def parts_value_def parts_scale_def; blast)
  qed
qed

lemma ParseDecimal_canonical:
  assumes "ParseDecimal v = Inr d"
  obtains negative whole fraction where "canonical_parts negative whole fraction"
    "v = decimal_text negative whole fraction"
proof -
  define neg digits parts where "neg = has_prefix v ''-''" and "digits = (if neg then tl v else v)"
    and "parts = Split (CHR ''.'') digits"
  have v: "v = (if neg then ''-'' else []) @ digits"
    by (cases v) (auto simp: has_prefix_def digits_def neg_def)
  note inv = assms[unfolded ParseDecimal_def Let_def if_Inl_Inr de_Morgan_disj de_Morgan_conj not_not, folded neg_def, folded digits_def, folded parts_def]
  have guards: "\<not> length parts > 2" "parts ! 0 \<noteq> []" "length parts = 2 \<Longrightarrow> parts ! 1 \<noteq> []"
      "length parts = 2 \<Longrightarrow> \<not> length (parts ! 1) > MaxDecimalScale" "list_all is_digit (concat parts)"
      "length (parts ! 0) > 1 \<Longrightarrow> parts ! 0 ! 0 \<noteq> CHR ''0''"
      "neg \<Longrightarrow> concat parts \<noteq> replicate (length (concat parts)) (CHR ''0'')"
    using inv by blast+
  have nz: "neg \<Longrightarrow> digits_value (concat parts) \<noteq> 0"
    using guards(7) digits_zero_iff[OF guards(5)] by blast
  have "parts \<noteq> []" unfolding parts_def by (rule Split_inv)
  then obtain whole rest where parts: "parts = whole # rest" by (cases parts) auto
  have hd: "whole \<noteq> [] \<Longrightarrow> whole ! 0 = hd whole" by (simp add: hd_conv_nth)
  show ?thesis
  proof (cases rest)
    case Nil
    then have "digits = whole" using parts by (intro Split_inv(3)) (simp add: parts_def)
    then have "v = decimal_text neg whole None" using v by (simp add: decimal_text_def)
    moreover have "canonical_parts neg whole None"
      using guards nz hd by (simp add: canonical_parts_def parts Nil)
    ultimately show ?thesis using that by blast
  next
    case (Cons f more)
    then have more: "more = []" using guards(1) parts by simp
    then have "digits = whole @ CHR ''.'' # f" using parts Cons by (intro Split_inv(4)) (simp add: parts_def)
    then have "v = decimal_text neg whole (Some f)" using v by (simp add: decimal_text_def)
    moreover have "canonical_parts neg whole (Some f)"
      using guards nz hd by (simp add: canonical_parts_def parts Cons more)
    ultimately show ?thesis using that by blast
  qed
qed

lemma magnitude_eq:
  "int64 c \<Longrightarrow> c < 0 \<Longrightarrow> nat (wrap64 (- wrap64 (c + 1))) + 1 = nat (- c)"
proof -
  assume "int64 c" "c < 0"
  then have "int64 (c + 1)" "int64 (- (c + 1))" by (simp_all add: int64_simps)
  then show ?thesis using \<open>c < 0\<close> by simp
qed

text \<open>The printed form of a well-formed decimal is the canonical text of its digits.\<close>

lemma Decimal_String_text:
  assumes "decimal_ok d"
  defines "digits \<equiv> pad_digits (scale d) (FormatUint (nat \<bar>coefficient d\<bar>))"
  defines "k \<equiv> length digits - scale d"
  shows "Decimal_String d =
    decimal_text (coefficient d < 0) (take k digits) (if scale d = 0 then None else Some (drop k digits))"
proof (cases "scale d = 0")
  case True
  then have "digits = FormatUint (nat \<bar>coefficient d\<bar>)"
    using FormatUint_nonempty[of "nat \<bar>coefficient d\<bar>"]
    by (cases "FormatUint (nat \<bar>coefficient d\<bar>)") (simp_all add: digits_def pad_digits_eq)
  then show ?thesis using True by (simp add: Decimal_String_def FormatInt_def decimal_text_def k_def)
next
  case False
  have "(if coefficient d < 0 then nat (wrap64 (- wrap64 (coefficient d + 1))) + 1 else nat (coefficient d)) = nat \<bar>coefficient d\<bar>"
    using assms magnitude_eq by (auto simp: decimal_ok_def)
  then show ?thesis
    using False unfolding Decimal_String_def Let_def digits_def k_def by (simp only: decimal_text_def if_False option.case) simp
qed

lemma ParseDecimal_String:
  assumes "decimal_ok d"
  shows "ParseDecimal (Decimal_String d) = Inr d"
proof -
  let ?digits = "pad_digits (scale d) (FormatUint (nat \<bar>coefficient d\<bar>))"
  let ?cut = "length ?digits - scale d"
  let ?w = "take ?cut ?digits" and ?f = "if scale d = 0 then None else Some (drop ?cut ?digits)"
  have len: "scale d < length ?digits" by (simp add: pad_digits_length)
  have all: "all_digits ?w ?f = ?digits" using len by simp
  have "1 < length ?w \<longrightarrow> hd ?w \<noteq> CHR ''0''"
    using pad_digits_no_leading_zero[of "scale d" "nat \<bar>coefficient d\<bar>"] len by (auto simp: hd_take)
  then have "canonical_parts (coefficient d < 0) ?w ?f"
    using assms len all unfolding canonical_parts_def
    by (auto simp: pad_digits_digits decimal_ok_def simp del: take_append drop_append)
  moreover have "parts_value (coefficient d < 0) ?w ?f = coefficient d"
    unfolding parts_value_def all by simp
  moreover have "parts_scale ?f = scale d" using len by (simp add: parts_scale_def)
  ultimately show ?thesis
    using assms by (simp add: Decimal_String_text ParseDecimal_text decimal_ok_def)
qed

lemma Decimal_String_ParseDecimal:
  assumes "ParseDecimal v = Inr d"
  shows "decimal_ok d \<and> Decimal_String d = v"
proof -
  obtain negative whole fraction where c: "canonical_parts negative whole fraction"
      and vt: "v = decimal_text negative whole fraction"
    using ParseDecimal_canonical[OF assms] by blast
  let ?all = "all_digits whole fraction"
  have d: "int64 (parts_value negative whole fraction)"
      "d = \<lparr>coefficient = parts_value negative whole fraction, scale = parts_scale fraction\<rparr>"
    using assms c vt by (auto simp: ParseDecimal_text split: if_splits)
  then have ok: "decimal_ok d"
    using c by (auto simp: decimal_ok_def parts_scale_def canonical_parts_def split: option.splits)
  have neg: "coefficient d < 0 \<longleftrightarrow> negative" and abs: "nat \<bar>coefficient d\<bar> = digits_value ?all"
    using c d(2) by (auto simp: parts_value_def canonical_parts_def)
  have "length ?all = Suc (scale d) \<or> Suc (scale d) < length ?all \<and> hd ?all \<noteq> CHR ''0''"
    using c d(2) by (cases whole) (auto simp: parts_scale_def canonical_parts_def split: option.splits)
  then have pad: "pad_digits (scale d) (FormatUint (nat \<bar>coefficient d\<bar>)) = ?all"
    unfolding abs using c by (intro pad_digits_unique) (auto simp: canonical_parts_def)
  have "Decimal_String d = v"
    unfolding Decimal_String_text[OF ok] pad neg vt
    using d(2) c by (auto simp: parts_scale_def canonical_parts_def split: option.splits)
  with ok show ?thesis by simp
qed

section \<open>The codec\<close>

interpretation decimal_codec: canonical_codec Decimal_String ParseDecimal decimal_ok
  by unfold_locales (simp_all add: ParseDecimal_String Decimal_String_ParseDecimal)

section \<open>Properties\<close>

text \<open>
  Decimals have one canonical text. \<open>ParseDecimal\<close> accepts exactly the texts that \<open>String\<close> prints for
  the 64-bit coefficients at scales up to 18 and returns the decimal that was printed; no other
  text, such as one with a sign, a leading zero or a space too many, is accepted.
\<close>

theorem decimal_round_trip:
  "(ParseDecimal s = Inr d \<longleftrightarrow> decimal_ok d \<and> s = Decimal_String d) \<and>
   (decimal_ok d \<and> decimal_ok e \<and> Decimal_String d = Decimal_String e \<longleftrightarrow> decimal_ok d \<and> d = e)"
  by (auto simp: decimal_codec.parses_iff decimal_codec.prints_inj)

text \<open>
  Quantity arithmetic is exact. On valid quantities of one unit and scale, addition yields the sum or
  an overflow error and nothing else, subtraction yields the difference or an error, and a result is again a
  valid, nonnegative quantity: the checked 64-bit operations never wrap around.
\<close>

theorem quantity_arithmetic_exact:
  assumes "quantity_ok p" "quantity_ok q" "unit p = unit q" "scale (amount p) = scale (amount q)"
  defines "a \<equiv> coefficient (amount p)" and "b \<equiv> coefficient (amount q)"
  shows "Quantity_Add p q = (if a + b \<le> MaxInt64 then Inr (p\<lparr>amount := (amount p)\<lparr>coefficient := a + b\<rparr>\<rparr>) else Inl ErrDecimalOverflow) \<and>
    Quantity_Sub p q = (if b \<le> a then Inr (p\<lparr>amount := (amount p)\<lparr>coefficient := a - b\<rparr>\<rparr>) else Inl ErrQuantityUnderflow) \<and>
    (Quantity_Add p q = Inr r \<or> Quantity_Sub p q = Inr r \<longrightarrow> quantity_ok r)"
  using assms
  by (auto simp: Quantity_Add_def Quantity_Sub_def quantity_ok_def Decimal_Add_eq Decimal_Sub_eq NewQuantity_def IsNegative_def
      decimal_ok_def int64_simps split: if_splits)

theorem quantity_arithmetic_exact_witness:
  "Quantity_Add \<lparr>amount = \<lparr>coefficient = 9223372036854775807, scale = 2\<rparr>, unit = ''usd''\<rparr> \<lparr>amount = \<lparr>coefficient = 1, scale = 2\<rparr>, unit = ''usd''\<rparr>
     = Inl ErrDecimalOverflow \<and>
   Quantity_Sub \<lparr>amount = \<lparr>coefficient = 9223372036854775807, scale = 2\<rparr>, unit = ''usd''\<rparr> \<lparr>amount = \<lparr>coefficient = 1, scale = 2\<rparr>, unit = ''usd''\<rparr>
     = Inr \<lparr>amount = \<lparr>coefficient = 9223372036854775806, scale = 2\<rparr>, unit = ''usd''\<rparr>"
proof -
  have "validUnit ''usd''" by code_simp
  then show ?thesis
    using quantity_arithmetic_exact[of "\<lparr>amount = \<lparr>coefficient = 9223372036854775807, scale = 2\<rparr>, unit = ''usd''\<rparr>"
        "\<lparr>amount = \<lparr>coefficient = 1, scale = 2\<rparr>, unit = ''usd''\<rparr>"]
    by (simp add: quantity_ok_def decimal_ok_def int64_simps MaxDecimalScale_def)
qed

end
