(* ===== verification/Lifecycle.thy ===== *)
theory Lifecycle
  imports Decimal
begin

text \<open>
  The run aggregate (internal/domain/run.go, run\_worker.go, run\_cancel.go) and the digest check
  of version\_resolution.go. \<open>Transition\<close> is the compare-and-swap lifecycle command; a state or
  an actor read from outside may be a string the source does not know, which the last
  constructor of the two enumerations stands for. The step relation \<open>run_step\<close> is the graph of
  the commands that change a run, and \<open>run_history\<close> its iteration from a fresh run.
\<close>

definition ValidDigest :: "string \<Rightarrow> bool" where
  "ValidDigest v \<longleftrightarrow> length v = 71 \<and> has_prefix v ''sha256:'' \<and> list_all is_lower_hex (drop 7 v)"

section \<open>States and actors\<close>

datatype RunState =
    RunPending | RunRejected | RunAdmitted | RunRunning | RunCompleted | RunFailed | RunCancelled
  | RunTimedOut | RunBudgetExhausted | RunPausedForBudget | RunFailedBudget | RunStateOther string

datatype RunActor =
    RunActorCaller | RunActorWorker | RunActorGovernor | RunActorOperator | RunActorSystem
  | RunActorOther string

definition RunState_Valid :: "RunState \<Rightarrow> bool" where
  "RunState_Valid state \<longleftrightarrow> (case state of RunStateOther _ \<Rightarrow> False | _ \<Rightarrow> True)"

definition Terminal :: "RunState \<Rightarrow> bool" where
  "Terminal state \<longleftrightarrow>
     state \<in> {RunRejected, RunCompleted, RunFailed, RunCancelled, RunTimedOut, RunFailedBudget}"

definition RunActor_Valid :: "RunActor \<Rightarrow> bool" where
  "RunActor_Valid actor \<longleftrightarrow> (case actor of RunActorOther _ \<Rightarrow> False | _ \<Rightarrow> True)"

fun transitionAllowed :: "RunState \<Rightarrow> RunState \<Rightarrow> bool" where
  "transitionAllowed RunPending to = (to = RunAdmitted \<or> to = RunRejected)"
| "transitionAllowed RunAdmitted to = (to = RunRunning \<or> to = RunCancelled \<or> to = RunTimedOut)"
| "transitionAllowed RunRunning to =
     (to = RunCompleted \<or> to = RunFailed \<or> to = RunCancelled \<or> to = RunTimedOut \<or> to = RunBudgetExhausted)"
| "transitionAllowed RunBudgetExhausted to = (to = RunPausedForBudget \<or> to = RunFailedBudget)"
| "transitionAllowed RunPausedForBudget to = (to = RunRunning \<or> to = RunCancelled \<or> to = RunTimedOut)"
| "transitionAllowed _ to = False"

definition actorAllowed :: "RunState \<Rightarrow> RunState \<Rightarrow> RunActor \<Rightarrow> bool" where
  "actorAllowed from to actor =
     (if from = RunPending then actor = RunActorSystem
      else if from = RunAdmitted \<and> to = RunRunning then actor = RunActorWorker
      else if to = RunCompleted \<or> to = RunFailed then actor = RunActorWorker
      else if to = RunCancelled then actor = RunActorCaller \<or> actor = RunActorOperator \<or> actor = RunActorSystem
      else if to = RunTimedOut \<or> to = RunBudgetExhausted \<or> to = RunFailedBudget
        then actor = RunActorGovernor \<or> actor = RunActorSystem
      else if from = RunBudgetExhausted \<and> to = RunPausedForBudget then actor = RunActorGovernor
      else if from = RunPausedForBudget \<and> to = RunRunning then actor = RunActorGovernor
      else False)"

fun actorCanEstablishTerminal :: "RunActor \<Rightarrow> RunState \<Rightarrow> bool" where
  "actorCanEstablishTerminal actor RunRejected = (actor = RunActorSystem)"
| "actorCanEstablishTerminal actor RunCompleted = (actor = RunActorWorker)"
| "actorCanEstablishTerminal actor RunFailed = (actor = RunActorWorker)"
| "actorCanEstablishTerminal actor RunCancelled =
     (actor = RunActorCaller \<or> actor = RunActorOperator \<or> actor = RunActorSystem)"
| "actorCanEstablishTerminal actor RunTimedOut = (actor = RunActorGovernor \<or> actor = RunActorSystem)"
| "actorCanEstablishTerminal actor RunFailedBudget = (actor = RunActorGovernor \<or> actor = RunActorSystem)"
| "actorCanEstablishTerminal actor _ = False"

section \<open>The public projection\<close>

record Run =
  run_ID :: ID
  run_TenantID :: ID
  run_AgentID :: ID
  run_AgentVersionID :: ID
  run_RequestedBy :: ID
  run_VersionDigest :: string
  run_ParentRunID :: "ID option"
  run_State :: RunState
  run_StateVersion :: int
  run_EnvelopeVersion :: int
  run_DeadlineAt :: "Time option"
  run_CreatedAt :: Time
  run_UpdatedAt :: Time

definition Run_Validate :: "Run \<Rightarrow> Run result" where
  "Run_Validate run =
     (if IsZero (run_ID run) \<or> IsZero (run_TenantID run) \<or> IsZero (run_AgentID run)
         \<or> IsZero (run_AgentVersionID run) \<or> IsZero (run_RequestedBy run)
         \<or> \<not> ValidDigest (run_VersionDigest run) \<or> run_StateVersion run < 1 \<or> run_EnvelopeVersion run < 1
      then Inl (New ''run projection is invalid'')
      else case RequireUTC (run_CreatedAt run) of
        Inl _ \<Rightarrow> Inl (New ''run creation time must be non-zero UTC'')
      | Inr created \<Rightarrow>
          if IsZeroTime created then Inl (New ''run creation time must be non-zero UTC'')
          else case RequireUTC (run_UpdatedAt run) of
            Inl _ \<Rightarrow> Inl (New ''run lifecycle projection is invalid'')
          | Inr updated \<Rightarrow>
              if Before updated created \<or> \<not> RunState_Valid (run_State run)
              then Inl (New ''run lifecycle projection is invalid'')
              else if (case run_ParentRunID run of None \<Rightarrow> False | Some p \<Rightarrow> IsZero p \<or> p = run_ID run)
              then Inl (New ''run parent is invalid'')
              else case run_DeadlineAt run of
                None \<Rightarrow> Inr run
              | Some at \<Rightarrow>
                  (case RequireUTC at of
                     Inl _ \<Rightarrow> Inl (New ''run deadline is invalid'')
                   | Inr deadline \<Rightarrow>
                       if \<not> After deadline created then Inl (New ''run deadline is invalid'') else Inr run))"

section \<open>The lifecycle\<close>

definition ErrInvalidRunState :: goerror where
  "ErrInvalidRunState = New ''invalid run state''"

definition ErrInvalidRunActor :: goerror where
  "ErrInvalidRunActor = New ''invalid run actor''"

definition ErrRunActorNotPermitted :: goerror where
  "ErrRunActorNotPermitted = New ''run actor is not permitted for transition''"

definition ErrRunVersionConflict :: goerror where
  "ErrRunVersionConflict = New ''run state version conflict''"

definition ErrRunTerminal :: goerror where
  "ErrRunTerminal = New ''terminal run cannot transition''"

definition ErrRunTransition :: goerror where
  "ErrRunTransition = New ''invalid run state transition''"

definition ErrRunTransitionTime :: goerror where
  "ErrRunTransitionTime = New ''run transition time must be UTC and not precede the last update''"

record RunLifecycle =
  State :: RunState
  Version :: int
  UpdatedAt :: Time
  TerminalAt :: "Time option"

record RunTransition =
  To :: RunState
  Actor :: RunActor
  ExpectedVersion :: int
  At :: Time

definition RunLifecycle_Validate :: "RunLifecycle \<Rightarrow> RunLifecycle result" where
  "RunLifecycle_Validate run =
     (if \<not> RunState_Valid (State run) then Inl ErrInvalidRunState
      else if Version run \<le> 0 then Inl ErrRunVersionConflict
      else case RequireUTC (UpdatedAt run) of
        Inl _ \<Rightarrow> Inl (New ''run update time must be a non-zero UTC timestamp'')
      | Inr updated \<Rightarrow>
          if IsZeroTime (UpdatedAt run) then Inl (New ''run update time must be a non-zero UTC timestamp'')
          else if Terminal (State run) \<noteq> (TerminalAt run \<noteq> None)
          then Inl (New ''run terminal timestamp does not match state'')
          else case TerminalAt run of
            None \<Rightarrow> Inr run
          | Some at \<Rightarrow>
              (case RequireUTC at of
                 Inl _ \<Rightarrow> Inl (New ''run terminal timestamp must equal the last update time in UTC'')
               | Inr terminal \<Rightarrow>
                   if IsZeroTime at \<or> \<not> EqualTime terminal updated
                   then Inl (New ''run terminal timestamp must equal the last update time in UTC'')
                   else Inr run))"

text \<open>The result carries the next lifecycle and whether it changed.\<close>

definition Transition :: "RunLifecycle \<Rightarrow> RunTransition \<Rightarrow> (RunLifecycle \<times> bool) result" where
  "Transition run command =
     and_then (RunLifecycle_Validate run) (\<lambda>_.
       if \<not> RunState_Valid (To command) then Inl ErrInvalidRunState
       else if \<not> RunActor_Valid (Actor command) then Inl ErrInvalidRunActor
       else case RequireUTC (At command) of
         Inl _ \<Rightarrow> Inl ErrRunTransitionTime
       | Inr at \<Rightarrow>
           if IsZeroTime (At command) \<or> Before at (UpdatedAt run) then Inl ErrRunTransitionTime
           else if ExpectedVersion command \<le> 0 then Inl ErrRunVersionConflict
           else if Terminal (State run) then
             (if State run = To command \<and> actorCanEstablishTerminal (Actor command) (To command)
              then Inr (run, False) else Inl ErrRunTerminal)
           else if ExpectedVersion command \<noteq> Version run then Inl ErrRunVersionConflict
           else if \<not> transitionAllowed (State run) (To command) then Inl ErrRunTransition
           else if \<not> actorAllowed (State run) (To command) (Actor command) then Inl ErrRunActorNotPermitted
           else if Version run = MaxInt64 then Inl ErrRunVersionConflict
           else Inr (run\<lparr>State := To command, Version := wrap64 (Version run + 1), UpdatedAt := at,
                        TerminalAt := (if Terminal (To command) then Some at else None)\<rparr>, True))"

section \<open>Worker leases\<close>

definition ErrRunLeaseUnavailable :: goerror where
  "ErrRunLeaseUnavailable = New ''run lease is unavailable''"

definition ErrRunLeaseStale :: goerror where
  "ErrRunLeaseStale = New ''run lease is stale''"

record RunLease =
  lease_RunID :: ID
  lease_TenantID :: ID
  lease_LeaseID :: ID
  lease_WorkerID :: ID
  lease_FencingToken :: int
  lease_ExpiresAt :: Time

definition RunLease_Validate :: "RunLease \<Rightarrow> RunLease result" where
  "RunLease_Validate lease =
     (if IsZero (lease_RunID lease) \<or> IsZero (lease_TenantID lease) \<or> IsZero (lease_LeaseID lease)
         \<or> IsZero (lease_WorkerID lease) \<or> lease_FencingToken lease \<le> 0
      then Inl (New ''run lease identity is invalid'')
      else case RequireUTC (lease_ExpiresAt lease) of
        Inl _ \<Rightarrow> Inl (New ''run lease expiry must be non-zero UTC'')
      | Inr expires \<Rightarrow>
          if IsZeroTime expires then Inl (New ''run lease expiry must be non-zero UTC'') else Inr lease)"

definition ActiveAt :: "RunLease \<Rightarrow> Time \<Rightarrow> bool" where
  "ActiveAt lease now =
     (case RequireUTC now of
        Inl _ \<Rightarrow> False
      | Inr now \<Rightarrow> (case RunLease_Validate lease of Inl _ \<Rightarrow> False | Inr _ \<Rightarrow> Before now (lease_ExpiresAt lease)))"

definition NextFencingToken :: "int \<Rightarrow> int result" where
  "NextFencingToken current =
     (if current < 0 \<or> current = MaxInt64 then Inl ErrRunVersionConflict else Inr (wrap64 (current + 1)))"

datatype WorkerRunOperation =
    WorkerRunStart | WorkerRunComplete | WorkerRunFail | WorkerRunTimeout | WorkerRunOperationOther string

fun Target :: "WorkerRunOperation \<Rightarrow> (RunState \<times> RunActor) result" where
  "Target WorkerRunStart = Inr (RunRunning, RunActorWorker)"
| "Target WorkerRunComplete = Inr (RunCompleted, RunActorWorker)"
| "Target WorkerRunFail = Inr (RunFailed, RunActorWorker)"
| "Target WorkerRunTimeout = Inr (RunTimedOut, RunActorSystem)"
| "Target (WorkerRunOperationOther _) = Inl (New ''invalid worker run operation'')"

section \<open>Cancellation\<close>

text \<open>The pattern \<open>^[A-Za-z][A-Za-z0-9._:-]{0,127}$\<close> of run\_signal.go.\<close>

definition signalNamePattern :: "string \<Rightarrow> bool" where
  "signalNamePattern =
     head_tail_pattern (\<lambda>c. is_upper c \<or> is_lower c) (\<lambda>c. is_alnum c \<or> c \<in> set ''._:-'') 127"

record RunCancellation =
  cancel_TenantID :: ID
  cancel_RunID :: ID
  cancel_ActorPrincipalID :: ID
  cancel_IdempotencyKey :: string
  cancel_ReasonCode :: string
  cancel_ExpectedStateVersion :: "int option"
  cancel_CreatedAt :: Time

definition RunCancellation_Validate :: "RunCancellation \<Rightarrow> RunCancellation result" where
  "RunCancellation_Validate c =
     (if IsZero (cancel_TenantID c) \<or> IsZero (cancel_RunID c) \<or> IsZero (cancel_ActorPrincipalID c)
         \<or> length (cancel_IdempotencyKey c) < 1 \<or> length (cancel_IdempotencyKey c) > 256
      then Inl (New ''run cancellation identity is invalid'')
      else if cancel_ReasonCode c \<noteq> [] \<and> \<not> signalNamePattern (cancel_ReasonCode c)
      then Inl (New ''run cancellation reason code is invalid'')
      else if (case cancel_ExpectedStateVersion c of None \<Rightarrow> False | Some v \<Rightarrow> v < 1)
      then Inl ErrRunVersionConflict
      else case RequireUTC (cancel_CreatedAt c) of
        Inl _ \<Rightarrow> Inl (New ''run cancellation time must be non-zero UTC'')
      | Inr _ \<Rightarrow>
          if IsZeroTime (cancel_CreatedAt c)
          then Inl (New ''run cancellation time must be non-zero UTC'') else Inr c)"

section \<open>Facts\<close>

lemma RunLifecycle_Validate_Inr [result_simps]:
  "RunLifecycle_Validate run = Inr r \<longleftrightarrow>
     r = run \<and> RunState_Valid (State run) \<and> 0 < Version run \<and> location (UpdatedAt run) = UTC \<and>
     \<not> IsZeroTime (UpdatedAt run) \<and>
     (case TerminalAt run of
        None \<Rightarrow> \<not> Terminal (State run)
      | Some at \<Rightarrow> Terminal (State run) \<and> location at = UTC \<and> \<not> IsZeroTime at \<and>
          wrap64 (unix_nano at) = wrap64 (unix_nano (UpdatedAt run)))"
  by (auto simp: RunLifecycle_Validate_def RequireUTC_eq EqualTime_def split: option.splits if_splits)

lemma RunLifecycle_Validate_fail:
  "(\<exists>e. RunLifecycle_Validate run = Inl e) \<longleftrightarrow> RunLifecycle_Validate run \<noteq> Inr run"
  using RunLifecycle_Validate_Inr[of run] by (cases "RunLifecycle_Validate run") auto

text \<open>The successful outcomes of a command: a change, or the replay of the terminal state.\<close>

lemma Transition_Inr [result_simps]:
  "Transition run c = Inr (next, changed) \<longleftrightarrow>
     RunLifecycle_Validate run = Inr run \<and> RunState_Valid (To c) \<and> RunActor_Valid (Actor c) \<and>
     location (At c) = UTC \<and> \<not> IsZeroTime (At c) \<and> unix_nano (UpdatedAt run) \<le> wrap64 (unix_nano (At c)) \<and>
     0 < ExpectedVersion c \<and>
     (if Terminal (State run)
      then State run = To c \<and> actorCanEstablishTerminal (Actor c) (To c) \<and> next = run \<and> \<not> changed
      else ExpectedVersion c = Version run \<and> transitionAllowed (State run) (To c) \<and>
        actorAllowed (State run) (To c) (Actor c) \<and> Version run \<noteq> MaxInt64 \<and> changed \<and>
        next = run\<lparr>State := To c, Version := wrap64 (Version run + 1), UpdatedAt := Unix_UTC (wrap64 (unix_nano (At c))),
          TerminalAt := (if Terminal (To c) then Some (Unix_UTC (wrap64 (unix_nano (At c)))) else None)\<rparr>)"
proof (cases "RunLifecycle_Validate run")
  case (Inl e)
  then show ?thesis by (simp add: Transition_def)
next
  case (Inr r)
  then have "r = run" by (simp add: RunLifecycle_Validate_Inr)
  with Inr show ?thesis
    by (auto simp: Transition_def RequireUTC_eq Before_def not_less not_le)
qed

lemma Terminal_simps [simp]:
  "Terminal RunRejected" "Terminal RunCompleted" "Terminal RunFailed" "Terminal RunCancelled"
  "Terminal RunTimedOut" "Terminal RunFailedBudget" "\<not> Terminal RunPending" "\<not> Terminal RunAdmitted"
  "\<not> Terminal RunRunning" "\<not> Terminal RunBudgetExhausted" "\<not> Terminal RunPausedForBudget"
  "\<not> Terminal (RunStateOther s)"
  by (simp_all add: Terminal_def)

lemma transitionAllowed_not_terminal: "transitionAllowed before after \<Longrightarrow> \<not> Terminal before"
  by (cases before) auto

text \<open>Who may replay a terminal state is exactly who may establish it from some state.\<close>

lemma establish_iff:
  assumes "Terminal target"
  shows "actorCanEstablishTerminal actor target \<longleftrightarrow>
    (\<exists>before. transitionAllowed before target \<and> actorAllowed before target actor)" (is "?L \<longleftrightarrow> ?R")
proof
  assume ?R
  then obtain before where "transitionAllowed before target" "actorAllowed before target actor" by blast
  then show ?L using assms by (cases before) (auto simp: actorAllowed_def)
next
  let ?before = "if target = RunRejected then RunPending else if target = RunFailedBudget then RunBudgetExhausted else RunRunning"
  assume ?L
  then have "transitionAllowed ?before target \<and> actorAllowed ?before target actor"
    using assms by (cases target) (auto simp: actorAllowed_def)
  then show ?R by blast
qed

section \<open>Histories\<close>

definition lifecycle_ok :: "RunLifecycle \<Rightarrow> bool" where
  "lifecycle_ok run \<longleftrightarrow> RunLifecycle_Validate run = Inr run \<and> int64 (Version run)"

inductive run_step :: "RunLifecycle \<Rightarrow> RunTransition \<Rightarrow> RunLifecycle \<Rightarrow> bool" where
  change: "Transition run c = Inr (next, True) \<Longrightarrow> run_step run c next"

inductive_simps run_step_iff: "run_step run c next"

text \<open>A run is created pending, at version one.\<close>

definition fresh_run :: "Time \<Rightarrow> RunLifecycle" where
  "fresh_run at = \<lparr>State = RunPending, Version = 1, UpdatedAt = at, TerminalAt = None\<rparr>"

inductive run_history :: "RunLifecycle \<Rightarrow> (RunLifecycle \<times> RunTransition) list \<Rightarrow> RunLifecycle \<Rightarrow> bool" for start where
  run_history_empty: "run_history start [] start"
| run_history_step: "run_history start h run \<Longrightarrow> run_step run c next \<Longrightarrow> run_history start (h @ [(run, c)]) next"

lemma Transition_ok:
  assumes "lifecycle_ok run" "Transition run c = Inr (next, changed)"
  shows "lifecycle_ok next"
proof (cases "Terminal (State run)")
  case True
  then show ?thesis using assms by (simp add: Transition_Inr)
next
  case False
  have v: "0 < Version run" "int64 (Version run + 1)"
    using assms False by (auto simp: lifecycle_ok_def Transition_Inr RunLifecycle_Validate_Inr int64_simps)
  then show ?thesis
    using assms False utc_time_not_zero[of "Unix_UTC (wrap64 (unix_nano (At c)))"]
    by (auto simp: lifecycle_ok_def Transition_Inr RunLifecycle_Validate_Inr)
qed

lemma run_step_version:
  "lifecycle_ok run \<Longrightarrow> run_step run c next \<Longrightarrow> Version next = Version run + 1"
  by (auto simp: run_step_iff Transition_Inr lifecycle_ok_def RunLifecycle_Validate_Inr int64_simps split: if_splits)

lemma run_history_ok: "run_history start h run \<Longrightarrow> lifecycle_ok start \<Longrightarrow> lifecycle_ok run"
  by (induction rule: run_history.induct) (auto simp: run_step_iff dest: Transition_ok)

lemma run_history_version:
  "run_history start h run \<Longrightarrow> lifecycle_ok start \<Longrightarrow> Version run = Version start + int (length h)"
proof (induction rule: run_history.induct)
  case (run_history_step h run c "next")
  then show ?case using run_step_version[of run c "next"] run_history_ok[of start h run] by simp
qed simp

lemma run_history_nonterminal:
  "run_history start h run \<Longrightarrow> (r, c) \<in> set h \<Longrightarrow> \<not> Terminal (State r)"
  by (induction rule: run_history.induct) (auto simp: run_step_iff Transition_Inr split: if_splits)

text \<open>The first worker start is in the history of every run that got past admission.\<close>

definition started :: "(RunLifecycle \<times> RunTransition) list \<Rightarrow> bool" where
  "started h \<longleftrightarrow> (\<exists>(r, c) \<in> set h. State r = RunAdmitted \<and> To c = RunRunning \<and> Actor c = RunActorWorker)"

definition admitted :: "(RunLifecycle \<times> RunTransition) list \<Rightarrow> bool" where
  "admitted h \<longleftrightarrow> (\<exists>(r, c) \<in> set h. State r = RunPending \<and> To c = RunAdmitted \<and> Actor c = RunActorSystem)"

section \<open>Properties\<close>

text \<open>
  C20: along every history of commands that starts from a valid run, the run stays valid, its
  version is the initial version plus the number of changes (so a version is never reused), and
  no change ever leaves a terminal state.
\<close>

theorem run_history_invariant:
  assumes "lifecycle_ok start" "run_history start h run"
  shows "RunLifecycle_Validate run = Inr run \<and> Version run = Version start + int (length h) \<and>
    (\<forall>r c. (r, c) \<in> set h \<longrightarrow> \<not> Terminal (State r))"
  using assms run_history_ok[OF assms(2,1)] run_history_version[OF assms(2,1)] run_history_nonterminal[OF assms(2)]
  by (auto simp: lifecycle_ok_def)

text \<open>
  Compare-and-swap. After a command has changed a run, a second command built against the
  same expected version never changes it again, whatever it asks for and whoever sends it.
\<close>

theorem Transition_compare_and_swap:
  assumes "lifecycle_ok run" "Transition run c = Inr (n, True)"
    and "ExpectedVersion d = ExpectedVersion c" "Transition n d = Inr (m, changed)"
  shows "\<not> changed \<and> m = n \<and> Terminal (State n)"
proof -
  have "ExpectedVersion c = Version run" "Version n = Version run + 1"
    using assms(1,2) run_step_version[of run c n]
    by (auto simp: run_step_iff Transition_Inr split: if_splits)
  then show ?thesis using assms(3,4) by (auto simp: Transition_Inr split: if_splits)
qed

text \<open>
  Terminal states absorb. On a terminal run a command either is the replay of that same
  terminal state by an actor that may establish it, which returns the run unchanged whatever
  version it expects, or it fails; it fails with \<open>ErrRunTerminal\<close> when the command is well formed.
\<close>

theorem terminal_absorbing:
  assumes "lifecycle_ok run" "Terminal (State run)" "utc_time (At c)"
    "unix_nano (UpdatedAt run) \<le> unix_nano (At c)" "RunState_Valid (To c)" "RunActor_Valid (Actor c)" "0 < ExpectedVersion c"
  shows "Transition run c =
    (if To c = State run \<and> (\<exists>before. transitionAllowed before (To c) \<and> actorAllowed before (To c) (Actor c))
     then Inr (run, False) else Inl ErrRunTerminal)"
proof -
  have "RequireUTC (At c) = Inr (At c)" "\<not> IsZeroTime (At c)"
    using assms(3) by (simp_all add: RequireUTC_utc_time utc_time_not_zero)
  then have "Transition run c = (if To c = State run \<and> actorCanEstablishTerminal (Actor c) (To c) then Inr (run, False) else Inl ErrRunTerminal)"
    using assms by (auto simp: Transition_def lifecycle_ok_def Before_def)
  then show ?thesis using assms(2) establish_iff[of "State run" "Actor c"] by auto
qed

text \<open>
  In every history of a run created pending, a run that is neither pending nor rejected was
  admitted by the system, and a run that is running, has finished or was stopped for its budget was
  started by a worker from the admitted state.
\<close>

theorem run_started_by_worker:
  assumes "run_history (fresh_run at) h run"
  shows "(State run \<notin> {RunPending, RunRejected} \<longrightarrow> admitted h) \<and>
    (State run \<in> {RunRunning, RunCompleted, RunFailed, RunBudgetExhausted, RunPausedForBudget, RunFailedBudget} \<longrightarrow> started h)"
  using assms
proof (induction rule: run_history.induct)
  case run_history_empty
  show ?case by (simp add: fresh_run_def)
next
  case (run_history_step h run c "next")
  from run_history_step(2) have t: "transitionAllowed (State run) (To c)" "actorAllowed (State run) (To c) (Actor c)" "State next = To c"
    by (auto simp: run_step_iff Transition_Inr split: if_splits)
  have mono: "admitted (h @ [(run, c)]) \<longleftrightarrow> admitted h \<or> State run = RunPending \<and> To c = RunAdmitted \<and> Actor c = RunActorSystem"
    "started (h @ [(run, c)]) \<longleftrightarrow> started h \<or> State run = RunAdmitted \<and> To c = RunRunning \<and> Actor c = RunActorWorker"
    by (auto simp: admitted_def started_def)
  show ?case
    using run_history_step(3) t unfolding mono by (cases "State run") (auto simp: actorAllowed_def)
qed

section \<open>Witnesses\<close>

definition demo_time :: "int \<Rightarrow> Time" where
  "demo_time n = \<lparr>unix_nano = n, location = UTC\<rparr>"

definition demo_admit :: RunTransition where
  "demo_admit = \<lparr>To = RunAdmitted, Actor = RunActorSystem, ExpectedVersion = 1, At = demo_time 20\<rparr>"

definition demo_start :: RunTransition where
  "demo_start = \<lparr>To = RunRunning, Actor = RunActorWorker, ExpectedVersion = 2, At = demo_time 30\<rparr>"

definition demo_cancel :: RunTransition where
  "demo_cancel = \<lparr>To = RunCancelled, Actor = RunActorCaller, ExpectedVersion = 2, At = demo_time 40\<rparr>"

definition demo_admitted :: RunLifecycle where
  "demo_admitted = \<lparr>State = RunAdmitted, Version = 2, UpdatedAt = demo_time 20, TerminalAt = None\<rparr>"

definition demo_running :: RunLifecycle where
  "demo_running = \<lparr>State = RunRunning, Version = 3, UpdatedAt = demo_time 30, TerminalAt = None\<rparr>"

definition demo_cancelled :: RunLifecycle where
  "demo_cancelled = \<lparr>State = RunCancelled, Version = 3, UpdatedAt = demo_time 40, TerminalAt = Some (demo_time 40)\<rparr>"

lemma demo_steps:
  "lifecycle_ok (fresh_run (demo_time 10))" "lifecycle_ok demo_admitted" "lifecycle_ok demo_cancelled"
  "Transition (fresh_run (demo_time 10)) demo_admit = Inr (demo_admitted, True)"
  "Transition demo_admitted demo_start = Inr (demo_running, True)"
  "Transition demo_admitted demo_cancel = Inr (demo_cancelled, True)"
  "Transition demo_cancelled demo_cancel = Inr (demo_cancelled, False)"
  unfolding lifecycle_ok_def by code_simp+

lemma demo_history:
  "run_history (fresh_run (demo_time 10)) [(fresh_run (demo_time 10), demo_admit), (demo_admitted, demo_start)] demo_running"
  using run_history_step[OF run_history_step[OF run_history_empty change[OF demo_steps(4)]] change[OF demo_steps(5)]] by simp

theorem run_history_invariant_witness:
  "lifecycle_ok (fresh_run (demo_time 10)) \<and> RunLifecycle_Validate demo_running = Inr demo_running \<and> Version demo_running = 1 + 2"
  using run_history_invariant[OF demo_steps(1) demo_history] demo_steps(1) by (simp add: fresh_run_def)

theorem Transition_compare_and_swap_witness:
  "Transition demo_cancelled demo_cancel = Inr (demo_cancelled, False) \<and> Terminal (State demo_cancelled)"
  using Transition_compare_and_swap[OF demo_steps(2) demo_steps(6) refl demo_steps(7)] demo_steps(7) by simp

theorem terminal_absorbing_witness:
  "Transition demo_cancelled (demo_cancel\<lparr>To := RunCompleted\<rparr>) = Inl ErrRunTerminal"
  using terminal_absorbing[OF demo_steps(3), of "demo_cancel\<lparr>To := RunCompleted\<rparr>"]
  by (simp add: demo_cancelled_def demo_cancel_def demo_time_def utc_time_def int64_simps RunState_Valid_def RunActor_Valid_def)

theorem run_started_by_worker_witness:
  "State demo_running = RunRunning \<and> started [(fresh_run (demo_time 10), demo_admit), (demo_admitted, demo_start)]"
  using run_started_by_worker[OF demo_history] by (simp add: demo_running_def)

end
