(* ===== verification/Resources.thy ===== *)
theory Resources
  imports Lifecycle
begin

text \<open>
  The resource vocabulary of the domain: dimensions (internal/domain/resource\_dimension.go) and
  the validators of the five resource commands, reservation, trusted usage, extension and
  settlement (resource\_reservation.go, resource\_usage.go, resource\_extension.go,
  resource\_settlement.go). \<open>sort.Slice\<close> is modelled by a stable sort on the same key: the
  validators refuse equal keys, so only the text of that refusal could depend on the order of
  equal elements. SHA-256 is the parameter \<open>sha256\<close>.
\<close>

section \<open>Dimensions\<close>

definition DeadlineUTCUnixMicrosecondsUnit :: string where
  "DeadlineUTCUnixMicrosecondsUnit = ''unix_microseconds_utc''"

definition ErrInvalidResourceDimension :: goerror where
  "ErrInvalidResourceDimension = New ''invalid resource dimension''"

definition ErrResourceQuantityRange :: goerror where
  "ErrResourceQuantityRange = New ''resource quantity outside dimension bounds''"

text \<open>\<open>^[a-z][a-z0-9_]{0,62}$\<close>\<close>

definition resourceDimensionNamePattern :: "string \<Rightarrow> bool" where
  "resourceDimensionNamePattern =
     head_tail_pattern is_lower (\<lambda>c. is_lower c \<or> is_digit c \<or> c = CHR ''_'') 62"

datatype ResourceClass = ResourceConsumable | ResourceStructural | ResourceDeadline | ResourceClassOther string

datatype ResourceAggregation = ResourceSum | ResourceMaximum | ResourceMinimum | ResourceAbsolute
  | ResourceAggregationOther string

definition ResourceClass_Valid :: "ResourceClass \<Rightarrow> bool" where
  "ResourceClass_Valid c \<longleftrightarrow> (case c of ResourceClassOther _ \<Rightarrow> False | _ \<Rightarrow> True)"

definition ResourceAggregation_Valid :: "ResourceAggregation \<Rightarrow> bool" where
  "ResourceAggregation_Valid a \<longleftrightarrow> (case a of ResourceAggregationOther _ \<Rightarrow> False | _ \<Rightarrow> True)"

record ResourceDimension =
  dim_ID :: ID
  dim_TenantID :: ID
  dim_Name :: string
  dim_Class :: ResourceClass
  dim_Unit :: string
  dim_Scale :: nat
  dim_Minimum :: int
  dim_Maximum :: int
  dim_Aggregation :: ResourceAggregation

definition ResourceDimension_Validate :: "ResourceDimension \<Rightarrow> ResourceDimension result" where
  "ResourceDimension_Validate d =
     (if IsZero (dim_ID d) \<or> IsZero (dim_TenantID d)
      then Inl (Wrapf ''identifiers must be set'' ErrInvalidResourceDimension)
      else if \<not> resourceDimensionNamePattern (dim_Name d)
      then Inl (Wrapf ''name must be canonical'' ErrInvalidResourceDimension)
      else if \<not> ResourceClass_Valid (dim_Class d) \<or> \<not> ResourceAggregation_Valid (dim_Aggregation d)
      then Inl (Wrapf ''class or aggregation is unknown'' ErrInvalidResourceDimension)
      else if \<not> validUnit (dim_Unit d)
      then Inl (Wrapf ''unit must be canonical'' ErrInvalidResourceDimension)
      else if dim_Scale d > MaxDecimalScale \<or> dim_Minimum d < 0 \<or> dim_Maximum d < dim_Minimum d
      then Inl (Wrapf ''numeric bounds are invalid'' ErrInvalidResourceDimension)
      else case dim_Class d of
        ResourceConsumable \<Rightarrow>
          if dim_Aggregation d \<noteq> ResourceSum
          then Inl (Wrapf ''consumables require SUM aggregation'' ErrInvalidResourceDimension) else Inr d
      | ResourceStructural \<Rightarrow>
          if dim_Aggregation d \<noteq> ResourceMaximum \<and> dim_Aggregation d \<noteq> ResourceMinimum
          then Inl (Wrapf ''structural dimensions require MAX or MIN aggregation'' ErrInvalidResourceDimension)
          else Inr d
      | ResourceDeadline \<Rightarrow>
          if dim_Aggregation d \<noteq> ResourceAbsolute \<or> dim_Unit d \<noteq> DeadlineUTCUnixMicrosecondsUnit \<or> dim_Scale d \<noteq> 0
          then Inl (Wrapf ''deadlines require an absolute UTC microsecond instant'' ErrInvalidResourceDimension)
          else Inr d
      | ResourceClassOther _ \<Rightarrow> Inr d)"

definition ValidateQuantity :: "ResourceDimension \<Rightarrow> Quantity \<Rightarrow> Quantity result" where
  "ValidateQuantity d quantity =
     and_then (ResourceDimension_Validate d) (\<lambda>_.
       case NewQuantity (amount quantity) (unit quantity) of
         Inl _ \<Rightarrow> Inl (Wrapf ''quantity'' ErrInvalidResourceDimension)
       | Inr _ \<Rightarrow>
           if unit quantity \<noteq> dim_Unit d \<or> scale (amount quantity) \<noteq> dim_Scale d then Inl ErrUnitMismatch
           else if coefficient (amount quantity) < dim_Minimum d \<or> coefficient (amount quantity) > dim_Maximum d
           then Inl ErrResourceQuantityRange
           else Inr quantity)"

section \<open>Reservations\<close>

definition ErrInvalidResourceReservation :: goerror where
  "ErrInvalidResourceReservation = New ''invalid resource reservation''"

record ResourceReservationAmount =
  ra_DimensionID :: ID
  ra_Coefficient :: int

record ResourceReservation =
  rv_ID :: ID
  rv_TenantID :: ID
  rv_ParentEnvelopeID :: ID
  rv_ChildEnvelopeID :: ID
  rv_ChildRunID :: ID
  rv_Amounts :: "ResourceReservationAmount list"
  rv_ExpiresAt :: "Time option"
  rv_CreatedAt :: Time

text \<open>The loop over the sorted amounts; the first argument is the previous element.\<close>

fun check_amounts :: "ID option \<Rightarrow> ResourceReservationAmount list \<Rightarrow> unit result" where
  "check_amounts previous [] = Inr ()"
| "check_amounts previous (a # rest) =
     (if IsZero (ra_DimensionID a) \<or> ra_Coefficient a \<le> 0
      then Inl (Wrapf ''amounts must be positive and identified'' ErrInvalidResourceReservation)
      else if previous = Some (ra_DimensionID a)
      then Inl (Wrapf ''dimensions must be unique'' ErrInvalidResourceReservation)
      else check_amounts (Some (ra_DimensionID a)) rest)"

definition ValidateAndSortResourceReservation :: "ResourceReservation \<Rightarrow> ResourceReservation result" where
  "ValidateAndSortResourceReservation reservation =
     (if IsZero (rv_ID reservation) \<or> IsZero (rv_TenantID reservation) \<or> IsZero (rv_ParentEnvelopeID reservation)
         \<or> IsZero (rv_ChildEnvelopeID reservation) \<or> IsZero (rv_ChildRunID reservation)
      then Inl (Wrapf ''identifiers must be set'' ErrInvalidResourceReservation)
      else if rv_ParentEnvelopeID reservation = rv_ChildEnvelopeID reservation
         \<or> IsZeroTime (rv_CreatedAt reservation) \<or> length (rv_Amounts reservation) = 0
      then Inl (Wrapf ''parent, time, and amounts are invalid'' ErrInvalidResourceReservation)
      else if (case rv_ExpiresAt reservation of None \<Rightarrow> False | Some e \<Rightarrow> \<not> After e (rv_CreatedAt reservation))
      then Inl (Wrapf ''expiry must follow creation'' ErrInvalidResourceReservation)
      else
        let result = reservation\<lparr>rv_Amounts := sort_key (\<lambda>a. ID_String (ra_DimensionID a)) (rv_Amounts reservation)\<rparr>
        in and_then (check_amounts None (rv_Amounts result)) (\<lambda>_. Inr result))"

section \<open>Trusted usage\<close>

definition ErrInvalidTrustedUsage :: goerror where
  "ErrInvalidTrustedUsage = New ''invalid trusted usage event''"

definition ErrStructuralThroughputExceeded :: goerror where
  "ErrStructuralThroughputExceeded = New ''structural throughput limit exceeded''"

datatype ExhaustionDisposition = ExhaustionFail | ExhaustionPause | ExhaustionOther string

definition ExhaustionDisposition_Valid :: "ExhaustionDisposition \<Rightarrow> bool" where
  "ExhaustionDisposition_Valid d \<longleftrightarrow> d = ExhaustionFail \<or> d = ExhaustionPause"

definition ThroughputWindow :: Duration where
  "ThroughputWindow = Minute"

definition ThroughputDimensionName :: "string \<Rightarrow> string result" where
  "ThroughputDimensionName name =
     (if \<not> resourceDimensionNamePattern name \<or> length name + length ''_per_minute'' > 63
      then Inl ErrInvalidTrustedUsage else Inr (name @ ''_per_minute''))"

definition ThroughputUnitName :: "string \<Rightarrow> string result" where
  "ThroughputUnitName u =
     (if \<not> validUnit u \<or> length u + length ''_per_minute'' > 64
      then Inl ErrInvalidTrustedUsage else Inr (u @ ''_per_minute''))"

record ThroughputHint =
  hint_DimensionName :: string
  hint_Blocked :: bool

record TrustedUsage =
  usage_ID :: ID
  usage_TenantID :: ID
  usage_RunID :: ID
  usage_ProducerID :: ID
  usage_SourceEventID :: string
  usage_ResourceName :: string
  usage_Quantity :: Quantity
  usage_ObservedAt :: Time
  usage_RecordedAt :: Time
  usage_ContentDigest :: string

record UsageReceipt =
  receipt_UsageID :: ID
  receipt_Duplicate :: bool
  receipt_AcceptedAt :: Time

text \<open>
  \<open>Format(time.RFC3339Nano)\<close> of a UTC time: the proleptic Gregorian date of the day count, the
  time of day, and the fraction of the second without trailing zeros.
\<close>

definition civil_date :: "int \<Rightarrow> int \<times> int \<times> int" where
  "civil_date days =
     (let z = days + 719468; era = z div 146097; doe = z - era * 146097;
          yoe = (doe - doe div 1460 + doe div 36524 - doe div 146096) div 365;
          doy = doe - (365 * yoe + yoe div 4 - yoe div 100);
          mp = (5 * doy + 2) div 153;
          day = doy - (153 * mp + 2) div 5 + 1;
          month = (if mp < 10 then mp + 3 else mp - 9);
          year = yoe + era * 400 + (if month \<le> 2 then 1 else 0)
      in (year, month, day))"

definition zero_padded :: "nat \<Rightarrow> int \<Rightarrow> string" where
  "zero_padded n i = pad_digits (n - 1) (FormatUint (nat i))"

definition trim_zeros :: "string \<Rightarrow> string" where
  "trim_zeros s = rev (dropWhile (\<lambda>c. c = CHR ''0'') (rev s))"

definition format_rfc3339nano :: "Time \<Rightarrow> string" where
  "format_rfc3339nano t =
     (let secs = unix_nano t div 1000000000; nanos = unix_nano t mod 1000000000;
          (year, month, day) = civil_date (secs div 86400); s = secs mod 86400;
          fraction = trim_zeros (zero_padded 9 nanos)
      in zero_padded 4 year @ ''-'' @ zero_padded 2 month @ ''-'' @ zero_padded 2 day @ ''T'' @
         zero_padded 2 (s div 3600) @ '':'' @ zero_padded 2 (s div 60 mod 60) @ '':'' @ zero_padded 2 (s mod 60) @
         (if nanos = 0 then [] else ''.'' @ fraction) @ ''Z'')"

text \<open>The hexadecimal digest text; \<open>sha256\<close> is the hash function.\<close>

type_synonym hash = "string \<Rightarrow> byte list"

definition digest_text :: "hash \<Rightarrow> string \<Rightarrow> string" where
  "digest_text sha256 material = ''sha256:'' @ hex_encode (sha256 material)"

definition nul :: string where
  "nul = [char_of (0 :: nat)]"

definition usage_material :: "TrustedUsage \<Rightarrow> Time \<Rightarrow> string" where
  "usage_material u observed =
     ''trusted-usage/v1'' @ nul @ ID_String (usage_TenantID u) @ nul @ ID_String (usage_RunID u) @ nul @
     ID_String (usage_ProducerID u) @ nul @ usage_SourceEventID u @ nul @ usage_ResourceName u @ nul @
     FormatInt (coefficient (amount (usage_Quantity u))) @ nul @ FormatUint (scale (amount (usage_Quantity u))) @ nul @
     unit (usage_Quantity u) @ nul @ format_rfc3339nano observed"

definition ValidateTrustedUsage :: "hash \<Rightarrow> TrustedUsage \<Rightarrow> TrustedUsage result" where
  "ValidateTrustedUsage sha256 u =
     (if IsZero (usage_ID u) \<or> IsZero (usage_TenantID u) \<or> IsZero (usage_RunID u) \<or> IsZero (usage_ProducerID u)
         \<or> length (usage_SourceEventID u) < 1 \<or> length (usage_SourceEventID u) > 256
         \<or> trim_space (usage_SourceEventID u) \<noteq> usage_SourceEventID u
         \<or> \<not> resourceDimensionNamePattern (usage_ResourceName u)
      then Inl ErrInvalidTrustedUsage
      else case NewQuantity (amount (usage_Quantity u)) (unit (usage_Quantity u)) of
        Inl _ \<Rightarrow> Inl (Wrapf ''quantity'' ErrInvalidTrustedUsage)
      | Inr _ \<Rightarrow>
          (case RequireUTC (usage_ObservedAt u) of
             Inl _ \<Rightarrow> Inl (Wrapf ''observed time'' ErrInvalidTrustedUsage)
           | Inr observed \<Rightarrow>
               (case RequireUTC (usage_RecordedAt u) of
                  Inl _ \<Rightarrow> Inl (Wrapf ''recorded time'' ErrInvalidTrustedUsage)
                | Inr recorded \<Rightarrow>
                    Inr (u\<lparr>usage_ObservedAt := observed, usage_RecordedAt := recorded,
                           usage_ContentDigest := digest_text sha256 (usage_material u observed)\<rparr>))))"

section \<open>Extensions\<close>

definition ErrInvalidResourceExtension :: goerror where
  "ErrInvalidResourceExtension = New ''invalid resource extension''"

text \<open>\<open>^[A-Za-z0-9][A-Za-z0-9._:/-]{0,255}$\<close> and \<open>^[a-z][a-z0-9._-]{0,127}$\<close>\<close>

definition extensionReferencePattern :: "string \<Rightarrow> bool" where
  "extensionReferencePattern = head_tail_pattern is_alnum (\<lambda>c. is_alnum c \<or> c \<in> set ''._:/-'') 255"

definition extensionReasonPattern :: "string \<Rightarrow> bool" where
  "extensionReasonPattern =
     head_tail_pattern is_lower (\<lambda>c. is_lower c \<or> is_digit c \<or> c \<in> set ''._-'') 127"

record ResourceExtensionAmount =
  xa_Name :: string
  xa_Quantity :: Quantity

record ResourceExtension =
  ext_ID :: ID
  ext_TenantID :: ID
  ext_RunID :: ID
  ext_ActorPrincipalID :: ID
  ext_PolicyDecisionID :: ID
  ext_IdempotencyKey :: string
  ext_ReasonCode :: string
  ext_ApprovalReference :: string
  ext_Additions :: "ResourceExtensionAmount list"
  ext_DeadlineExtensionSeconds :: int
  ext_CreatedAt :: Time

fun check_additions :: "string list \<Rightarrow> ResourceExtensionAmount list \<Rightarrow> unit result" where
  "check_additions seen [] = Inr ()"
| "check_additions seen (x # rest) =
     (if \<not> resourceDimensionNamePattern (xa_Name x) \<or> coefficient (amount (xa_Quantity x)) \<le> 0
      then Inl ErrInvalidResourceExtension
      else if xa_Name x \<in> set seen then Inl ErrInvalidResourceExtension
      else check_additions (xa_Name x # seen) rest)"

definition ValidateResourceExtension :: "ResourceExtension \<Rightarrow> ResourceExtension result" where
  "ValidateResourceExtension x =
     (if IsZero (ext_ID x) \<or> IsZero (ext_TenantID x) \<or> IsZero (ext_RunID x) \<or> IsZero (ext_ActorPrincipalID x)
         \<or> IsZero (ext_PolicyDecisionID x) \<or> \<not> extensionReferencePattern (ext_IdempotencyKey x)
         \<or> \<not> extensionReasonPattern (ext_ReasonCode x) \<or> \<not> extensionReferencePattern (ext_ApprovalReference x)
         \<or> (length (ext_Additions x) = 0 \<and> ext_DeadlineExtensionSeconds x = 0)
         \<or> ext_DeadlineExtensionSeconds x < 0 \<or> ext_DeadlineExtensionSeconds x > 31536000
      then Inl ErrInvalidResourceExtension
      else case RequireUTC (ext_CreatedAt x) of
        Inl _ \<Rightarrow> Inl ErrInvalidResourceExtension
      | Inr created \<Rightarrow>
          if IsZeroTime created \<or> length (ext_Additions x) > 100 then Inl ErrInvalidResourceExtension
          else and_then (check_additions [] (ext_Additions x)) (\<lambda>_.
            Inr (x\<lparr>ext_CreatedAt := created, ext_Additions := sort_key xa_Name (ext_Additions x)\<rparr>)))"

record ResourceExtensionResult =
  er_ID :: ID
  er_EnvelopeVersion :: int
  er_DeadlineAt :: "Time option"
  er_Resumed :: bool

section \<open>Settlements\<close>

definition ErrInvalidResourceSettlement :: goerror where
  "ErrInvalidResourceSettlement = New ''invalid resource settlement''"

definition ErrResourceReconciliationUnavailable :: goerror where
  "ErrResourceReconciliationUnavailable = New ''no resource reservation is available for reconciliation''"

record ResourceSettlement =
  set_ID :: ID
  set_TenantID :: ID
  set_ReservationID :: ID
  set_ActorPrincipalID :: ID
  set_PolicyDecisionID :: ID
  set_IdempotencyKey :: string
  set_TerminalRunState :: RunState
  set_FinalUsageEventIDs :: "ID list"
  set_SettledAt :: Time

record ResourceSettlementAmount =
  sa_Name :: string
  sa_Unit :: string
  sa_Scale :: nat
  sa_Value :: int

record ResourceSettlementResult =
  sr_ID :: ID
  sr_ReservationID :: ID
  sr_Consumed :: "ResourceSettlementAmount list"
  sr_Returned :: "ResourceSettlementAmount list"
  sr_SettledAt :: Time
  sr_Duplicate :: bool

fun check_event_ids :: "ID option \<Rightarrow> ID list \<Rightarrow> unit result" where
  "check_event_ids previous [] = Inr ()"
| "check_event_ids previous (i # rest) =
     (if IsZero i \<or> previous = Some i then Inl ErrInvalidResourceSettlement else check_event_ids (Some i) rest)"

definition ValidateResourceSettlement :: "ResourceSettlement \<Rightarrow> ResourceSettlement result" where
  "ValidateResourceSettlement x =
     (if IsZero (set_ID x) \<or> IsZero (set_TenantID x) \<or> IsZero (set_ReservationID x)
         \<or> IsZero (set_ActorPrincipalID x) \<or> IsZero (set_PolicyDecisionID x)
         \<or> \<not> extensionReferencePattern (set_IdempotencyKey x) \<or> \<not> Terminal (set_TerminalRunState x)
         \<or> set_TerminalRunState x = RunBudgetExhausted \<or> length (set_FinalUsageEventIDs x) > 10000
      then Inl ErrInvalidResourceSettlement
      else case RequireUTC (set_SettledAt x) of
        Inl _ \<Rightarrow> Inl ErrInvalidResourceSettlement
      | Inr settledAt \<Rightarrow>
          if IsZeroTime settledAt then Inl ErrInvalidResourceSettlement
          else
            let x = x\<lparr>set_SettledAt := settledAt, set_FinalUsageEventIDs := sort_key ID_String (set_FinalUsageEventIDs x)\<rparr>
            in and_then (check_event_ids None (set_FinalUsageEventIDs x)) (\<lambda>_. Inr x))"

section \<open>Facts\<close>

lemma check_amounts_Inr:
  "check_amounts p xs = Inr u \<longleftrightarrow>
     (\<forall>a \<in> set xs. \<not> IsZero (ra_DimensionID a) \<and> 0 < ra_Coefficient a) \<and>
     (case xs of [] \<Rightarrow> True | a # _ \<Rightarrow> p \<noteq> Some (ra_DimensionID a)) \<and>
     successively (\<lambda>a b. ra_DimensionID a \<noteq> ra_DimensionID b) xs"
proof (induction p xs rule: check_amounts.induct)
  case (2 p a rest)
  then show ?case by (cases rest) (auto simp: not_le)
qed simp

lemma sorted_strict:
  fixes f :: "'a \<Rightarrow> 'b :: linorder"
  assumes "sorted (map f xs)" "successively (\<lambda>a b. f a \<noteq> f b) xs"
  shows "sorted_wrt (<) (map f xs)"
proof -
  have "successively (\<lambda>a b. f a < f b) xs"
    using assms by (induction xs rule: induct_list012) (auto simp: order.strict_iff_order)
  then have "successively (<) (map f xs)" by (simp add: successively_map)
  then show ?thesis by (subst (asm) successively_conv_sorted_wrt) (auto simp: transp_on_def)
qed

lemma sorted_wrt_ID_String:
  "sorted_wrt (<) (map (\<lambda>a. ID_String (f a)) xs) \<longleftrightarrow> sorted_wrt (<) (map f xs)"
  by (simp add: sorted_wrt_map ID_String_less_iff)

lemma ID_String_eq_iff: "ID_String x = ID_String y \<longleftrightarrow> x = y"
  using ID_String_less_iff[of x y] ID_String_less_iff[of y x] by (cases x y rule: linorder_cases) auto

lemma ValidateAndSort_Inr:
  assumes "ValidateAndSortResourceReservation q = Inr r"
  shows "r = q\<lparr>rv_Amounts := rv_Amounts r\<rparr>" "mset (rv_Amounts r) = mset (rv_Amounts q)"
    "sorted_wrt (<) (map ra_DimensionID (rv_Amounts r))" "rv_Amounts r \<noteq> []"
    "\<And>a. a \<in> set (rv_Amounts r) \<Longrightarrow> \<not> IsZero (ra_DimensionID a) \<and> 0 < ra_Coefficient a"
    "rv_ParentEnvelopeID r \<noteq> rv_ChildEnvelopeID r"
    "\<And>e. rv_ExpiresAt r = Some e \<Longrightarrow> After e (rv_CreatedAt r)"
proof -
  let ?xs = "sort_key (\<lambda>a. ID_String (ra_DimensionID a)) (rv_Amounts q)"
  have r: "r = q\<lparr>rv_Amounts := ?xs\<rparr>" and c: "check_amounts None ?xs = Inr ()" and ne: "rv_Amounts q \<noteq> []"
    and pc: "rv_ParentEnvelopeID q \<noteq> rv_ChildEnvelopeID q"
    and ex: "\<And>e. rv_ExpiresAt q = Some e \<Longrightarrow> After e (rv_CreatedAt q)"
    using assms by (auto simp: ValidateAndSortResourceReservation_def Let_def and_then_Inr split: if_splits option.splits)
  show "r = q\<lparr>rv_Amounts := rv_Amounts r\<rparr>" "mset (rv_Amounts r) = mset (rv_Amounts q)" using r by simp_all
  have "length ?xs = length (rv_Amounts q)" by simp
  then show "rv_Amounts r \<noteq> []" using r ne by (cases ?xs) simp_all
  show "\<And>a. a \<in> set (rv_Amounts r) \<Longrightarrow> \<not> IsZero (ra_DimensionID a) \<and> 0 < ra_Coefficient a"
    using c r by (auto simp: check_amounts_Inr)
  have "successively (\<lambda>a b. ID_String (ra_DimensionID a) \<noteq> ID_String (ra_DimensionID b)) ?xs"
    using c by (simp add: check_amounts_Inr ID_String_eq_iff)
  then have "sorted_wrt (<) (map (\<lambda>a. ID_String (ra_DimensionID a)) ?xs)"
    by (intro sorted_strict) simp_all
  then show "sorted_wrt (<) (map ra_DimensionID (rv_Amounts r))" using r by (simp add: sorted_wrt_ID_String)
  show "rv_ParentEnvelopeID r \<noteq> rv_ChildEnvelopeID r" using r pc by simp
  show "\<And>e. rv_ExpiresAt r = Some e \<Longrightarrow> After e (rv_CreatedAt r)" using r ex by simp
qed

lemma distinct_dimensions:
  "ValidateAndSortResourceReservation q = Inr r \<Longrightarrow> distinct (map ra_DimensionID (rv_Amounts r))"
  using ValidateAndSort_Inr(3) strict_sorted_iff by blast

section \<open>Properties\<close>

text \<open>
  A validated reservation carries the requested amounts, each positive and identified, in
  strictly increasing order of the dimension identifier. The rows of any two reservations are
  therefore locked in one global order, and no dimension is debited twice.
\<close>

theorem reservation_lock_order:
  assumes "ValidateAndSortResourceReservation q = Inr r"
  shows "sorted_wrt (<) (map ra_DimensionID (rv_Amounts r)) \<and> distinct (map ra_DimensionID (rv_Amounts r)) \<and>
    mset (rv_Amounts r) = mset (rv_Amounts q) \<and>
    (\<forall>a. a \<in> set (rv_Amounts r) \<longrightarrow> ra_DimensionID a \<noteq> 0 \<and> 0 < ra_Coefficient a)"
  using ValidateAndSort_Inr[OF assms] distinct_dimensions[OF assms] by (auto simp: IsZero_def)

definition demo_reservation :: ResourceReservation where
  "demo_reservation =
     \<lparr>rv_ID = 1, rv_TenantID = 2, rv_ParentEnvelopeID = 3, rv_ChildEnvelopeID = 4, rv_ChildRunID = 5,
      rv_Amounts = [\<lparr>ra_DimensionID = 9, ra_Coefficient = 70\<rparr>, \<lparr>ra_DimensionID = 8, ra_Coefficient = 30\<rparr>],
      rv_ExpiresAt = None, rv_CreatedAt = demo_time 50\<rparr>"

lemma demo_reservation_sorted:
  "ValidateAndSortResourceReservation demo_reservation = Inr (demo_reservation\<lparr>rv_Amounts := rev (rv_Amounts demo_reservation)\<rparr>)"
  by (simp add: demo_reservation_def ValidateAndSortResourceReservation_def IsZero_def ID_String_less_iff
      sort_key_def IsZeroTime_def demo_time_def zero_nano_def insort_key.simps not_less flip: not_less)

theorem reservation_lock_order_witness:
  "sorted_wrt (<) (map ra_DimensionID (rev (rv_Amounts demo_reservation)))"
  using reservation_lock_order[OF demo_reservation_sorted] by simp

end
