(* ===== verification/Json.thy ===== *)
theory Json
  imports Decimal
begin

text \<open>
  JSON documents and the part of the Go package encoding/json that the sources use on them: the text that
  \<open>json.Marshal\<close> writes, and the view of a decoded object as a map of its fields. A
  \<open>json.RawMessage\<close> is its length in bytes and the document it decodes to.
\<close>

section \<open>Values\<close>

text \<open>
  The values of JSON columns. The numbers the program itself writes are integers; a number in a document
  that a caller supplied may be another one, and is kept as its text.
\<close>

datatype json = JNull | JBool bool | JNum int | JReal string | JStr string | JArr "json list" | JObj "(string \<times> json) list"

text \<open>
  \<open>json.Marshal\<close> of such a value. The encoder writes ASCII and the bytes of other UTF-8 text as they
  are, except for the quote, the backslash, control characters, the three characters that are
  special in HTML and the line separators U+2028 and U+2029, which it escapes.
\<close>

definition unicode_escape :: "nat \<Rightarrow> string" where
  "unicode_escape n = [CHR 0x5C] @ ''u'' @ hex_encode [of_nat (n div 256), of_nat (n mod 256)]"

fun json_escape :: "string \<Rightarrow> string" where
  "json_escape [] = []"
| "json_escape (c # cs) =
     (let n = (of_char c :: nat) in
      if n = 226 \<and> map of_char (take 2 cs) = [128 :: nat, 168] then unicode_escape 0x2028 @ json_escape (drop 2 cs)
      else if n = 226 \<and> map of_char (take 2 cs) = [128 :: nat, 169] then unicode_escape 0x2029 @ json_escape (drop 2 cs)
      else
        (if n = 34 \<or> n = 92 then [CHR 0x5C, c]
         else if n = 8 then [CHR 0x5C] @ ''b'' else if n = 9 then [CHR 0x5C] @ ''t'' else if n = 10 then [CHR 0x5C] @ ''n''
         else if n = 12 then [CHR 0x5C] @ ''f'' else if n = 13 then [CHR 0x5C] @ ''r''
         else if n < 32 \<or> n = 38 \<or> n = 60 \<or> n = 62 then unicode_escape n
         else [c]) @ json_escape cs)"

definition json_string :: "string \<Rightarrow> string" where
  "json_string s = [CHR 0x22] @ json_escape s @ [CHR 0x22]"

fun join :: "string \<Rightarrow> string list \<Rightarrow> string" where
  "join separator [] = []"
| "join separator [s] = s"
| "join separator (s # rest) = s @ separator @ join separator rest"

fun json_text :: "json \<Rightarrow> string" where
  "json_text JNull = ''null''"
| "json_text (JBool b) = (if b then ''true'' else ''false'')"
| "json_text (JNum i) = FormatInt i"
| "json_text (JReal s) = s"
| "json_text (JStr s) = json_string s"
| "json_text (JArr vs) = ''['' @ join '','' (map json_text vs) @ '']''"
| "json_text (JObj kvs) = ''{'' @ join '','' (map (\<lambda>(k, v). json_string k @ '':'' @ json_text v) kvs) @ ''}''"

section \<open>Decoding\<close>

text \<open>
  A \<open>json.RawMessage\<close>: the number of its bytes, and what they decode to, \<open>None\<close> when \<open>json.Valid\<close>
  refuses them.
\<close>

record RawMessage =
  raw_length :: nat
  raw_value :: "json option"

text \<open>
  \<open>json.Unmarshal\<close> into a \<open>map[string]json.RawMessage\<close>: the fields of an object, the last one of equal keys.
  \<open>None\<close> stands for an error and for the nil map, which a null leaves.
\<close>

definition json_fields :: "json option \<Rightarrow> (string \<rightharpoonup> json) option" where
  "json_fields v = (case v of Some (JObj kvs) \<Rightarrow> Some (map_of (rev kvs)) | _ \<Rightarrow> None)"

definition json_keys :: "json option \<Rightarrow> string list" where
  "json_keys v = (case v of Some (JObj kvs) \<Rightarrow> remdups (map fst kvs) | _ \<Rightarrow> [])"

text \<open>\<open>json.Unmarshal\<close> of a field into a string: null leaves the empty string, other types are errors.\<close>

definition json_string_value :: "json \<Rightarrow> string option" where
  "json_string_value v = (case v of JStr s \<Rightarrow> Some s | JNull \<Rightarrow> Some [] | _ \<Rightarrow> None)"

text \<open>\<open>payload->>'key'\<close> of PostgreSQL for a text field.\<close>

definition json_text_field :: "string \<Rightarrow> json \<Rightarrow> string option" where
  "json_text_field key v =
     (case json_fields (Some v) of
        None \<Rightarrow> None
      | Some m \<Rightarrow> (case m key of Some (JStr s) \<Rightarrow> Some s | Some JNull \<Rightarrow> None | Some w \<Rightarrow> Some (json_text w) | None \<Rightarrow> None))"

lemma json_keys_dom: "json_fields v = Some m \<Longrightarrow> set (json_keys v) = dom m"
proof -
  assume "json_fields v = Some m"
  then obtain kvs where "v = Some (JObj kvs)" "m = map_of (rev kvs)"
    by (auto simp: json_fields_def split: option.splits json.splits)
  then show ?thesis by (simp add: json_keys_def dom_map_of_conv_image_fst)
qed

end
