(* ===== verification/Agents.thy ===== *)
theory Agents
  imports Lifecycle Json "HOL-Library.Multiset"
begin

text \<open>
  The agent registry's domain: agents (internal/domain/agent.go), immutable agent versions with their
  canonical manifest and content digest (agent\_version.go), and the decisions on a version
  (agent\_approval.go). Decoding a manifest from JSON (\<open>ParseAgentManifest\<close>) is not modelled.
\<close>

section \<open>Agents\<close>

datatype AgentRiskClass = AgentRiskLow | AgentRiskMedium | AgentRiskHigh | AgentRiskCritical | AgentRiskClassOther string

datatype AgentStatus = AgentActive | AgentSuspended | AgentRetired | AgentStatusOther string

definition AgentRiskClass_Valid :: "AgentRiskClass \<Rightarrow> bool" where
  "AgentRiskClass_Valid risk \<longleftrightarrow> (case risk of AgentRiskClassOther _ \<Rightarrow> False | _ \<Rightarrow> True)"

definition AgentStatus_Valid :: "AgentStatus \<Rightarrow> bool" where
  "AgentStatus_Valid status \<longleftrightarrow> (case status of AgentStatusOther _ \<Rightarrow> False | _ \<Rightarrow> True)"

record Agent =
  agent_ID :: ID
  agent_TenantID :: ID
  agent_Name :: string
  agent_Description :: string
  agent_OwnerPrincipalID :: ID
  agent_SponsorPrincipalID :: ID
  agent_RiskClass :: AgentRiskClass
  agent_Status :: AgentStatus
  agent_CreatedAt :: Time
  agent_UpdatedAt :: Time

definition Agent_Validate :: "Agent \<Rightarrow> unit result" where
  "Agent_Validate agent =
     (if IsZero (agent_ID agent) \<or> IsZero (agent_TenantID agent) \<or> IsZero (agent_OwnerPrincipalID agent)
         \<or> IsZero (agent_SponsorPrincipalID agent)
      then Inl (New ''agent identifiers must be set'')
      else if agent_OwnerPrincipalID agent = agent_SponsorPrincipalID agent
      then Inl (New ''agent owner and sponsor must be different principals'')
      else if agent_Name agent \<noteq> trim_space (agent_Name agent) \<or> length (agent_Name agent) < 1 \<or> length (agent_Name agent) > 200
      then Inl (New ''agent name must contain 1 to 200 trimmed characters'')
      else if length (agent_Description agent) > 2048 then Inl (New ''agent description exceeds 2048 characters'')
      else if \<not> AgentRiskClass_Valid (agent_RiskClass agent) \<or> \<not> AgentStatus_Valid (agent_Status agent)
      then Inl (New ''agent risk class or status is invalid'')
      else case RequireUTC (agent_CreatedAt agent) of
        Inl _ \<Rightarrow> Inl (New ''agent creation time must be a non-zero UTC timestamp'')
      | Inr created \<Rightarrow>
          if IsZeroTime created then Inl (New ''agent creation time must be a non-zero UTC timestamp'')
          else case RequireUTC (agent_UpdatedAt agent) of
            Inl _ \<Rightarrow> Inl (New ''agent update time must be UTC and not precede creation'')
          | Inr updated \<Rightarrow>
              if Before updated created then Inl (New ''agent update time must be UTC and not precede creation'') else Inr ())"

definition CanTransitionTo :: "Agent \<Rightarrow> AgentStatus \<Rightarrow> bool" where
  "CanTransitionTo agent to =
     (if \<not> AgentStatus_Valid to then False
      else if agent_Status agent = AgentRetired then to = AgentRetired else True)"

section \<open>Declarations\<close>

definition asciiAlphanumeric :: "char \<Rightarrow> bool" where
  "asciiAlphanumeric c \<longleftrightarrow> is_upper c \<or> is_lower c \<or> is_digit c"

text \<open>
  The source ranges over runes. A rune beyond ASCII is refused in an identifier and accepted elsewhere, and its
  UTF-8 bytes are all beyond ASCII, so the test on bytes is the same.
\<close>

definition validDeclaration :: "string \<Rightarrow> nat \<Rightarrow> bool \<Rightarrow> bool" where
  "validDeclaration v maxLength identifier =
     (if length v < 1 \<or> length v > maxLength \<or> trim_space v \<noteq> v then False
      else list_all (\<lambda>(index, c).
        if identifier
        then \<not> (index = 0 \<and> \<not> asciiAlphanumeric c \<or> index > 0 \<and> \<not> asciiAlphanumeric c \<and> c \<notin> set ''._:-'')
        else \<not> ((of_char c :: nat) < 0x21 \<or> (of_char c :: nat) = 0x7f)) (enumerate 0 v))"

definition normalizeStrings :: "string list option \<Rightarrow> string list option" where
  "normalizeStrings vs = (case vs of None \<Rightarrow> Some [] | Some vs \<Rightarrow> Some (sort vs))"

section \<open>Manifests\<close>

definition AgentManifestSchemaVersion :: int where
  "AgentManifestSchemaVersion = 1"

record AgentLimits =
  MaxExecutionTimeSeconds :: "int option"
  MaxBudgetUSDMicrounits :: "int option"
  MaxLLMTokens :: "int option"
  MaxToolCalls :: "int option"
  MaxToolCallsPerMinute :: "int option"
  MaxActiveChildren :: "int option"
  MaxTotalChildren :: "int option"
  MaxDelegationDepth :: "int option"

text \<open>A declaration array is \<open>None\<close> when it is nil.\<close>

record AgentManifest =
  SchemaVersion :: int
  Image :: string
  Models :: "string list option"
  Tools :: "string list option"
  Skills :: "string list option"
  Subagents :: "string list option"
  Limits :: AgentLimits

text \<open>The index of the last \<open>@sha256:\<close> in the reference.\<close>

definition LastIndex :: "string \<Rightarrow> string \<Rightarrow> nat option" where
  "LastIndex s p =
     (case filter (\<lambda>i. has_prefix (drop i s) p) [0..<length s] of [] \<Rightarrow> None | is \<Rightarrow> Some (last is))"

definition ImageDigest :: "string \<Rightarrow> string result" where
  "ImageDigest reference =
     (if length reference < 73 \<or> length reference > 1024 \<or> trim_space reference \<noteq> reference
      then Inl (New ''agent image must be a bounded digest-pinned reference'')
      else case LastIndex reference ''@sha256:'' of
        None \<Rightarrow> Inl (New ''agent image must end in a sha256 digest'')
      | Some index \<Rightarrow>
          if index < 1 \<or> index + 8 + 64 \<noteq> length reference then Inl (New ''agent image must end in a sha256 digest'')
          else if list_ex (\<lambda>c. (of_char c :: nat) < 0x21 \<or> (of_char c :: nat) > 0x7e) (take index reference)
          then Inl (New ''agent image repository is invalid'')
          else
            let digest = drop (index + 1) reference in
            if list_ex (\<lambda>c. \<not> is_lower_hex c) (drop 7 digest)
            then Inl (New ''agent image digest must be lowercase hexadecimal'') else Inr digest)"

definition limit_bounds :: "AgentLimits \<Rightarrow> (int option \<times> int \<times> string \<times> bool) list" where
  "limit_bounds limits =
     [(MaxExecutionTimeSeconds limits, 604800, ''max_execution_time_seconds'', False),
      (MaxBudgetUSDMicrounits limits, MaxInt64, ''max_budget_usd_microunits'', True),
      (MaxLLMTokens limits, MaxInt64, ''max_llm_tokens'', True),
      (MaxToolCalls limits, MaxInt64, ''max_tool_calls'', True),
      (MaxToolCallsPerMinute limits, MaxInt64, ''max_tool_calls_per_minute'', True),
      (MaxActiveChildren limits, MaxInt64, ''max_active_children'', True),
      (MaxTotalChildren limits, MaxInt64, ''max_total_children'', True),
      (MaxDelegationDepth limits, MaxInt64, ''max_delegation_depth'', True)]"

definition AgentLimits_Validate :: "AgentLimits \<Rightarrow> unit result" where
  "AgentLimits_Validate limits =
     (case List.find (\<lambda>(v, mx, name, zero). case v of None \<Rightarrow> False | Some x \<Rightarrow> x < 0 \<or> \<not> zero \<and> x = 0 \<or> x > mx) (limit_bounds limits) of
        Some (v, mx, name, zero) \<Rightarrow> Inl (New (''agent limit '' @ name @ '' is outside its allowed range''))
      | None \<Rightarrow>
          (case (MaxActiveChildren limits, MaxTotalChildren limits) of
             (Some active, Some all) \<Rightarrow>
               if active > all then Inl (New ''max_active_children cannot exceed max_total_children'') else Inr ()
           | _ \<Rightarrow> Inr ()))"

text \<open>The loop over one declaration array: every value valid and greater than the previous one.\<close>

fun check_declarations :: "string \<Rightarrow> nat \<Rightarrow> bool \<Rightarrow> string \<Rightarrow> string list \<Rightarrow> unit result" where
  "check_declarations name maxLen identifier previous [] = Inr ()"
| "check_declarations name maxLen identifier previous (v # vs) =
     (if \<not> validDeclaration v maxLen identifier
      then Inl (New (''agent manifest '' @ name @ '' contains an invalid declaration''))
      else if v \<le> previous then Inl (New (''agent manifest '' @ name @ '' must be sorted and unique''))
      else check_declarations name maxLen identifier v vs)"

definition check_declaration_array :: "string \<times> string list \<times> nat \<times> bool \<Rightarrow> unit result" where
  "check_declaration_array d =
     (case d of (name, vs, maxLen, identifier) \<Rightarrow>
        if length vs > 100 then Inl (New (''agent manifest '' @ name @ '' exceeds 100 declarations''))
        else check_declarations name maxLen identifier [] vs)"

definition AgentManifest_Validate :: "AgentManifest \<Rightarrow> unit result" where
  "AgentManifest_Validate manifest =
     (if SchemaVersion manifest \<noteq> AgentManifestSchemaVersion then Inl (New ''unsupported agent manifest schema version'')
      else and_then (ImageDigest (Image manifest)) (\<lambda>_.
        case (Models manifest, Tools manifest, Skills manifest, Subagents manifest) of
          (Some models, Some tools, Some skills, Some subagents) \<Rightarrow>
            and_then (fold_result (\<lambda>d _. check_declaration_array d)
              [(''models'', models, 128, True), (''tools'', tools, 128, True), (''skills'', skills, 1024, False),
               (''subagents'', subagents, 128, True)] ()) (\<lambda>_.
              AgentLimits_Validate (Limits manifest))
        | _ \<Rightarrow> Inl (New ''agent manifest declaration arrays are required'')))"

definition NewAgentManifest ::
  "string \<Rightarrow> string list option \<Rightarrow> string list option \<Rightarrow> string list option \<Rightarrow> string list option \<Rightarrow> AgentLimits \<Rightarrow> AgentManifest result" where
  "NewAgentManifest reference models tools skills subagents limits =
     (let manifest = \<lparr>SchemaVersion = AgentManifestSchemaVersion, Image = reference, Models = normalizeStrings models,
            Tools = normalizeStrings tools, Skills = normalizeStrings skills, Subagents = normalizeStrings subagents, Limits = limits\<rparr>
      in and_then (AgentManifest_Validate manifest) (\<lambda>_. Inr manifest))"

text \<open>\<open>json.Marshal\<close> of the manifest: the fields in the order of the struct, absent limits omitted.\<close>

definition limit_field :: "string \<Rightarrow> int option \<Rightarrow> (string \<times> json) list" where
  "limit_field name v = (case v of None \<Rightarrow> [] | Some x \<Rightarrow> [(name, JNum x)])"

definition limits_json :: "AgentLimits \<Rightarrow> json" where
  "limits_json limits = JObj (concat (map (\<lambda>(v, mx, name, zero). limit_field name v) (limit_bounds limits)))"

definition strings_json :: "string list option \<Rightarrow> json" where
  "strings_json vs = (case vs of None \<Rightarrow> JNull | Some vs \<Rightarrow> JArr (map JStr vs))"

definition manifest_json :: "AgentManifest \<Rightarrow> json" where
  "manifest_json m =
     JObj [(''schema_version'', JNum (SchemaVersion m)), (''image'', JStr (Image m)), (''models'', strings_json (Models m)),
           (''tools'', strings_json (Tools m)), (''skills'', strings_json (Skills m)), (''subagents'', strings_json (Subagents m)),
           (''limits'', limits_json (Limits m))]"

definition CanonicalJSON :: "AgentManifest \<Rightarrow> string result" where
  "CanonicalJSON manifest = and_then (AgentManifest_Validate manifest) (\<lambda>_. Inr (json_text (manifest_json manifest)))"

definition Manifest_ContentDigest :: "(string \<Rightarrow> byte list) \<Rightarrow> AgentManifest \<Rightarrow> string result" where
  "Manifest_ContentDigest sha256 manifest =
     and_then (CanonicalJSON manifest) (\<lambda>canonical. Inr (''sha256:'' @ hex_encode (sha256 canonical)))"

section \<open>Versions\<close>

record AgentVersion =
  ver_ID :: ID
  ver_TenantID :: ID
  ver_AgentID :: ID
  ver_CreatedBy :: ID
  ver_ContentDigest :: string
  ver_ImageDigest :: string
  ver_Manifest :: AgentManifest
  ver_CreatedAt :: Time

datatype AgentCapabilityType = CapabilityModel | CapabilityTool | CapabilitySkill | CapabilitySubagent

record AgentCapability =
  cap_ID :: ID
  cap_TenantID :: ID
  cap_AgentID :: ID
  cap_AgentVersionID :: ID
  cap_Type :: AgentCapabilityType
  cap_Identifier :: string
  cap_CreatedAt :: Time

definition AgentVersion_Validate :: "(string \<Rightarrow> byte list) \<Rightarrow> AgentVersion \<Rightarrow> unit result" where
  "AgentVersion_Validate sha256 version =
     (if IsZero (ver_ID version) \<or> IsZero (ver_TenantID version) \<or> IsZero (ver_AgentID version) \<or> IsZero (ver_CreatedBy version)
      then Inl (New ''agent version identifiers must be set'')
      else case RequireUTC (ver_CreatedAt version) of
        Inl _ \<Rightarrow> Inl (New ''agent version creation time must be a non-zero UTC timestamp'')
      | Inr _ \<Rightarrow>
          if IsZeroTime (ver_CreatedAt version) then Inl (New ''agent version creation time must be a non-zero UTC timestamp'')
          else if Manifest_ContentDigest sha256 (ver_Manifest version) \<noteq> Inr (ver_ContentDigest version)
          then Inl (New ''agent version content digest does not match its canonical manifest'')
          else if ImageDigest (Image (ver_Manifest version)) \<noteq> Inr (ver_ImageDigest version)
          then Inl (New ''agent version image digest does not match its manifest'') else Inr ())"

definition capability_groups :: "AgentManifest \<Rightarrow> (AgentCapabilityType \<times> string) list" where
  "capability_groups m =
     map (Pair CapabilityModel) (case_option [] id (Models m)) @ map (Pair CapabilityTool) (case_option [] id (Tools m)) @
     map (Pair CapabilitySkill) (case_option [] id (Skills m)) @ map (Pair CapabilitySubagent) (case_option [] id (Subagents m))"

definition Capabilities :: "AgentVersion \<Rightarrow> ID list \<Rightarrow> AgentCapability list result" where
  "Capabilities version ids =
     (let groups = capability_groups (ver_Manifest version) in
      if length ids \<noteq> length groups then Inl (New ''capability ID count does not match manifest'')
      else Inr (map (\<lambda>(i, type, identifier).
        \<lparr>cap_ID = i, cap_TenantID = ver_TenantID version, cap_AgentID = ver_AgentID version, cap_AgentVersionID = ver_ID version,
         cap_Type = type, cap_Identifier = identifier, cap_CreatedAt = ver_CreatedAt version\<rparr>) (zip ids groups)))"

section \<open>Decisions\<close>

datatype AgentVersionDecision = DecisionApprove | DecisionReject | DecisionDeprecate | DecisionRevoke | DecisionOther string

datatype AgentVersionState =
    AgentVersionRegistered | AgentVersionApproved | AgentVersionRejected | AgentVersionDeprecated | AgentVersionRevoked
  | AgentVersionStateOther string

definition AgentVersionDecision_Valid :: "AgentVersionDecision \<Rightarrow> bool" where
  "AgentVersionDecision_Valid d \<longleftrightarrow> (case d of DecisionOther _ \<Rightarrow> False | _ \<Rightarrow> True)"

fun CanApply :: "AgentVersionState \<Rightarrow> AgentVersionDecision \<Rightarrow> bool" where
  "CanApply AgentVersionRegistered d = (d = DecisionApprove \<or> d = DecisionReject)"
| "CanApply AgentVersionApproved d = (d = DecisionDeprecate \<or> d = DecisionRevoke)"
| "CanApply AgentVersionDeprecated d = (d = DecisionRevoke)"
| "CanApply _ d = False"

text \<open>\<open>decision.State()\<close>: the state of the same text.\<close>

fun Decision_State :: "AgentVersionDecision \<Rightarrow> AgentVersionState" where
  "Decision_State DecisionApprove = AgentVersionApproved"
| "Decision_State DecisionReject = AgentVersionRejected"
| "Decision_State DecisionDeprecate = AgentVersionDeprecated"
| "Decision_State DecisionRevoke = AgentVersionRevoked"
| "Decision_State (DecisionOther s) = AgentVersionStateOther s"

record AgentVersionApproval =
  appr_ID :: ID
  appr_TenantID :: ID
  appr_AgentID :: ID
  appr_AgentVersionID :: ID
  appr_ActorPrincipalID :: ID
  appr_PolicyDecisionID :: ID
  appr_Decision :: AgentVersionDecision
  appr_ReasonCode :: string
  appr_ApprovalReference :: string
  appr_CreatedAt :: Time

definition AgentVersionApproval_Validate :: "AgentVersionApproval \<Rightarrow> unit result" where
  "AgentVersionApproval_Validate a =
     (if IsZero (appr_ID a) \<or> IsZero (appr_TenantID a) \<or> IsZero (appr_AgentID a) \<or> IsZero (appr_AgentVersionID a)
         \<or> IsZero (appr_ActorPrincipalID a) \<or> IsZero (appr_PolicyDecisionID a)
      then Inl (New ''agent version approval identifiers must be set'')
      else if \<not> AgentVersionDecision_Valid (appr_Decision a) \<or> \<not> validDeclaration (appr_ReasonCode a) 128 True
      then Inl (New ''agent version approval decision or reason code is invalid'')
      else if length (appr_ApprovalReference a) > 512 \<or> trim_space (appr_ApprovalReference a) \<noteq> appr_ApprovalReference a
      then Inl (New ''agent version approval reference is invalid'')
      else case RequireUTC (appr_CreatedAt a) of
        Inl _ \<Rightarrow> Inl (New ''agent version approval time must be a non-zero UTC timestamp'')
      | Inr _ \<Rightarrow>
          if IsZeroTime (appr_CreatedAt a) then Inl (New ''agent version approval time must be a non-zero UTC timestamp'') else Inr ())"

section \<open>Facts\<close>

lemma check_declarations_Inr:
  "check_declarations name n identifier previous vs = Inr () \<longleftrightarrow>
     list_all (\<lambda>v. validDeclaration v n identifier) vs \<and> sorted_wrt (<) (previous # vs)"
proof (induction vs arbitrary: previous)
  case (Cons v vs)
  have "sorted_wrt (<) (previous # v # vs) \<longleftrightarrow> previous < v \<and> sorted_wrt (<) (v # vs)"
    by (auto intro: less_trans)
  then show ?case using Cons by (auto simp: not_le)
qed simp

lemma declaration_nonempty: "validDeclaration v n identifier \<Longrightarrow> v \<noteq> []"
  by (auto simp: validDeclaration_def split: if_splits)

lemma check_declaration_array_Inr:
  "check_declaration_array (name, vs, n, identifier) = Inr () \<longleftrightarrow>
     length vs \<le> 100 \<and> list_all (\<lambda>v. validDeclaration v n identifier) vs \<and> sorted_wrt (<) vs"
proof -
  have "[] < v" if "validDeclaration v n identifier" for v
    using declaration_nonempty[OF that] by (cases v) auto
  then show ?thesis
    by (auto simp: check_declaration_array_def check_declarations_Inr list_all_iff)
qed

lemma AgentManifest_Validate_Inr:
  "AgentManifest_Validate m = Inr () \<longleftrightarrow>
     SchemaVersion m = AgentManifestSchemaVersion \<and> (\<exists>d. ImageDigest (Image m) = Inr d) \<and>
     (\<exists>models tools skills subagents. Models m = Some models \<and> Tools m = Some tools \<and> Skills m = Some skills \<and> Subagents m = Some subagents \<and>
        check_declaration_array (''models'', models, 128, True) = Inr () \<and> check_declaration_array (''tools'', tools, 128, True) = Inr () \<and>
        check_declaration_array (''skills'', skills, 1024, False) = Inr () \<and> check_declaration_array (''subagents'', subagents, 128, True) = Inr ()) \<and>
     AgentLimits_Validate (Limits m) = Inr ()"
  by (auto simp: AgentManifest_Validate_def and_then_Inr split: option.splits)

lemma normalizeStrings_mset:
  "mset vs = mset ws \<Longrightarrow> normalizeStrings (Some vs) = normalizeStrings (Some ws)"
  by (simp add: normalizeStrings_def) (metis mset_sort sort_key_simps sorted_sort sorted_sort_id properties_for_sort)

section \<open>Properties\<close>

text \<open>
  C38: a manifest does not depend on the order of its declarations. Two requests with the same models,
  tools, skills and subagents, each in any order, give the same manifest, hence the same content digest, or
  the same error; and a manifest that is accepted lists every array sorted and without duplicates, has a digest, and
  is accepted unchanged when it is built again from its own fields.
\<close>

theorem manifest_canonical:
  assumes "mset models = mset models'" "mset tools = mset tools'" "mset skills = mset skills'" "mset subagents = mset subagents'"
  shows "NewAgentManifest ref (Some models) (Some tools) (Some skills) (Some subagents) limits =
      NewAgentManifest ref (Some models') (Some tools') (Some skills') (Some subagents') limits \<and>
    (\<forall>m. NewAgentManifest ref (Some models) (Some tools) (Some skills) (Some subagents) limits = Inr m \<longrightarrow>
       (\<exists>ms ts ks as. Models m = Some ms \<and> Tools m = Some ts \<and> Skills m = Some ks \<and> Subagents m = Some as \<and>
          sorted_wrt (<) ms \<and> sorted_wrt (<) ts \<and> sorted_wrt (<) ks \<and> sorted_wrt (<) as \<and>
          mset ms = mset models \<and> mset ts = mset tools \<and> mset ks = mset skills \<and> mset as = mset subagents) \<and>
       (\<exists>d. Manifest_ContentDigest sha256 m = Inr d) \<and>
       NewAgentManifest (Image m) (Models m) (Tools m) (Skills m) (Subagents m) (Limits m) = Inr m)"
proof -
  let ?new = "NewAgentManifest ref (Some models) (Some tools) (Some skills) (Some subagents) limits"
  have "?new = NewAgentManifest ref (Some models') (Some tools') (Some skills') (Some subagents') limits"
    unfolding NewAgentManifest_def Let_def using assms[THEN normalizeStrings_mset] by simp
  moreover {
    fix m assume new: "?new = Inr m"
    then have v: "AgentManifest_Validate m = Inr ()" and m: "m = \<lparr>SchemaVersion = AgentManifestSchemaVersion, Image = ref,
        Models = Some (sort models), Tools = Some (sort tools), Skills = Some (sort skills), Subagents = Some (sort subagents), Limits = limits\<rparr>"
      by (auto simp: NewAgentManifest_def Let_def and_then_Inr normalizeStrings_def)
    have "sorted_wrt (<) (sort models)" "sorted_wrt (<) (sort tools)" "sorted_wrt (<) (sort skills)" "sorted_wrt (<) (sort subagents)"
      using v by (auto simp: AgentManifest_Validate_Inr check_declaration_array_Inr m)
    moreover have "\<exists>d. Manifest_ContentDigest sha256 m = Inr d"
      using v by (simp add: Manifest_ContentDigest_def CanonicalJSON_def)
    moreover have "NewAgentManifest (Image m) (Models m) (Tools m) (Skills m) (Subagents m) (Limits m) = Inr m"
      using v by (simp add: NewAgentManifest_def normalizeStrings_def Let_def m sorted_sort_id)
    ultimately have "(\<exists>ms ts ks as. Models m = Some ms \<and> Tools m = Some ts \<and> Skills m = Some ks \<and> Subagents m = Some as \<and>
          sorted_wrt (<) ms \<and> sorted_wrt (<) ts \<and> sorted_wrt (<) ks \<and> sorted_wrt (<) as \<and>
          mset ms = mset models \<and> mset ts = mset tools \<and> mset ks = mset skills \<and> mset as = mset subagents) \<and>
       (\<exists>d. Manifest_ContentDigest sha256 m = Inr d) \<and>
       NewAgentManifest (Image m) (Models m) (Tools m) (Skills m) (Subagents m) (Limits m) = Inr m"
      by (simp add: m)
  }
  ultimately show ?thesis by blast
qed

text \<open>
  A valid version declares every capability once. Given one identifier per declaration, the
  capabilities of the version are exactly its declarations, no type and identifier twice, each bound
  to the version; any other number of identifiers is refused.
\<close>

theorem capabilities_of_version:
  assumes "AgentVersion_Validate sha256 v = Inr ()" "distinct ids"
  shows "case Capabilities v ids of
      Inl _ \<Rightarrow> length ids \<noteq> length (capability_groups (ver_Manifest v))
    | Inr caps \<Rightarrow> map cap_ID caps = ids \<and> map (\<lambda>c. (cap_Type c, cap_Identifier c)) caps = capability_groups (ver_Manifest v) \<and>
        distinct (map (\<lambda>c. (cap_AgentVersionID c, cap_Type c, cap_Identifier c)) caps) \<and>
        (\<forall>c \<in> set caps. cap_TenantID c = ver_TenantID v \<and> cap_AgentVersionID c = ver_ID v)"
proof (cases "length ids = length (capability_groups (ver_Manifest v))")
  case True
  let ?groups = "capability_groups (ver_Manifest v)"
  have "AgentManifest_Validate (ver_Manifest v) = Inr ()"
    using assms(1) by (auto simp: AgentVersion_Validate_def Manifest_ContentDigest_def CanonicalJSON_def and_then_Inr split: if_splits sum.splits)
  then obtain ms ts ks as where d: "Models (ver_Manifest v) = Some ms" "Tools (ver_Manifest v) = Some ts" "Skills (ver_Manifest v) = Some ks"
      "Subagents (ver_Manifest v) = Some as" "distinct ms" "distinct ts" "distinct ks" "distinct as"
    by (auto simp: AgentManifest_Validate_Inr check_declaration_array_Inr strict_sorted_iff)
  then have "distinct ?groups"
    by (auto simp: capability_groups_def distinct_map inj_on_def)
  moreover obtain caps where caps: "Capabilities v ids = Inr caps" using True by (simp add: Capabilities_def Let_def)
  moreover have "map (\<lambda>c. (cap_Type c, cap_Identifier c)) caps = ?groups" "map cap_ID caps = ids"
    using caps True by (auto simp: Capabilities_def Let_def split: prod.splits intro!: nth_equalityI)
  moreover have "\<forall>c \<in> set caps. cap_TenantID c = ver_TenantID v \<and> cap_AgentVersionID c = ver_ID v"
    using caps True by (auto simp: Capabilities_def Let_def)
  moreover have "distinct (map (\<lambda>c. (cap_AgentVersionID c, cap_Type c, cap_Identifier c)) caps)"
  proof -
    have "map (\<lambda>c. (cap_AgentVersionID c, cap_Type c, cap_Identifier c)) caps = map (Pair (ver_ID v)) (map (\<lambda>c. (cap_Type c, cap_Identifier c)) caps)"
      using calculation(5) by simp
    then show ?thesis using calculation(1,3) by (simp add: distinct_map inj_on_def)
  qed
  ultimately show ?thesis by simp
qed (simp add: Capabilities_def)

text \<open>The state after a sequence of decisions, each applied only where it is allowed.\<close>

fun decided :: "AgentVersionState \<Rightarrow> AgentVersionDecision list \<Rightarrow> AgentVersionState option" where
  "decided s [] = Some s"
| "decided s (d # ds) = (if CanApply s d then decided (Decision_State d) ds else None)"

text \<open>
  The life of a version. From its registration exactly six sequences of decisions are possible: a version
  is approved at most once, a rejected or revoked version stays so, and a deprecated one can only be revoked, so
  no version is ever approved again after it was withdrawn.
\<close>

theorem version_decisions:
  "decided AgentVersionRegistered ds = Some s \<longleftrightarrow>
     (ds, s) \<in> {([], AgentVersionRegistered), ([DecisionReject], AgentVersionRejected), ([DecisionApprove], AgentVersionApproved),
       ([DecisionApprove, DecisionDeprecate], AgentVersionDeprecated), ([DecisionApprove, DecisionRevoke], AgentVersionRevoked),
       ([DecisionApprove, DecisionDeprecate, DecisionRevoke], AgentVersionRevoked)}"
proof -
  have stuck: "decided AgentVersionRejected ds = Some s \<longleftrightarrow> ds = [] \<and> s = AgentVersionRejected"
    "decided AgentVersionRevoked ds = Some s \<longleftrightarrow> ds = [] \<and> s = AgentVersionRevoked" for ds
    by (cases ds; auto)+
  have deprecated: "decided AgentVersionDeprecated ds = Some s \<longleftrightarrow>
      ds = [] \<and> s = AgentVersionDeprecated \<or> ds = [DecisionRevoke] \<and> s = AgentVersionRevoked" for ds
    by (cases ds) (auto simp: stuck)
  have approved: "decided AgentVersionApproved ds = Some s \<longleftrightarrow> ds = [] \<and> s = AgentVersionApproved \<or> ds = [DecisionRevoke] \<and> s = AgentVersionRevoked \<or>
      ds = [DecisionDeprecate] \<and> s = AgentVersionDeprecated \<or> ds = [DecisionDeprecate, DecisionRevoke] \<and> s = AgentVersionRevoked" for ds
    by (cases ds) (auto simp: stuck deprecated)
  show ?thesis by (cases ds) (auto simp: stuck approved)
qed


section \<open>Witnesses\<close>

definition demo_limits :: AgentLimits where
  "demo_limits = \<lparr>MaxExecutionTimeSeconds = Some 60, MaxBudgetUSDMicrounits = None, MaxLLMTokens = Some 1000, MaxToolCalls = None,
     MaxToolCallsPerMinute = None, MaxActiveChildren = Some 1, MaxTotalChildren = Some 2, MaxDelegationDepth = None\<rparr>"

definition demo_image :: string where
  "demo_image = ''registry/agent@sha256:'' @ replicate 64 (CHR ''a'')"

definition demo_manifest :: AgentManifest where
  "demo_manifest = \<lparr>SchemaVersion = 1, Image = demo_image, Models = Some [''gpt'', ''llama''], Tools = Some [''search''], Skills = Some [],
     Subagents = Some [], Limits = demo_limits\<rparr>"

lemma demo_image_digest: "ImageDigest demo_image = Inr (''sha256:'' @ replicate 64 (CHR ''a''))"
  by code_simp

lemma demo_manifest_valid: "AgentManifest_Validate demo_manifest = Inr ()"
proof -
  have "check_declaration_array (''models'', [''gpt'', ''llama''], 128, True) = Inr ()" "check_declaration_array (''tools'', [''search''], 128, True) = Inr ()"
    "AgentLimits_Validate demo_limits = Inr ()"
    by code_simp+
  then show ?thesis
    by (simp add: AgentManifest_Validate_Inr demo_manifest_def demo_image_digest AgentManifestSchemaVersion_def check_declaration_array_def)
qed

lemma demo_manifest_new:
  "NewAgentManifest demo_image (Some [''llama'', ''gpt'']) (Some [''search'']) (Some []) (Some []) demo_limits = Inr demo_manifest"
  using demo_manifest_valid by (simp add: NewAgentManifest_def normalizeStrings_def demo_manifest_def AgentManifestSchemaVersion_def)

theorem manifest_canonical_witness:
  "NewAgentManifest demo_image (Some [''gpt'', ''llama'']) (Some [''search'']) (Some []) (Some []) demo_limits = Inr demo_manifest"
  using manifest_canonical[of "[''llama'', ''gpt'']" "[''gpt'', ''llama'']" "[''search'']" "[''search'']" "[]" "[]" "[]" "[]" demo_image demo_limits]
    demo_manifest_new by simp

definition demo_version :: AgentVersion where
  "demo_version = \<lparr>ver_ID = 1, ver_TenantID = 2, ver_AgentID = 3, ver_CreatedBy = 4,
     ver_ContentDigest = projr (Manifest_ContentDigest (\<lambda>_. replicate 32 0) demo_manifest), ver_ImageDigest = ''sha256:'' @ replicate 64 (CHR ''a''),
     ver_Manifest = demo_manifest, ver_CreatedAt = demo_time 10\<rparr>"

lemma demo_version_valid: "AgentVersion_Validate (\<lambda>_. replicate 32 0) demo_version = Inr ()"
proof -
  have "\<exists>d. Manifest_ContentDigest (\<lambda>_. replicate 32 0) demo_manifest = Inr d"
    using demo_manifest_valid by (simp add: Manifest_ContentDigest_def CanonicalJSON_def)
  then show ?thesis
    by (auto simp: AgentVersion_Validate_def demo_version_def IsZero_def RequireUTC_eq demo_time_def IsZeroTime_def zero_nano_def
        demo_manifest_def demo_image_digest)
qed

theorem capabilities_of_version_witness:
  "\<exists>caps. Capabilities demo_version [5, 6, 7] = Inr caps \<and>
     map (\<lambda>c. (cap_Type c, cap_Identifier c)) caps = [(CapabilityModel, ''gpt''), (CapabilityModel, ''llama''), (CapabilityTool, ''search'')]"
proof -
  have g: "capability_groups (ver_Manifest demo_version) = [(CapabilityModel, ''gpt''), (CapabilityModel, ''llama''), (CapabilityTool, ''search'')]"
    by (simp add: demo_version_def demo_manifest_def capability_groups_def)
  show ?thesis
    using capabilities_of_version[OF demo_version_valid, of "[5, 6, 7]"] unfolding g
    by (simp split: sum.splits)
qed

end
