(* ===== verification/Revocation.thy ===== *)
theory Revocation
  imports Lifecycle
begin

text \<open>
  Revocations (internal/domain/revocation.go): what is revoked, the validation of a revocation and of
  its lifting, and the vector of epochs that every change advances.
\<close>

section \<open>Scopes\<close>

datatype RevocationScope =
    RevocationRunID | RevocationAgentID | RevocationAgentVersion | RevocationSkillDigest | RevocationPrincipalID
  | RevocationTenantID | RevocationToolID | RevocationPolicyVersion | RevocationGlobal | RevocationScopeOther string

definition RevocationScope_Valid :: "RevocationScope \<Rightarrow> bool" where
  "RevocationScope_Valid s \<longleftrightarrow> (case s of RevocationScopeOther _ \<Rightarrow> False | _ \<Rightarrow> True)"

fun RevocationScope_text :: "RevocationScope \<Rightarrow> string" where
  "RevocationScope_text RevocationRunID = ''RUN_ID''"
| "RevocationScope_text RevocationAgentID = ''AGENT_ID''"
| "RevocationScope_text RevocationAgentVersion = ''AGENT_VERSION''"
| "RevocationScope_text RevocationSkillDigest = ''SKILL_DIGEST''"
| "RevocationScope_text RevocationPrincipalID = ''PRINCIPAL_ID''"
| "RevocationScope_text RevocationTenantID = ''TENANT_ID''"
| "RevocationScope_text RevocationToolID = ''TOOL_ID''"
| "RevocationScope_text RevocationPolicyVersion = ''POLICY_VERSION''"
| "RevocationScope_text RevocationGlobal = ''GLOBAL''"
| "RevocationScope_text (RevocationScopeOther s) = s"

text \<open>The patterns \<open>^[a-z][a-z0-9._-]{0,127}$\<close> and \<open>^[A-Za-z0-9][A-Za-z0-9._:/-]{0,511}$\<close>.\<close>

definition revocationReasonPattern :: "string \<Rightarrow> bool" where
  "revocationReasonPattern = head_tail_pattern is_lower (\<lambda>c. is_lower c \<or> is_digit c \<or> c \<in> set ''._-'') 127"

definition revocationReferencePattern :: "string \<Rightarrow> bool" where
  "revocationReferencePattern = head_tail_pattern is_alnum (\<lambda>c. is_alnum c \<or> c \<in> set ''._:/-'') 511"

text \<open>EXPIRED is a change type of the table only; no operation writes it.\<close>

datatype RevocationChangeType = RevocationCreated | RevocationLifted | RevocationExpired

fun RevocationChangeType_text :: "RevocationChangeType \<Rightarrow> string" where
  "RevocationChangeType_text RevocationCreated = ''CREATED''"
| "RevocationChangeType_text RevocationLifted = ''LIFTED''"
| "RevocationChangeType_text RevocationExpired = ''EXPIRED''"

section \<open>Revocations\<close>

definition ErrInvalidRevocation :: goerror where
  "ErrInvalidRevocation = New ''invalid revocation''"

record Revocation =
  rvk_ID :: ID
  rvk_ActorPrincipalID :: ID
  rvk_TenantID :: "ID option"
  rvk_Scope :: RevocationScope
  rvk_Target :: string
  rvk_ReasonCode :: string
  rvk_DetailReference :: string
  rvk_ApprovalReference :: string
  rvk_EffectiveAt :: Time
  rvk_ExpiresAt :: "Time option"
  rvk_CreatedAt :: Time

definition ValidateRevocation :: "Revocation \<Rightarrow> Revocation result" where
  "ValidateRevocation v =
     (if IsZero (rvk_ID v) \<or> IsZero (rvk_ActorPrincipalID v) \<or> \<not> RevocationScope_Valid (rvk_Scope v)
         \<or> length (rvk_Target v) < 1 \<or> length (rvk_Target v) > 512 \<or> \<not> revocationReasonPattern (rvk_ReasonCode v)
         \<or> length (rvk_DetailReference v) > 1024 \<or> length (rvk_ApprovalReference v) > 512
         \<or> rvk_ApprovalReference v \<noteq> [] \<and> \<not> revocationReferencePattern (rvk_ApprovalReference v)
         \<or> (rvk_Scope v = RevocationGlobal) \<noteq> (rvk_TenantID v = None)
      then Inl ErrInvalidRevocation
      else case RequireUTC (rvk_EffectiveAt v) of
        Inl _ \<Rightarrow> Inl ErrInvalidRevocation
      | Inr effective \<Rightarrow>
          if IsZeroTime effective then Inl ErrInvalidRevocation
          else case RequireUTC (rvk_CreatedAt v) of
            Inl _ \<Rightarrow> Inl ErrInvalidRevocation
          | Inr created \<Rightarrow>
              if IsZeroTime created then Inl ErrInvalidRevocation
              else
                let v = v\<lparr>rvk_EffectiveAt := effective, rvk_CreatedAt := created\<rparr> in
                case rvk_ExpiresAt v of
                  None \<Rightarrow> Inr v
                | Some at \<Rightarrow>
                    (case RequireUTC at of
                       Inl _ \<Rightarrow> Inl ErrInvalidRevocation
                     | Inr expiry \<Rightarrow>
                         if \<not> After expiry effective then Inl ErrInvalidRevocation
                         else Inr (v\<lparr>rvk_ExpiresAt := Some expiry\<rparr>)))"

record RevocationLift =
  lift_RevocationID :: ID
  lift_ActorPrincipalID :: ID
  lift_TenantID :: "ID option"
  lift_ReasonCode :: string
  lift_ApprovalReference :: string
  lift_ChangedAt :: Time

definition ValidateRevocationLift :: "RevocationLift \<Rightarrow> RevocationLift result" where
  "ValidateRevocationLift v =
     (if IsZero (lift_RevocationID v) \<or> IsZero (lift_ActorPrincipalID v) \<or> \<not> revocationReasonPattern (lift_ReasonCode v)
         \<or> \<not> revocationReferencePattern (lift_ApprovalReference v)
      then Inl ErrInvalidRevocation
      else case RequireUTC (lift_ChangedAt v) of
        Inl _ \<Rightarrow> Inl ErrInvalidRevocation
      | Inr t \<Rightarrow> if IsZeroTime t then Inl ErrInvalidRevocation else Inr (v\<lparr>lift_ChangedAt := t\<rparr>))"

section \<open>Epochs\<close>

record EpochVector =
  Security :: int
  TenantPolicy :: int
  TenantRevocation :: int
  AgentRevocation :: int

record RevocationResult =
  rres_RevocationID :: ID
  rres_Revocation :: Revocation
  rres_State :: RevocationChangeType
  rres_Sequence :: int
  rres_Epochs :: EpochVector

text \<open>The componentwise order of the vectors.\<close>

definition epochs_le :: "EpochVector \<Rightarrow> EpochVector \<Rightarrow> bool" where
  "epochs_le a b \<longleftrightarrow>
     Security a \<le> Security b \<and> TenantPolicy a \<le> TenantPolicy b \<and> TenantRevocation a \<le> TenantRevocation b \<and>
     AgentRevocation a \<le> AgentRevocation b"

lemma epochs_le_refl [simp]: "epochs_le e e"
  by (simp add: epochs_le_def)

lemma epochs_le_trans: "epochs_le a b \<Longrightarrow> epochs_le b c \<Longrightarrow> epochs_le a c"
  by (auto simp: epochs_le_def)

lemma epochs_le_antisym: "epochs_le a b \<Longrightarrow> epochs_le b a \<Longrightarrow> a = (b :: EpochVector)"
  by (simp add: epochs_le_def)

section \<open>Facts\<close>

text \<open>What a validated revocation is: the argument with its times in UTC.\<close>

lemma ValidateRevocation_Inr:
  assumes "ValidateRevocation v = Inr w"
  shows "\<not> IsZero (rvk_ID w)" "RevocationScope_Valid (rvk_Scope w)" "rvk_Target w \<noteq> []" "length (rvk_Target w) \<le> 512"
    "(rvk_Scope w = RevocationGlobal) = (rvk_TenantID w = None)" "utc_time (rvk_EffectiveAt w)" "utc_time (rvk_CreatedAt w)"
    "\<And>t. rvk_ExpiresAt w = Some t \<Longrightarrow> utc_time t \<and> After t (rvk_EffectiveAt w)"
    "rvk_ID w = rvk_ID v" "rvk_Scope w = rvk_Scope v" "rvk_Target w = rvk_Target v" "rvk_TenantID w = rvk_TenantID v"
    "rvk_ActorPrincipalID w = rvk_ActorPrincipalID v" "rvk_ReasonCode w = rvk_ReasonCode v"
  using assms unfolding ValidateRevocation_def
  by (auto simp: Let_def split: if_splits sum.splits option.splits dest: RequireUTC_result)

end
