(* ===== verification/Store.thy ===== *)
theory Store
  imports Resources Agents Revocation
begin

text \<open>
  The relational store of the run and resource components: the tables of
  migrations/001\_create\_registry\_and\_policy.sql to 014\_harden\_resource\_settlements.sql that
  internal/adapters/postgres reads and writes for agents, runs, resources, revocations and evidence,
  and the evidence rules of evidence.go. A table is the list of its rows, in insertion order. A statement
  that violates a UNIQUE or CHECK constraint is an error of the transaction; the FOREIGN KEY
  constraints of the inserted rows are implied by the joins the operations make before they
  insert. A transaction is a function of the store returning an error or a result with the new
  store: an error leaves the store as it was, which is the rollback. Row locks make the
  transactions of one row family serial, so an interleaving is a sequence of transactions.
  JSON columns hold decoded values. Connection failures are not modelled.
\<close>

section \<open>Statements\<close>

definition unique_violation :: goerror where
  "unique_violation = New ''SQLSTATE 23505''"

definition check_violation :: goerror where
  "check_violation = New ''SQLSTATE 23514''"

definition pg_insert :: "('r \<Rightarrow> bool) \<Rightarrow> ('r \<Rightarrow> 'r \<Rightarrow> bool) \<Rightarrow> 'r \<Rightarrow> 'r list \<Rightarrow> 'r list result" where
  "pg_insert check conflict r rows =
     (if \<not> check r then Inl check_violation
      else if list_ex (conflict r) rows then Inl unique_violation
      else Inr (rows @ [r]))"

text \<open>An UPDATE returns the new rows and the number of rows it touched.\<close>

definition pg_update :: "('r \<Rightarrow> bool) \<Rightarrow> ('r \<Rightarrow> bool) \<Rightarrow> ('r \<Rightarrow> 'r) \<Rightarrow> 'r list \<Rightarrow> ('r list \<times> nat) result" where
  "pg_update check p f rows =
     (if list_ex (\<lambda>r. p r \<and> \<not> check (f r)) rows then Inl check_violation
      else Inr (update_where p f rows, rows_affected p rows))"

definition wrapping :: "string \<Rightarrow> 'a result \<Rightarrow> 'a result" where
  "wrapping message m = (case m of Inl e \<Rightarrow> Inl (Wrapf message e) | Inr x \<Rightarrow> Inr x)"

lemma wrapping_Inr [result_simps, simp]: "wrapping message m = Inr x \<longleftrightarrow> m = Inr x"
  by (cases m) (simp_all add: wrapping_def)

lemma pg_insert_Inr [result_simps]:
  "pg_insert check conflict r rows = Inr rows' \<longleftrightarrow>
     check r \<and> (\<forall>s \<in> set rows. \<not> conflict r s) \<and> rows' = rows @ [r]"
  by (auto simp: pg_insert_def list_ex_iff)

lemma pg_update_Inr [result_simps]:
  "pg_update check p f rows = Inr (rows', n) \<longleftrightarrow>
     (\<forall>r \<in> set rows. p r \<longrightarrow> check (f r)) \<and> rows' = update_where p f rows \<and> n = rows_affected p rows"
  by (auto simp: pg_update_def list_ex_iff)

section \<open>Rows\<close>

datatype PrincipalType = PrincipalHuman | PrincipalWorkload | PrincipalGateway | PrincipalSystem

record principal_row =
  p_id :: ID
  p_tenant :: ID
  p_type :: PrincipalType
  p_disabled :: "Time option"

record agent_row =
  a_id :: ID
  a_tenant :: ID
  a_owner :: ID
  a_risk_class :: AgentRiskClass

record agent_version_row =
  av_id :: ID
  av_tenant :: ID
  av_agent :: ID
  av_content_digest :: string

record approval_row =
  ap_id :: ID
  ap_tenant :: ID
  ap_agent :: ID
  ap_agent_version :: ID
  ap_decision :: AgentVersionDecision
  ap_actor :: ID
  ap_policy_decision :: ID
  ap_reason_code :: string
  ap_approval_reference :: "string option"
  ap_created :: Time

definition approval_check :: "approval_row \<Rightarrow> bool" where
  "approval_check a \<longleftrightarrow>
     AgentVersionDecision_Valid (ap_decision a) \<and> 1 \<le> length (ap_reason_code a) \<and> length (ap_reason_code a) \<le> 128 \<and>
     (case ap_approval_reference a of None \<Rightarrow> True | Some r \<Rightarrow> length r \<le> 512)"

definition approval_conflict :: "approval_row \<Rightarrow> approval_row \<Rightarrow> bool" where
  "approval_conflict a b \<longleftrightarrow> ap_id a = ap_id b"

record run_row =
  r_id :: ID
  r_tenant :: ID
  r_agent :: ID
  r_agent_version :: ID
  r_parent :: "ID option"
  r_requested_by :: ID
  r_state :: RunState
  r_state_version :: int
  r_constraints :: json
  r_deadline :: "Time option"
  r_lease_id :: "ID option"
  r_lease_expires :: "Time option"
  r_fencing_token :: int
  r_created :: Time
  r_updated :: Time
  r_terminal :: "Time option"

definition run_check :: "run_row \<Rightarrow> bool" where
  "run_check r \<longleftrightarrow>
     RunState_Valid (r_state r) \<and> 0 < r_state_version r \<and> (\<exists>kvs. r_constraints r = JObj kvs) \<and> 0 \<le> r_fencing_token r \<and>
     r_parent r \<noteq> Some (r_id r) \<and> (r_lease_id r = None) = (r_lease_expires r = None) \<and>
     unix_nano (r_created r) \<le> unix_nano (r_updated r) \<and>
     (case r_terminal r of None \<Rightarrow> True | Some t \<Rightarrow> unix_nano (r_created r) \<le> unix_nano t) \<and>
     Terminal (r_state r) = (r_terminal r \<noteq> None)"

record resolution_row =
  rv_run :: ID
  rv_tenant :: ID
  rv_agent :: ID
  rv_agent_version :: ID
  rv_agent_content_digest :: string
  rv_policy_bundle_digest :: string
  rv_policy_activation_version :: int
  rv_approval :: ID
  rv_resolution :: json
  rv_resolved :: Time

definition resolution_check :: "resolution_row \<Rightarrow> bool" where
  "resolution_check r \<longleftrightarrow>
     ValidDigest (rv_agent_content_digest r) \<and> ValidDigest (rv_policy_bundle_digest r) \<and> 0 < rv_policy_activation_version r \<and>
     (\<exists>kvs. rv_resolution r = JObj kvs)"

definition resolution_conflict :: "resolution_row \<Rightarrow> resolution_row \<Rightarrow> bool" where
  "resolution_conflict r s \<longleftrightarrow> rv_run r = rv_run s"

record run_signal_row =
  sg_id :: ID
  sg_tenant :: ID
  sg_run :: ID
  sg_type :: string
  sg_payload :: json
  sg_idempotency_key :: string
  sg_actor :: ID
  sg_created :: Time

definition run_signal_check :: "run_signal_row \<Rightarrow> bool" where
  "run_signal_check s \<longleftrightarrow>
     sg_type s \<in> {''CANCEL'', ''PAUSE'', ''RESUME'', ''CUSTOM''} \<and> (\<exists>kvs. sg_payload s = JObj kvs) \<and>
     1 \<le> length (sg_idempotency_key s) \<and> length (sg_idempotency_key s) \<le> 256"

definition run_signal_conflict :: "run_signal_row \<Rightarrow> run_signal_row \<Rightarrow> bool" where
  "run_signal_conflict s t \<longleftrightarrow>
     sg_id s = sg_id t \<or> sg_tenant s = sg_tenant t \<and> sg_run s = sg_run t \<and> sg_idempotency_key s = sg_idempotency_key t"

record run_event_row =
  ev_id :: ID
  ev_tenant :: ID
  ev_run :: ID
  ev_sequence :: int
  ev_type :: string
  ev_actor_type :: RunActor
  ev_actor :: "ID option"
  ev_state :: "RunState option"
  ev_state_version :: "int option"
  ev_payload :: json
  ev_occurred :: Time

definition run_event_check :: "run_event_row \<Rightarrow> bool" where
  "run_event_check e \<longleftrightarrow>
     0 < ev_sequence e \<and> 1 \<le> length (ev_type e) \<and> length (ev_type e) \<le> 128 \<and> RunActor_Valid (ev_actor_type e) \<and>
     (case ev_state e of None \<Rightarrow> True | Some s \<Rightarrow> RunState_Valid s) \<and>
     (case ev_state_version e of None \<Rightarrow> True | Some v \<Rightarrow> 0 < v) \<and> (\<exists>kvs. ev_payload e = JObj kvs)"

definition run_event_conflict :: "run_event_row \<Rightarrow> run_event_row \<Rightarrow> bool" where
  "run_event_conflict e f \<longleftrightarrow>
     ev_id e = ev_id f \<or> ev_tenant e = ev_tenant f \<and> ev_run e = ev_run f \<and> ev_sequence e = ev_sequence f"

record envelope_row =
  e_id :: ID
  e_tenant :: ID
  e_run :: ID
  e_parent :: "ID option"
  e_version :: int
  e_issued_by :: ID
  e_decision :: ID
  e_issued_at :: Time

record grant_row =
  g_tenant :: ID
  g_envelope :: ID
  g_dimension :: ID
  g_granted :: int
  g_unit :: string
  g_scale :: nat

definition unit_check :: "string \<Rightarrow> nat \<Rightarrow> bool" where
  "unit_check u s \<longleftrightarrow> 1 \<le> length u \<and> length u \<le> 64 \<and> s \<le> 18"

definition grant_check :: "grant_row \<Rightarrow> bool" where
  "grant_check g \<longleftrightarrow> 0 \<le> g_granted g \<and> unit_check (g_unit g) (g_scale g)"

definition grant_key :: "grant_row \<Rightarrow> ID \<times> ID \<times> ID" where
  "grant_key g = (g_tenant g, g_envelope g, g_dimension g)"

record balance_row =
  b_tenant :: ID
  b_envelope :: ID
  b_dimension :: ID
  b_available :: int
  b_direct_consumed :: int
  b_allocated_open :: int
  b_state_version :: int
  b_updated :: Time

definition balance_key :: "balance_row \<Rightarrow> ID \<times> ID \<times> ID" where
  "balance_key b = (b_tenant b, b_envelope b, b_dimension b)"

definition balance_check :: "balance_row \<Rightarrow> bool" where
  "balance_check b \<longleftrightarrow>
     0 \<le> b_available b \<and> 0 \<le> b_direct_consumed b \<and> 0 \<le> b_allocated_open b \<and> 0 < b_state_version b \<and>
     b_available b \<le> 9223372036854775807 - b_direct_consumed b \<and>
     b_available b + b_direct_consumed b \<le> 9223372036854775807 - b_allocated_open b"

datatype ReservationState = OPEN | SETTLED | EXPIRED_SETTLED | CANCELLED_SETTLED

record reservation_row =
  rr_id :: ID
  rr_tenant :: ID
  rr_parent :: ID
  rr_child :: ID
  rr_run :: ID
  rr_state :: ReservationState
  rr_expires :: "Time option"
  rr_created :: Time
  rr_settled :: "Time option"

definition reservation_check :: "reservation_row \<Rightarrow> bool" where
  "reservation_check r \<longleftrightarrow>
     rr_parent r \<noteq> rr_child r \<and> (rr_state r = OPEN) = (rr_settled r = None) \<and>
     (case rr_settled r of None \<Rightarrow> True | Some t \<Rightarrow> unix_nano (rr_created r) \<le> unix_nano t) \<and>
     (case rr_expires r of None \<Rightarrow> True | Some t \<Rightarrow> unix_nano (rr_created r) < unix_nano t)"

definition reservation_conflict :: "reservation_row \<Rightarrow> reservation_row \<Rightarrow> bool" where
  "reservation_conflict r s \<longleftrightarrow>
     rr_id r = rr_id s \<or> rr_tenant r = rr_tenant s \<and> (rr_child r = rr_child s \<or> rr_run r = rr_run s)"

record reservation_item_row =
  ri_tenant :: ID
  ri_reservation :: ID
  ri_dimension :: ID
  ri_reserved :: int
  ri_unit :: string
  ri_scale :: nat

definition reservation_item_key :: "reservation_item_row \<Rightarrow> ID \<times> ID \<times> ID" where
  "reservation_item_key i = (ri_tenant i, ri_reservation i, ri_dimension i)"

definition reservation_item_check :: "reservation_item_row \<Rightarrow> bool" where
  "reservation_item_check i \<longleftrightarrow> 0 \<le> ri_reserved i \<and> unit_check (ri_unit i) (ri_scale i)"

record usage_row =
  u_id :: ID
  u_tenant :: ID
  u_run :: ID
  u_envelope :: ID
  u_dimension :: ID
  u_producer :: ID
  u_source_event :: string
  u_quantity :: int
  u_unit :: string
  u_scale :: nat
  u_digest :: string
  u_observed :: Time
  u_recorded :: Time

definition usage_check :: "usage_row \<Rightarrow> bool" where
  "usage_check u \<longleftrightarrow>
     1 \<le> length (u_source_event u) \<and> length (u_source_event u) \<le> 256 \<and> 0 \<le> u_quantity u \<and>
     unit_check (u_unit u) (u_scale u) \<and> ValidDigest (u_digest u)"

definition usage_conflict :: "usage_row \<Rightarrow> usage_row \<Rightarrow> bool" where
  "usage_conflict u v \<longleftrightarrow>
     u_id u = u_id v \<or> u_tenant u = u_tenant v \<and> u_producer u = u_producer v \<and> u_source_event u = u_source_event v"

datatype SettlementReason = ReasonTerminal | ReasonExpired | ReasonCancelled | ReasonReconciled

record settlement_row =
  s_id :: ID
  s_tenant :: ID
  s_reservation :: ID
  s_actor :: ID
  s_decision :: ID
  s_idempotency_key :: string
  s_run_state :: RunState
  s_digest :: string
  s_reason :: SettlementReason
  s_settled_at :: Time

definition settlement_check :: "settlement_row \<Rightarrow> bool" where
  "settlement_check s \<longleftrightarrow>
     1 \<le> length (s_idempotency_key s) \<and> length (s_idempotency_key s) \<le> 256 \<and>
     s_run_state s \<in> {RunCompleted, RunFailed, RunCancelled, RunTimedOut, RunFailedBudget} \<and> ValidDigest (s_digest s)"

definition settlement_conflict :: "settlement_row \<Rightarrow> settlement_row \<Rightarrow> bool" where
  "settlement_conflict s t \<longleftrightarrow>
     s_id s = s_id t \<or> s_tenant s = s_tenant t \<and>
       (s_reservation s = s_reservation t \<or> s_actor s = s_actor t \<and> s_idempotency_key s = s_idempotency_key t)"

record settlement_item_row =
  si_tenant :: ID
  si_settlement :: ID
  si_dimension :: ID
  si_reserved :: int
  si_consumed :: int
  si_returned :: int
  si_unit :: string
  si_scale :: nat

definition settlement_item_key :: "settlement_item_row \<Rightarrow> ID \<times> ID \<times> ID" where
  "settlement_item_key i = (si_tenant i, si_settlement i, si_dimension i)"

definition settlement_item_check :: "settlement_item_row \<Rightarrow> bool" where
  "settlement_item_check i \<longleftrightarrow>
     0 \<le> si_reserved i \<and> 0 \<le> si_consumed i \<and> 0 \<le> si_returned i \<and> unit_check (si_unit i) (si_scale i) \<and>
     si_consumed i \<le> si_reserved i \<and> si_returned i = si_reserved i - si_consumed i"

record rate_window_row =
  w_tenant :: ID
  w_envelope :: ID
  w_dimension :: ID
  w_start :: Time
  w_used :: int
  w_updated :: Time

definition rate_window_key :: "rate_window_row \<Rightarrow> ID \<times> ID \<times> ID \<times> int" where
  "rate_window_key w = (w_tenant w, w_envelope w, w_dimension w, unix_nano (w_start w))"

record extension_row =
  x_id :: ID
  x_tenant :: ID
  x_run :: ID
  x_envelope :: ID
  x_actor :: ID
  x_decision :: ID
  x_idempotency_key :: string
  x_reason_code :: string
  x_approval_reference :: string
  x_digest :: string
  x_prior_deadline :: "Time option"
  x_new_deadline :: "Time option"
  x_prior_version :: int
  x_new_version :: int
  x_resumed :: bool
  x_created :: Time

definition extension_check :: "extension_row \<Rightarrow> bool" where
  "extension_check x \<longleftrightarrow>
     1 \<le> length (x_idempotency_key x) \<and> length (x_idempotency_key x) \<le> 256 \<and> extensionReasonPattern (x_reason_code x) \<and>
     1 \<le> length (x_approval_reference x) \<and> length (x_approval_reference x) \<le> 256 \<and> ValidDigest (x_digest x) \<and>
     0 < x_prior_version x \<and> x_new_version x = x_prior_version x + 1 \<and>
     (case (x_prior_deadline x, x_new_deadline x) of
        (None, None) \<Rightarrow> True | (Some p, Some n) \<Rightarrow> unix_nano p \<le> unix_nano n | _ \<Rightarrow> False)"

definition extension_conflict :: "extension_row \<Rightarrow> extension_row \<Rightarrow> bool" where
  "extension_conflict x y \<longleftrightarrow>
     x_id x = x_id y \<or> x_tenant x = x_tenant y \<and> x_actor x = x_actor y \<and> x_idempotency_key x = x_idempotency_key y"

record extension_item_row =
  xi_tenant :: ID
  xi_extension :: ID
  xi_dimension :: ID
  xi_added :: int
  xi_prior :: int
  xi_new :: int
  xi_unit :: string
  xi_scale :: nat

definition extension_item_key :: "extension_item_row \<Rightarrow> ID \<times> ID \<times> ID" where
  "extension_item_key i = (xi_tenant i, xi_extension i, xi_dimension i)"

definition extension_item_check :: "extension_item_row \<Rightarrow> bool" where
  "extension_item_check i \<longleftrightarrow>
     0 < xi_added i \<and> 0 \<le> xi_prior i \<and> xi_scale i \<le> 18 \<and>
     xi_prior i \<le> 9223372036854775807 - xi_added i \<and> xi_new i = xi_prior i + xi_added i"

section \<open>Revocations and epochs\<close>

text \<open>A revocation row; the references are NULL when they are empty.\<close>

record revocation_row =
  rk_id :: ID
  rk_tenant :: "ID option"
  rk_scope :: RevocationScope
  rk_target :: string
  rk_reason_code :: string
  rk_detail_reference :: "string option"
  rk_actor :: "ID option"
  rk_approval_reference :: "string option"
  rk_effective :: Time
  rk_expires :: "Time option"
  rk_created :: Time

definition revocation_check :: "revocation_row \<Rightarrow> bool" where
  "revocation_check r \<longleftrightarrow>
     RevocationScope_Valid (rk_scope r) \<and> 1 \<le> length (rk_target r) \<and> length (rk_target r) \<le> 512 \<and>
     1 \<le> length (rk_reason_code r) \<and> length (rk_reason_code r) \<le> 128 \<and>
     (case rk_detail_reference r of None \<Rightarrow> True | Some d \<Rightarrow> length d \<le> 1024) \<and>
     (case rk_approval_reference r of None \<Rightarrow> True | Some d \<Rightarrow> length d \<le> 512) \<and>
     (rk_scope r = RevocationGlobal) = (rk_tenant r = None) \<and>
     (case rk_expires r of None \<Rightarrow> True | Some t \<Rightarrow> unix_nano (rk_effective r) < unix_nano t)"

definition revocation_conflict :: "revocation_row \<Rightarrow> revocation_row \<Rightarrow> bool" where
  "revocation_conflict r s \<longleftrightarrow> rk_id r = rk_id s"

record revocation_change_row =
  rc_id :: ID
  rc_revocation :: ID
  rc_tenant :: "ID option"
  rc_type :: RevocationChangeType
  rc_actor :: "ID option"
  rc_reason_code :: string
  rc_changed :: Time

definition revocation_change_check :: "revocation_change_row \<Rightarrow> bool" where
  "revocation_change_check c \<longleftrightarrow> 1 \<le> length (rc_reason_code c) \<and> length (rc_reason_code c) \<le> 128"

definition revocation_change_conflict :: "revocation_change_row \<Rightarrow> revocation_change_row \<Rightarrow> bool" where
  "revocation_change_conflict c d \<longleftrightarrow> rc_id c = rc_id d"

record revocation_log_row =
  rl_sequence :: int
  rl_event :: ID
  rl_revocation :: ID
  rl_change :: ID
  rl_tenant :: "ID option"
  rl_scope :: RevocationScope
  rl_target :: string
  rl_change_type :: RevocationChangeType
  rl_security_epoch :: int
  rl_tenant_policy_epoch :: "int option"
  rl_tenant_revocation_epoch :: "int option"
  rl_agent_revocation_epoch :: "int option"
  rl_committed :: Time

definition nonnegative_epoch :: "int option \<Rightarrow> bool" where
  "nonnegative_epoch e \<longleftrightarrow> (case e of None \<Rightarrow> True | Some v \<Rightarrow> 0 \<le> v)"

definition revocation_log_check :: "revocation_log_row \<Rightarrow> bool" where
  "revocation_log_check l \<longleftrightarrow>
     RevocationScope_Valid (rl_scope l) \<and> 1 \<le> length (rl_target l) \<and> length (rl_target l) \<le> 512 \<and> 0 \<le> rl_security_epoch l \<and>
     nonnegative_epoch (rl_tenant_policy_epoch l) \<and> nonnegative_epoch (rl_tenant_revocation_epoch l) \<and>
     nonnegative_epoch (rl_agent_revocation_epoch l) \<and> (rl_scope l = RevocationGlobal) = (rl_tenant l = None)"

definition revocation_log_conflict :: "revocation_log_row \<Rightarrow> revocation_log_row \<Rightarrow> bool" where
  "revocation_log_conflict l m \<longleftrightarrow> rl_sequence l = rl_sequence m \<or> rl_event l = rl_event m \<or> rl_change l = rl_change m"

record tenant_epoch_row =
  te_tenant :: ID
  te_policy :: int
  te_revocation :: int

record agent_epoch_row =
  ae_tenant :: ID
  ae_agent :: ID
  ae_revocation :: int

record checkpoint_row =
  cp_tenant :: ID
  cp_gateway :: ID
  cp_last_sequence :: int
  cp_security_epoch :: int
  cp_tenant_policy_epoch :: int
  cp_tenant_revocation_epoch :: int
  cp_last_stream_received :: "Time option"
  cp_last_reconciled :: "Time option"
  cp_updated :: Time

section \<open>Evidence\<close>

record AuditEvent =
  au_ID :: ID
  au_TenantID :: "ID option"
  au_PrincipalID :: "ID option"
  au_Action :: string
  au_ResourceType :: string
  au_ResourceID :: string
  au_Outcome :: string
  au_ReasonCodes :: json
  au_PolicyDecisionID :: "ID option"
  au_RequestID :: "ID option"
  au_TraceID :: string
  au_Metadata :: json
  au_PreviousHash :: string
  au_OccurredAt :: Time

record OutboxMessage =
  ob_ID :: ID
  ob_TenantID :: "ID option"
  ob_AggregateType :: string
  ob_AggregateID :: string
  ob_EventType :: string
  ob_SchemaVersion :: int
  ob_Payload :: json
  ob_Headers :: json
  ob_OccurredAt :: Time
  ob_AvailableAt :: Time

text \<open>
  \<open>strings.ToLower\<close> as far as a comparison with ASCII words can see it: ASCII letters, and the two
  letters beyond ASCII whose lower case is ASCII, U+0130 and U+212A.
\<close>

fun to_lower :: "string \<Rightarrow> string" where
  "to_lower [] = []"
| "to_lower (c # cs) =
     (if (of_char c :: nat) = 196 \<and> cs \<noteq> [] \<and> (of_char (hd cs) :: nat) = 176 then CHR ''i'' # to_lower (tl cs)
      else if (of_char c :: nat) = 226 \<and> map of_char (take 2 cs) = [132 :: nat, 170] then CHR ''k'' # to_lower (drop 2 cs)
      else (if is_upper c then char_of (of_char c + (32 :: nat)) else c) # to_lower cs)"

definition restricted_words :: "string list" where
  "restricted_words =
     [''authorization'', ''cookie'', ''password'', ''secret'', ''credential'', ''token'', ''objective'', ''prompt'',
      ''input'', ''payload'', ''database_url'', ''valkey_url'', ''dsn'', ''idempotency_key'', ''reconciliation_key'']"

definition restricted_key :: "string \<Rightarrow> bool" where
  "restricted_key key =
     (let normalized = map (\<lambda>c. if c = CHR ''-'' \<or> c = CHR ''.'' then CHR ''_'' else c) (to_lower (trim_space key))
      in list_ex (\<lambda>protected. normalized = protected \<or> has_suffix normalized (''_'' @ protected)) restricted_words)"

fun containsRestrictedJSONKey :: "json \<Rightarrow> bool" where
  "containsRestrictedJSONKey (JObj kvs) = list_ex (\<lambda>(k, v). restricted_key k \<or> containsRestrictedJSONKey v) kvs"
| "containsRestrictedJSONKey (JArr vs) = list_ex containsRestrictedJSONKey vs"
| "containsRestrictedJSONKey _ = False"

definition validJSONArray :: "json \<Rightarrow> bool" where
  "validJSONArray v \<longleftrightarrow> (case v of JArr _ \<Rightarrow> True | _ \<Rightarrow> False)"

definition validJSONObject :: "json \<Rightarrow> bool" where
  "validJSONObject v \<longleftrightarrow> (case v of JObj _ \<Rightarrow> True | _ \<Rightarrow> False)"

definition validateEvidence :: "AuditEvent \<Rightarrow> OutboxMessage \<Rightarrow> unit result" where
  "validateEvidence a m =
     (if IsZero (au_ID a) \<or> IsZero (ob_ID m) then Inl (New ''audit and outbox IDs are required'')
      else if au_TenantID a \<noteq> ob_TenantID m then Inl (New ''audit and outbox tenant scope must match'')
      else if au_PrincipalID a \<noteq> None \<and> au_TenantID a = None then Inl (New ''audit principal requires tenant scope'')
      else if length (au_Action a) < 1 \<or> length (au_Action a) > 128 \<or> length (au_ResourceType a) < 1
         \<or> length (au_ResourceType a) > 128 \<or> length (au_ResourceID a) > 512
      then Inl (New ''audit action or resource is outside schema bounds'')
      else if au_Outcome a \<noteq> ''SUCCEEDED'' \<and> au_Outcome a \<noteq> ''DENIED'' \<and> au_Outcome a \<noteq> ''FAILED''
      then Inl (New ''invalid audit outcome'')
      else if au_TraceID a \<noteq> [] \<and> \<not> (length (au_TraceID a) = 32 \<and> list_all is_lower_hex (au_TraceID a))
      then Inl (New ''invalid audit trace ID'')
      else if au_PreviousHash a \<noteq> [] \<and> \<not> ValidDigest (au_PreviousHash a)
      then Inl (New ''invalid previous audit hash'')
      else if \<not> validJSONArray (au_ReasonCodes a) \<or> \<not> validJSONObject (au_Metadata a)
         \<or> \<not> validJSONObject (ob_Payload m) \<or> \<not> validJSONObject (ob_Headers m)
      then Inl (New ''evidence JSON has an invalid shape'')
      else if containsRestrictedJSONKey (au_Metadata a) \<or> containsRestrictedJSONKey (ob_Headers m)
      then Inl (New ''audit metadata or outbox headers contain a restricted field'')
      else if length (ob_AggregateType m) < 1 \<or> length (ob_AggregateType m) > 128 \<or> length (ob_AggregateID m) < 1
         \<or> length (ob_AggregateID m) > 512 \<or> length (ob_EventType m) < 1 \<or> length (ob_EventType m) > 256
         \<or> ob_SchemaVersion m < 1
      then Inl (New ''outbox envelope is outside schema bounds'')
      else and_then (RequireUTC (au_OccurredAt a)) (\<lambda>_.
        and_then (RequireUTC (ob_OccurredAt m)) (\<lambda>_.
          and_then (RequireUTC (ob_AvailableAt m)) (\<lambda>_.
            if Before (ob_AvailableAt m) (ob_OccurredAt m)
            then Inl (New ''outbox availability precedes occurrence'') else Inr ()))))"

text \<open>
  The stored audit row adds the hash of the event, the stored outbox row its delivery state. An empty
  trace or previous hash is stored as NULL.
\<close>

record audit_row = AuditEvent +
  au_event_hash :: string

record outbox_row = OutboxMessage +
  ob_claimed_by :: "string option"
  ob_claim_token :: "ID option"
  ob_claimed_until :: "Time option"
  ob_attempt_count :: int
  ob_last_attempt_at :: "Time option"
  ob_last_error_code :: "string option"
  ob_published_at :: "Time option"
  ob_dead_lettered_at :: "Time option"

definition audit_conflict :: "audit_row \<Rightarrow> audit_row \<Rightarrow> bool" where
  "audit_conflict a b \<longleftrightarrow> au_ID a = au_ID b"

definition audit_check :: "audit_row \<Rightarrow> bool" where
  "audit_check a \<longleftrightarrow>
     1 \<le> length (au_Action a) \<and> length (au_Action a) \<le> 128 \<and> 1 \<le> length (au_ResourceType a) \<and>
     length (au_ResourceType a) \<le> 128 \<and> length (au_ResourceID a) \<le> 512 \<and>
     au_Outcome a \<in> {''SUCCEEDED'', ''DENIED'', ''FAILED''} \<and> validJSONArray (au_ReasonCodes a) \<and> validJSONObject (au_Metadata a) \<and>
     (au_TraceID a = [] \<or> length (au_TraceID a) = 32 \<and> list_all is_lower_hex (au_TraceID a)) \<and>
     (au_PreviousHash a = [] \<or> ValidDigest (au_PreviousHash a)) \<and> ValidDigest (au_event_hash a)"

definition outbox_conflict :: "outbox_row \<Rightarrow> outbox_row \<Rightarrow> bool" where
  "outbox_conflict m n \<longleftrightarrow> ob_ID m = ob_ID n"

definition outbox_check :: "outbox_row \<Rightarrow> bool" where
  "outbox_check m \<longleftrightarrow>
     1 \<le> length (ob_AggregateType m) \<and> length (ob_AggregateType m) \<le> 128 \<and> 1 \<le> length (ob_AggregateID m) \<and>
     length (ob_AggregateID m) \<le> 512 \<and> 1 \<le> length (ob_EventType m) \<and> length (ob_EventType m) \<le> 256 \<and>
     0 < ob_SchemaVersion m \<and> validJSONObject (ob_Payload m) \<and> validJSONObject (ob_Headers m) \<and> 0 \<le> ob_attempt_count m \<and>
     (case ob_claimed_by m of None \<Rightarrow> True | Some c \<Rightarrow> length c \<le> 256) \<and>
     (case ob_last_error_code m of None \<Rightarrow> True | Some c \<Rightarrow> length c \<le> 128) \<and>
     (ob_claimed_by m = None) = (ob_claim_token m = None) \<and> (ob_claim_token m = None) = (ob_claimed_until m = None) \<and>
     (case ob_published_at m of None \<Rightarrow> True | Some t \<Rightarrow> unix_nano (ob_OccurredAt m) \<le> unix_nano t) \<and>
     (case ob_dead_lettered_at m of None \<Rightarrow> True | Some t \<Rightarrow> unix_nano (ob_OccurredAt m) \<le> unix_nano t) \<and>
     \<not> (ob_published_at m \<noteq> None \<and> ob_dead_lettered_at m \<noteq> None)"

section \<open>The store\<close>

record DB =
  principals :: "principal_row list"
  agents :: "agent_row list"
  agent_versions :: "agent_version_row list"
  agent_version_approvals :: "approval_row list"
  run_version_resolutions :: "resolution_row list"
  run_signals :: "run_signal_row list"
  runs :: "run_row list"
  run_events :: "run_event_row list"
  resource_dimensions :: "ResourceDimension list"
  resource_envelopes :: "envelope_row list"
  resource_envelope_grants :: "grant_row list"
  resource_balances :: "balance_row list"
  resource_reservations :: "reservation_row list"
  resource_reservation_items :: "reservation_item_row list"
  trusted_usage_entries :: "usage_row list"
  resource_settlements :: "settlement_row list"
  resource_settlement_items :: "settlement_item_row list"
  resource_rate_windows :: "rate_window_row list"
  resource_extensions :: "extension_row list"
  resource_extension_items :: "extension_item_row list"
  revocations :: "revocation_row list"
  revocation_changes :: "revocation_change_row list"
  revocation_log :: "revocation_log_row list"
  security_epoch :: int
  tenant_security_epochs :: "tenant_epoch_row list"
  agent_security_epochs :: "agent_epoch_row list"
  gateway_checkpoints :: "checkpoint_row list"
  audit_events :: "audit_row list"
  outbox_messages :: "outbox_row list"

text \<open>
  What the operations take from outside the program: the hash function and the identifiers that
  \<open>domain.NewID\<close> delivers, by call.
\<close>

record Env =
  env_sha256 :: hash
  env_NewID :: "nat \<Rightarrow> ID result"

text \<open>\<open>r.valid()\<close> of a tenant repository: it has a store and a tenant.\<close>

definition repository_valid :: "ID \<Rightarrow> unit result" where
  "repository_valid tenant =
     (if IsZero tenant then Inl (New ''postgres tenant repository is not initialized'') else Inr ())"

definition optionalID :: "ID option \<Rightarrow> string" where
  "optionalID i = (case i of None \<Rightarrow> [] | Some i \<Rightarrow> ID_String i)"

definition hashAuditEvent :: "Env \<Rightarrow> AuditEvent \<Rightarrow> string" where
  "hashAuditEvent env a =
     digest_text (env_sha256 env) (json_text (JObj
       [(''ID'', JStr (ID_String (au_ID a))), (''TenantID'', JStr (optionalID (au_TenantID a))),
        (''PrincipalID'', JStr (optionalID (au_PrincipalID a))), (''Action'', JStr (au_Action a)),
        (''ResourceType'', JStr (au_ResourceType a)), (''ResourceID'', JStr (au_ResourceID a)), (''Outcome'', JStr (au_Outcome a)),
        (''ReasonCodes'', au_ReasonCodes a), (''PolicyDecisionID'', JStr (optionalID (au_PolicyDecisionID a))),
        (''RequestID'', JStr (optionalID (au_RequestID a))), (''TraceID'', JStr (au_TraceID a)), (''Metadata'', au_Metadata a),
        (''PreviousHash'', JStr (au_PreviousHash a)), (''OccurredAt'', JStr (format_rfc3339nano (au_OccurredAt a)))]))"

definition insert_audit :: "Env \<Rightarrow> AuditEvent \<Rightarrow> DB \<Rightarrow> DB result" where
  "insert_audit env a db =
     and_then (pg_insert audit_check audit_conflict (AuditEvent.extend a \<lparr>au_event_hash = hashAuditEvent env a\<rparr>) (audit_events db))
       (\<lambda>rows. Inr (db\<lparr>audit_events := rows\<rparr>))"

definition insert_outbox :: "OutboxMessage \<Rightarrow> DB \<Rightarrow> DB result" where
  "insert_outbox m db =
     and_then (pg_insert outbox_check outbox_conflict
         (OutboxMessage.extend m \<lparr>ob_claimed_by = None, ob_claim_token = None, ob_claimed_until = None, ob_attempt_count = 0,
            ob_last_attempt_at = None, ob_last_error_code = None, ob_published_at = None, ob_dead_lettered_at = None\<rparr>)
         (outbox_messages db))
       (\<lambda>rows. Inr (db\<lparr>outbox_messages := rows\<rparr>))"

text \<open>A mutation, its audit event and its outbox message, in one transaction.\<close>

definition WithinEvidenceTransaction :: "Env \<Rightarrow> (DB \<Rightarrow> DB result) option \<Rightarrow> AuditEvent \<Rightarrow> OutboxMessage \<Rightarrow> DB \<Rightarrow> DB result" where
  "WithinEvidenceTransaction env mutation audit message db =
     (case mutation of
        None \<Rightarrow> Inl (New ''evidence transaction requires a mutation'')
      | Some change \<Rightarrow>
          and_then (validateEvidence audit message) (\<lambda>_.
          and_then (change db) (\<lambda>db.
          and_then (wrapping ''insert audit event'' (insert_audit env audit db)) (\<lambda>db.
            wrapping ''insert outbox message'' (insert_outbox message db)))))"

text \<open>\<open>SELECT COALESCE(max(sequence),0)+1 FROM run_events\<close> for one run.\<close>

definition next_sequence :: "ID \<Rightarrow> ID \<Rightarrow> DB \<Rightarrow> int" where
  "next_sequence tenant run db =
     foldr (\<lambda>e n. if ev_tenant e = tenant \<and> ev_run e = run then max (ev_sequence e) n else n) (run_events db) 0 + 1"

definition insert_run_event :: "run_event_row \<Rightarrow> DB \<Rightarrow> DB result" where
  "insert_run_event e db =
     and_then (pg_insert run_event_check run_event_conflict e (run_events db)) (\<lambda>rows. Inr (db\<lparr>run_events := rows\<rparr>))"

text \<open>The run event and the outbox message of the same identifier, one statement of the sources.\<close>

definition insert_run_event_with_outbox :: "run_event_row \<Rightarrow> DB \<Rightarrow> DB result" where
  "insert_run_event_with_outbox e db =
     and_then (insert_run_event e db) (insert_outbox
       \<lparr>ob_ID = ev_id e, ob_TenantID = Some (ev_tenant e), ob_AggregateType = ''run'',
        ob_AggregateID = ID_String (ev_run e), ob_EventType = ev_type e, ob_SchemaVersion = 1,
        ob_Payload = ev_payload e, ob_Headers = JObj [], ob_OccurredAt = ev_occurred e, ob_AvailableAt = ev_occurred e\<rparr>)"

text \<open>
  The rows that the accounting reads and writes. A statement that touches no other table keeps them.
\<close>

definition same_ledger :: "DB \<Rightarrow> DB \<Rightarrow> bool" where
  "same_ledger db db' \<longleftrightarrow>
     resource_dimensions db' = resource_dimensions db \<and> resource_envelopes db' = resource_envelopes db \<and>
     resource_envelope_grants db' = resource_envelope_grants db \<and> resource_balances db' = resource_balances db \<and>
     resource_reservations db' = resource_reservations db \<and>
     resource_reservation_items db' = resource_reservation_items db \<and>
     resource_settlements db' = resource_settlements db \<and>
     resource_settlement_items db' = resource_settlement_items db \<and>
     resource_extensions db' = resource_extensions db \<and> resource_extension_items db' = resource_extension_items db \<and>
     trusted_usage_entries db' = trusted_usage_entries db \<and> resource_rate_windows db' = resource_rate_windows db \<and>
     principals db' = principals db"

lemma same_ledger_refl [simp]: "same_ledger db db"
  by (simp add: same_ledger_def)

lemma same_ledger_trans: "same_ledger a b \<Longrightarrow> same_ledger b c \<Longrightarrow> same_ledger a c"
  by (simp add: same_ledger_def)

lemma insert_audit_same: "insert_audit env a db = Inr db' \<Longrightarrow> same_ledger db db' \<and> runs db' = runs db \<and> run_events db' = run_events db"
  by (auto simp: insert_audit_def and_then_Inr same_ledger_def)

lemma insert_outbox_same: "insert_outbox m db = Inr db' \<Longrightarrow> same_ledger db db' \<and> runs db' = runs db \<and> run_events db' = run_events db"
  by (auto simp: insert_outbox_def and_then_Inr same_ledger_def)

lemma insert_run_event_same: "insert_run_event e db = Inr db' \<Longrightarrow> same_ledger db db' \<and> runs db' = runs db"
  by (auto simp: insert_run_event_def and_then_Inr same_ledger_def)

lemma insert_run_event_with_outbox_same:
  "insert_run_event_with_outbox e db = Inr db' \<Longrightarrow> same_ledger db db' \<and> runs db' = runs db"
  unfolding insert_run_event_with_outbox_def and_then_Inr
  by (auto dest!: insert_run_event_same insert_outbox_same intro: same_ledger_trans)

end
