(* ===== verification/Accounting.thy ===== *)
theory Accounting
  imports Store
begin

text \<open>
  What the resource tables promise, independently of the operation that changes them. A balance
  splits what its envelope was granted in one dimension, the original grant and all extensions,
  into what is available, what was consumed and what is allocated to open child reservations.
  \<open>ledger_inv\<close> is that conservation law together with the key and reference constraints it
  rests on. The lemmas say how the two sums behind it change when a row is added to a table.
\<close>

section \<open>Lookups\<close>

definition find_envelope :: "ID \<Rightarrow> ID \<Rightarrow> DB \<Rightarrow> envelope_row option" where
  "find_envelope tenant i db = List.find (\<lambda>e. e_tenant e = tenant \<and> e_id e = i) (resource_envelopes db)"

definition find_run :: "ID \<Rightarrow> ID \<Rightarrow> DB \<Rightarrow> run_row option" where
  "find_run tenant i db = List.find (\<lambda>r. r_tenant r = tenant \<and> r_id r = i) (runs db)"

definition find_dimension :: "ID \<Rightarrow> ID \<Rightarrow> DB \<Rightarrow> ResourceDimension option" where
  "find_dimension tenant i db = List.find (\<lambda>d. dim_TenantID d = tenant \<and> dim_ID d = i) (resource_dimensions db)"

definition find_grant :: "ID \<times> ID \<times> ID \<Rightarrow> DB \<Rightarrow> grant_row option" where
  "find_grant k db = List.find (\<lambda>g. grant_key g = k) (resource_envelope_grants db)"

definition find_balance :: "ID \<times> ID \<times> ID \<Rightarrow> DB \<Rightarrow> balance_row option" where
  "find_balance k db = List.find (\<lambda>b. balance_key b = k) (resource_balances db)"

definition find_reservation :: "ID \<Rightarrow> ID \<Rightarrow> DB \<Rightarrow> reservation_row option" where
  "find_reservation tenant i db = List.find (\<lambda>r. rr_tenant r = tenant \<and> rr_id r = i) (resource_reservations db)"

definition find_principal :: "ID \<Rightarrow> ID \<Rightarrow> DB \<Rightarrow> principal_row option" where
  "find_principal tenant i db =
     List.find (\<lambda>p. p_tenant p = tenant \<and> p_id p = i \<and> p_disabled p = None) (principals db)"

section \<open>Statements on balances\<close>

text \<open>
  \<open>UPDATE resource_balances SET ... WHERE tenant_id=$1 AND envelope_id=$2 AND dimension_id=$3 AND
  ...\<close>: the guard is the rest of the clause, the result the store and the number of rows.
\<close>

definition update_balance :: "ID \<times> ID \<times> ID \<Rightarrow> (balance_row \<Rightarrow> bool) \<Rightarrow> (balance_row \<Rightarrow> balance_row) \<Rightarrow> DB \<Rightarrow> (DB \<times> nat) result" where
  "update_balance k guard f db =
     and_then (pg_update balance_check (\<lambda>b. balance_key b = k \<and> guard b) f (resource_balances db))
       (\<lambda>(rows, n). Inr (db\<lparr>resource_balances := rows\<rparr>, n))"

lemma update_balance_one:
  assumes "update_balance k guard f db = Inr (db', n)" "n \<noteq> 0" "unique_key balance_key (resource_balances db)"
  obtains b where "b \<in> set (resource_balances db)" "balance_key b = k" "guard b" "balance_check (f b)"
    "db' = db\<lparr>resource_balances := update_where (\<lambda>x. x = b) f (resource_balances db)\<rparr>"
proof -
  let ?p = "\<lambda>b. balance_key b = k \<and> guard b"
  have u: "db' = db\<lparr>resource_balances := update_where ?p f (resource_balances db)\<rparr>"
      "n = rows_affected ?p (resource_balances db)" "\<And>b. b \<in> set (resource_balances db) \<Longrightarrow> ?p b \<Longrightarrow> balance_check (f b)"
    using assms(1) by (auto simp: update_balance_def and_then_Inr pg_update_Inr)
  then obtain b where b: "b \<in> set (resource_balances db)" "?p b"
    using assms(2) rows_affected_pos[of ?p "resource_balances db"] by blast
  have "update_where ?p f (resource_balances db) = update_where (\<lambda>x. x = b) f (resource_balances db)"
    unfolding update_where_def using b assms(3) by (auto dest: unique_keyD)
  then show ?thesis using that[of b] b u by simp
qed

section \<open>Conservation\<close>

definition reservation_open :: "DB \<Rightarrow> ID \<Rightarrow> ID \<Rightarrow> ID \<Rightarrow> bool" where
  "reservation_open db t rid e \<longleftrightarrow>
     list_ex (\<lambda>r. rr_tenant r = t \<and> rr_id r = rid \<and> rr_parent r = e \<and> rr_state r = OPEN) (resource_reservations db)"

definition reserved_open :: "DB \<Rightarrow> ID \<times> ID \<times> ID \<Rightarrow> int" where
  "reserved_open db k = (case k of (t, e, d) \<Rightarrow>
     sum_where (\<lambda>i. ri_tenant i = t \<and> ri_dimension i = d \<and> reservation_open db t (ri_reservation i) e)
       ri_reserved (resource_reservation_items db))"

definition extension_of :: "DB \<Rightarrow> ID \<Rightarrow> ID \<Rightarrow> ID \<Rightarrow> bool" where
  "extension_of db t xid e \<longleftrightarrow>
     list_ex (\<lambda>x. x_tenant x = t \<and> x_id x = xid \<and> x_envelope x = e) (resource_extensions db)"

definition extended :: "DB \<Rightarrow> ID \<times> ID \<times> ID \<Rightarrow> int" where
  "extended db k = (case k of (t, e, d) \<Rightarrow>
     sum_where (\<lambda>i. xi_tenant i = t \<and> xi_dimension i = d \<and> extension_of db t (xi_extension i) e)
       xi_added (resource_extension_items db))"

definition granted_total :: "DB \<Rightarrow> ID \<times> ID \<times> ID \<Rightarrow> int" where
  "granted_total db k =
     sum_where (\<lambda>g. grant_key g = k) g_granted (resource_envelope_grants db) + extended db k"

definition has_balance :: "DB \<Rightarrow> ID \<times> ID \<times> ID \<Rightarrow> bool" where
  "has_balance db k \<longleftrightarrow> k \<in> balance_key ` set (resource_balances db)"

definition has_grant :: "DB \<Rightarrow> ID \<times> ID \<times> ID \<Rightarrow> bool" where
  "has_grant db k \<longleftrightarrow> k \<in> grant_key ` set (resource_envelope_grants db)"

definition balance_conserved :: "DB \<Rightarrow> balance_row \<Rightarrow> bool" where
  "balance_conserved db b \<longleftrightarrow>
     balance_check b \<and>
     b_available b + b_direct_consumed b + b_allocated_open b = granted_total db (balance_key b) \<and>
     b_allocated_open b = reserved_open db (balance_key b) \<and> has_grant db (balance_key b)"

text \<open>The references a reservation item and an extension item make.\<close>

definition reservation_item_ok :: "DB \<Rightarrow> reservation_item_row \<Rightarrow> bool" where
  "reservation_item_ok db i \<longleftrightarrow>
     0 \<le> ri_reserved i \<and>
     (\<exists>r \<in> set (resource_reservations db). rr_tenant r = ri_tenant i \<and> rr_id r = ri_reservation i \<and>
        has_balance db (ri_tenant i, rr_parent r, ri_dimension i) \<and> has_balance db (ri_tenant i, rr_child r, ri_dimension i) \<and>
        (\<exists>d \<in> set (resource_dimensions db). dim_TenantID d = ri_tenant i \<and> dim_ID d = ri_dimension i))"

definition extension_item_ok :: "DB \<Rightarrow> extension_item_row \<Rightarrow> bool" where
  "extension_item_ok db i \<longleftrightarrow>
     0 \<le> xi_added i \<and>
     (\<exists>x \<in> set (resource_extensions db). x_tenant x = xi_tenant i \<and> x_id x = xi_extension i \<and>
        has_grant db (xi_tenant i, x_envelope x, xi_dimension i))"

definition keys_ok :: "DB \<Rightarrow> bool" where
  "keys_ok db \<longleftrightarrow>
     unique_key balance_key (resource_balances db) \<and> unique_key grant_key (resource_envelope_grants db) \<and>
     unique_key rr_id (resource_reservations db) \<and> unique_key reservation_item_key (resource_reservation_items db) \<and>
     unique_key x_id (resource_extensions db)"

definition ledger_inv :: "DB \<Rightarrow> bool" where
  "ledger_inv db \<longleftrightarrow>
     keys_ok db \<and> list_all (balance_conserved db) (resource_balances db) \<and>
     list_all (reservation_item_ok db) (resource_reservation_items db) \<and>
     list_all (extension_item_ok db) (resource_extension_items db)"

text \<open>The empty store satisfies it.\<close>

definition empty_db :: DB where
  "empty_db = \<lparr>principals = [], agents = [], agent_versions = [], agent_version_approvals = [], run_version_resolutions = [],
     run_signals = [], runs = [], run_events = [], resource_dimensions = [], resource_envelopes = [],
     resource_envelope_grants = [], resource_balances = [], resource_reservations = [], resource_reservation_items = [],
     trusted_usage_entries = [], resource_settlements = [], resource_settlement_items = [], resource_rate_windows = [],
     resource_extensions = [], resource_extension_items = [], revocations = [], revocation_changes = [], revocation_log = [],
     security_epoch = 0, tenant_security_epochs = [], agent_security_epochs = [], gateway_checkpoints = [], audit_events = [], outbox_messages = []\<rparr>"

lemma ledger_inv_empty: "ledger_inv empty_db"
  by (simp add: ledger_inv_def keys_ok_def empty_db_def unique_key_def)

section \<open>Change of the tables\<close>

lemma ledger_inv_balance: "ledger_inv db \<Longrightarrow> b \<in> set (resource_balances db) \<Longrightarrow> balance_conserved db b"
  by (simp add: ledger_inv_def list_all_iff)

lemma ledger_inv_cong:
  assumes "resource_dimensions db' = resource_dimensions db" "resource_envelope_grants db' = resource_envelope_grants db"
    "resource_balances db' = resource_balances db" "resource_reservations db' = resource_reservations db"
    "resource_reservation_items db' = resource_reservation_items db" "resource_extensions db' = resource_extensions db"
    "resource_extension_items db' = resource_extension_items db"
  shows "ledger_inv db' = ledger_inv db"
  using assms by (simp add: ledger_inv_def keys_ok_def balance_conserved_def[abs_def] reservation_item_ok_def[abs_def]
      extension_item_ok_def[abs_def] has_grant_def has_balance_def granted_total_def extended_def extension_of_def
      reserved_open_def reservation_open_def)

lemma same_ledger_inv: "same_ledger db db' \<Longrightarrow> ledger_inv db' = ledger_inv db"
  by (rule ledger_inv_cong) (simp_all add: same_ledger_def)

text \<open>
  A change of one balance keeps the conservation law of all balances when its total moves with
  what is granted to it and its allocation with what is reserved from it.
\<close>

lemma balance_step:
  assumes "ledger_inv db" "b \<in> set (resource_balances db)" "balance_key (f b) = balance_key b" "balance_check (f b)"
    and "resource_balances db' = update_where (\<lambda>x. x = b) f (resource_balances db)"
    and "\<And>k. granted_total db' k = granted_total db k + (if k = balance_key b then g else 0)"
    and "\<And>k. reserved_open db' k = reserved_open db k + (if k = balance_key b then r else 0)"
    and "has_grant db' = has_grant db"
    and "b_available (f b) + b_direct_consumed (f b) + b_allocated_open (f b) =
      b_available b + b_direct_consumed b + b_allocated_open b + g"
    and "b_allocated_open (f b) = b_allocated_open b + r"
  shows "list_all (balance_conserved db') (resource_balances db')"
  unfolding list_all_iff
proof
  fix x assume "x \<in> set (resource_balances db')"
  then consider "x = f b" | "x \<in> set (resource_balances db)" "x \<noteq> b"
    unfolding assms(5) set_update_where by (elim UnE imageE CollectE conjE) simp_all
  then show "balance_conserved db' x"
  proof cases
    case 1
    show ?thesis
      using assms(4,9,10) ledger_inv_balance[OF assms(1,2)]
      unfolding balance_conserved_def 1 assms(3) assms(6-8) by simp
  next
    case 2
    have "unique_key balance_key (resource_balances db)" using assms(1) by (simp add: ledger_inv_def keys_ok_def)
    then have "balance_key x \<noteq> balance_key b" using unique_keyD[OF _ 2(1) assms(2)] 2(2) by auto
    then show ?thesis
      using ledger_inv_balance[OF assms(1) 2(1)] unfolding balance_conserved_def assms(6-8) by simp
  qed
qed

text \<open>An open reservation item keeps a balance of its parent, so without a balance nothing is reserved.\<close>

lemma reserved_open_no_balance:
  assumes "ledger_inv db" "\<not> has_balance db (t, e, d)"
  shows "reserved_open db (t, e, d) = 0"
  unfolding reserved_open_def prod.case
proof (rule sum_where_none, rule notI)
  fix i assume i: "i \<in> set (resource_reservation_items db)"
    and p: "ri_tenant i = t \<and> ri_dimension i = d \<and> reservation_open db t (ri_reservation i) e"
  from assms(1) i have "reservation_item_ok db i" by (simp add: ledger_inv_def list_all_iff)
  then obtain r where r: "r \<in> set (resource_reservations db)" "rr_id r = ri_reservation i" "has_balance db (ri_tenant i, rr_parent r, ri_dimension i)"
    by (auto simp: reservation_item_ok_def)
  from p obtain s where s: "s \<in> set (resource_reservations db)" "rr_id s = ri_reservation i" "rr_parent s = e"
    by (auto simp: reservation_open_def list_ex_iff)
  have "r = s" using assms(1) r s by (auto simp: ledger_inv_def keys_ok_def dest: unique_keyD)
  then show False using r s p assms(2) by simp
qed

lemma extended_no_grant:
  assumes "ledger_inv db" "\<not> has_grant db (t, e, d)"
  shows "extended db (t, e, d) = 0"
  unfolding extended_def prod.case
proof (rule sum_where_none, rule notI)
  fix i assume i: "i \<in> set (resource_extension_items db)"
    and p: "xi_tenant i = t \<and> xi_dimension i = d \<and> extension_of db t (xi_extension i) e"
  from assms(1) i have "extension_item_ok db i" by (simp add: ledger_inv_def list_all_iff)
  then obtain x where x: "x \<in> set (resource_extensions db)" "x_id x = xi_extension i" "has_grant db (xi_tenant i, x_envelope x, xi_dimension i)"
    by (auto simp: extension_item_ok_def)
  from p obtain y where y: "y \<in> set (resource_extensions db)" "x_id y = xi_extension i" "x_envelope y = e"
    by (auto simp: extension_of_def list_ex_iff)
  have "x = y" using assms(1) x y by (auto simp: ledger_inv_def keys_ok_def dest: unique_keyD)
  then show False using x y p assms(2) by simp
qed

lemma granted_no_grant: "ledger_inv db \<Longrightarrow> \<not> has_grant db k \<Longrightarrow> granted_total db k = 0"
proof -
  assume inv: "ledger_inv db" and no: "\<not> has_grant db k"
  then have "sum_where (\<lambda>g. grant_key g = k) g_granted (resource_envelope_grants db) = 0"
    by (intro sum_where_none) (auto simp: has_grant_def)
  then show ?thesis using extended_no_grant[OF inv] no by (cases k) (simp add: granted_total_def)
qed

section \<open>Accounts\<close>

text \<open>
  The abstract view of the balances: a map from a key (tenant, envelope, dimension) to the three
  amounts. The operations of the following theories refine functions on this map.
\<close>

record account =
  avail :: int
  consumed :: int
  allocated :: int

type_synonym accounts = "ID \<times> ID \<times> ID \<rightharpoonup> account"

definition account_of :: "balance_row \<Rightarrow> account" where
  "account_of b = \<lparr>avail = b_available b, consumed = b_direct_consumed b, allocated = b_allocated_open b\<rparr>"

definition accounts :: "DB \<Rightarrow> accounts" where
  "accounts db = (\<lambda>k. map_option account_of (find_balance k db))"

lemma find_balance_Some:
  assumes "unique_key balance_key (resource_balances db)"
  shows "find_balance k db = Some b \<longleftrightarrow> b \<in> set (resource_balances db) \<and> balance_key b = k"
proof
  assume "b \<in> set (resource_balances db) \<and> balance_key b = k"
  then show "find_balance k db = Some b"
    unfolding find_balance_def using assms by (intro unique_key_find[where k = balance_key]) auto
qed (auto simp: find_balance_def dest: find_SomeD)

lemma find_balance_None: "find_balance k db = None \<longleftrightarrow> \<not> has_balance db k"
  by (auto simp: find_balance_def has_balance_def find_None_iff)

lemma find_update_where:
  assumes "unique_key key rows" "b \<in> set rows" "key (f b) = key b"
  shows "List.find (\<lambda>x. key x = k) (update_where (\<lambda>x. x = b) f rows) =
    (if k = key b then Some (f b) else List.find (\<lambda>x. key x = k) rows)"
  using assms(1,2)
proof (induction rows)
  case (Cons x xs)
  have uk: "unique_key key xs" using Cons.prems(1) by (simp add: unique_key_def)
  show ?case
  proof (cases "x = b")
    case True
    have "b \<notin> set xs" using Cons.prems(1) True by (auto simp: unique_key_def)
    then have "update_where (\<lambda>x. x = b) f xs = xs" by (auto simp: update_where_def intro: map_idI)
    then show ?thesis using True assms(3) by (simp add: update_where_def)
  next
    case False
    then have b: "b \<in> set xs" using Cons.prems(2) by simp
    then have "key x \<noteq> key b" using Cons.prems(1) False by (auto simp: unique_key_def)
    then show ?thesis using Cons.IH[OF uk b] False by (auto simp: update_where_def)
  qed
qed simp

lemma accounts_update:
  assumes "unique_key balance_key (resource_balances db)" "b \<in> set (resource_balances db)" "balance_key (f b) = balance_key b"
    "resource_balances db' = update_where (\<lambda>x. x = b) f (resource_balances db)"
  shows "accounts db' = (accounts db)(balance_key b \<mapsto> account_of (f b))"
  using find_update_where[where key = balance_key and f = f, OF assms(1-3)]
  by (auto simp: accounts_def find_balance_def assms(4) fun_eq_iff)

lemma find_append: "List.find p (xs @ ys) = (case List.find p xs of None \<Rightarrow> List.find p ys | Some x \<Rightarrow> Some x)"
  by (induction xs) auto

lemma accounts_insert:
  assumes "\<not> has_balance db (balance_key b)" "resource_balances db' = resource_balances db @ [b]"
  shows "accounts db' = (accounts db)(balance_key b \<mapsto> account_of b)"
proof
  fix k
  have "find_balance (balance_key b) db = None" using assms(1) by (simp add: find_balance_None)
  then show "accounts db' k = ((accounts db)(balance_key b \<mapsto> account_of b)) k"
    by (auto simp: accounts_def find_balance_def assms(2) find_append split: option.splits)
qed

lemma accounts_cong: "resource_balances db' = resource_balances db \<Longrightarrow> accounts db' = accounts db"
  by (simp add: accounts_def find_balance_def)

lemma accounts_SomeD:
  "accounts db k = Some x \<Longrightarrow> \<exists>b \<in> set (resource_balances db). balance_key b = k \<and> x = account_of b"
  by (auto simp: accounts_def find_balance_def dest: find_SomeD)

lemma accounts_Some:
  "unique_key balance_key (resource_balances db) \<Longrightarrow> b \<in> set (resource_balances db) \<Longrightarrow> accounts db (balance_key b) = Some (account_of b)"
  by (simp add: accounts_def find_balance_Some[THEN iffD2])

lemma accounts_None: "accounts db k = None \<longleftrightarrow> \<not> has_balance db k"
  by (simp add: accounts_def find_balance_None)

lemma accounts_nonneg:
  "ledger_inv db \<Longrightarrow> accounts db k = Some x \<Longrightarrow> 0 \<le> avail x \<and> 0 \<le> consumed x \<and> 0 \<le> allocated x"
  by (auto dest!: accounts_SomeD ledger_inv_balance simp: balance_conserved_def balance_check_def account_of_def)

end
