(* ===== verification/Example_Store.thy ===== *)
theory Example_Store
  imports Accounting
begin

text \<open>
  A small concrete store, on which the witnesses of the accounting properties evaluate the
  operations: one tenant, a parent run with an envelope and a child run with an envelope that
  has structural grants only.
\<close>

definition demo_id :: "nat \<Rightarrow> ID" where
  "demo_id n = 0x01900000000070008000000000000000 + of_nat n"

lemma unat_demo_id: "n < 1000 \<Longrightarrow> unat (demo_id n) = 0x01900000000070008000000000000000 + n"
  by (simp add: demo_id_def unat_word_ariths unat_of_nat take_bit_eq_mod)

lemma demo_id_eq [simp]: "m < 1000 \<Longrightarrow> n < 1000 \<Longrightarrow> demo_id m = demo_id n \<longleftrightarrow> m = n"
  by (simp add: word_unat_eq_iff unat_demo_id)

lemma demo_id_less [simp]: "m < 1000 \<Longrightarrow> n < 1000 \<Longrightarrow> demo_id m < demo_id n \<longleftrightarrow> m < n"
  by (simp add: word_less_nat_alt unat_demo_id)

lemma demo_id_le [simp]: "m < 1000 \<Longrightarrow> n < 1000 \<Longrightarrow> demo_id m \<le> demo_id n \<longleftrightarrow> m \<le> n"
  by (simp add: word_le_nat_alt unat_demo_id)

lemma demo_id_nonzero [simp]: "n < 1000 \<Longrightarrow> demo_id n \<noteq> 0" "n < 1000 \<Longrightarrow> \<not> IsZero (demo_id n)"
  by (simp_all add: IsZero_def word_unat_eq_iff unat_demo_id)

definition demo_tenant :: ID where "demo_tenant = demo_id 2"
definition parent_run :: ID where "parent_run = demo_id 11"
definition child_run :: ID where "child_run = demo_id 12"
definition parent_envelope :: ID where "parent_envelope = demo_id 13"
definition child_envelope :: ID where "child_envelope = demo_id 14"
definition tokens_dimension :: ID where "tokens_dimension = demo_id 21"
definition calls_dimension :: ID where "calls_dimension = demo_id 22"
definition requester :: ID where "requester = demo_id 31"
definition operator :: ID where "operator = demo_id 32"
definition reconciler :: ID where "reconciler = demo_id 33"

definition demo_dimension :: "nat \<Rightarrow> string \<Rightarrow> ResourceClass \<Rightarrow> string \<Rightarrow> ResourceAggregation \<Rightarrow> ResourceDimension" where
  "demo_dimension i name class u aggregation =
     \<lparr>dim_ID = demo_id i, dim_TenantID = demo_tenant, dim_Name = name, dim_Class = class, dim_Unit = u, dim_Scale = 0,
      dim_Minimum = 0, dim_Maximum = 1000000, dim_Aggregation = aggregation\<rparr>"

definition demo_grant :: "ID \<Rightarrow> nat \<Rightarrow> int \<Rightarrow> string \<Rightarrow> grant_row" where
  "demo_grant e i v u = \<lparr>g_tenant = demo_tenant, g_envelope = e, g_dimension = demo_id i, g_granted = v, g_unit = u, g_scale = 0\<rparr>"

definition demo_balance :: "ID \<Rightarrow> nat \<Rightarrow> int \<Rightarrow> int \<Rightarrow> int \<Rightarrow> balance_row" where
  "demo_balance e i a c l =
     \<lparr>b_tenant = demo_tenant, b_envelope = e, b_dimension = demo_id i, b_available = a, b_direct_consumed = c,
      b_allocated_open = l, b_state_version = 1, b_updated = demo_time 10\<rparr>"

definition demo_run :: "ID \<Rightarrow> ID option \<Rightarrow> run_row" where
  "demo_run i parent =
     \<lparr>r_id = i, r_tenant = demo_tenant, r_agent = demo_id 51, r_agent_version = demo_id 52, r_parent = parent,
      r_requested_by = requester, r_state = RunRunning, r_state_version = 3, r_constraints = JObj [], r_deadline = None, r_lease_id = None,
      r_lease_expires = None, r_fencing_token = 1, r_created = demo_time 10, r_updated = demo_time 10, r_terminal = None\<rparr>"

definition demo_envelope :: "ID \<Rightarrow> ID \<Rightarrow> ID option \<Rightarrow> envelope_row" where
  "demo_envelope i run parent =
     \<lparr>e_id = i, e_tenant = demo_tenant, e_run = run, e_parent = parent, e_version = 1, e_issued_by = requester,
      e_decision = demo_id 61, e_issued_at = demo_time 10\<rparr>"

definition demo_principal :: "ID \<Rightarrow> PrincipalType \<Rightarrow> principal_row" where
  "demo_principal i type = \<lparr>p_id = i, p_tenant = demo_tenant, p_type = type, p_disabled = None\<rparr>"

definition demo_db :: DB where
  "demo_db = empty_db\<lparr>
     principals := [demo_principal requester PrincipalHuman, demo_principal operator PrincipalHuman,
                    demo_principal reconciler PrincipalSystem],
     runs := [demo_run parent_run None, demo_run child_run (Some parent_run)],
     resource_dimensions :=
       [demo_dimension 21 ''llm_tokens'' ResourceConsumable ''token'' ResourceSum,
        demo_dimension 22 ''tool_calls'' ResourceConsumable ''call'' ResourceSum,
        demo_dimension 23 ''active_children'' ResourceStructural ''run'' ResourceMaximum,
        demo_dimension 24 ''total_children'' ResourceStructural ''run'' ResourceMaximum,
        demo_dimension 25 ''delegation_depth'' ResourceStructural ''level'' ResourceMaximum],
     resource_envelopes := [demo_envelope parent_envelope parent_run None, demo_envelope child_envelope child_run (Some parent_envelope)],
     resource_envelope_grants :=
       [demo_grant parent_envelope 21 100 ''token'', demo_grant parent_envelope 22 50 ''call'',
        demo_grant parent_envelope 23 2 ''run'', demo_grant parent_envelope 24 3 ''run'', demo_grant parent_envelope 25 2 ''level'',
        demo_grant child_envelope 23 1 ''run'', demo_grant child_envelope 24 1 ''run'', demo_grant child_envelope 25 1 ''level''],
     resource_balances := [demo_balance parent_envelope 21 100 0 0, demo_balance parent_envelope 22 50 0 0]\<rparr>"

lemmas demo_ids = demo_tenant_def parent_run_def child_run_def parent_envelope_def child_envelope_def tokens_dimension_def
  calls_dimension_def requester_def operator_def reconciler_def

lemmas demo_rows = demo_db_def empty_db_def demo_dimension_def demo_grant_def demo_balance_def demo_run_def demo_envelope_def
  demo_principal_def demo_time_def

lemma demo_db_inv: "ledger_inv demo_db"
  by (simp add: demo_rows demo_ids ledger_inv_def keys_ok_def unique_key_def balance_key_def grant_key_def balance_conserved_def
      balance_check_def granted_total_def extended_def reserved_open_def has_grant_def)

end
