(* ===== verification/Reservation.thy ===== *)
theory Reservation
  imports Example_Store
begin

text \<open>
  Child delegation (internal/adapters/postgres/resource\_reservation.go): the structural limits of a
  parent envelope and the all-or-nothing reservation that debits it and opens the child's balances.
  The recursive query over the ancestors of an envelope is a recursion with fuel; the fuel is the
  number of envelopes plus one, which suffices as soon as the parent relation is well founded
  (lemma \<open>ancestry_terminates\<close>).
\<close>

section \<open>Structural limits\<close>

text \<open>\<open>WITH RECURSIVE ancestry\<close>: the number of envelopes on the path to the root.\<close>

fun ancestry :: "nat \<Rightarrow> ID \<Rightarrow> ID \<Rightarrow> DB \<Rightarrow> int option" where
  "ancestry 0 tenant i db = None"
| "ancestry (Suc fuel) tenant i db =
     (case find_envelope tenant i db of
        None \<Rightarrow> Some 0
      | Some e \<Rightarrow>
          (case e_parent e of None \<Rightarrow> Some 1 | Some p \<Rightarrow> map_option (\<lambda>depth. depth + 1) (ancestry fuel tenant p db)))"

definition envelope_depth :: "ID \<Rightarrow> ID \<Rightarrow> DB \<Rightarrow> int option" where
  "envelope_depth tenant i db = ancestry (Suc (length (resource_envelopes db))) tenant i db"

text \<open>\<open>max(g.granted_value) FILTER (WHERE d.name=name)\<close> over the grants of an envelope.\<close>

definition maximum_grant :: "ID \<Rightarrow> ID \<Rightarrow> string \<Rightarrow> DB \<Rightarrow> int option" where
  "maximum_grant tenant envelope name db =
     fold (\<lambda>g m.
         if g_tenant g = tenant \<and> g_envelope g = envelope
            \<and> list_ex (\<lambda>d. dim_TenantID d = tenant \<and> dim_ID d = g_dimension g \<and> dim_Name d = name) (resource_dimensions db)
         then Some (case m of None \<Rightarrow> g_granted g | Some v \<Rightarrow> max v (g_granted g)) else m)
       (resource_envelope_grants db) None"

definition count_children :: "(reservation_row \<Rightarrow> bool) \<Rightarrow> ID \<Rightarrow> ID \<Rightarrow> DB \<Rightarrow> int" where
  "count_children p tenant parent db =
     int (length (filter (\<lambda>r. rr_tenant r = tenant \<and> rr_parent r = parent \<and> p r) (resource_reservations db)))"

definition lockParentResourceEnvelope :: "ID \<Rightarrow> ID \<Rightarrow> DB \<Rightarrow> envelope_row result" where
  "lockParentResourceEnvelope tenant parent db =
     (case find_envelope tenant parent db of
        None \<Rightarrow> Inl (NewError CodeConflict ''parent resource envelope is unavailable'')
      | Some e \<Rightarrow> Inr e)"

definition structural_limits :: "ID \<Rightarrow> ID \<Rightarrow> DB \<Rightarrow> (int \<times> int \<times> int) option" where
  "structural_limits tenant envelope db =
     (case (maximum_grant tenant envelope ''active_children'' db, maximum_grant tenant envelope ''total_children'' db,
            maximum_grant tenant envelope ''delegation_depth'' db) of
        (Some active, Some lifetime, Some depth) \<Rightarrow> Some (active, lifetime, depth)
      | _ \<Rightarrow> None)"

definition enforceChildTopology :: "ID \<Rightarrow> ID \<Rightarrow> ID \<Rightarrow> DB \<Rightarrow> unit result" where
  "enforceChildTopology tenant parent child db =
     and_then (lockParentResourceEnvelope tenant parent db) (\<lambda>_.
       case (structural_limits tenant parent db, structural_limits tenant child db) of
         (Some (maximumActive, maximumTotal, maximumDepth), Some (childMaximumActive, childMaximumTotal, childMaximumDepth)) \<Rightarrow>
           (let active = count_children (\<lambda>r. rr_state r = OPEN) tenant parent db;
                lifetime = count_children (\<lambda>r. True) tenant parent db
            in case envelope_depth tenant parent db of
                 None \<Rightarrow> Inl (New ''evaluate child topology: the ancestor query does not end'')
               | Some childDepth \<Rightarrow>
                   if childMaximumActive > maximumActive \<or> childMaximumTotal > maximumTotal \<or> childMaximumDepth > maximumDepth
                   then Inl (NewError CodeConflict ''child structural limits expand parent authority'')
                   else if active \<ge> maximumActive then Inl (NewError CodeConflict ''maximum active children reached'')
                   else if lifetime \<ge> maximumTotal then Inl (NewError CodeConflict ''maximum total children reached'')
                   else if childDepth > maximumDepth then Inl (NewError CodeConflict ''maximum delegation depth reached'')
                   else Inr ())
       | _ \<Rightarrow> Inl (NewError CodeConflict ''parent structural limits are unavailable''))"

section \<open>The reservation\<close>

record lockedResourceBalance =
  locked_unit :: string
  locked_scale :: nat
  locked_available :: int

text \<open>The join of balance, grant and dimension that is locked for one amount.\<close>

definition lock_parent_balance :: "ID \<Rightarrow> ID \<Rightarrow> ID \<Rightarrow> DB \<Rightarrow> (ResourceClass \<times> lockedResourceBalance) option" where
  "lock_parent_balance tenant parent dimension db =
     (case (find_balance (tenant, parent, dimension) db, find_grant (tenant, parent, dimension) db, find_dimension tenant dimension db) of
        (Some b, Some g, Some d) \<Rightarrow>
          Some (dim_Class d, \<lparr>locked_unit = g_unit g, locked_scale = g_scale g, locked_available = b_available b\<rparr>)
      | _ \<Rightarrow> None)"

definition lock_amount :: "ID \<Rightarrow> ID \<Rightarrow> DB \<Rightarrow> ResourceReservationAmount \<Rightarrow> (ID \<times> lockedResourceBalance) list
    \<Rightarrow> (ID \<times> lockedResourceBalance) list result" where
  "lock_amount tenant parent db a locked =
     (case lock_parent_balance tenant parent (ra_DimensionID a) db of
        None \<Rightarrow> Inl (NewError CodeConflict ''parent consumable balance is unavailable'')
      | Some (class, balance) \<Rightarrow>
          if class \<noteq> ResourceConsumable then Inl (NewError CodeConflict ''parent consumable balance is unavailable'')
          else if locked_available balance < ra_Coefficient a
          then Inl (NewError CodeConflict ''parent resource availability is insufficient'')
          else Inr ((ra_DimensionID a, balance) # locked))"

definition allocate :: "int \<Rightarrow> Time \<Rightarrow> balance_row \<Rightarrow> balance_row" where
  "allocate c at b = b\<lparr>b_available := b_available b - c, b_allocated_open := b_allocated_open b + c,
     b_state_version := b_state_version b + 1, b_updated := at\<rparr>"

definition debit_parent :: "ID \<Rightarrow> ID \<Rightarrow> ID \<Rightarrow> int \<Rightarrow> Time \<Rightarrow> DB \<Rightarrow> DB result" where
  "debit_parent tenant parent dimension c at db =
     and_then (wrapping ''debit parent resource balance''
         (update_balance (tenant, parent, dimension)
           (\<lambda>b. b_available b \<ge> c \<and> b_allocated_open b \<le> 9223372036854775807 - c \<and> b_state_version b < 9223372036854775807)
           (allocate c at) db))
       (\<lambda>(db, n).
          if n \<noteq> 1 then Inl (NewError CodeConflict ''parent resource balance changed or is exhausted'') else Inr db)"

text \<open>The body of the second loop: debit, item, grant, balance.\<close>

definition reserve_amount :: "ID \<Rightarrow> ResourceReservation \<Rightarrow> (ID \<times> lockedResourceBalance) list
    \<Rightarrow> ResourceReservationAmount \<Rightarrow> DB \<Rightarrow> DB result" where
  "reserve_amount tenant reservation locked a db =
     (let c = ra_Coefficient a; d = ra_DimensionID a;
          balance = (case map_of locked d of Some l \<Rightarrow> l | None \<Rightarrow> \<lparr>locked_unit = [], locked_scale = 0, locked_available = 0\<rparr>)
      in and_then (debit_parent tenant (rv_ParentEnvelopeID reservation) d c (rv_CreatedAt reservation) db) (\<lambda>db.
         and_then (wrapping ''insert resource reservation item''
           (pg_insert reservation_item_check (\<lambda>i j. reservation_item_key i = reservation_item_key j)
             \<lparr>ri_tenant = tenant, ri_reservation = rv_ID reservation, ri_dimension = d, ri_reserved = c,
              ri_unit = locked_unit balance, ri_scale = locked_scale balance\<rparr> (resource_reservation_items db))) (\<lambda>items.
         and_then (wrapping ''issue child resource grant''
           (pg_insert grant_check (\<lambda>g h. grant_key g = grant_key h)
             \<lparr>g_tenant = tenant, g_envelope = rv_ChildEnvelopeID reservation, g_dimension = d, g_granted = c,
              g_unit = locked_unit balance, g_scale = locked_scale balance\<rparr> (resource_envelope_grants db))) (\<lambda>grants.
         and_then (wrapping ''initialize child resource balance''
           (pg_insert balance_check (\<lambda>b e. balance_key b = balance_key e)
             \<lparr>b_tenant = tenant, b_envelope = rv_ChildEnvelopeID reservation, b_dimension = d, b_available = c,
              b_direct_consumed = 0, b_allocated_open = 0, b_state_version = 1, b_updated = rv_CreatedAt reservation\<rparr>
             (resource_balances db))) (\<lambda>balances.
         Inr (db\<lparr>resource_reservation_items := items, resource_envelope_grants := grants, resource_balances := balances\<rparr>))))))"

definition insert_reservation :: "ID \<Rightarrow> ResourceReservation \<Rightarrow> DB \<Rightarrow> DB result" where
  "insert_reservation tenant reservation db =
     (case pg_insert reservation_check reservation_conflict
         \<lparr>rr_id = rv_ID reservation, rr_tenant = tenant, rr_parent = rv_ParentEnvelopeID reservation,
          rr_child = rv_ChildEnvelopeID reservation, rr_run = rv_ChildRunID reservation, rr_state = OPEN,
          rr_expires = rv_ExpiresAt reservation, rr_created = rv_CreatedAt reservation, rr_settled = None\<rparr>
         (resource_reservations db) of
        Inl e \<Rightarrow> Inl (if e = unique_violation then WrapError CodeConflict ''resource reservation already exists'' e
                     else Wrapf ''insert resource reservation'' e)
      | Inr rows \<Rightarrow> Inr (db\<lparr>resource_reservations := rows\<rparr>))"

definition ReserveChildResources :: "ID \<Rightarrow> ResourceReservation \<Rightarrow> DB \<Rightarrow> (ResourceReservation \<times> DB) result" where
  "ReserveChildResources tenant requested db =
     and_then (repository_valid tenant) (\<lambda>_.
       if rv_TenantID requested \<noteq> tenant then Inl (New ''resource reservation does not match repository scope'')
       else and_then (ValidateAndSortResourceReservation requested) (\<lambda>reservation.
         and_then (enforceChildTopology tenant (rv_ParentEnvelopeID reservation) (rv_ChildEnvelopeID reservation) db) (\<lambda>_.
           if \<not> list_ex (\<lambda>e. e_tenant e = tenant \<and> e_id e = rv_ChildEnvelopeID reservation \<and> e_run e = rv_ChildRunID reservation
                 \<and> e_parent e = Some (rv_ParentEnvelopeID reservation) \<and> find_run tenant (e_run e) db \<noteq> None) (resource_envelopes db)
           then Inl (NewError CodeConflict ''child envelope is unavailable for reservation'')
           else and_then (fold_result (lock_amount tenant (rv_ParentEnvelopeID reservation) db) (rv_Amounts reservation) []) (\<lambda>locked.
             and_then (insert_reservation tenant reservation db) (\<lambda>db.
               and_then (fold_result (reserve_amount tenant reservation locked) (rv_Amounts reservation) db) (\<lambda>db.
                 Inr (reservation, db)))))))"

section \<open>Effect of one amount\<close>

lemma allocate_simps [simp]:
  "balance_key (allocate c at b) = balance_key b" "b_available (allocate c at b) = b_available b - c"
  "b_direct_consumed (allocate c at b) = b_direct_consumed b" "b_allocated_open (allocate c at b) = b_allocated_open b + c"
  by (simp_all add: allocate_def balance_key_def)

lemma debit_parent_Inr:
  assumes "debit_parent t e d c at db = Inr db'" "unique_key balance_key (resource_balances db)"
  obtains b where "b \<in> set (resource_balances db)" "balance_key b = (t, e, d)" "c \<le> b_available b"
    "balance_check (allocate c at b)" "db' = db\<lparr>resource_balances := update_where (\<lambda>x. x = b) (allocate c at) (resource_balances db)\<rparr>"
proof -
  from assms(1) obtain n where "update_balance (t, e, d) (\<lambda>b. b_available b \<ge> c \<and> b_allocated_open b \<le> 9223372036854775807 - c
      \<and> b_state_version b < 9223372036854775807) (allocate c at) db = Inr (db', n)" "n \<noteq> 0"
    by (auto simp: debit_parent_def and_then_Inr split: if_splits)
  from update_balance_one[OF this assms(2)] that show ?thesis by blast
qed

text \<open>The four rows that one amount of a reservation writes.\<close>

lemma reserve_amount_Inr:
  assumes "reserve_amount t q locked a db = Inr db'" "unique_key balance_key (resource_balances db)"
  obtains b u s where "b \<in> set (resource_balances db)" "balance_key b = (t, rv_ParentEnvelopeID q, ra_DimensionID a)"
    "balance_check (allocate (ra_Coefficient a) (rv_CreatedAt q) b)"
    "\<not> has_balance db (t, rv_ChildEnvelopeID q, ra_DimensionID a)" "\<not> has_grant db (t, rv_ChildEnvelopeID q, ra_DimensionID a)"
    "(t, rv_ID q, ra_DimensionID a) \<notin> reservation_item_key ` set (resource_reservation_items db)"
    "0 \<le> ra_Coefficient a" "ra_Coefficient a \<le> 9223372036854775807"
    "db' = db\<lparr>resource_balances := update_where (\<lambda>x. x = b) (allocate (ra_Coefficient a) (rv_CreatedAt q)) (resource_balances db) @
         [\<lparr>b_tenant = t, b_envelope = rv_ChildEnvelopeID q, b_dimension = ra_DimensionID a, b_available = ra_Coefficient a,
           b_direct_consumed = 0, b_allocated_open = 0, b_state_version = 1, b_updated = rv_CreatedAt q\<rparr>],
       resource_reservation_items := resource_reservation_items db @
         [\<lparr>ri_tenant = t, ri_reservation = rv_ID q, ri_dimension = ra_DimensionID a, ri_reserved = ra_Coefficient a, ri_unit = u, ri_scale = s\<rparr>],
       resource_envelope_grants := resource_envelope_grants db @
         [\<lparr>g_tenant = t, g_envelope = rv_ChildEnvelopeID q, g_dimension = ra_DimensionID a, g_granted = ra_Coefficient a, g_unit = u, g_scale = s\<rparr>]\<rparr>"
proof -
  let ?l = "case map_of locked (ra_DimensionID a) of Some l \<Rightarrow> l | None \<Rightarrow> \<lparr>locked_unit = [], locked_scale = 0, locked_available = 0\<rparr>"
  let ?c = "ra_Coefficient a" and ?d = "ra_DimensionID a" and ?ce = "rv_ChildEnvelopeID q"
  from assms(1) obtain db1 where d: "debit_parent t (rv_ParentEnvelopeID q) ?d ?c (rv_CreatedAt q) db = Inr db1"
    and ck: "balance_check \<lparr>b_tenant = t, b_envelope = ?ce, b_dimension = ?d, b_available = ?c,
           b_direct_consumed = 0, b_allocated_open = 0, b_state_version = 1, b_updated = rv_CreatedAt q\<rparr>"
    and cf: "\<forall>i \<in> set (resource_reservation_items db1). (t, rv_ID q, ?d) \<noteq> reservation_item_key i"
      "\<forall>g \<in> set (resource_envelope_grants db1). (t, ?ce, ?d) \<noteq> grant_key g"
      "\<forall>b \<in> set (resource_balances db1). (t, ?ce, ?d) \<noteq> balance_key b"
    and db': "db' = db1\<lparr>resource_reservation_items := resource_reservation_items db1 @
         [\<lparr>ri_tenant = t, ri_reservation = rv_ID q, ri_dimension = ?d, ri_reserved = ?c, ri_unit = locked_unit ?l, ri_scale = locked_scale ?l\<rparr>],
       resource_envelope_grants := resource_envelope_grants db1 @
         [\<lparr>g_tenant = t, g_envelope = ?ce, g_dimension = ?d, g_granted = ?c, g_unit = locked_unit ?l, g_scale = locked_scale ?l\<rparr>],
       resource_balances := resource_balances db1 @
         [\<lparr>b_tenant = t, b_envelope = ?ce, b_dimension = ?d, b_available = ?c, b_direct_consumed = 0, b_allocated_open = 0, b_state_version = 1, b_updated = rv_CreatedAt q\<rparr>]\<rparr>"
    unfolding reserve_amount_def Let_def and_then_Inr wrapping_Inr pg_insert_Inr
    by (auto simp: reservation_item_key_def[of "reservation_item_row.make _ _ _ _ _ _"] reservation_item_key_def grant_key_def balance_key_def)
  from debit_parent_Inr[OF d assms(2)] obtain b where b: "b \<in> set (resource_balances db)" "balance_key b = (t, rv_ParentEnvelopeID q, ?d)"
      "balance_check (allocate ?c (rv_CreatedAt q) b)"
      "db1 = db\<lparr>resource_balances := update_where (\<lambda>x. x = b) (allocate ?c (rv_CreatedAt q)) (resource_balances db)\<rparr>" by blast
  have "balance_key ` set (resource_balances db1) = balance_key ` set (resource_balances db)"
    unfolding b(4) using map_update_where[of balance_key "allocate ?c (rv_CreatedAt q)"] by (simp add: image_set del: set_map)
  then show ?thesis
    using that[of b "locked_unit ?l" "locked_scale ?l"] b cf ck db'
    by (auto simp: has_balance_def has_grant_def balance_check_def image_iff)
qed

section \<open>Conservation\<close>

text \<open>What a loop step of the reservation relies on: its own open row.\<close>

definition reserving :: "ID \<Rightarrow> ResourceReservation \<Rightarrow> DB \<Rightarrow> bool" where
  "reserving t q db \<longleftrightarrow>
     ledger_inv db \<and> rv_ParentEnvelopeID q \<noteq> rv_ChildEnvelopeID q \<and>
     (\<exists>r \<in> set (resource_reservations db). rr_tenant r = t \<and> rr_id r = rv_ID q \<and> rr_parent r = rv_ParentEnvelopeID q \<and>
        rr_child r = rv_ChildEnvelopeID q \<and> rr_state r = OPEN)"

lemma reserve_amount_inv:
  assumes "reserving t q db" "reserve_amount t q locked a db = Inr db'"
    and dim: "\<exists>d \<in> set (resource_dimensions db). dim_TenantID d = t \<and> dim_ID d = ra_DimensionID a"
  shows "reserving t q db' \<and> resource_dimensions db' = resource_dimensions db"
proof -
  let ?c = "ra_Coefficient a" and ?d = "ra_DimensionID a" and ?ce = "rv_ChildEnvelopeID q" and ?pe = "rv_ParentEnvelopeID q"
  let ?f = "allocate ?c (rv_CreatedAt q)"
  have inv: "ledger_inv db" and ne: "?pe \<noteq> ?ce" using assms(1) by (auto simp: reserving_def)
  then have keys: "keys_ok db" by (simp add: ledger_inv_def)
  then have ub: "unique_key balance_key (resource_balances db)" by (simp add: keys_ok_def)
  obtain r where r: "r \<in> set (resource_reservations db)" "rr_tenant r = t" "rr_id r = rv_ID q" "rr_parent r = ?pe" "rr_child r = ?ce" "rr_state r = OPEN"
    using assms(1) by (auto simp: reserving_def)
  obtain b u s where b: "b \<in> set (resource_balances db)" "balance_key b = (t, ?pe, ?d)" "balance_check (?f b)"
    and fresh: "\<not> has_balance db (t, ?ce, ?d)" "\<not> has_grant db (t, ?ce, ?d)"
      "(t, rv_ID q, ?d) \<notin> reservation_item_key ` set (resource_reservation_items db)"
    and c: "0 \<le> ?c" "?c \<le> 9223372036854775807"
    and db': "db' = db\<lparr>resource_balances := update_where (\<lambda>x. x = b) ?f (resource_balances db) @
         [\<lparr>b_tenant = t, b_envelope = ?ce, b_dimension = ?d, b_available = ?c,
           b_direct_consumed = 0, b_allocated_open = 0, b_state_version = 1, b_updated = rv_CreatedAt q\<rparr>],
       resource_reservation_items := resource_reservation_items db @
         [\<lparr>ri_tenant = t, ri_reservation = rv_ID q, ri_dimension = ?d, ri_reserved = ?c, ri_unit = u, ri_scale = s\<rparr>],
       resource_envelope_grants := resource_envelope_grants db @
         [\<lparr>g_tenant = t, g_envelope = ?ce, g_dimension = ?d, g_granted = ?c, g_unit = u, g_scale = s\<rparr>]\<rparr>"
    by (rule reserve_amount_Inr[OF assms(2) ub])
  define new where "new = \<lparr>b_tenant = t, b_envelope = ?ce, b_dimension = ?d, b_available = ?c,
           b_direct_consumed = 0, b_allocated_open = 0, b_state_version = 1, b_updated = rv_CreatedAt q\<rparr>"
  have new_key: "balance_key new = (t, ?ce, ?d)" by (simp add: new_def balance_key_def)
  have bal': "set (resource_balances db') = insert new (insert (?f b) (set (resource_balances db) - {b}))"
    using b(1) by (auto simp: db' set_update_where new_def)
  have same: "resource_reservations db' = resource_reservations db" "resource_dimensions db' = resource_dimensions db"
    "resource_extensions db' = resource_extensions db" "resource_extension_items db' = resource_extension_items db"
    by (simp_all add: db')
  have open_same: "reservation_open db' = reservation_open db" by (intro ext) (simp add: reservation_open_def same)
  have open_r: "reservation_open db t (rv_ID q) e \<longleftrightarrow> e = ?pe" for e
    using r keys by (auto simp: reservation_open_def list_ex_iff keys_ok_def dest: unique_keyD)
  have reserved: "reserved_open db' k = reserved_open db k + (if k = (t, ?pe, ?d) then ?c else 0)" for k
    unfolding reserved_open_def open_same by (cases k) (auto simp: db' open_r)
  have ext_same: "extended db' k = extended db k" for k
    by (simp add: extended_def extension_of_def same)
  have granted: "granted_total db' k = granted_total db k + (if k = (t, ?ce, ?d) then ?c else 0)" for k
    by (simp add: granted_total_def ext_same) (auto simp: db' grant_key_def)
  have hb: "has_balance db' k \<longleftrightarrow> has_balance db k \<or> k = (t, ?ce, ?d)" for k
    using b(1) unfolding has_balance_def bal' by (auto simp: new_key image_iff)
  have hg: "has_grant db' k \<longleftrightarrow> has_grant db k \<or> k = (t, ?ce, ?d)" for k
    by (auto simp: has_grant_def db' grant_key_def)
  have "balance_conserved db' x" if x: "x \<in> set (resource_balances db')" for x
  proof -
    consider "x = new" | "x = ?f b" | "x \<in> set (resource_balances db)" "x \<noteq> b" using x unfolding bal' by blast
    then show ?thesis
    proof cases
      case 1
      then show ?thesis
        using c ne reserved_open_no_balance[OF inv fresh(1)] granted_no_grant[OF inv fresh(2)]
        by (auto simp: balance_conserved_def new_key hg granted reserved) (auto simp: new_def balance_check_def)
    next
      case 2
      then show ?thesis
        using ledger_inv_balance[OF inv b(1)] b(2,3) ne by (simp add: balance_conserved_def hg granted reserved)
    next
      case 3
      have "balance_key x \<noteq> (t, ?pe, ?d)" using 3 b ub by (metis unique_keyD)
      moreover have "balance_key x \<noteq> (t, ?ce, ?d)" using 3 fresh(1) by (auto simp: has_balance_def image_iff)
      ultimately show ?thesis
        using ledger_inv_balance[OF inv 3(1)] by (simp add: balance_conserved_def hg granted reserved)
    qed
  qed
  moreover have "map balance_key (resource_balances db') = map balance_key (resource_balances db) @ [(t, ?ce, ?d)]"
    by (simp add: db' balance_key_def[of "balance_row.make _ _ _ _ _ _ _ _"]) (simp add: balance_key_def)
  then have "keys_ok db'"
    using keys fresh unfolding keys_ok_def has_balance_def has_grant_def unique_key_def same
    by (auto simp: db' grant_key_def reservation_item_key_def image_iff)
  moreover have "reservation_item_ok db' i" if "i \<in> set (resource_reservation_items db')" for i
  proof (cases "i \<in> set (resource_reservation_items db)")
    case True
    then have "reservation_item_ok db i" using inv by (simp add: ledger_inv_def list_all_iff)
    then show ?thesis unfolding reservation_item_ok_def hb same by blast
  next
    case False
    then have i: "i = \<lparr>ri_tenant = t, ri_reservation = rv_ID q, ri_dimension = ?d, ri_reserved = ?c, ri_unit = u, ri_scale = s\<rparr>"
      using that by (simp add: db')
    have "has_balance db (t, ?pe, ?d)" using b by (force simp: has_balance_def)
    then show ?thesis
      unfolding reservation_item_ok_def i hb same using r dim c by (auto intro!: bexI[of _ r])
  qed
  moreover have "extension_item_ok db' i" if "i \<in> set (resource_extension_items db')" for i
  proof -
    have "extension_item_ok db i" using inv that by (simp add: same ledger_inv_def list_all_iff)
    then show ?thesis unfolding extension_item_ok_def hg same by blast
  qed
  ultimately have "ledger_inv db'" by (simp add: ledger_inv_def list_all_iff)
  then show ?thesis using r ne by (auto simp: reserving_def same)
qed

lemma insert_reservation_inv:
  assumes "ledger_inv db" "insert_reservation t q db = Inr db'" "rv_ParentEnvelopeID q \<noteq> rv_ChildEnvelopeID q"
  shows "reserving t q db' \<and> resource_dimensions db' = resource_dimensions db \<and> resource_balances db' = resource_balances db"
proof -
  define r where "r = \<lparr>rr_id = rv_ID q, rr_tenant = t, rr_parent = rv_ParentEnvelopeID q,
          rr_child = rv_ChildEnvelopeID q, rr_run = rv_ChildRunID q, rr_state = OPEN,
          rr_expires = rv_ExpiresAt q, rr_created = rv_CreatedAt q, rr_settled = None\<rparr>"
  have db': "db' = db\<lparr>resource_reservations := resource_reservations db @ [r]\<rparr>"
    and fresh: "\<forall>s \<in> set (resource_reservations db). rr_id s \<noteq> rr_id r"
    using assms(2) by (auto simp: insert_reservation_def pg_insert_Inr reservation_conflict_def r_def split: sum.splits if_splits)
  have r: "rr_tenant r = t" "rr_id r = rv_ID q" "rr_parent r = rv_ParentEnvelopeID q" "rr_child r = rv_ChildEnvelopeID q" "rr_state r = OPEN"
    by (simp_all add: r_def)
  have item: "ri_reservation i \<noteq> rr_id r" if "i \<in> set (resource_reservation_items db)" for i
    using assms(1) that fresh by (auto simp: ledger_inv_def list_all_iff reservation_item_ok_def)
  have reserved: "reserved_open db' k = reserved_open db k" for k
    unfolding reserved_open_def
    by (cases k) (auto simp: db' reservation_open_def intro!: sum_where_cong dest: item)
  have same: "granted_total db' = granted_total db" "has_grant db' = has_grant db" "has_balance db' = has_balance db"
    by (auto simp: db' granted_total_def[abs_def] extended_def[abs_def] extension_of_def has_grant_def[abs_def] has_balance_def[abs_def])
  have "keys_ok db'" using assms(1) fresh by (auto simp: ledger_inv_def keys_ok_def db' unique_key_def)
  moreover have "balance_conserved db' = balance_conserved db"
    by (intro ext) (simp add: balance_conserved_def reserved same)
  moreover have "reservation_item_ok db i \<Longrightarrow> reservation_item_ok db' i" for i
    unfolding reservation_item_ok_def same by (auto simp: db')
  moreover have "extension_item_ok db i \<Longrightarrow> extension_item_ok db' i" for i
    unfolding extension_item_ok_def same by (auto simp: db')
  ultimately have "ledger_inv db'"
    using assms(1) by (auto simp: ledger_inv_def list_all_iff db')
  then show ?thesis using r assms(3) by (auto simp: reserving_def db')
qed

text \<open>Every locked amount names a dimension of the tenant.\<close>

lemma lock_amounts_dimensions:
  "fold_result (lock_amount t e db) as l = Inr l' \<Longrightarrow> a \<in> set as \<Longrightarrow>
     \<exists>d \<in> set (resource_dimensions db). dim_TenantID d = t \<and> dim_ID d = ra_DimensionID a"
proof (induction as arbitrary: l)
  case (Cons x as)
  from Cons.prems(1) obtain l1 where l1: "lock_amount t e db x l = Inr l1" "fold_result (lock_amount t e db) as l1 = Inr l'"
    by (auto simp: and_then_Inr)
  from l1(1) have "find_dimension t (ra_DimensionID x) db \<noteq> None"
    by (auto simp: lock_amount_def lock_parent_balance_def split: option.splits)
  then have "\<exists>d \<in> set (resource_dimensions db). dim_TenantID d = t \<and> dim_ID d = ra_DimensionID x"
    by (auto simp: find_dimension_def dest: find_SomeD)
  then show ?case using Cons.IH[OF l1(2)] Cons.prems(2) by auto
qed simp

lemma reserve_amounts_inv:
  "fold_result (reserve_amount t q locked) as db = Inr db' \<Longrightarrow> reserving t q db \<Longrightarrow>
   \<forall>a \<in> set as. \<exists>d \<in> set (resource_dimensions db). dim_TenantID d = t \<and> dim_ID d = ra_DimensionID a \<Longrightarrow> reserving t q db'"
proof (induction as arbitrary: db)
  case (Cons a as)
  from Cons.prems(1) obtain db1 where db1: "reserve_amount t q locked a db = Inr db1" "fold_result (reserve_amount t q locked) as db1 = Inr db'"
    by (auto simp: and_then_Inr)
  then show ?case
    using reserve_amount_inv[OF Cons.prems(2) db1(1)] Cons.prems(3) by (intro Cons.IH[OF db1(2)]) auto
qed simp

lemma ReserveChildResources_Inr:
  assumes "ReserveChildResources t q db = Inr (r, db')"
  obtains locked db1 where "ValidateAndSortResourceReservation q = Inr r" "rv_TenantID q = t"
    "enforceChildTopology t (rv_ParentEnvelopeID r) (rv_ChildEnvelopeID r) db = Inr ()"
    "fold_result (lock_amount t (rv_ParentEnvelopeID r) db) (rv_Amounts r) [] = Inr locked"
    "insert_reservation t r db = Inr db1" "fold_result (reserve_amount t r locked) (rv_Amounts r) db1 = Inr db'"
  using assms that by (auto simp: ReserveChildResources_def and_then_Inr split: if_splits)

lemma ReserveChildResources_inv:
  assumes "ledger_inv db" "ReserveChildResources t q db = Inr (r, db')"
  shows "ledger_inv db'"
proof -
  obtain locked db1 where v: "ValidateAndSortResourceReservation q = Inr r"
    and l: "fold_result (lock_amount t (rv_ParentEnvelopeID r) db) (rv_Amounts r) [] = Inr locked"
    and i: "insert_reservation t r db = Inr db1" and f: "fold_result (reserve_amount t r locked) (rv_Amounts r) db1 = Inr db'"
    by (rule ReserveChildResources_Inr[OF assms(2)])
  have "reserving t r db1 \<and> resource_dimensions db1 = resource_dimensions db"
    using insert_reservation_inv[OF assms(1) i] ValidateAndSort_Inr(6)[OF v] by simp
  then have "reserving t r db'" using f lock_amounts_dimensions[OF l] by (intro reserve_amounts_inv[OF f]) auto
  then show ?thesis by (simp add: reserving_def)
qed

section \<open>Refinement\<close>

definition reserve_spec :: "ID \<Rightarrow> ID \<Rightarrow> ID \<Rightarrow> ResourceReservationAmount \<Rightarrow> accounts \<Rightarrow> accounts" where
  "reserve_spec tenant parent child a m =
     (case m (tenant, parent, ra_DimensionID a) of
        None \<Rightarrow> m
      | Some x \<Rightarrow> m((tenant, parent, ra_DimensionID a) \<mapsto>
                   x\<lparr>avail := avail x - ra_Coefficient a, allocated := allocated x + ra_Coefficient a\<rparr>,
                 (tenant, child, ra_DimensionID a) \<mapsto> \<lparr>avail = ra_Coefficient a, consumed = 0, allocated = 0\<rparr>))"

lemma reserve_amount_accounts:
  assumes "reserve_amount t q locked a db = Inr db'" "ledger_inv db"
  shows "accounts db' = reserve_spec t (rv_ParentEnvelopeID q) (rv_ChildEnvelopeID q) a (accounts db)"
proof -
  let ?c = "ra_Coefficient a" and ?d = "ra_DimensionID a" and ?ce = "rv_ChildEnvelopeID q" and ?pe = "rv_ParentEnvelopeID q"
  let ?f = "allocate ?c (rv_CreatedAt q)"
  have ub: "unique_key balance_key (resource_balances db)" using assms(2) by (simp add: ledger_inv_def keys_ok_def)
  define new where "new = \<lparr>b_tenant = t, b_envelope = ?ce, b_dimension = ?d, b_available = ?c,
           b_direct_consumed = 0, b_allocated_open = 0, b_state_version = 1, b_updated = rv_CreatedAt q\<rparr>"
  obtain b where b: "b \<in> set (resource_balances db)" "balance_key b = (t, ?pe, ?d)"
    and fresh: "\<not> has_balance db (t, ?ce, ?d)"
    and db': "resource_balances db' = update_where (\<lambda>x. x = b) ?f (resource_balances db) @ [new]"
    by (rule reserve_amount_Inr[OF assms(1) ub]) (simp add: new_def)
  let ?mid = "db\<lparr>resource_balances := update_where (\<lambda>x. x = b) ?f (resource_balances db)\<rparr>"
  have mid: "accounts ?mid = (accounts db)((t, ?pe, ?d) \<mapsto> account_of (?f b))"
    using accounts_update[OF ub b(1), of ?f ?mid] b(2) by simp
  have key: "balance_key new = (t, ?ce, ?d)" by (simp add: new_def balance_key_def)
  have "\<not> has_balance ?mid (balance_key new)"
    using fresh mid by (auto simp: key accounts_None[symmetric])
       (metis accounts_None b fun_upd_apply has_balance_def image_eqI option.discI)
  then have "accounts db' = (accounts ?mid)(balance_key new \<mapsto> account_of new)"
    by (rule accounts_insert) (simp add: db')
  moreover have "accounts db (t, ?pe, ?d) = Some (account_of b)" using accounts_Some[OF ub b(1)] b(2) by simp
  ultimately show ?thesis
    by (simp add: mid key reserve_spec_def) (simp add: new_def account_of_def)
qed

lemma reserve_amounts_accounts:
  "fold_result (reserve_amount t q locked) as db = Inr db' \<Longrightarrow> reserving t q db \<Longrightarrow>
   \<forall>a \<in> set as. \<exists>d \<in> set (resource_dimensions db). dim_TenantID d = t \<and> dim_ID d = ra_DimensionID a \<Longrightarrow>
   accounts db' = fold (reserve_spec t (rv_ParentEnvelopeID q) (rv_ChildEnvelopeID q)) as (accounts db)"
proof (induction as arbitrary: db)
  case (Cons a as)
  from Cons.prems(1) obtain db1 where db1: "reserve_amount t q locked a db = Inr db1" "fold_result (reserve_amount t q locked) as db1 = Inr db'"
    by (auto simp: and_then_Inr)
  then show ?case
    using reserve_amount_inv[OF Cons.prems(2) db1(1)] reserve_amount_accounts[OF db1(1)] Cons.IH[OF db1(2)] Cons.prems(2,3)
    by (simp add: reserving_def)
qed simp

section \<open>Structural limits\<close>

lemma reserve_amount_tables:
  "reserve_amount t q locked a db = Inr db' \<Longrightarrow>
     resource_reservations db' = resource_reservations db \<and> resource_envelopes db' = resource_envelopes db"
  by (auto simp: reserve_amount_def Let_def and_then_Inr debit_parent_def update_balance_def split: if_splits)

lemma reserve_amounts_tables:
  "fold_result (reserve_amount t q locked) as db = Inr db' \<Longrightarrow>
     resource_reservations db' = resource_reservations db \<and> resource_envelopes db' = resource_envelopes db"
  by (induction as arbitrary: db) (auto simp: and_then_Inr dest!: reserve_amount_tables)

lemma insert_reservation_count:
  assumes "insert_reservation t q db = Inr db'"
  shows "count_children p t e db' = count_children p t e db +
    (if rv_ParentEnvelopeID q = e \<and> p (last (resource_reservations db')) then 1 else 0)"
    "rr_state (last (resource_reservations db')) = OPEN" "resource_envelopes db' = resource_envelopes db"
  using assms by (auto simp: insert_reservation_def pg_insert_Inr count_children_def split: sum.splits if_splits)

lemma ReserveChildResources_counts:
  assumes "ReserveChildResources t q db = Inr (r, db')"
  shows "count_children (\<lambda>x. rr_state x = OPEN) t (rv_ParentEnvelopeID q) db' = count_children (\<lambda>x. rr_state x = OPEN) t (rv_ParentEnvelopeID q) db + 1"
    "count_children (\<lambda>_. True) t (rv_ParentEnvelopeID q) db' = count_children (\<lambda>_. True) t (rv_ParentEnvelopeID q) db + 1"
proof -
  obtain locked db1 where v: "ValidateAndSortResourceReservation q = Inr r"
    and i: "insert_reservation t r db = Inr db1" and f: "fold_result (reserve_amount t r locked) (rv_Amounts r) db1 = Inr db'"
    by (rule ReserveChildResources_Inr[OF assms])
  have same: "count_children p t e db' = count_children p t e db1" for p e
    using reserve_amounts_tables[OF f] by (simp add: count_children_def)
  have "rv_ParentEnvelopeID r = rv_ParentEnvelopeID q"
    by (subst ValidateAndSort_Inr(1)[OF v]) simp
  then show "count_children (\<lambda>x. rr_state x = OPEN) t (rv_ParentEnvelopeID q) db' = count_children (\<lambda>x. rr_state x = OPEN) t (rv_ParentEnvelopeID q) db + 1"
    "count_children (\<lambda>_. True) t (rv_ParentEnvelopeID q) db' = count_children (\<lambda>_. True) t (rv_ParentEnvelopeID q) db + 1"
    using insert_reservation_count[OF i] by (simp_all add: same)
qed

text \<open>Envelopes are issued after their parents: then the ancestor query ends within its fuel.\<close>

definition parents_first :: "envelope_row list \<Rightarrow> bool" where
  "parents_first es \<longleftrightarrow>
     (\<forall>i < length es. \<forall>p. e_parent (es ! i) = Some p \<longrightarrow>
        (\<forall>j < length es. e_tenant (es ! j) = e_tenant (es ! i) \<and> e_id (es ! j) = p \<longrightarrow> j < i))"

lemma ancestry_terminates:
  assumes "parents_first (resource_envelopes db)"
  shows "\<exists>n. envelope_depth t i db = Some n \<and> 0 \<le> n \<and> n \<le> int (length (resource_envelopes db))"
proof -
  let ?es = "resource_envelopes db"
  have bound: "\<exists>n. ancestry fuel t i db = Some n \<and> 0 \<le> n \<and> n \<le> int m"
    if "m < fuel" "\<forall>j < length ?es. e_tenant (?es ! j) = t \<and> e_id (?es ! j) = i \<longrightarrow> j < m" for fuel m i
    using that
  proof (induction fuel arbitrary: m i)
    case (Suc fuel)
    show ?case
    proof (cases "find_envelope t i db")
      case None
      then show ?thesis by simp
    next
      case (Some e)
      then have "e \<in> set ?es" "e_tenant e = t" "e_id e = i" by (auto simp: find_envelope_def dest: find_SomeD)
      then obtain j where j: "j < length ?es" "?es ! j = e" by (auto simp: in_set_conv_nth)
      then have jm: "j < m" using Suc.prems(2) \<open>e_tenant e = t\<close> \<open>e_id e = i\<close> by auto
      show ?thesis
      proof (cases "e_parent e")
        case None
        then show ?thesis using Some jm by simp
      next
        case (Some p)
        have "\<forall>l < length ?es. e_tenant (?es ! l) = t \<and> e_id (?es ! l) = p \<longrightarrow> l < j"
          using assms j Some \<open>e_tenant e = t\<close> unfolding parents_first_def by metis
        then obtain n where "ancestry fuel t p db = Some n" "0 \<le> n" "n \<le> int j"
          using Suc.IH[of j p] Suc.prems(1) jm by auto
        then show ?thesis using \<open>find_envelope t i db = Some e\<close> Some jm by simp
      qed
    qed
  qed simp
  show ?thesis unfolding envelope_depth_def by (rule bound) auto
qed

section \<open>Properties\<close>


text \<open>
  C21: a reservation stays within the structural grants of its parent: afterwards the open children and
  the children ever created do not exceed the granted maxima, the new child's depth does not exceed the
  granted depth, and the child's own structural grants do not exceed the parent's.
\<close>

theorem reserve_within_topology:
  assumes "ReserveChildResources tenant requested db = Inr (reservation, db')"
    and "structural_limits tenant (rv_ParentEnvelopeID requested) db = Some (maxActive, maxTotal, maxDepth)"
    and "structural_limits tenant (rv_ChildEnvelopeID requested) db = Some (childActive, childTotal, childDepth)"
    and "envelope_depth tenant (rv_ParentEnvelopeID requested) db = Some depth"
  shows "count_children (\<lambda>x. rr_state x = OPEN) tenant (rv_ParentEnvelopeID requested) db' \<le> maxActive \<and>
    count_children (\<lambda>x. True) tenant (rv_ParentEnvelopeID requested) db' \<le> maxTotal \<and> depth \<le> maxDepth \<and>
    childActive \<le> maxActive \<and> childTotal \<le> maxTotal \<and> childDepth \<le> maxDepth"
proof -
  have v: "ValidateAndSortResourceReservation requested = Inr reservation"
    and e: "enforceChildTopology tenant (rv_ParentEnvelopeID reservation) (rv_ChildEnvelopeID reservation) db = Inr ()"
    by (rule ReserveChildResources_Inr[OF assms(1)], simp)+
  have r: "rv_ParentEnvelopeID reservation = rv_ParentEnvelopeID requested" "rv_ChildEnvelopeID reservation = rv_ChildEnvelopeID requested"
    by (subst ValidateAndSort_Inr(1)[OF v], simp)+
  show ?thesis
    using e assms(2-4) ReserveChildResources_counts[OF assms(1)]
    by (auto simp: enforceChildTopology_def and_then_Inr r Let_def split: if_splits)
qed

section \<open>Witnesses\<close>

lemma sort_key_ID_String: "sort_key (\<lambda>a. ID_String (f a)) xs = sort_key f xs"
proof -
  have "insort_key (\<lambda>a. ID_String (f a)) x ys = insort_key f x ys" for x ys
    by (induction ys) (simp_all add: ID_String_less_iff linorder_not_less[symmetric])
  then show ?thesis by (induction xs) (simp_all add: sort_key_def)
qed
definition demo_request :: ResourceReservation where
  "demo_request =
     \<lparr>rv_ID = demo_id 71, rv_TenantID = demo_tenant, rv_ParentEnvelopeID = parent_envelope, rv_ChildEnvelopeID = child_envelope,
      rv_ChildRunID = child_run,
      rv_Amounts = [\<lparr>ra_DimensionID = calls_dimension, ra_Coefficient = 20\<rparr>, \<lparr>ra_DimensionID = tokens_dimension, ra_Coefficient = 60\<rparr>],
      rv_ExpiresAt = None, rv_CreatedAt = demo_time 50\<rparr>"
lemma demo_valid: "ValidateAndSortResourceReservation demo_request = Inr (demo_request\<lparr>rv_Amounts := rev (rv_Amounts demo_request)\<rparr>)"
  by (simp add: demo_request_def ValidateAndSortResourceReservation_def demo_ids demo_time_def IsZeroTime_def zero_nano_def sort_key_ID_String sort_key_def)
lemma demo_topology: "enforceChildTopology demo_tenant parent_envelope child_envelope demo_db = Inr ()"
  by (simp add: enforceChildTopology_def lockParentResourceEnvelope_def find_envelope_def structural_limits_def maximum_grant_def demo_rows demo_ids count_children_def envelope_depth_def Let_def)

lemmas reserve_eval = ReserveChildResources_def repository_valid_def enforceChildTopology_def lockParentResourceEnvelope_def find_envelope_def
  structural_limits_def maximum_grant_def count_children_def envelope_depth_def lock_amount_def lock_parent_balance_def
  find_balance_def find_grant_def find_dimension_def find_run_def insert_reservation_def pg_insert_def reservation_check_def
  reservation_conflict_def reserve_amount_def debit_parent_def update_balance_def pg_update_def rows_affected_def wrapping_def
  update_where_def allocate_def balance_check_def balance_key_def grant_key_def grant_check_def unit_check_def
  reservation_item_check_def reservation_item_key_def

lemma demo_reserve_ok: "\<not> isl (ReserveChildResources demo_tenant demo_request demo_db)"
  unfolding ReserveChildResources_def demo_valid
  by (simp add: demo_request_def reserve_eval Let_def demo_rows demo_ids)

definition demo_reserved :: DB where
  "demo_reserved = snd (projr (ReserveChildResources demo_tenant demo_request demo_db))"

lemma demo_reserve:
  "ReserveChildResources demo_tenant demo_request demo_db = Inr (demo_request\<lparr>rv_Amounts := rev (rv_Amounts demo_request)\<rparr>, demo_reserved)"
proof -
  obtain r db' where r: "ReserveChildResources demo_tenant demo_request demo_db = Inr (r, db')"
    using demo_reserve_ok by (cases "ReserveChildResources demo_tenant demo_request demo_db") auto
  then have "ValidateAndSortResourceReservation demo_request = Inr r" by (rule ReserveChildResources_Inr)
  with r show ?thesis by (simp add: demo_valid demo_reserved_def)
qed


theorem reserve_within_topology_witness:
  "count_children (\<lambda>x. rr_state x = OPEN) demo_tenant parent_envelope demo_reserved \<le> 2"
  using reserve_within_topology[OF demo_reserve, of 2 3 2 1 1 1 1]
  by (simp add: demo_request_def structural_limits_def maximum_grant_def envelope_depth_def find_envelope_def demo_rows demo_ids)

end
