(* ===== verification/Usage.thy ===== *)
theory Usage
  imports Reservation
begin

text \<open>
  Metering (internal/adapters/postgres/resource\_usage.go): a trusted usage event is recorded once
  per producer and source event, debits the balance of the run's envelope, is limited by the
  throughput window of its resource, and drives the run into budget exhaustion when the balance
  reaches zero. The advisory lock on the source event key serializes the deliveries of one event,
  so a redelivery runs after the first delivery has committed.
\<close>

section \<open>Budget exhaustion\<close>

definition budgetDispositionEvent :: "ExhaustionDisposition \<Rightarrow> string" where
  "budgetDispositionEvent disposition =
     (if disposition = ExhaustionPause then ''run.paused_for_budget'' else ''run.failed_budget'')"

text \<open>The text of a state and of a disposition, as the JSON payloads carry them.\<close>

fun RunState_text :: "RunState \<Rightarrow> string" where
  "RunState_text RunPending = ''PENDING''"
| "RunState_text RunRejected = ''REJECTED''"
| "RunState_text RunAdmitted = ''ADMITTED''"
| "RunState_text RunRunning = ''RUNNING''"
| "RunState_text RunCompleted = ''COMPLETED''"
| "RunState_text RunFailed = ''FAILED''"
| "RunState_text RunCancelled = ''CANCELLED''"
| "RunState_text RunTimedOut = ''TIMED_OUT''"
| "RunState_text RunBudgetExhausted = ''BUDGET_EXHAUSTED''"
| "RunState_text RunPausedForBudget = ''PAUSED_FOR_BUDGET''"
| "RunState_text RunFailedBudget = ''FAILED_BUDGET''"
| "RunState_text (RunStateOther s) = s"

fun Disposition_text :: "ExhaustionDisposition \<Rightarrow> string" where
  "Disposition_text ExhaustionFail = ''FAIL''"
| "Disposition_text ExhaustionPause = ''PAUSE''"
| "Disposition_text (ExhaustionOther s) = s"

definition exhaustion_payload :: "TrustedUsage \<Rightarrow> RunLifecycle \<Rightarrow> json" where
  "exhaustion_payload u l =
     JObj [(''resource_name'', JStr (usage_ResourceName u)), (''state'', JStr (RunState_text (State l))),
           (''state_version'', JNum (Version l)), (''usage_id'', JStr (ID_String (usage_ID u)))]"

text \<open>\<open>UPDATE runs SET state=..., lease_id=NULL, ... WHERE ... state='RUNNING' AND state_version=...\<close>\<close>

definition exhaust_run :: "ID \<Rightarrow> ID \<Rightarrow> RunLifecycle \<Rightarrow> Time \<Rightarrow> int \<Rightarrow> int \<Rightarrow> DB \<Rightarrow> (DB \<times> nat) result" where
  "exhaust_run tenant run final at token version db =
     and_then (pg_update run_check
         (\<lambda>r. r_tenant r = tenant \<and> r_id r = run \<and> r_state r = RunRunning \<and> r_state_version r = version)
         (\<lambda>r. r\<lparr>r_state := State final, r_state_version := Version final, r_updated := at, r_terminal := TerminalAt final,
                r_lease_id := None, r_lease_expires := None, r_fencing_token := token\<rparr>)
         (runs db))
       (\<lambda>(rows, n). Inr (db\<lparr>runs := rows\<rparr>, n))"

definition exhaustion_audit :: "TrustedUsage \<Rightarrow> ID \<Rightarrow> RunLifecycle \<Rightarrow> ExhaustionDisposition \<Rightarrow> AuditEvent" where
  "exhaustion_audit u auditID final disposition =
     \<lparr>au_ID = auditID, au_TenantID = Some (usage_TenantID u), au_PrincipalID = Some (usage_ProducerID u),
      au_Action = ''resources.exhaust'', au_ResourceType = ''run'', au_ResourceID = ID_String (usage_RunID u),
      au_Outcome = ''SUCCEEDED'', au_ReasonCodes = JArr [JStr ''resource.budget.exhausted''], au_PolicyDecisionID = None,
      au_RequestID = None, au_TraceID = [],
      au_Metadata = JObj [(''disposition'', JStr (Disposition_text disposition)), (''resource_name'', JStr (usage_ResourceName u)),
        (''state'', JStr (RunState_text (State final))), (''state_version'', JNum (Version final)),
        (''usage_id'', JStr (ID_String (usage_ID u)))],
      au_PreviousHash = [], au_OccurredAt = usage_RecordedAt u\<rparr>"

definition exhaustion_event :: "TrustedUsage \<Rightarrow> ID \<Rightarrow> int \<Rightarrow> string \<Rightarrow> RunActor \<Rightarrow> RunLifecycle \<Rightarrow> run_event_row" where
  "exhaustion_event u i seq type actor l =
     \<lparr>ev_id = i, ev_tenant = usage_TenantID u, ev_run = usage_RunID u, ev_sequence = seq, ev_type = type, ev_actor_type = actor,
      ev_actor = None, ev_state = Some (State l), ev_state_version = Some (Version l), ev_payload = exhaustion_payload u l,
      ev_occurred = usage_RecordedAt u\<rparr>"

text \<open>The two lifecycle steps: to BUDGET\_EXHAUSTED, then to the state the disposition selects.\<close>

definition exhaust_lifecycle :: "int \<Rightarrow> Time \<Rightarrow> int \<Rightarrow> Time \<Rightarrow> ExhaustionDisposition \<Rightarrow> (RunLifecycle \<times> RunLifecycle \<times> RunActor) result" where
  "exhaust_lifecycle version updatedAt fencingToken at disposition =
     (let current = \<lparr>State = RunRunning, Version = version, UpdatedAt = updatedAt, TerminalAt = None\<rparr>;
          target = (if disposition = ExhaustionPause then RunPausedForBudget else RunFailedBudget);
          actor = (if disposition = ExhaustionPause then RunActorGovernor else RunActorSystem)
      in and_then (wrapping ''transition exhausted run'' (Transition current
            \<lparr>To = RunBudgetExhausted, Actor = RunActorGovernor, ExpectedVersion = version, At = at\<rparr>)) (\<lambda>(exhausted, _).
         case Transition exhausted \<lparr>To = target, Actor = actor, ExpectedVersion = Version exhausted, At = at\<rparr> of
           Inl _ \<Rightarrow> Inl (NewError CodeConflict ''run cannot enter budget exhaustion'')
         | Inr (final, _) \<Rightarrow>
             if fencingToken = MaxInt64 then Inl (NewError CodeConflict ''run cannot enter budget exhaustion'')
             else Inr (exhausted, final, actor)))"

definition applyBudgetExhaustion :: "Env \<Rightarrow> TrustedUsage \<Rightarrow> int \<Rightarrow> Time \<Rightarrow> int \<Rightarrow> ExhaustionDisposition \<Rightarrow> DB \<Rightarrow> DB result" where
  "applyBudgetExhaustion env u version updatedAt fencingToken disposition db =
     and_then (exhaust_lifecycle version updatedAt fencingToken (usage_RecordedAt u) disposition) (\<lambda>(exhausted, final, actor).
     and_then (wrapping ''persist budget exhaustion''
         (exhaust_run (usage_TenantID u) (usage_RunID u) final (usage_RecordedAt u) (wrap64 (fencingToken + 1)) version db)) (\<lambda>(db, n).
     if n \<noteq> 1 then Inl (New ''persist budget exhaustion'')
     else
       and_then (env_NewID env 0) (\<lambda>firstID.
       and_then (env_NewID env 1) (\<lambda>secondID.
       and_then (env_NewID env 2) (\<lambda>auditID.
       let sequence = next_sequence (usage_TenantID u) (usage_RunID u) db in
       and_then (wrapping ''append budget exhaustion event'' (insert_run_event_with_outbox
         (exhaustion_event u firstID sequence ''run.budget_exhausted'' RunActorGovernor exhausted) db)) (\<lambda>db.
       and_then (wrapping ''append budget exhaustion event'' (insert_run_event_with_outbox
         (exhaustion_event u secondID (sequence + 1) (budgetDispositionEvent disposition) actor final) db)) (\<lambda>db.
       wrapping ''append budget exhaustion audit'' (insert_audit env (exhaustion_audit u auditID final disposition) db))))))))"

section \<open>Throughput windows\<close>

text \<open>
  The upsert on \<open>resource_rate_windows\<close>: \<open>None\<close> when it returns no row, which is when the quantity
  alone or together with what the window has used exceeds the limit.
\<close>

definition apply_rate_window :: "ID \<Rightarrow> ID \<Rightarrow> ID \<Rightarrow> Time \<Rightarrow> int \<Rightarrow> Time \<Rightarrow> int \<Rightarrow> DB \<Rightarrow> DB option" where
  "apply_rate_window tenant envelope dimension start quantity at limit db =
     (if quantity > limit then None
      else case List.find (\<lambda>w. rate_window_key w = (tenant, envelope, dimension, unix_nano start)) (resource_rate_windows db) of
        None \<Rightarrow> Some (db\<lparr>resource_rate_windows := resource_rate_windows db @
          [\<lparr>w_tenant = tenant, w_envelope = envelope, w_dimension = dimension, w_start = start, w_used = quantity, w_updated = at\<rparr>]\<rparr>)
      | Some w \<Rightarrow>
          if w_used w \<le> limit - quantity
          then Some (db\<lparr>resource_rate_windows :=
            update_where (\<lambda>x. rate_window_key x = (tenant, envelope, dimension, unix_nano start))
              (\<lambda>x. x\<lparr>w_used := w_used x + quantity, w_updated := at\<rparr>) (resource_rate_windows db)\<rparr>)
          else None)"

text \<open>\<open>ThroughputLimitExceeded\<close>: the dimension and the instant of the next window, in the message.\<close>

definition ThroughputLimitExceeded :: "string \<Rightarrow> Time \<Rightarrow> goerror" where
  "ThroughputLimitExceeded name retryAt =
     Wrapf (name @ '' '' @ format_rfc3339nano retryAt) ErrStructuralThroughputExceeded"

text \<open>The structural grant that rate-limits a resource: dimension identifier, unit and limit.\<close>

definition rate_grant :: "ID \<Rightarrow> ID \<Rightarrow> string \<Rightarrow> DB \<Rightarrow> (ID \<times> string \<times> int) option" where
  "rate_grant tenant envelope name db =
     (case List.find (\<lambda>d. dim_TenantID d = tenant \<and> dim_Name d = name \<and> dim_Class d = ResourceStructural
           \<and> dim_Aggregation d = ResourceMaximum \<and> dim_Scale d = 0 \<and> find_grant (tenant, envelope, dim_ID d) db \<noteq> None)
         (resource_dimensions db) of
        None \<Rightarrow> None
      | Some d \<Rightarrow> map_option (\<lambda>g. (dim_ID d, dim_Unit d, g_granted g)) (find_grant (tenant, envelope, dim_ID d) db))"

definition enforce_throughput :: "ID \<Rightarrow> ID \<Rightarrow> TrustedUsage \<Rightarrow> ThroughputHint \<Rightarrow> DB \<Rightarrow> DB result" where
  "enforce_throughput tenant envelope u hint db =
     (case ThroughputDimensionName (usage_ResourceName u) of
        Inl _ \<Rightarrow> Inr db
      | Inr rateDimension \<Rightarrow>
          (case rate_grant tenant envelope rateDimension db of
             None \<Rightarrow> Inr db
           | Some (rateDimensionID, rateUnit, rateLimit) \<Rightarrow>
               if ThroughputUnitName (unit (usage_Quantity u)) \<noteq> Inr rateUnit
               then Inl (NewError CodeInvalidArgument ''structural throughput unit is invalid'')
               else
                 let retryAt = AddDuration (TruncateTime (usage_RecordedAt u) ThroughputWindow) ThroughputWindow in
                 if hint_Blocked hint \<and> hint_DimensionName hint = rateDimension
                 then Inl (ThroughputLimitExceeded rateDimension retryAt)
                 else
                   let windowStart = TruncateTime (usage_RecordedAt u) ThroughputWindow in
                   case apply_rate_window tenant envelope rateDimensionID windowStart (coefficient (amount (usage_Quantity u)))
                          (usage_RecordedAt u) rateLimit db of
                     None \<Rightarrow> Inl (ThroughputLimitExceeded rateDimension retryAt)
                   | Some db \<Rightarrow> Inr db))"

section \<open>Recording\<close>

text \<open>The join of envelope, run, grant, dimension and enabled producer that a usage event names.\<close>

definition usage_target :: "ID \<Rightarrow> ID \<Rightarrow> ID \<Rightarrow> string \<Rightarrow> DB \<Rightarrow> (envelope_row \<times> ResourceDimension \<times> grant_row \<times> run_row) option" where
  "usage_target tenant run producer name db =
     (case (List.find (\<lambda>e. e_tenant e = tenant \<and> e_run e = run) (resource_envelopes db), find_run tenant run db,
            List.find (\<lambda>d. dim_TenantID d = tenant \<and> dim_Name d = name) (resource_dimensions db), find_principal tenant producer db) of
        (Some e, Some r, Some d, Some _) \<Rightarrow>
          map_option (\<lambda>g. (e, d, g, r)) (find_grant (tenant, e_id e, dim_ID d) db)
      | _ \<Rightarrow> None)"

definition find_usage :: "ID \<Rightarrow> ID \<Rightarrow> string \<Rightarrow> DB \<Rightarrow> usage_row option" where
  "find_usage tenant producer source db =
     List.find (\<lambda>u. u_tenant u = tenant \<and> u_producer u = producer \<and> u_source_event u = source) (trusted_usage_entries db)"

definition consume :: "int \<Rightarrow> Time \<Rightarrow> balance_row \<Rightarrow> balance_row" where
  "consume c at b = b\<lparr>b_available := b_available b - c, b_direct_consumed := b_direct_consumed b + c,
     b_state_version := b_state_version b + 1, b_updated := at\<rparr>"

text \<open>The debit with \<open>RETURNING available_value\<close>.\<close>

definition apply_usage :: "ID \<times> ID \<times> ID \<Rightarrow> int \<Rightarrow> Time \<Rightarrow> DB \<Rightarrow> (DB \<times> int) result" where
  "apply_usage k c at db =
     and_then (wrapping ''apply trusted usage''
         (update_balance k
           (\<lambda>b. b_available b \<ge> c \<and> b_direct_consumed b \<le> 9223372036854775807 - c \<and> b_state_version b < 9223372036854775807)
           (consume c at) db))
       (\<lambda>(db, n).
          if n = 0 then Inl (NewError CodeConflict ''trusted usage exceeds available resource'')
          else case find_balance k db of
            None \<Rightarrow> Inl (New ''apply trusted usage'')
          | Some b \<Rightarrow> Inr (db, b_available b))"

definition insert_usage :: "ID \<Rightarrow> TrustedUsage \<Rightarrow> ID \<Rightarrow> ID \<Rightarrow> DB \<Rightarrow> DB result" where
  "insert_usage tenant u envelope dimension db =
     and_then (wrapping ''insert trusted usage'' (pg_insert usage_check usage_conflict
         \<lparr>u_id = usage_ID u, u_tenant = tenant, u_run = usage_RunID u, u_envelope = envelope, u_dimension = dimension,
          u_producer = usage_ProducerID u, u_source_event = usage_SourceEventID u,
          u_quantity = coefficient (amount (usage_Quantity u)), u_unit = unit (usage_Quantity u), u_scale = scale (amount (usage_Quantity u)),
          u_digest = usage_ContentDigest u, u_observed = usage_ObservedAt u, u_recorded = usage_RecordedAt u\<rparr>
         (trusted_usage_entries db)))
       (\<lambda>rows. Inr (db\<lparr>trusted_usage_entries := rows\<rparr>))"

text \<open>The transaction for an event that is not a replay.\<close>

definition record_new_usage :: "Env \<Rightarrow> ID \<Rightarrow> TrustedUsage \<Rightarrow> ThroughputHint \<Rightarrow> ExhaustionDisposition \<Rightarrow> DB \<Rightarrow> (UsageReceipt \<times> DB) result" where
  "record_new_usage env tenant u hint disposition db =
     (case usage_target tenant (usage_RunID u) (usage_ProducerID u) (usage_ResourceName u) db of
        None \<Rightarrow> Inl (NewError CodeNotFound ''metering target not found'')
      | Some (e, d, g, r) \<Rightarrow>
          if dim_Class d \<noteq> ResourceConsumable \<or> g_unit g \<noteq> unit (usage_Quantity u) \<or> g_scale g \<noteq> scale (amount (usage_Quantity u))
          then Inl (NewError CodeInvalidArgument ''trusted usage resource or unit is invalid'')
          else if r_state r \<noteq> RunRunning then Inl (NewError CodeConflict ''trusted usage requires a running run'')
          else if list_ex (\<lambda>x. rr_tenant x = tenant \<and> rr_child x = e_id e \<and> rr_state x \<noteq> OPEN) (resource_reservations db)
          then Inl (NewError CodeConflict ''late usage is not accepted after settlement'')
          else and_then (enforce_throughput tenant (e_id e) u hint db) (\<lambda>db.
            and_then (apply_usage (tenant, e_id e, dim_ID d) (coefficient (amount (usage_Quantity u))) (usage_RecordedAt u) db) (\<lambda>(db, availableAfter).
              and_then (insert_usage tenant u (e_id e) (dim_ID d) db) (\<lambda>db.
                and_then (if availableAfter = 0
                    then applyBudgetExhaustion env u (r_state_version r) (ToUTC (r_updated r)) (r_fencing_token r) disposition db
                    else Inr db) (\<lambda>db.
                  Inr (\<lparr>receipt_UsageID = usage_ID u, receipt_Duplicate = False, receipt_AcceptedAt = usage_RecordedAt u\<rparr>, db))))))"

definition RecordTrustedUsage :: "Env \<Rightarrow> ID \<Rightarrow> TrustedUsage \<Rightarrow> ThroughputHint \<Rightarrow> ExhaustionDisposition \<Rightarrow> DB \<Rightarrow> (UsageReceipt \<times> DB) result" where
  "RecordTrustedUsage env tenant candidate hint disposition db =
     and_then (repository_valid tenant) (\<lambda>_.
       if usage_TenantID candidate \<noteq> tenant then Inl (New ''trusted usage does not match repository scope'')
       else if \<not> ExhaustionDisposition_Valid disposition then Inl (NewError CodeInvalidArgument ''exhaustion disposition is invalid'')
       else case ValidateTrustedUsage (env_sha256 env) candidate of
         Inl e \<Rightarrow> Inl (WrapError CodeInvalidArgument ''trusted usage is invalid'' e)
       | Inr u \<Rightarrow>
           (case find_usage tenant (usage_ProducerID u) (usage_SourceEventID u) db of
              Some existing \<Rightarrow>
                and_then (wrapping ''decode trusted usage identifier'' (ParseID (ID_String (u_id existing)))) (\<lambda>i.
                  if u_digest existing \<noteq> usage_ContentDigest u
                  then Inl (NewError CodeConflict ''source event identifier was reused with different content'')
                  else Inr (\<lparr>receipt_UsageID = i, receipt_Duplicate = True, receipt_AcceptedAt = ToUTC (u_recorded existing)\<rparr>, db))
            | None \<Rightarrow> record_new_usage env tenant u hint disposition db))"

section \<open>Conservation\<close>

lemma exhaust_run_same:
  "exhaust_run t i final at token v db = Inr (db', n) \<Longrightarrow> same_ledger db db'"
  by (auto simp: exhaust_run_def and_then_Inr same_ledger_def)

lemma applyBudgetExhaustion_same:
  assumes "applyBudgetExhaustion env u v at token disposition db = Inr db'"
  shows "same_ledger db db'"
proof -
  from assms obtain exhausted final actor n db1 db2 db3 i1 i2 i3 where
    1: "exhaust_run (usage_TenantID u) (usage_RunID u) final (usage_RecordedAt u) (wrap64 (token + 1)) v db = Inr (db1, n)"
    and 2: "insert_run_event_with_outbox (exhaustion_event u i1 (next_sequence (usage_TenantID u) (usage_RunID u) db1)
       ''run.budget_exhausted'' RunActorGovernor exhausted) db1 = Inr db2"
    and 3: "insert_run_event_with_outbox (exhaustion_event u i2 (next_sequence (usage_TenantID u) (usage_RunID u) db1 + 1)
       (budgetDispositionEvent disposition) actor final) db2 = Inr db3"
    and 4: "insert_audit env (exhaustion_audit u i3 final disposition) db3 = Inr db'"
    by (auto simp: applyBudgetExhaustion_def Let_def and_then_Inr split: if_splits)
  show ?thesis
    using exhaust_run_same[OF 1] insert_run_event_with_outbox_same[OF 2] insert_run_event_with_outbox_same[OF 3] insert_audit_same[OF 4]
    by (blast intro: same_ledger_trans)
qed

lemma enforce_throughput_Inr:
  assumes "enforce_throughput t e u hint db = Inr db'"
  shows "\<exists>ws. db' = db\<lparr>resource_rate_windows := ws\<rparr>"
proof -
  have "\<exists>ws. db = db\<lparr>resource_rate_windows := ws\<rparr>" by (rule exI[of _ "resource_rate_windows db"]) simp
  then show ?thesis
    using assms by (auto simp: enforce_throughput_def apply_rate_window_def Let_def split: sum.splits option.splits if_splits prod.splits)
qed

lemma consume_simps [simp]:
  "balance_key (consume c at b) = balance_key b"
  "account_of (consume c at b) = account_of b\<lparr>avail := b_available b - c, consumed := b_direct_consumed b + c\<rparr>"
  by (simp_all add: consume_def balance_key_def account_of_def)

lemma apply_usage_Inr:
  assumes "apply_usage k c at db = Inr (db', left)" "unique_key balance_key (resource_balances db)"
  obtains b where "b \<in> set (resource_balances db)" "balance_key b = k" "c \<le> b_available b" "balance_check (consume c at b)"
    "db' = db\<lparr>resource_balances := update_where (\<lambda>x. x = b) (consume c at) (resource_balances db)\<rparr>" "left = b_available b - c"
proof -
  from assms(1) obtain n where u: "update_balance k (\<lambda>b. b_available b \<ge> c \<and> b_direct_consumed b \<le> 9223372036854775807 - c
      \<and> b_state_version b < 9223372036854775807) (consume c at) db = Inr (db', n)" "n \<noteq> 0" "map_option b_available (find_balance k db') = Some left"
    by (auto simp: apply_usage_def and_then_Inr split: option.splits if_splits)
  from update_balance_one[OF u(1,2) assms(2)] obtain b where b: "b \<in> set (resource_balances db)" "balance_key b = k" "c \<le> b_available b"
      "balance_check (consume c at b)" "db' = db\<lparr>resource_balances := update_where (\<lambda>x. x = b) (consume c at) (resource_balances db)\<rparr>"
    by blast
  then have "accounts db' k = Some (account_of (consume c at b))"
    using accounts_update[OF assms(2) b(1), of "consume c at" db'] by simp
  then have "left = b_available b - c"
    using u(3) by (auto simp: accounts_def account_of_def consume_def)
  then show ?thesis using that b by blast
qed

text \<open>A change of one balance that keeps its total and its allocation keeps the invariant.\<close>

lemma balance_move_inv:
  assumes "ledger_inv db" "b \<in> set (resource_balances db)" "balance_key (f b) = balance_key b" "balance_check (f b)"
    and "b_available (f b) + b_direct_consumed (f b) = b_available b + b_direct_consumed b" "b_allocated_open (f b) = b_allocated_open b"
  shows "ledger_inv (db\<lparr>resource_balances := update_where (\<lambda>x. x = b) f (resource_balances db)\<rparr>)" (is "ledger_inv ?db")
proof -
  have keys: "map balance_key (resource_balances ?db) = map balance_key (resource_balances db)"
    using assms(3) by (auto simp: update_where_def)
  then have hb: "has_balance ?db = has_balance db"
    unfolding has_balance_def[abs_def] by (metis image_set)
  have same: "granted_total ?db = granted_total db" "reserved_open ?db = reserved_open db" "has_grant ?db = has_grant db"
    by (auto simp: granted_total_def[abs_def] extended_def[abs_def] extension_of_def reserved_open_def[abs_def] reservation_open_def has_grant_def[abs_def])
  have "list_all (balance_conserved ?db) (resource_balances ?db)"
    by (rule balance_step[where f = f and g = 0 and r = 0, OF assms(1-4)]) (use assms(5,6) in \<open>simp_all add: same\<close>)
  moreover have "keys_ok ?db" using assms(1) keys by (simp add: ledger_inv_def keys_ok_def unique_key_def)
  moreover have "reservation_item_ok ?db = reservation_item_ok db" "extension_item_ok ?db = extension_item_ok db"
    by (auto simp: reservation_item_ok_def[abs_def] extension_item_ok_def[abs_def] hb same)
  ultimately show ?thesis using assms(1) by (simp add: ledger_inv_def list_all_iff)
qed

definition consume_spec :: "ID \<times> ID \<times> ID \<Rightarrow> int \<Rightarrow> accounts \<Rightarrow> accounts" where
  "consume_spec k c m =
     (case m k of None \<Rightarrow> m | Some x \<Rightarrow> m(k \<mapsto> x\<lparr>avail := avail x - c, consumed := consumed x + c\<rparr>))"


text \<open>The ways a usage event succeeds: a replay, or the steps of a new event.\<close>

lemma record_new_usage_Inr:
  assumes "record_new_usage env t u hint disposition db = Inr (receipt, db')"
  obtains e d g r db1 db2 left db3 where "usage_target t (usage_RunID u) (usage_ProducerID u) (usage_ResourceName u) db = Some (e, d, g, r)"
    "r_state r = RunRunning" "dim_Class d = ResourceConsumable" "enforce_throughput t (e_id e) u hint db = Inr db1"
    "apply_usage (t, e_id e, dim_ID d) (coefficient (amount (usage_Quantity u))) (usage_RecordedAt u) db1 = Inr (db2, left)"
    "insert_usage t u (e_id e) (dim_ID d) db2 = Inr db3"
    "if left = 0 then applyBudgetExhaustion env u (r_state_version r) (ToUTC (r_updated r)) (r_fencing_token r) disposition db3 = Inr db' else db' = db3"
    "receipt = \<lparr>receipt_UsageID = usage_ID u, receipt_Duplicate = False, receipt_AcceptedAt = usage_RecordedAt u\<rparr>"
proof -
  from assms obtain e d g r where target: "usage_target t (usage_RunID u) (usage_ProducerID u) (usage_ResourceName u) db = Some (e, d, g, r)"
    by (cases "usage_target t (usage_RunID u) (usage_ProducerID u) (usage_ResourceName u) db") (auto simp: record_new_usage_def)
  show ?thesis
    using assms that[OF target] by (auto simp: record_new_usage_def target and_then_Inr split: if_splits)
qed

lemma record_new_usage_effect:
  assumes "ledger_inv db" "record_new_usage env t u hint disposition db = Inr (receipt, db')"
  shows "ledger_inv db' \<and> (\<exists>e d g r. usage_target t (usage_RunID u) (usage_ProducerID u) (usage_ResourceName u) db = Some (e, d, g, r) \<and>
    has_balance db (t, e_id e, dim_ID d) \<and> accounts db' = consume_spec (t, e_id e, dim_ID d) (coefficient (amount (usage_Quantity u))) (accounts db))"
proof -
  let ?c = "coefficient (amount (usage_Quantity u))"
  obtain e d g r db1 db2 left db3 where target: "usage_target t (usage_RunID u) (usage_ProducerID u) (usage_ResourceName u) db = Some (e, d, g, r)"
    and 1: "enforce_throughput t (e_id e) u hint db = Inr db1"
    and 2: "apply_usage (t, e_id e, dim_ID d) ?c (usage_RecordedAt u) db1 = Inr (db2, left)"
    and 3: "insert_usage t u (e_id e) (dim_ID d) db2 = Inr db3"
    and 4: "if left = 0 then applyBudgetExhaustion env u (r_state_version r) (ToUTC (r_updated r)) (r_fencing_token r) disposition db3 = Inr db' else db' = db3"
    by (rule record_new_usage_Inr[OF assms(2)])
  from enforce_throughput_Inr[OF 1] obtain ws where db1: "db1 = db\<lparr>resource_rate_windows := ws\<rparr>" by blast
  have inv1: "ledger_inv db1" using assms(1) by (subst ledger_inv_cong[of db1 db]) (simp_all add: db1)
  then have ub: "unique_key balance_key (resource_balances db1)" by (simp add: ledger_inv_def keys_ok_def)
  obtain b where b: "b \<in> set (resource_balances db1)" "balance_key b = (t, e_id e, dim_ID d)" "?c \<le> b_available b" "balance_check (consume ?c (usage_RecordedAt u) b)"
    "db2 = db1\<lparr>resource_balances := update_where (\<lambda>x. x = b) (consume ?c (usage_RecordedAt u)) (resource_balances db1)\<rparr>"
    by (rule apply_usage_Inr[OF 2 ub])
  have inv2: "ledger_inv db2"
    unfolding b(5) using inv1 b(1,4)
    by (intro balance_move_inv[where f = "consume ?c (usage_RecordedAt u)"]) (simp_all add: consume_def balance_key_def)
  from 3 obtain us where db3: "db3 = db2\<lparr>trusted_usage_entries := us\<rparr>" by (auto simp: insert_usage_def and_then_Inr)
  have same: "same_ledger db3 db'" using 4 applyBudgetExhaustion_same by (auto split: if_splits)
  have "ledger_inv db'"
    using inv2 same_ledger_inv[OF same] ledger_inv_cong[of db3 db2] by (simp add: db3)
  moreover have "accounts db' = consume_spec (t, e_id e, dim_ID d) ?c (accounts db)"
  proof -
    have "accounts db' = accounts db2" using same by (intro accounts_cong) (simp add: same_ledger_def db3)
    also have "\<dots> = (accounts db1)((t, e_id e, dim_ID d) \<mapsto> account_of (consume ?c (usage_RecordedAt u) b))"
      using accounts_update[OF ub b(1), of "consume ?c (usage_RecordedAt u)" db2] b(2,5) by simp
    also have "\<dots> = consume_spec (t, e_id e, dim_ID d) ?c (accounts db)"
      using accounts_Some[OF ub b(1)] accounts_cong[of db1 db] by (simp add: consume_spec_def b(2) db1) (simp add: account_of_def)
    finally show ?thesis .
  qed
  moreover have "has_balance db (t, e_id e, dim_ID d)" using b(1,2) by (force simp: has_balance_def db1)
  ultimately show ?thesis using target by blast
qed

lemma RecordTrustedUsage_cases:
  assumes "RecordTrustedUsage env t q hint disposition db = Inr (receipt, db')"
  obtains (replay) u existing where "ValidateTrustedUsage (env_sha256 env) q = Inr u" "db' = db" "receipt_Duplicate receipt"
      "find_usage t (usage_ProducerID u) (usage_SourceEventID u) db = Some existing" "u_digest existing = usage_ContentDigest u"
      "receipt_UsageID receipt = u_id existing" "receipt_AcceptedAt receipt = ToUTC (u_recorded existing)"
    | (new) u where "ValidateTrustedUsage (env_sha256 env) q = Inr u" "record_new_usage env t u hint disposition db = Inr (receipt, db')"
      "find_usage t (usage_ProducerID u) (usage_SourceEventID u) db = None"
  using assms
  by (auto simp: RecordTrustedUsage_def and_then_Inr ParseID_ID_String split: if_splits sum.splits option.splits)

lemma RecordTrustedUsage_inv:
  assumes "ledger_inv db" "RecordTrustedUsage env t q hint disposition db = Inr (receipt, db')"
  shows "ledger_inv db'"
  using assms(2) by (cases rule: RecordTrustedUsage_cases) (use assms(1) record_new_usage_effect in auto)

section \<open>Replay\<close>

lemma ValidateTrustedUsage_Inr:
  assumes "ValidateTrustedUsage h q = Inr u"
  shows "u = q\<lparr>usage_ObservedAt := Unix_UTC (wrap64 (unix_nano (usage_ObservedAt q))), usage_RecordedAt := Unix_UTC (wrap64 (unix_nano (usage_RecordedAt q))),
      usage_ContentDigest := digest_text h (usage_material q (Unix_UTC (wrap64 (unix_nano (usage_ObservedAt q)))))\<rparr>"
    "location (usage_ObservedAt q) = UTC" "location (usage_RecordedAt q) = UTC"
  using assms by (auto simp: ValidateTrustedUsage_def RequireUTC_Inr split: if_splits sum.splits)

text \<open>A redelivery repeats the event; its own identifier and its time of arrival may differ.\<close>

definition redelivery :: "TrustedUsage \<Rightarrow> TrustedUsage \<Rightarrow> bool" where
  "redelivery q q' \<longleftrightarrow>
     (\<exists>i at digest. q' = q\<lparr>usage_ID := i, usage_RecordedAt := at, usage_ContentDigest := digest\<rparr> \<and> \<not> IsZero i \<and> location at = UTC)"

lemma redelivery_valid:
  assumes "ValidateTrustedUsage h q = Inr u" "redelivery q q'"
  shows "\<exists>u'. ValidateTrustedUsage h q' = Inr u' \<and> usage_ContentDigest u' = usage_ContentDigest u \<and>
    usage_ProducerID u' = usage_ProducerID u \<and> usage_SourceEventID u' = usage_SourceEventID u"
  using assms
  by (auto simp: redelivery_def ValidateTrustedUsage_def RequireUTC_eq usage_material_def split: if_splits sum.splits)

lemma record_new_usage_entry:
  assumes "record_new_usage env t u hint disposition db = Inr (receipt, db')"
    "find_usage t (usage_ProducerID u) (usage_SourceEventID u) db = None"
  shows "\<exists>x. find_usage t (usage_ProducerID u) (usage_SourceEventID u) db' = Some x \<and> u_id x = usage_ID u \<and>
    u_digest x = usage_ContentDigest u \<and> u_recorded x = usage_RecordedAt u"
    and "receipt_UsageID receipt = usage_ID u" "receipt_AcceptedAt receipt = usage_RecordedAt u"
proof -
  obtain e d g r db1 db2 left db3 where "usage_target t (usage_RunID u) (usage_ProducerID u) (usage_ResourceName u) db = Some (e, d, g, r)"
    and 1: "enforce_throughput t (e_id e) u hint db = Inr db1"
    and 2: "apply_usage (t, e_id e, dim_ID d) (coefficient (amount (usage_Quantity u))) (usage_RecordedAt u) db1 = Inr (db2, left)"
    and 3: "insert_usage t u (e_id e) (dim_ID d) db2 = Inr db3"
    and 4: "if left = 0 then applyBudgetExhaustion env u (r_state_version r) (ToUTC (r_updated r)) (r_fencing_token r) disposition db3 = Inr db' else db' = db3"
    and 5: "receipt = \<lparr>receipt_UsageID = usage_ID u, receipt_Duplicate = False, receipt_AcceptedAt = usage_RecordedAt u\<rparr>"
    by (rule record_new_usage_Inr[OF assms(1)])
  have "same_ledger db3 db'" using 4 applyBudgetExhaustion_same by (auto split: if_splits)
  then have "trusted_usage_entries db' = trusted_usage_entries db3" by (simp add: same_ledger_def)
  moreover have "trusted_usage_entries db2 = trusted_usage_entries db"
    using enforce_throughput_Inr[OF 1] 2 by (auto simp: apply_usage_def update_balance_def and_then_Inr split: if_splits option.splits)
  ultimately show "\<exists>x. find_usage t (usage_ProducerID u) (usage_SourceEventID u) db' = Some x \<and> u_id x = usage_ID u \<and>
    u_digest x = usage_ContentDigest u \<and> u_recorded x = usage_RecordedAt u"
    using 3 assms(2) by (auto simp: insert_usage_def and_then_Inr pg_insert_Inr find_usage_def find_append)
  show "receipt_UsageID receipt = usage_ID u" "receipt_AcceptedAt receipt = usage_RecordedAt u" using 5 by simp_all
qed

lemma RecordTrustedUsage_entry:
  assumes "RecordTrustedUsage env t q hint disposition db = Inr (receipt, db')"
  obtains u x where "ValidateTrustedUsage (env_sha256 env) q = Inr u" "find_usage t (usage_ProducerID u) (usage_SourceEventID u) db' = Some x"
    "u_digest x = usage_ContentDigest u" "u_id x = receipt_UsageID receipt" "ToUTC (u_recorded x) = receipt_AcceptedAt receipt"
  using assms
proof (cases rule: RecordTrustedUsage_cases)
  case (replay u x)
  then show ?thesis using that[of u x] by simp
next
  case (new u)
  obtain x where x: "find_usage t (usage_ProducerID u) (usage_SourceEventID u) db' = Some x" "u_id x = usage_ID u"
    "u_digest x = usage_ContentDigest u" "u_recorded x = usage_RecordedAt u"
    using record_new_usage_entry(1)[OF new(2,3)] by blast
  have "usage_RecordedAt u = Unix_UTC (wrap64 (unix_nano (usage_RecordedAt q)))"
    using ValidateTrustedUsage_Inr(1)[OF new(1)] by simp
  then have "ToUTC (usage_RecordedAt u) = usage_RecordedAt u" by (simp add: ToUTC_def Unix_UTC_def)
  then show ?thesis using that[OF new(1) x(1)] x record_new_usage_entry(2,3)[OF new(2,3)] by simp
qed

section \<open>Exhaustion\<close>

lemma Transition_to:
  "Transition run c = Inr (n, changed) \<Longrightarrow> \<not> Terminal (State run) \<Longrightarrow>
     State n = To c \<and> Version n = wrap64 (Version run + 1) \<and> (TerminalAt n \<noteq> None) = Terminal (To c)"
  by (auto simp: Transition_Inr)

lemma exhaust_lifecycle_Inr:
  assumes "exhaust_lifecycle v updatedAt token at disposition = Inr (exhausted, final, actor)"
  shows "State final = (if disposition = ExhaustionPause then RunPausedForBudget else RunFailedBudget)" "token \<noteq> MaxInt64"
    "Version final = wrap64 (wrap64 (v + 1) + 1)"
proof -
  let ?target = "if disposition = ExhaustionPause then RunPausedForBudget else RunFailedBudget"
  from assms obtain e c1 where 1: "Transition \<lparr>State = RunRunning, Version = v, UpdatedAt = updatedAt, TerminalAt = None\<rparr>
        \<lparr>To = RunBudgetExhausted, Actor = RunActorGovernor, ExpectedVersion = v, At = at\<rparr> = Inr (e, c1)"
    by (auto simp: exhaust_lifecycle_def Let_def and_then_Inr)
  let ?a = "if disposition = ExhaustionPause then RunActorGovernor else RunActorSystem"
  from assms 1 obtain c2 where 2: "Transition e \<lparr>To = ?target, Actor = ?a, ExpectedVersion = Version e, At = at\<rparr> = Inr (final, c2)"
      "token \<noteq> MaxInt64"
    by (cases "Transition e \<lparr>To = ?target, Actor = ?a, ExpectedVersion = Version e, At = at\<rparr>")
      (simp_all add: exhaust_lifecycle_def Let_def wrapping_def split: prod.splits if_splits)
  then show "State final = ?target" "token \<noteq> MaxInt64" "Version final = wrap64 (wrap64 (v + 1) + 1)"
    using Transition_to[OF 1] Transition_to[OF 2(1)] by simp_all
qed

lemma exhaust_run_find:
  assumes "exhaust_run t i final at token v db = Inr (db', n)" "n \<noteq> 0" "unique_key r_id (runs db)"
  shows "\<exists>r. find_run t i db' = Some r \<and> r_state r = State final \<and> r_state_version r = Version final \<and> r_lease_id r = None \<and> r_fencing_token r = token"
proof -
  let ?p = "\<lambda>r. r_tenant r = t \<and> r_id r = i \<and> r_state r = RunRunning \<and> r_state_version r = v"
  let ?f = "\<lambda>r. r\<lparr>r_state := State final, r_state_version := Version final, r_updated := at, r_terminal := TerminalAt final,
                r_lease_id := None, r_lease_expires := None, r_fencing_token := token\<rparr>"
  have u: "runs db' = update_where ?p ?f (runs db)" "rows_affected ?p (runs db) \<noteq> 0"
    using assms(1,2) by (auto simp: exhaust_run_def and_then_Inr pg_update_Inr)
  then obtain r where r: "r \<in> set (runs db)" "?p r" using rows_affected_pos[of ?p] by blast
  have "find_run t i db' = Some (?f r)"
    unfolding find_run_def u(1) using assms(3) r
    by (intro unique_key_find[where k = r_id]) (auto simp: set_update_where)
  then show ?thesis by simp
qed

section \<open>Throughput\<close>

text \<open>There is one window per grant and minute, and none has used more than its grant.\<close>

definition windows_within :: "DB \<Rightarrow> bool" where
  "windows_within db \<longleftrightarrow>
     unique_key rate_window_key (resource_rate_windows db) \<and>
     list_all (\<lambda>w. case find_grant (w_tenant w, w_envelope w, w_dimension w) db of
       None \<Rightarrow> False | Some g \<Rightarrow> w_used w \<le> g_granted g) (resource_rate_windows db)"

lemma rate_grant_Some:
  "rate_grant t e name db = Some (d, u, limit) \<Longrightarrow> \<exists>g. find_grant (t, e, d) db = Some g \<and> g_granted g = limit"
  by (auto simp: rate_grant_def split: option.splits)

lemma apply_rate_window_within:
  assumes "windows_within db" "apply_rate_window t e d start q at limit db = Some db'" "find_grant (t, e, d) db = Some g" "g_granted g = limit"
  shows "windows_within db'"
proof -
  let ?k = "(t, e, d, unix_nano start)" and ?ok = "\<lambda>w. \<exists>g. find_grant (w_tenant w, w_envelope w, w_dimension w) db = Some g \<and> w_used w \<le> g_granted g"
  have within: "windows_within x \<longleftrightarrow> unique_key rate_window_key (resource_rate_windows x) \<and> (\<forall>w \<in> set (resource_rate_windows x). ?ok w)"
    if "resource_envelope_grants x = resource_envelope_grants db" for x
    using that by (auto simp: windows_within_def list_all_iff find_grant_def split: option.splits)
  have uk: "unique_key rate_window_key (resource_rate_windows db)" and ok: "\<forall>w \<in> set (resource_rate_windows db). ?ok w"
    using assms(1) within[of db] by simp_all
  show ?thesis
  proof (cases "List.find (\<lambda>w. rate_window_key w = ?k) (resource_rate_windows db)")
    case None
    have key: "rate_window_key \<lparr>w_tenant = t, w_envelope = e, w_dimension = d, w_start = start, w_used = q, w_updated = at\<rparr> = ?k"
      by (simp add: rate_window_key_def)
    have "?k \<notin> rate_window_key ` set (resource_rate_windows db)" using None by (auto simp: find_None_iff)
    then show ?thesis
      using None uk ok assms by (subst within) (auto simp: apply_rate_window_def unique_key_def key split: if_splits)
  next
    case (Some w)
    let ?f = "\<lambda>x. x\<lparr>w_used := w_used x + q, w_updated := at\<rparr>"
    have w: "w \<in> set (resource_rate_windows db)" "rate_window_key w = ?k" "w_used w + q \<le> limit"
      and db': "db' = db\<lparr>resource_rate_windows := update_where (\<lambda>x. rate_window_key x = ?k) ?f (resource_rate_windows db)\<rparr>"
      using Some assms(2) by (auto simp: apply_rate_window_def dest: find_SomeD split: if_splits)
    have "?ok x" if x: "x \<in> set (resource_rate_windows db')" for x
    proof -
      have "x = ?f w \<or> x \<in> set (resource_rate_windows db)"
        using x w uk unfolding db' by (auto simp: set_update_where dest: unique_keyD)
      moreover have "?ok (?f w)" using w assms(3,4) by (auto simp: rate_window_key_def)
      ultimately show ?thesis using ok by blast
    qed
    then show ?thesis using uk by (subst within) (simp_all add: db' rate_window_key_def)
  qed
qed

lemma enforce_throughput_within:
  assumes "windows_within db" "enforce_throughput t e u hint db = Inr db'"
  shows "windows_within db'"
  using assms
  by (auto simp: enforce_throughput_def Let_def split: sum.splits option.splits if_splits prod.splits
      dest!: rate_grant_Some intro: apply_rate_window_within)

lemma RecordTrustedUsage_within:
  assumes "windows_within db" "RecordTrustedUsage env t q hint disposition db = Inr (receipt, db')"
  shows "windows_within db'"
  using assms(2)
proof (cases rule: RecordTrustedUsage_cases)
  case (replay u x)
  then show ?thesis using assms(1) by simp
next
  case (new u)
  obtain e d g r db1 db2 left db3 where "usage_target t (usage_RunID u) (usage_ProducerID u) (usage_ResourceName u) db = Some (e, d, g, r)"
    and 1: "enforce_throughput t (e_id e) u hint db = Inr db1"
    and 2: "apply_usage (t, e_id e, dim_ID d) (coefficient (amount (usage_Quantity u))) (usage_RecordedAt u) db1 = Inr (db2, left)"
    and 3: "insert_usage t u (e_id e) (dim_ID d) db2 = Inr db3"
    and 4: "if left = 0 then applyBudgetExhaustion env u (r_state_version r) (ToUTC (r_updated r)) (r_fencing_token r) disposition db3 = Inr db' else db' = db3"
    by (rule record_new_usage_Inr[OF new(2)])
  have "same_ledger db3 db'" using 4 applyBudgetExhaustion_same by (auto split: if_splits)
  moreover have "resource_rate_windows db3 = resource_rate_windows db1" "resource_envelope_grants db3 = resource_envelope_grants db1"
    using 2 3 by (auto simp: apply_usage_def update_balance_def insert_usage_def and_then_Inr split: if_splits option.splits)
  ultimately have "resource_rate_windows db' = resource_rate_windows db1" "find_grant = find_grant \<and> resource_envelope_grants db' = resource_envelope_grants db1"
    by (simp_all add: same_ledger_def)
  then show ?thesis using enforce_throughput_within[OF assms(1) 1] by (simp add: windows_within_def find_grant_def)
qed

section \<open>Properties\<close>


text \<open>
  C18: an accepted usage event either is a replay, which changes no balance, or moves exactly its
  quantity from available to consumed in the one balance of the run's envelope and dimension; no
  balance is overdrawn and the ledger stays conserved.
\<close>

theorem usage_refines:
  assumes "ledger_inv db" "RecordTrustedUsage env t q hint disposition db = Inr (receipt, db')"
  shows "ledger_inv db' \<and>
    (if receipt_Duplicate receipt then db' = db
     else \<exists>e d g r. usage_target t (usage_RunID q) (usage_ProducerID q) (usage_ResourceName q) db = Some (e, d, g, r) \<and>
       accounts db' = consume_spec (t, e_id e, dim_ID d) (coefficient (amount (usage_Quantity q))) (accounts db))"
  using assms(2)
proof (cases rule: RecordTrustedUsage_cases)
  case (replay u x)
  then show ?thesis using assms(1) by simp
next
  case (new u)
  have "\<not> receipt_Duplicate receipt" by (rule record_new_usage_Inr[OF new(2)]) simp
  then show ?thesis
    using record_new_usage_effect[OF assms(1) new(2)] ValidateTrustedUsage_Inr(1)[OF new(1)] by auto
qed

text \<open>
  C22: metering never lets a throughput window exceed the structural grant it is charged against.
\<close>

theorem usage_within_windows:
  assumes "windows_within db" "RecordTrustedUsage env t q hint disposition db = Inr (receipt, db')"
  shows "windows_within db'"
  using assms by (rule RecordTrustedUsage_within)

lemma applyBudgetExhaustion_run:
  assumes "applyBudgetExhaustion env u v at token disposition db = Inr db'" "unique_key r_id (runs db)"
  shows "\<exists>r. find_run (usage_TenantID u) (usage_RunID u) db' = Some r \<and>
    r_state r = (if disposition = ExhaustionPause then RunPausedForBudget else RunFailedBudget) \<and>
    r_lease_id r = None \<and> r_fencing_token r = wrap64 (token + 1) \<and> token \<noteq> MaxInt64"
proof -
  from assms obtain exhausted final actor n db1 db2 db3 i1 i2 i3 where
    0: "exhaust_lifecycle v at token (usage_RecordedAt u) disposition = Inr (exhausted, final, actor)"
    and 1: "exhaust_run (usage_TenantID u) (usage_RunID u) final (usage_RecordedAt u) (wrap64 (token + 1)) v db = Inr (db1, n)" "n \<noteq> 0"
    and 2: "insert_run_event_with_outbox (exhaustion_event u i1 (next_sequence (usage_TenantID u) (usage_RunID u) db1)
       ''run.budget_exhausted'' RunActorGovernor exhausted) db1 = Inr db2"
    and 3: "insert_run_event_with_outbox (exhaustion_event u i2 (next_sequence (usage_TenantID u) (usage_RunID u) db1 + 1)
       (budgetDispositionEvent disposition) actor final) db2 = Inr db3"
    and 4: "insert_audit env (exhaustion_audit u i3 final disposition) db3 = Inr db'"
    by (auto simp: applyBudgetExhaustion_def Let_def and_then_Inr split: if_splits)
  have "runs db' = runs db1"
    using insert_run_event_with_outbox_same[OF 2] insert_run_event_with_outbox_same[OF 3] insert_audit_same[OF 4] by simp
  then have "find_run (usage_TenantID u) (usage_RunID u) db' = find_run (usage_TenantID u) (usage_RunID u) db1" by (simp add: find_run_def)
  then show ?thesis using exhaust_run_find[OF 1 assms(2)] exhaust_lifecycle_Inr[OF 0] by auto
qed

text \<open>
  C23: a run that has spent the last of a balance does not keep running. The usage event that brings a
  balance to zero takes the run out of RUNNING, into FAILED\_BUDGET or PAUSED\_FOR\_BUDGET as the
  disposition says, ends its lease and advances its fencing token, so that the worker it had is fenced off.
\<close>

theorem usage_exhausts_run:
  assumes "ledger_inv db" "unique_key r_id (runs db)" "int64 (r_fencing_token r)"
    and "RecordTrustedUsage env t q hint disposition db = Inr (receipt, db')" "\<not> receipt_Duplicate receipt"
    and "usage_target t (usage_RunID q) (usage_ProducerID q) (usage_ResourceName q) db = Some (e, d, g, r)"
    and "accounts db' (t, e_id e, dim_ID d) = Some x" "avail x = 0"
  shows "\<exists>r'. find_run t (usage_RunID q) db' = Some r' \<and>
    r_state r' = (if disposition = ExhaustionPause then RunPausedForBudget else RunFailedBudget) \<and>
    r_lease_id r' = None \<and> r_fencing_token r' = r_fencing_token r + 1"
  using assms(4)
proof (cases rule: RecordTrustedUsage_cases)
  case (replay u y)
  then show ?thesis using assms(5) by simp
next
  case (new u)
  note u = ValidateTrustedUsage_Inr(1)[OF new(1)]
  have t: "usage_TenantID q = t" using assms(4) by (auto simp: RecordTrustedUsage_def and_then_Inr split: if_splits)
  let ?c = "coefficient (amount (usage_Quantity u))"
  obtain e' d' g' r' db1 db2 left db3 where target: "usage_target t (usage_RunID u) (usage_ProducerID u) (usage_ResourceName u) db = Some (e', d', g', r')"
    and 1: "enforce_throughput t (e_id e') u hint db = Inr db1"
    and 2: "apply_usage (t, e_id e', dim_ID d') ?c (usage_RecordedAt u) db1 = Inr (db2, left)"
    and 3: "insert_usage t u (e_id e') (dim_ID d') db2 = Inr db3"
    and 4: "if left = 0 then applyBudgetExhaustion env u (r_state_version r') (ToUTC (r_updated r')) (r_fencing_token r') disposition db3 = Inr db' else db' = db3"
    by (rule record_new_usage_Inr[OF new(2)])
  have same: "e' = e" "d' = d" "r' = r" using target assms(6) u by simp_all
  from enforce_throughput_Inr[OF 1] obtain ws where db1: "db1 = db\<lparr>resource_rate_windows := ws\<rparr>" by blast
  have ub: "unique_key balance_key (resource_balances db1)" using assms(1) by (simp add: ledger_inv_def keys_ok_def db1)
  obtain b where b: "b \<in> set (resource_balances db1)" "balance_key b = (t, e_id e', dim_ID d')" "?c \<le> b_available b"
      "db2 = db1\<lparr>resource_balances := update_where (\<lambda>x. x = b) (consume ?c (usage_RecordedAt u)) (resource_balances db1)\<rparr>" "left = b_available b - ?c"
    by (rule apply_usage_Inr[OF 2 ub])
  have runs: "runs db3 = runs db" using 3 b(4) by (auto simp: insert_usage_def and_then_Inr db1)
  have "resource_balances db' = resource_balances db2"
    using 3 4 applyBudgetExhaustion_same by (auto simp: insert_usage_def and_then_Inr same_ledger_def split: if_splits)
  then have "accounts db' (t, e_id e', dim_ID d') = Some (account_of (consume ?c (usage_RecordedAt u) b))"
    using accounts_update[OF ub b(1), of "consume ?c (usage_RecordedAt u)" db2] b(2,4) accounts_cong[of db' db2] by simp
  then have "left = 0" using assms(7,8) b(5) by (simp add: same account_of_def consume_def)
  then have "applyBudgetExhaustion env u (r_state_version r') (ToUTC (r_updated r')) (r_fencing_token r') disposition db3 = Inr db'" using 4 by simp
  from applyBudgetExhaustion_run[OF this] have "\<exists>x. find_run t (usage_RunID q) db' = Some x \<and>
      r_state x = (if disposition = ExhaustionPause then RunPausedForBudget else RunFailedBudget) \<and>
      r_lease_id x = None \<and> r_fencing_token x = wrap64 (r_fencing_token r + 1) \<and> r_fencing_token r \<noteq> MaxInt64"
    using assms(2) runs u t by (simp add: same)
  moreover have "r_fencing_token r \<noteq> MaxInt64 \<Longrightarrow> wrap64 (r_fencing_token r + 1) = r_fencing_token r + 1"
    using assms(3) by (simp add: int64_simps)
  ultimately show ?thesis by auto
qed

section \<open>Witnesses\<close>

definition demo_env :: Env where
  "demo_env = \<lparr>env_sha256 = (\<lambda>_. replicate 32 0), env_NewID = (\<lambda>n. Inr (demo_id (100 + n)))\<rparr>"

definition demo_usage :: "int \<Rightarrow> TrustedUsage" where
  "demo_usage n =
     \<lparr>usage_ID = demo_id 81, usage_TenantID = demo_tenant, usage_RunID = parent_run, usage_ProducerID = operator,
      usage_SourceEventID = ''event-1'', usage_ResourceName = ''llm_tokens'',
      usage_Quantity = \<lparr>amount = \<lparr>coefficient = n, scale = 0\<rparr>, unit = ''token''\<rparr>, usage_ObservedAt = demo_time 50,
      usage_RecordedAt = demo_time 60, usage_ContentDigest = []\<rparr>"

definition demo_digest :: string where
  "demo_digest = ''sha256:'' @ replicate 64 (CHR ''0'')"

lemma demo_digest: "digest_text (env_sha256 demo_env) m = demo_digest" "ValidDigest demo_digest"
  by (simp_all add: digest_text_def demo_env_def demo_digest_def) (code_simp)+

lemma trim_demo: "trim_space ''event-1'' = ''event-1''"
  by (rule trim_space_plain) (simp add: ascii_space_def)

lemma demo_usage_valid:
  "0 \<le> n \<Longrightarrow> ValidateTrustedUsage (env_sha256 demo_env) (demo_usage n) = Inr ((demo_usage n)\<lparr>usage_ContentDigest := demo_digest\<rparr>)"
proof -
  have "resourceDimensionNamePattern ''llm_tokens''" "validUnit ''token''" by code_simp+
  then show "0 \<le> n \<Longrightarrow> ValidateTrustedUsage (env_sha256 demo_env) (demo_usage n) = Inr ((demo_usage n)\<lparr>usage_ContentDigest := demo_digest\<rparr>)"
    by (simp add: ValidateTrustedUsage_def demo_usage_def demo_ids trim_demo demo_digest NewQuantity_def IsNegative_def RequireUTC_eq
        demo_time_def Unix_UTC_def int64_simps)
qed

lemmas usage_eval = RecordTrustedUsage_def repository_valid_def ExhaustionDisposition_Valid_def find_usage_def record_new_usage_def
  usage_target_def find_run_def find_principal_def find_grant_def enforce_throughput_def rate_grant_def ThroughputDimensionName_def
  apply_usage_def update_balance_def pg_update_def find_balance_def wrapping_def update_where_def rows_affected_def consume_def
  balance_key_def balance_check_def grant_key_def insert_usage_def pg_insert_def usage_check_def unit_check_def usage_conflict_def

definition demo_hint :: ThroughputHint where
  "demo_hint = \<lparr>hint_DimensionName = [], hint_Blocked = False\<rparr>"

lemma demo_usage_ok: "\<not> isl (RecordTrustedUsage demo_env demo_tenant (demo_usage 40) demo_hint ExhaustionFail demo_db)"
proof -
  have "resourceDimensionNamePattern ''llm_tokens''" by code_simp
  then show ?thesis
    using demo_usage_valid[of 40]
    by (simp add: usage_eval demo_usage_def demo_rows demo_ids demo_digest demo_hint_def)
qed

lemma be_bytes_nth: "i < k \<Longrightarrow> be_bytes k n ! i = of_nat (n div 256 ^ (k - Suc i) mod 256)"
proof (induction k arbitrary: n)
  case (Suc k)
  show ?case
  proof (cases "i = k")
    case False
    then have "i < k" using Suc.prems by simp
    then have "be_bytes k (n div 256) ! i = of_nat (n div 256 div 256 ^ (k - Suc i) mod 256)" by (rule Suc.IH)
    moreover have "k - i = Suc (k - Suc i)" using \<open>i < k\<close> by simp
    ultimately show ?thesis using \<open>i < k\<close> by (simp add: nth_append div_mult2_eq)
  qed (simp add: nth_append)
qed simp

lemma uuid7_demo_id [simp]: "n < 1000 \<Longrightarrow> uuid7 (demo_id n)"
proof -
  assume n: "n < 1000"
  have "(0x01900000000070008000000000000000 + n) div 256 ^ 9 = 0x01900000000070" "(0x01900000000070008000000000000000 + n) div 256 ^ 7 = 0x019000000000700080"
    by (rule div_nat_eqI; use n in simp)+
  then show ?thesis using n by (simp add: uuid7_def ID_bytes_def be_bytes_nth unat_demo_id)
qed
definition demo_metered :: DB where
  "demo_metered = snd (projr (RecordTrustedUsage demo_env demo_tenant (demo_usage 40) demo_hint ExhaustionFail demo_db))"

definition demo_receipt :: UsageReceipt where
  "demo_receipt = \<lparr>receipt_UsageID = demo_id 81, receipt_Duplicate = False, receipt_AcceptedAt = demo_time 60\<rparr>"

lemma demo_usage_run: "RecordTrustedUsage demo_env demo_tenant (demo_usage 40) demo_hint ExhaustionFail demo_db = Inr (demo_receipt, demo_metered)"
proof -
  have "resourceDimensionNamePattern ''llm_tokens''" by code_simp
  then have "map_sum id fst (RecordTrustedUsage demo_env demo_tenant (demo_usage 40) demo_hint ExhaustionFail demo_db) = Inr demo_receipt"
    using demo_usage_valid[of 40]
    by (simp add: usage_eval demo_usage_def demo_rows demo_ids demo_digest demo_hint_def demo_receipt_def)
  then show ?thesis
    by (cases "RecordTrustedUsage demo_env demo_tenant (demo_usage 40) demo_hint ExhaustionFail demo_db") (auto simp: demo_metered_def)
qed


theorem usage_refines_witness:
  "ledger_inv demo_metered \<and> accounts demo_metered (demo_tenant, parent_envelope, tokens_dimension) = Some \<lparr>avail = 60, consumed = 40, allocated = 0\<rparr>"
  using usage_refines[OF demo_db_inv demo_usage_run]
  by (simp add: demo_receipt_def demo_usage_def usage_target_def find_run_def find_principal_def find_grant_def grant_key_def demo_rows demo_ids
      consume_spec_def accounts_def find_balance_def balance_key_def account_of_def)

text \<open>The store with a throughput grant of fifty tokens a minute.\<close>

definition rate_db :: DB where
  "rate_db = demo_db\<lparr>
     resource_dimensions := resource_dimensions demo_db @ [demo_dimension 26 ''llm_tokens_per_minute'' ResourceStructural ''token_per_minute'' ResourceMaximum],
     resource_envelope_grants := resource_envelope_grants demo_db @ [demo_grant parent_envelope 26 50 ''token_per_minute'']\<rparr>"

definition rate_metered :: DB where
  "rate_metered = snd (projr (RecordTrustedUsage demo_env demo_tenant (demo_usage 40) demo_hint ExhaustionFail rate_db))"

lemma demo_rate_run:
  "\<exists>receipt. RecordTrustedUsage demo_env demo_tenant (demo_usage 40) demo_hint ExhaustionFail rate_db = Inr (receipt, rate_metered)"
  "map w_used (resource_rate_windows rate_metered) = [40]"
proof -
  have "resourceDimensionNamePattern ''llm_tokens''" "validUnit ''token''" by code_simp+
  then have "map_sum id (\<lambda>(r, db). map w_used (resource_rate_windows db))
      (RecordTrustedUsage demo_env demo_tenant (demo_usage 40) demo_hint ExhaustionFail rate_db) = Inr [40]"
    using demo_usage_valid[of 40]
    by (simp add: usage_eval apply_rate_window_def ThroughputUnitName_def rate_db_def demo_usage_def demo_rows demo_ids demo_digest demo_hint_def)
  then show "\<exists>receipt. RecordTrustedUsage demo_env demo_tenant (demo_usage 40) demo_hint ExhaustionFail rate_db = Inr (receipt, rate_metered)"
    "map w_used (resource_rate_windows rate_metered) = [40]"
    by (cases "RecordTrustedUsage demo_env demo_tenant (demo_usage 40) demo_hint ExhaustionFail rate_db"; auto simp: rate_metered_def)+
qed

theorem usage_within_windows_witness: "windows_within rate_metered \<and> map w_used (resource_rate_windows rate_metered) = [40]"
proof -
  have "windows_within rate_db" by (simp add: windows_within_def rate_db_def demo_rows unique_key_def)
  moreover obtain receipt where "RecordTrustedUsage demo_env demo_tenant (demo_usage 40) demo_hint ExhaustionFail rate_db = Inr (receipt, rate_metered)"
    using demo_rate_run(1) by blast
  ultimately have "windows_within rate_metered" by (rule usage_within_windows)
  then show ?thesis using demo_rate_run(2) by simp
qed

definition exhausted_db :: DB where
  "exhausted_db = snd (projr (RecordTrustedUsage demo_env demo_tenant (demo_usage 100) demo_hint ExhaustionPause demo_db))"

lemmas exhaust_eval = applyBudgetExhaustion_def exhaust_lifecycle_def Transition_def RunLifecycle_Validate_def exhaust_run_def run_check_def
  insert_run_event_with_outbox_def insert_run_event_def insert_outbox_def insert_audit_def next_sequence_def exhaustion_event_def exhaustion_payload_def
  exhaustion_audit_def run_event_check_def run_event_conflict_def outbox_check_def outbox_conflict_def audit_check_def audit_conflict_def validJSONArray_def validJSONObject_def
  hashAuditEvent_def budgetDispositionEvent_def RunState_Valid_def RunActor_Valid_def actorAllowed_def RequireUTC_eq IsZeroTime_def Before_def
  ToUTC_def OutboxMessage.defs AuditEvent.defs

lemma demo_new_id: "env_NewID demo_env n = Inr (demo_id (100 + n))"
  by (simp add: demo_env_def)

lemma length_ID_String [simp]: "length (ID_String x) = 36"
  by (simp add: ID_String_def Let_def)

lemma demo_exhaust_run:
  "RecordTrustedUsage demo_env demo_tenant (demo_usage 100) demo_hint ExhaustionPause demo_db = Inr (demo_receipt, exhausted_db)"
  "accounts exhausted_db (demo_tenant, parent_envelope, tokens_dimension) = Some \<lparr>avail = 0, consumed = 100, allocated = 0\<rparr>"
proof -
  have "resourceDimensionNamePattern ''llm_tokens''" by code_simp
  then have "map_sum id (\<lambda>(r, db). (r, accounts db (demo_tenant, parent_envelope, tokens_dimension)))
      (RecordTrustedUsage demo_env demo_tenant (demo_usage 100) demo_hint ExhaustionPause demo_db)
    = Inr (demo_receipt, Some \<lparr>avail = 0, consumed = 100, allocated = 0\<rparr>)"
    using demo_usage_valid[of 100]
    by (simp add: usage_eval exhaust_eval demo_usage_def demo_rows demo_ids demo_digest demo_hint_def demo_receipt_def Let_def zero_nano_def int64_simps Unix_UTC_def
       demo_new_id accounts_def find_balance_def balance_key_def account_of_def)
  then show "RecordTrustedUsage demo_env demo_tenant (demo_usage 100) demo_hint ExhaustionPause demo_db = Inr (demo_receipt, exhausted_db)"
    "accounts exhausted_db (demo_tenant, parent_envelope, tokens_dimension) = Some \<lparr>avail = 0, consumed = 100, allocated = 0\<rparr>"
    by (cases "RecordTrustedUsage demo_env demo_tenant (demo_usage 100) demo_hint ExhaustionPause demo_db"; auto simp: exhausted_db_def)+
qed

theorem usage_exhausts_run_witness:
  "\<exists>r'. find_run demo_tenant parent_run exhausted_db = Some r' \<and> r_state r' = RunPausedForBudget \<and> r_lease_id r' = None \<and>
     r_fencing_token r' = 2"
proof -
  have target: "usage_target demo_tenant (usage_RunID (demo_usage 100)) (usage_ProducerID (demo_usage 100)) (usage_ResourceName (demo_usage 100)) demo_db
    = Some (demo_envelope parent_envelope parent_run None, demo_dimension 21 ''llm_tokens'' ResourceConsumable ''token'' ResourceSum,
            demo_grant parent_envelope 21 100 ''token'', demo_run parent_run None)"
    by (simp add: usage_eval demo_usage_def demo_rows demo_ids)
  have key: "(demo_tenant, e_id (demo_envelope parent_envelope parent_run None),
      dim_ID (demo_dimension 21 ''llm_tokens'' ResourceConsumable ''token'' ResourceSum)) = (demo_tenant, parent_envelope, tokens_dimension)"
    by (simp add: demo_rows demo_ids)
  show ?thesis
    using usage_exhausts_run[OF demo_db_inv _ _ demo_exhaust_run(1) _ target demo_exhaust_run(2)[folded key]]
    by (simp add: demo_rows demo_ids unique_key_def int64_simps demo_receipt_def demo_usage_def)
qed

end
