(* ===== verification/Extension.thy ===== *)
theory Extension
  imports Usage
begin

text \<open>
  Budget extension (internal/adapters/postgres/resource\_extension.go): an authorized actor other than
  the requester adds to the consumable grants of a live run, moves its deadline, and resumes it when
  it was paused for budget. An extension is applied once per actor and idempotency key; the
  advisory lock on that key serializes the deliveries of one extension.
\<close>

section \<open>Content digest\<close>

definition digestItem :: "ResourceExtensionAmount \<Rightarrow> json" where
  "digestItem a =
     JObj [(''Name'', JStr (xa_Name a)), (''Unit'', JStr (unit (xa_Quantity a))),
           (''Coefficient'', JNum (coefficient (amount (xa_Quantity a)))), (''Scale'', JNum (int (scale (amount (xa_Quantity a)))))]"

definition resourceExtensionDigest :: "hash \<Rightarrow> ResourceExtension \<Rightarrow> string" where
  "resourceExtensionDigest sha256 x =
     digest_text sha256 (json_text (JObj
       [(''Run'', JStr (ID_String (ext_RunID x))), (''Reason'', JStr (ext_ReasonCode x)), (''Approval'', JStr (ext_ApprovalReference x)),
        (''Additions'', JArr (map digestItem (ext_Additions x))), (''Deadline'', JNum (ext_DeadlineExtensionSeconds x))]))"

section \<open>Steps\<close>

record ResourceExtensionEvidence =
  xev_AuditID :: ID
  xev_OutboxID :: ID
  xev_EventID :: ID
  xev_RequestID :: ID
  xev_ReasonCodes :: "string list"

definition find_extension :: "ID \<Rightarrow> ID \<Rightarrow> string \<Rightarrow> DB \<Rightarrow> extension_row option" where
  "find_extension tenant actor key db =
     List.find (\<lambda>x. x_tenant x = tenant \<and> x_actor x = actor \<and> x_idempotency_key x = key) (resource_extensions db)"

text \<open>The envelope of the run and the run, when the actor is an enabled principal of the tenant.\<close>

definition extension_target :: "ID \<Rightarrow> ID \<Rightarrow> ID \<Rightarrow> DB \<Rightarrow> (envelope_row \<times> run_row) option" where
  "extension_target tenant run actor db =
     (case List.find (\<lambda>e. e_tenant e = tenant \<and> e_run e = run) (resource_envelopes db) of
        None \<Rightarrow> None
      | Some e \<Rightarrow>
          (case (find_run tenant run db, find_principal tenant actor db) of
             (Some r, Some _) \<Rightarrow> Some (e, r) | _ \<Rightarrow> None))"

definition extended_deadline :: "int \<Rightarrow> Time option \<Rightarrow> Time option result" where
  "extended_deadline seconds deadline =
     (if seconds > 0 then
        case deadline of
          None \<Rightarrow> Inl (NewError CodeConflict ''run has no deadline to extend'')
        | Some d \<Rightarrow>
            if seconds > MaxInt64 div Second then Inl (NewError CodeInvalidArgument ''deadline extension overflows'')
            else
              let candidate = AddDuration d (wrap64 (seconds * Second)) in
              if \<not> After candidate d then Inl (NewError CodeConflict ''deadline extension overflows'')
              else Inr (Some candidate)
      else Inr deadline)"

text \<open>The locked grant of a dimension name: dimension, grant, and the sum of its earlier extensions.\<close>

definition extension_grant :: "ID \<Rightarrow> ID \<Rightarrow> string \<Rightarrow> DB \<Rightarrow> (ResourceDimension \<times> grant_row \<times> int) option" where
  "extension_grant tenant envelope name db =
     (case List.find (\<lambda>d. dim_TenantID d = tenant \<and> dim_Name d = name \<and> find_grant (tenant, envelope, dim_ID d) db \<noteq> None)
         (resource_dimensions db) of
        None \<Rightarrow> None
      | Some d \<Rightarrow>
          map_option (\<lambda>g. (d, g, extended db (tenant, envelope, dim_ID d))) (find_grant (tenant, envelope, dim_ID d) db))"

definition credit :: "int \<Rightarrow> Time \<Rightarrow> balance_row \<Rightarrow> balance_row" where
  "credit added at b = b\<lparr>b_available := b_available b + added, b_state_version := b_state_version b + 1, b_updated := at\<rparr>"

definition credit_extension :: "ID \<times> ID \<times> ID \<Rightarrow> int \<Rightarrow> Time \<Rightarrow> DB \<Rightarrow> DB result" where
  "credit_extension k added at db =
     and_then (wrapping ''credit resource extension''
         (update_balance k (\<lambda>b. b_available b \<le> 9223372036854775807 - added \<and> b_state_version b < 9223372036854775807)
           (credit added at) db))
       (\<lambda>(db, n). if n \<noteq> 1 then Inl (NewError CodeConflict ''resource balance extension overflows'') else Inr db)"

text \<open>
  The body of the loop over the additions. The sum of the earlier extensions is a numeric of the
  database; reading one beyond the 64-bit range fails.
\<close>

definition scan_error :: goerror where
  "scan_error = New ''numeric value is out of range of int64''"

definition extend_addition :: "ID \<Rightarrow> ID \<Rightarrow> ID \<Rightarrow> Time \<Rightarrow> ResourceExtensionAmount \<Rightarrow> DB \<Rightarrow> DB result" where
  "extend_addition tenant extension envelope at a db =
     (case extension_grant tenant envelope (xa_Name a) db of
        None \<Rightarrow> Inl (NewError CodeInvalidArgument ''extension resource is not in the envelope'')
      | Some (d, g, previous) \<Rightarrow>
          if \<not> int64 previous then Inl (Wrapf ''lock extension dimension'' scan_error)
          else if dim_Class d \<noteq> ResourceConsumable \<or> g_unit g \<noteq> unit (xa_Quantity a) \<or> g_scale g \<noteq> scale (amount (xa_Quantity a))
          then Inl (NewError CodeInvalidArgument ''only matching consumable grants can be extended'')
          else
            let added = coefficient (amount (xa_Quantity a)) in
            if g_granted g > MaxInt64 - previous \<or> g_granted g + previous > MaxInt64 - added
            then Inl (NewError CodeConflict ''resource grant extension overflows'')
            else
              and_then (wrapping ''append resource extension item''
                (pg_insert extension_item_check (\<lambda>i j. extension_item_key i = extension_item_key j)
                  \<lparr>xi_tenant = tenant, xi_extension = extension, xi_dimension = dim_ID d, xi_added = added,
                   xi_prior = g_granted g + previous, xi_new = g_granted g + previous + added, xi_unit = g_unit g, xi_scale = g_scale g\<rparr>
                  (resource_extension_items db))) (\<lambda>items.
              credit_extension (tenant, envelope, dim_ID d) added at (db\<lparr>resource_extension_items := items\<rparr>)))"

text \<open>The run state after the extension: a run paused for budget resumes.\<close>

definition resumed_state :: "run_row \<Rightarrow> Time \<Rightarrow> (RunState \<times> int) result" where
  "resumed_state r at =
     (if r_state r = RunPausedForBudget then
        case Transition \<lparr>State = RunPausedForBudget, Version = r_state_version r, UpdatedAt = ToUTC (r_updated r), TerminalAt = None\<rparr>
            \<lparr>To = RunRunning, Actor = RunActorGovernor, ExpectedVersion = r_state_version r, At = at\<rparr> of
          Inl _ \<Rightarrow> Inl (NewError CodeConflict ''paused run cannot resume after extension'')
        | Inr (resumed, _) \<Rightarrow> Inr (State resumed, Version resumed)
      else Inr (r_state r, r_state_version r))"

definition extend_run :: "ID \<Rightarrow> ID \<Rightarrow> Time option \<Rightarrow> RunState \<Rightarrow> int \<Rightarrow> Time \<Rightarrow> DB \<Rightarrow> DB result" where
  "extend_run tenant run deadline state version at db =
     and_then (wrapping ''update extended run''
         (pg_update run_check (\<lambda>r. r_tenant r = tenant \<and> r_id r = run)
           (\<lambda>r. r\<lparr>r_deadline := deadline, r_state := state, r_state_version := version, r_updated := at\<rparr>) (runs db)))
       (\<lambda>(rows, _). Inr (db\<lparr>runs := rows\<rparr>))"

definition version_envelope :: "ID \<Rightarrow> ID \<Rightarrow> int \<Rightarrow> DB \<Rightarrow> DB" where
  "version_envelope tenant envelope version db =
     db\<lparr>resource_envelopes := update_where (\<lambda>e. e_tenant e = tenant \<and> e_id e = envelope) (\<lambda>e. e\<lparr>e_version := version\<rparr>)
         (resource_envelopes db)\<rparr>"

section \<open>The operation\<close>

definition extension_payload :: "ResourceExtension \<Rightarrow> int \<Rightarrow> bool \<Rightarrow> json" where
  "extension_payload x version resumed =
     JObj [(''envelope_version'', JNum version), (''extension_id'', JStr (ID_String (ext_ID x))),
           (''reason_code'', JStr (ext_ReasonCode x)), (''resumed'', JBool resumed)]"

definition extension_audit :: "ResourceExtension \<Rightarrow> ResourceExtensionEvidence \<Rightarrow> ID \<Rightarrow> int \<Rightarrow> bool \<Rightarrow> AuditEvent" where
  "extension_audit x evidence envelope version resumed =
     \<lparr>au_ID = xev_AuditID evidence, au_TenantID = Some (ext_TenantID x), au_PrincipalID = Some (ext_ActorPrincipalID x),
      au_Action = ''resources.extend'', au_ResourceType = ''envelope'', au_ResourceID = ID_String envelope,
      au_Outcome = ''SUCCEEDED'', au_ReasonCodes = JArr (map JStr (xev_ReasonCodes evidence)),
      au_PolicyDecisionID = Some (ext_PolicyDecisionID x), au_RequestID = Some (xev_RequestID evidence), au_TraceID = [],
      au_Metadata = JObj [(''approval_reference'', JStr (ext_ApprovalReference x)), (''envelope_version'', JNum version),
        (''extension_id'', JStr (ID_String (ext_ID x))), (''reason_code'', JStr (ext_ReasonCode x)), (''resumed'', JBool resumed)],
      au_PreviousHash = [], au_OccurredAt = ext_CreatedAt x\<rparr>"

definition extension_message :: "ResourceExtension \<Rightarrow> ResourceExtensionEvidence \<Rightarrow> int \<Rightarrow> bool \<Rightarrow> OutboxMessage" where
  "extension_message x evidence version resumed =
     \<lparr>ob_ID = xev_OutboxID evidence, ob_TenantID = Some (ext_TenantID x), ob_AggregateType = ''run'',
      ob_AggregateID = ID_String (ext_RunID x), ob_EventType = ''run.resources_extended'', ob_SchemaVersion = 1,
      ob_Payload = extension_payload x version resumed, ob_Headers = JObj [], ob_OccurredAt = ext_CreatedAt x,
      ob_AvailableAt = ext_CreatedAt x\<rparr>"

definition insert_extension :: "ID \<Rightarrow> ResourceExtension \<Rightarrow> string \<Rightarrow> envelope_row \<Rightarrow> run_row \<Rightarrow> Time option \<Rightarrow> DB \<Rightarrow> DB result" where
  "insert_extension tenant x digest e r deadline db =
     and_then (wrapping ''append resource extension''
         (pg_insert extension_check extension_conflict
           \<lparr>x_id = ext_ID x, x_tenant = tenant, x_run = ext_RunID x, x_envelope = e_id e, x_actor = ext_ActorPrincipalID x,
            x_decision = ext_PolicyDecisionID x, x_idempotency_key = ext_IdempotencyKey x, x_reason_code = ext_ReasonCode x,
            x_approval_reference = ext_ApprovalReference x, x_digest = digest, x_prior_deadline = r_deadline r,
            x_new_deadline = deadline, x_prior_version = e_version e, x_new_version = wrap64 (e_version e + 1),
            x_resumed = (r_state r = RunPausedForBudget), x_created = ext_CreatedAt x\<rparr>
           (resource_extensions db)))
       (\<lambda>rows. Inr (db\<lparr>resource_extensions := rows\<rparr>))"

text \<open>The run event, and the audit event with its outbox message.\<close>

definition extension_evidence :: "Env \<Rightarrow> ID \<Rightarrow> ResourceExtension \<Rightarrow> ResourceExtensionEvidence \<Rightarrow> ID \<Rightarrow> int \<Rightarrow> bool \<Rightarrow> RunState \<Rightarrow> int \<Rightarrow> DB \<Rightarrow> DB result" where
  "extension_evidence env tenant x evidence envelope version resumed state stateVersion db =
     and_then (wrapping ''append extension event'' (insert_run_event
       \<lparr>ev_id = xev_EventID evidence, ev_tenant = tenant, ev_run = ext_RunID x, ev_sequence = next_sequence tenant (ext_RunID x) db,
        ev_type = ''run.resources_extended'', ev_actor_type = RunActorOperator, ev_actor = Some (ext_ActorPrincipalID x),
        ev_state = Some state, ev_state_version = Some stateVersion, ev_payload = extension_payload x version resumed,
        ev_occurred = ext_CreatedAt x\<rparr> db)) (\<lambda>db.
     and_then (validateEvidence (extension_audit x evidence envelope version resumed) (extension_message x evidence version resumed)) (\<lambda>_.
     wrapping ''append extension evidence''
       (and_then (insert_audit env (extension_audit x evidence envelope version resumed) db)
         (insert_outbox (extension_message x evidence version resumed)))))"

definition extend_new :: "Env \<Rightarrow> ID \<Rightarrow> ResourceExtension \<Rightarrow> string \<Rightarrow> ResourceExtensionEvidence \<Rightarrow> DB \<Rightarrow> (ResourceExtensionResult \<times> DB) result" where
  "extend_new env tenant x digest evidence db =
     (case extension_target tenant (ext_RunID x) (ext_ActorPrincipalID x) db of
        None \<Rightarrow> Inl (NewError CodeNotFound ''run not found'')
      | Some (e, r) \<Rightarrow>
          if r_requested_by r = ext_ActorPrincipalID x
          then Inl (NewError CodeForbidden ''a run requester cannot extend its own resources'')
          else if Terminal (r_state r) then Inl (NewError CodeConflict ''terminal run resources cannot be extended'')
          else if e_version e = MaxInt64 then Inl (NewError CodeConflict ''resource envelope version is exhausted'')
          else and_then (extended_deadline (ext_DeadlineExtensionSeconds x) (r_deadline r)) (\<lambda>deadline.
            let version = wrap64 (e_version e + 1); resumed = (r_state r = RunPausedForBudget) in
            and_then (insert_extension tenant x digest e r deadline db) (\<lambda>db.
            and_then (fold_result (extend_addition tenant (ext_ID x) (e_id e) (ext_CreatedAt x)) (ext_Additions x) db) (\<lambda>db.
            and_then (resumed_state r (ext_CreatedAt x)) (\<lambda>(state, stateVersion).
            and_then (extend_run tenant (ext_RunID x) deadline state stateVersion (ext_CreatedAt x)
                (version_envelope tenant (e_id e) version db)) (\<lambda>db.
            and_then (extension_evidence env tenant x evidence (e_id e) version resumed state stateVersion db) (\<lambda>db.
            Inr (\<lparr>er_ID = ext_ID x, er_EnvelopeVersion = version, er_DeadlineAt = deadline, er_Resumed = resumed\<rparr>, db))))))))"

definition ExtendResources :: "Env \<Rightarrow> ID \<Rightarrow> ResourceExtension \<Rightarrow> ResourceExtensionEvidence \<Rightarrow> DB \<Rightarrow> (ResourceExtensionResult \<times> DB) result" where
  "ExtendResources env tenant candidate evidence db =
     and_then (repository_valid tenant) (\<lambda>_.
     and_then (ValidateResourceExtension candidate) (\<lambda>x.
       if ext_TenantID x \<noteq> tenant then Inl (New ''resource extension does not match repository scope'')
       else if IsZero (xev_AuditID evidence) \<or> IsZero (xev_OutboxID evidence) \<or> IsZero (xev_EventID evidence)
          \<or> IsZero (xev_RequestID evidence) \<or> xev_ReasonCodes evidence = []
       then Inl (New ''resource extension evidence is invalid'')
       else
         let digest = resourceExtensionDigest (env_sha256 env) x in
         case find_extension tenant (ext_ActorPrincipalID x) (ext_IdempotencyKey x) db of
           Some existing \<Rightarrow>
             if x_digest existing \<noteq> digest
             then Inl (NewError CodeConflict ''resource extension idempotency key was reused with different content'')
             else Inr (\<lparr>er_ID = (case ParseID (ID_String (x_id existing)) of Inl _ \<Rightarrow> 0 | Inr i \<Rightarrow> i), er_EnvelopeVersion = x_new_version existing, er_DeadlineAt = x_new_deadline existing,
                        er_Resumed = x_resumed existing\<rparr>, db)
         | None \<Rightarrow> extend_new env tenant x digest evidence db))"

section \<open>Conservation\<close>

lemma credit_simps [simp]:
  "balance_key (credit c at b) = balance_key b"
  "b_available (credit c at b) = b_available b + c" "b_direct_consumed (credit c at b) = b_direct_consumed b"
  "b_allocated_open (credit c at b) = b_allocated_open b"
  "account_of (credit c at b) = account_of b\<lparr>avail := b_available b + c\<rparr>"
  by (simp_all add: credit_def balance_key_def account_of_def)

text \<open>The rows that one addition writes.\<close>

lemma extend_addition_Inr:
  assumes "extend_addition t xid e at a db = Inr db'" "unique_key balance_key (resource_balances db)"
  obtains d g i b where "extension_grant t e (xa_Name a) db = Some (d, g, extended db (t, e, dim_ID d))"
    "xi_tenant i = t" "xi_extension i = xid" "xi_dimension i = dim_ID d" "xi_added i = coefficient (amount (xa_Quantity a))" "0 < xi_added i"
    "b \<in> set (resource_balances db)" "balance_key b = (t, e, dim_ID d)" "balance_check (credit (xi_added i) at b)"
    "db' = db\<lparr>resource_extension_items := resource_extension_items db @ [i],
       resource_balances := update_where (\<lambda>x. x = b) (credit (xi_added i) at) (resource_balances db)\<rparr>"
proof -
  let ?c = "coefficient (amount (xa_Quantity a))"
  from assms(1) obtain d g where grant: "extension_grant t e (xa_Name a) db = Some (d, g, extended db (t, e, dim_ID d))"
    by (auto simp: extend_addition_def extension_grant_def split: option.splits)
  define i where "i = \<lparr>xi_tenant = t, xi_extension = xid, xi_dimension = dim_ID d, xi_added = ?c,
     xi_prior = g_granted g + extended db (t, e, dim_ID d), xi_new = g_granted g + extended db (t, e, dim_ID d) + ?c, xi_unit = g_unit g, xi_scale = g_scale g\<rparr>"
  let ?db = "db\<lparr>resource_extension_items := resource_extension_items db @ [i]\<rparr>"
  from assms(1) have "extension_item_check i" "credit_extension (t, e, dim_ID d) ?c at ?db = Inr db'"
    by (auto simp: extend_addition_def grant Let_def and_then_Inr pg_insert_Inr i_def split: if_splits)
  then obtain n where n: "update_balance (t, e, dim_ID d) (\<lambda>b. b_available b \<le> 9223372036854775807 - ?c \<and> b_state_version b < 9223372036854775807)
      (credit ?c at) ?db = Inr (db', n)" "n \<noteq> 0" and c: "0 < ?c"
    by (auto simp: credit_extension_def and_then_Inr extension_item_check_def i_def split: if_splits)
  obtain b where b: "b \<in> set (resource_balances ?db)" "balance_key b = (t, e, dim_ID d)" "balance_check (credit ?c at b)"
    "db' = ?db\<lparr>resource_balances := update_where (\<lambda>x. x = b) (credit ?c at) (resource_balances ?db)\<rparr>"
    by (rule update_balance_one[OF n]) (use assms(2) in simp_all)
  show ?thesis
    using b c by (intro that[of d g i b] grant) (simp_all add: i_def)
qed

text \<open>What a loop step of the extension relies on: the row of the extension itself.\<close>

definition extending :: "ID \<Rightarrow> ID \<Rightarrow> ID \<Rightarrow> DB \<Rightarrow> bool" where
  "extending t xid e db \<longleftrightarrow>
     ledger_inv db \<and> (\<exists>x \<in> set (resource_extensions db). x_tenant x = t \<and> x_id x = xid \<and> x_envelope x = e)"

lemma extend_addition_inv:
  assumes "extending t xid e db" "extend_addition t xid e at a db = Inr db'"
  shows "extending t xid e db'"
proof -
  have inv: "ledger_inv db" using assms(1) by (simp add: extending_def)
  then have keys: "keys_ok db" by (simp add: ledger_inv_def)
  then have ub: "unique_key balance_key (resource_balances db)" by (simp add: keys_ok_def)
  obtain x where x: "x \<in> set (resource_extensions db)" "x_tenant x = t" "x_id x = xid" "x_envelope x = e"
    using assms(1) by (auto simp: extending_def)
  obtain d g i b where "extension_grant t e (xa_Name a) db = Some (d, g, extended db (t, e, dim_ID d))"
    and i: "xi_tenant i = t" "xi_extension i = xid" "xi_dimension i = dim_ID d" "0 < xi_added i"
    and b: "b \<in> set (resource_balances db)" "balance_key b = (t, e, dim_ID d)" "balance_check (credit (xi_added i) at b)"
    and db': "db' = db\<lparr>resource_extension_items := resource_extension_items db @ [i],
       resource_balances := update_where (\<lambda>x. x = b) (credit (xi_added i) at) (resource_balances db)\<rparr>"
    by (rule extend_addition_Inr[OF assms(2) ub])
  have ext_of: "extension_of db t xid e' \<longleftrightarrow> e' = e" for e'
    using x keys by (auto simp: extension_of_def list_ex_iff keys_ok_def dest: unique_keyD)
  have same: "resource_extensions db' = resource_extensions db" "resource_reservations db' = resource_reservations db"
    "resource_reservation_items db' = resource_reservation_items db" "resource_dimensions db' = resource_dimensions db"
    "resource_envelope_grants db' = resource_envelope_grants db"
    by (simp_all add: db')
  have "extended db' k = extended db k + (if k = (t, e, dim_ID d) then xi_added i else 0)" for k
    by (cases k) (auto simp: extended_def db' extension_of_def i ext_of[unfolded extension_of_def])
  then have granted: "granted_total db' k = granted_total db k + (if k = balance_key b then xi_added i else 0)" for k
    by (simp add: granted_total_def same b(2))
  have hg: "has_grant db' = has_grant db" by (auto simp: has_grant_def[abs_def] same)
  have bal: "resource_balances db' = update_where (\<lambda>x. x = b) (credit (xi_added i) at) (resource_balances db)" by (simp add: db')
  have reserved: "reserved_open db' = reserved_open db"
    by (auto simp: reserved_open_def[abs_def] reservation_open_def same)
  have hb: "has_balance db' = has_balance db"
    unfolding has_balance_def[abs_def] bal by (metis credit_simps(1) image_set map_update_where)
  have "list_all (balance_conserved db') (resource_balances db')"
    by (rule balance_step[where f = "credit (xi_added i) at" and r = 0, OF inv b(1) _ b(3) bal granted]) (simp_all add: reserved hg)
  moreover have "keys_ok db'" using keys by (simp add: keys_ok_def same bal)
  moreover have "reservation_item_ok db' = reservation_item_ok db"
    by (auto simp: reservation_item_ok_def[abs_def] hb same)
  moreover have "extension_item_ok db' j" if "j \<in> set (resource_extension_items db')" for j
  proof (cases "j = i")
    case True
    have "has_grant db (t, e, dim_ID d)" using ledger_inv_balance[OF inv b(1)] b(2) by (simp add: balance_conserved_def)
    then show ?thesis using True i x unfolding extension_item_ok_def hg same by auto
  next
    case False
    then show ?thesis using inv that unfolding ledger_inv_def list_all_iff extension_item_ok_def hg same by (auto simp: db')
  qed
  ultimately have "ledger_inv db'" using inv by (simp add: ledger_inv_def list_all_iff same)
  then show ?thesis using x by (auto simp: extending_def same)
qed


lemma insert_extension_inv:
  assumes "ledger_inv db" "insert_extension t x digest e r deadline db = Inr db'"
  shows "extending t (ext_ID x) (e_id e) db'" "resource_balances db' = resource_balances db"
    "resource_envelope_grants db' = resource_envelope_grants db" "resource_dimensions db' = resource_dimensions db"
proof -
  define row where "row = last (resource_extensions db')"
  have db': "db' = db\<lparr>resource_extensions := resource_extensions db @ [row]\<rparr>"
    and row: "x_tenant row = t" "x_id row = ext_ID x" "x_envelope row = e_id e" "\<forall>y \<in> set (resource_extensions db). x_id y \<noteq> ext_ID x"
    using assms(2) by (auto simp: insert_extension_def and_then_Inr pg_insert_Inr extension_conflict_def row_def)
  have same: "resource_balances db' = resource_balances db" "resource_envelope_grants db' = resource_envelope_grants db"
    "resource_dimensions db' = resource_dimensions db" "resource_reservations db' = resource_reservations db"
    "resource_reservation_items db' = resource_reservation_items db" "resource_extension_items db' = resource_extension_items db"
    by (simp_all add: db')
  have item: "xi_extension i \<noteq> ext_ID x" if "i \<in> set (resource_extension_items db)" for i
    using assms(1) that row(4) by (auto simp: ledger_inv_def list_all_iff extension_item_ok_def)
  have ext: "extended db' = extended db"
    unfolding extended_def[abs_def] by (auto simp: fun_eq_iff db' extension_of_def row(2) intro!: sum_where_cong dest: item)
  have eqs: "granted_total db' = granted_total db" "reserved_open db' = reserved_open db" "has_grant db' = has_grant db" "has_balance db' = has_balance db"
    by (auto simp: granted_total_def[abs_def] ext reserved_open_def[abs_def] reservation_open_def has_grant_def[abs_def] has_balance_def[abs_def] same)
  have "balance_conserved db' = balance_conserved db" "reservation_item_ok db' = reservation_item_ok db"
    by (auto simp: balance_conserved_def[abs_def] reservation_item_ok_def[abs_def] eqs same)
  moreover have "extension_item_ok db i \<Longrightarrow> extension_item_ok db' i" for i
    unfolding extension_item_ok_def eqs by (auto simp: db')
  moreover have "keys_ok db'" using assms(1) row by (auto simp: ledger_inv_def keys_ok_def db' unique_key_def)
  ultimately have "ledger_inv db'" using assms(1) unfolding ledger_inv_def list_all_iff same by auto
  then show "extending t (ext_ID x) (e_id e) db'" using row by (auto simp: extending_def db')
  show "resource_balances db' = resource_balances db" "resource_envelope_grants db' = resource_envelope_grants db"
    "resource_dimensions db' = resource_dimensions db"
    by (rule same)+
qed

text \<open>The abstract effect: a named dimension of the envelope is credited.\<close>

definition credit_spec :: "(string \<rightharpoonup> ID) \<Rightarrow> ID \<Rightarrow> ID \<Rightarrow> ResourceExtensionAmount \<Rightarrow> accounts \<Rightarrow> accounts" where
  "credit_spec dimension t e a m =
     (case dimension (xa_Name a) of
        None \<Rightarrow> m
      | Some d \<Rightarrow> (case m (t, e, d) of
          None \<Rightarrow> m
        | Some x \<Rightarrow> m((t, e, d) \<mapsto> x\<lparr>avail := avail x + coefficient (amount (xa_Quantity a))\<rparr>)))"

definition granted_dimension :: "DB \<Rightarrow> ID \<Rightarrow> ID \<Rightarrow> string \<rightharpoonup> ID" where
  "granted_dimension db t e name = map_option (\<lambda>(d, _). dim_ID d) (extension_grant t e name db)"

lemma granted_dimension_cong:
  "resource_envelope_grants db' = resource_envelope_grants db \<Longrightarrow> resource_dimensions db' = resource_dimensions db \<Longrightarrow>
   granted_dimension db' = granted_dimension db"
  by (auto simp: granted_dimension_def[abs_def] extension_grant_def find_grant_def fun_eq_iff option.map_comp comp_def split: option.splits)

lemma extend_addition_accounts:
  assumes "extend_addition t xid e at a db = Inr db'" "ledger_inv db"
  shows "accounts db' = credit_spec (granted_dimension db t e) t e a (accounts db)" "granted_dimension db' = granted_dimension db"
    "\<exists>d. granted_dimension db t e (xa_Name a) = Some d \<and> has_balance db (t, e, d)"
proof -
  have ub: "unique_key balance_key (resource_balances db)" using assms(2) by (simp add: ledger_inv_def keys_ok_def)
  obtain d g i b where grant: "extension_grant t e (xa_Name a) db = Some (d, g, extended db (t, e, dim_ID d))"
    and i: "xi_added i = coefficient (amount (xa_Quantity a))"
    and b: "b \<in> set (resource_balances db)" "balance_key b = (t, e, dim_ID d)"
    and db': "db' = db\<lparr>resource_extension_items := resource_extension_items db @ [i],
       resource_balances := update_where (\<lambda>x. x = b) (credit (xi_added i) at) (resource_balances db)\<rparr>"
    by (rule extend_addition_Inr[OF assms(1) ub])
  have "accounts db' = (accounts db)((t, e, dim_ID d) \<mapsto> account_of (credit (xi_added i) at b))"
    using accounts_update[OF ub b(1), of "credit (xi_added i) at" db'] b(2) by (simp add: db')
  then show "accounts db' = credit_spec (granted_dimension db t e) t e a (accounts db)"
    using accounts_Some[OF ub b(1)] by (simp add: credit_spec_def granted_dimension_def grant b(2) i) (simp add: account_of_def)
  show "granted_dimension db' = granted_dimension db" by (rule granted_dimension_cong) (simp_all add: db')
  show "\<exists>d. granted_dimension db t e (xa_Name a) = Some d \<and> has_balance db (t, e, d)"
    using b by (force simp: granted_dimension_def grant has_balance_def)
qed

lemma extend_additions_effect:
  "fold_result (extend_addition t xid e at) as db = Inr db' \<Longrightarrow> extending t xid e db \<Longrightarrow>
   extending t xid e db' \<and> accounts db' = fold (credit_spec (granted_dimension db t e) t e) as (accounts db) \<and>
   (\<forall>a \<in> set as. \<exists>d. granted_dimension db t e (xa_Name a) = Some d \<and> accounts db (t, e, d) \<noteq> None)"
proof (induction as arbitrary: db)
  case (Cons a as)
  from Cons.prems(1) obtain db1 where db1: "extend_addition t xid e at a db = Inr db1" "fold_result (extend_addition t xid e at) as db1 = Inr db'"
    by (auto simp: and_then_Inr)
  have ext1: "extending t xid e db1" by (rule extend_addition_inv[OF Cons.prems(2) db1(1)])
  have acc: "accounts db1 = credit_spec (granted_dimension db t e) t e a (accounts db)" "granted_dimension db1 = granted_dimension db"
    "\<exists>d. granted_dimension db t e (xa_Name a) = Some d \<and> has_balance db (t, e, d)"
    using extend_addition_accounts[OF db1(1)] Cons.prems(2) by (auto simp: extending_def)
  have "accounts db1 k \<noteq> None \<longleftrightarrow> accounts db k \<noteq> None" for k
    by (simp add: acc(1) credit_spec_def split: option.splits)
  then show ?case using Cons.IH[OF db1(2) ext1] acc by (auto simp: accounts_None)
qed (simp)

section \<open>The whole operation\<close>

lemma ValidateResourceExtension_Inr:
  "ValidateResourceExtension q = Inr x \<Longrightarrow> ext_ID x = ext_ID q \<and> ext_TenantID x = ext_TenantID q \<and> ext_RunID x = ext_RunID q \<and>
     ext_ActorPrincipalID x = ext_ActorPrincipalID q \<and> ext_IdempotencyKey x = ext_IdempotencyKey q \<and>
     mset (ext_Additions x) = mset (ext_Additions q) \<and> ext_DeadlineExtensionSeconds x = ext_DeadlineExtensionSeconds q"
  by (auto simp: ValidateResourceExtension_def and_then_Inr split: if_splits sum.splits)

lemma extend_new_Inr:
  assumes "extend_new env t x digest ev db = Inr (res, db')"
  obtains e r deadline db1 db2 state version db3 where
    "extension_target t (ext_RunID x) (ext_ActorPrincipalID x) db = Some (e, r)" "r_requested_by r \<noteq> ext_ActorPrincipalID x"
    "\<not> Terminal (r_state r)" "e_version e \<noteq> MaxInt64" "extended_deadline (ext_DeadlineExtensionSeconds x) (r_deadline r) = Inr deadline"
    "insert_extension t x digest e r deadline db = Inr db1"
    "fold_result (extend_addition t (ext_ID x) (e_id e) (ext_CreatedAt x)) (ext_Additions x) db1 = Inr db2"
    "resumed_state r (ext_CreatedAt x) = Inr (state, version)"
    "extend_run t (ext_RunID x) deadline state version (ext_CreatedAt x) (version_envelope t (e_id e) (wrap64 (e_version e + 1)) db2) = Inr db3"
    "extension_evidence env t x ev (e_id e) (wrap64 (e_version e + 1)) (r_state r = RunPausedForBudget) state version db3 = Inr db'"
    "res = \<lparr>er_ID = ext_ID x, er_EnvelopeVersion = wrap64 (e_version e + 1), er_DeadlineAt = deadline, er_Resumed = (r_state r = RunPausedForBudget)\<rparr>"
proof -
  from assms obtain e r where target: "extension_target t (ext_RunID x) (ext_ActorPrincipalID x) db = Some (e, r)"
    by (cases "extension_target t (ext_RunID x) (ext_ActorPrincipalID x) db") (auto simp: extend_new_def)
  show ?thesis
    using assms that[OF target] by (auto simp: extend_new_def target Let_def and_then_Inr split: if_splits)
qed

lemma ExtendResources_cases:
  assumes "ExtendResources env t q ev db = Inr (res, db')"
  obtains (replay) x y where "ValidateResourceExtension q = Inr x" "ext_TenantID x = t" "db' = db"
      "find_extension t (ext_ActorPrincipalID x) (ext_IdempotencyKey x) db = Some y" "x_digest y = resourceExtensionDigest (env_sha256 env) x"
      "res = \<lparr>er_ID = (case ParseID (ID_String (x_id y)) of Inl _ \<Rightarrow> 0 | Inr i \<Rightarrow> i), er_EnvelopeVersion = x_new_version y,
              er_DeadlineAt = x_new_deadline y, er_Resumed = x_resumed y\<rparr>"
    | (new) x where "ValidateResourceExtension q = Inr x" "ext_TenantID x = t"
      "find_extension t (ext_ActorPrincipalID x) (ext_IdempotencyKey x) db = None"
      "extend_new env t x (resourceExtensionDigest (env_sha256 env) x) ev db = Inr (res, db')"
  using assms by (auto simp: ExtendResources_def and_then_Inr Let_def split: if_splits option.splits)

lemma extension_evidence_same:
  "extension_evidence env t x ev e v resumed s sv db = Inr db' \<Longrightarrow> same_ledger db db' \<and> runs db' = runs db"
  unfolding extension_evidence_def and_then_Inr wrapping_Inr
  by (auto dest!: insert_run_event_same insert_audit_same insert_outbox_same intro: same_ledger_trans)

lemma extend_run_eq:
  "extend_run t i deadline s v at db = Inr db' \<Longrightarrow>
   db' = db\<lparr>runs := update_where (\<lambda>r. r_tenant r = t \<and> r_id r = i)
     (\<lambda>r. r\<lparr>r_deadline := deadline, r_state := s, r_state_version := v, r_updated := at\<rparr>) (runs db)\<rparr>"
  by (auto simp: extend_run_def and_then_Inr pg_update_Inr)

lemma extend_addition_tables:
  "extend_addition t xid e at a db = Inr db' \<Longrightarrow>
     resource_extensions db' = resource_extensions db \<and> resource_envelopes db' = resource_envelopes db \<and> runs db' = runs db \<and>
     principals db' = principals db"
  by (auto simp: extend_addition_def Let_def and_then_Inr credit_extension_def update_balance_def split: option.splits if_splits)

lemma extend_additions_tables:
  "fold_result (extend_addition t xid e at) as db = Inr db' \<Longrightarrow>
     resource_extensions db' = resource_extensions db \<and> resource_envelopes db' = resource_envelopes db \<and> runs db' = runs db \<and>
     principals db' = principals db"
  by (induction as arbitrary: db) (auto simp: and_then_Inr dest!: extend_addition_tables)

text \<open>The state after a new extension, table by table.\<close>

lemma extend_new_effect:
  assumes "ledger_inv db" "extend_new env t x digest ev db = Inr (res, db')"
  obtains e r where "extension_target t (ext_RunID x) (ext_ActorPrincipalID x) db = Some (e, r)" "ledger_inv db'"
    "accounts db' = fold (credit_spec (granted_dimension db t (e_id e)) t (e_id e)) (ext_Additions x) (accounts db)"
    "\<forall>a \<in> set (ext_Additions x). \<exists>d. granted_dimension db t (e_id e) (xa_Name a) = Some d \<and> accounts db (t, e_id e, d) \<noteq> None"
proof -
  obtain e r deadline db1 db2 state version db3 where
    1: "extension_target t (ext_RunID x) (ext_ActorPrincipalID x) db = Some (e, r)" "r_requested_by r \<noteq> ext_ActorPrincipalID x"
    "\<not> Terminal (r_state r)" "e_version e \<noteq> MaxInt64" "extended_deadline (ext_DeadlineExtensionSeconds x) (r_deadline r) = Inr deadline"
    and 2: "insert_extension t x digest e r deadline db = Inr db1"
    and 3: "fold_result (extend_addition t (ext_ID x) (e_id e) (ext_CreatedAt x)) (ext_Additions x) db1 = Inr db2"
    and "resumed_state r (ext_CreatedAt x) = Inr (state, version)"
    and 4: "extend_run t (ext_RunID x) deadline state version (ext_CreatedAt x) (version_envelope t (e_id e) (wrap64 (e_version e + 1)) db2) = Inr db3"
    and 5: "extension_evidence env t x ev (e_id e) (wrap64 (e_version e + 1)) (r_state r = RunPausedForBudget) state version db3 = Inr db'"
    by (rule extend_new_Inr[OF assms(2)])
  note ins = insert_extension_inv[OF assms(1) 2]
  note eff = extend_additions_effect[OF 3 ins(1)]
  have "ledger_inv db3"
    using eff by (subst ledger_inv_cong[of db3 db2]) (simp_all add: extend_run_eq[OF 4] version_envelope_def extending_def)
  then have "ledger_inv db'" using extension_evidence_same[OF 5] same_ledger_inv by blast
  moreover have "accounts db' = accounts db2"
    using extension_evidence_same[OF 5] by (intro accounts_cong) (simp add: same_ledger_def extend_run_eq[OF 4] version_envelope_def)
  ultimately show ?thesis
    using that[OF 1(1)] eff accounts_cong[OF ins(2)] granted_dimension_cong[OF ins(3,4)] by simp
qed

lemma ExtendResources_inv:
  assumes "ledger_inv db" "ExtendResources env t q ev db = Inr (res, db')"
  shows "ledger_inv db'"
  using assms(2)
proof (cases rule: ExtendResources_cases)
  case (new x)
  show ?thesis by (rule extend_new_effect[OF assms(1) new(4)])
qed (use assms in simp)

section \<open>Properties\<close>

text \<open>
  C24: a new extension credits exactly the dimensions it names. Seen through the accounts, it adds
  each requested amount to what is available in that dimension of the run's envelope and changes
  no other account; every addition names a granted dimension that has an account.
\<close>

theorem extension_refines:
  assumes "ledger_inv db" "ExtendResources env t q ev db = Inr (res, db')"
    "find_extension t (ext_ActorPrincipalID q) (ext_IdempotencyKey q) db = None"
  shows "\<exists>x e r. ValidateResourceExtension q = Inr x \<and> extension_target t (ext_RunID q) (ext_ActorPrincipalID q) db = Some (e, r) \<and>
    accounts db' = fold (credit_spec (granted_dimension db t (e_id e)) t (e_id e)) (ext_Additions x) (accounts db) \<and>
    (\<forall>a. a \<in> set (ext_Additions q) \<longrightarrow> (\<exists>d. granted_dimension db t (e_id e) (xa_Name a) = Some d \<and> accounts db (t, e_id e, d) \<noteq> None))"
  using assms(2)
proof (cases rule: ExtendResources_cases)
  case (replay x y)
  then show ?thesis using assms(3) ValidateResourceExtension_Inr[OF replay(1)] by simp
next
  case (new x)
  note v = ValidateResourceExtension_Inr[OF new(1)]
  obtain e r where e: "extension_target t (ext_RunID x) (ext_ActorPrincipalID x) db = Some (e, r)"
    "accounts db' = fold (credit_spec (granted_dimension db t (e_id e)) t (e_id e)) (ext_Additions x) (accounts db)"
    "\<forall>a \<in> set (ext_Additions x). \<exists>d. granted_dimension db t (e_id e) (xa_Name a) = Some d \<and> accounts db (t, e_id e, d) \<noteq> None"
    by (rule extend_new_effect[OF assms(1) new(4)])
  have "set (ext_Additions x) = set (ext_Additions q)" using v mset_eq_setD by blast
  then show ?thesis using new(1) e v by auto
qed

lemma find_update_same:
  assumes "\<And>r. p (f r) = p r"
  shows "List.find p (update_where p f rows) = map_option f (List.find p rows)"
  by (induction rows) (auto simp: update_where_def assms)

lemma extend_new_tables:
  assumes "extend_new env t x digest ev db = Inr (res, db')"
  obtains e r deadline row state version where
    "extension_target t (ext_RunID x) (ext_ActorPrincipalID x) db = Some (e, r)" "r_requested_by r \<noteq> ext_ActorPrincipalID x"
    "\<not> Terminal (r_state r)" "e_version e \<noteq> MaxInt64" "extended_deadline (ext_DeadlineExtensionSeconds x) (r_deadline r) = Inr deadline"
    "resumed_state r (ext_CreatedAt x) = Inr (state, version)"
    "resource_extensions db' = resource_extensions db @ [row]"
    "x_tenant row = t" "x_actor row = ext_ActorPrincipalID x" "x_idempotency_key row = ext_IdempotencyKey x" "x_digest row = digest"
    "x_id row = ext_ID x" "x_new_version row = er_EnvelopeVersion res" "x_new_deadline row = er_DeadlineAt res" "x_resumed row = er_Resumed res"
    "res = \<lparr>er_ID = ext_ID x, er_EnvelopeVersion = wrap64 (e_version e + 1), er_DeadlineAt = deadline, er_Resumed = (r_state r = RunPausedForBudget)\<rparr>"
    "runs db' = update_where (\<lambda>r. r_tenant r = t \<and> r_id r = ext_RunID x)
       (\<lambda>r. r\<lparr>r_deadline := deadline, r_state := state, r_state_version := version, r_updated := ext_CreatedAt x\<rparr>) (runs db)"
    "resource_envelopes db' = update_where (\<lambda>y. e_tenant y = t \<and> e_id y = e_id e) (\<lambda>y. y\<lparr>e_version := wrap64 (e_version e + 1)\<rparr>) (resource_envelopes db)"
proof -
  obtain e r deadline db1 db2 state version db3 where
    1: "extension_target t (ext_RunID x) (ext_ActorPrincipalID x) db = Some (e, r)" "r_requested_by r \<noteq> ext_ActorPrincipalID x"
    "\<not> Terminal (r_state r)" "e_version e \<noteq> MaxInt64" "extended_deadline (ext_DeadlineExtensionSeconds x) (r_deadline r) = Inr deadline"
    and 2: "insert_extension t x digest e r deadline db = Inr db1"
    and 3: "fold_result (extend_addition t (ext_ID x) (e_id e) (ext_CreatedAt x)) (ext_Additions x) db1 = Inr db2"
    and state: "resumed_state r (ext_CreatedAt x) = Inr (state, version)"
    and 4: "extend_run t (ext_RunID x) deadline state version (ext_CreatedAt x) (version_envelope t (e_id e) (wrap64 (e_version e + 1)) db2) = Inr db3"
    and 5: "extension_evidence env t x ev (e_id e) (wrap64 (e_version e + 1)) (r_state r = RunPausedForBudget) state version db3 = Inr db'"
    and res: "res = \<lparr>er_ID = ext_ID x, er_EnvelopeVersion = wrap64 (e_version e + 1), er_DeadlineAt = deadline, er_Resumed = (r_state r = RunPausedForBudget)\<rparr>"
    by (rule extend_new_Inr[OF assms])
  define row where "row = last (resource_extensions db1)"
  have row: "db1 = db\<lparr>resource_extensions := resource_extensions db @ [row]\<rparr>" "x_tenant row = t" "x_actor row = ext_ActorPrincipalID x"
      "x_idempotency_key row = ext_IdempotencyKey x" "x_digest row = digest" "x_id row = ext_ID x" "x_new_version row = wrap64 (e_version e + 1)"
      "x_new_deadline row = deadline" "x_resumed row = (r_state r = RunPausedForBudget)"
    using 2 by (auto simp: insert_extension_def and_then_Inr pg_insert_Inr row_def)
  have ev: "resource_extensions db' = resource_extensions db3" "resource_envelopes db' = resource_envelopes db3" "runs db' = runs db3"
    using extension_evidence_same[OF 5] by (simp_all add: same_ledger_def)
  note adds = extend_additions_tables[OF 3]
  have tables: "resource_extensions db' = resource_extensions db @ [row]"
    "runs db' = update_where (\<lambda>r. r_tenant r = t \<and> r_id r = ext_RunID x)
       (\<lambda>r. r\<lparr>r_deadline := deadline, r_state := state, r_state_version := version, r_updated := ext_CreatedAt x\<rparr>) (runs db)"
    "resource_envelopes db' = update_where (\<lambda>y. e_tenant y = t \<and> e_id y = e_id e) (\<lambda>y. y\<lparr>e_version := wrap64 (e_version e + 1)\<rparr>) (resource_envelopes db)"
    using adds by (simp_all add: ev extend_run_eq[OF 4] version_envelope_def row(1))
  show ?thesis
    by (rule that[OF 1 state tables(1) row(2-6)]) (use row(7-9) tables(2,3) res in simp_all)
qed

lemma ExtendResources_scope:
  assumes "ExtendResources env t q ev db = Inr (res, db')"
  shows "repository_valid t = Inr ()" "\<not> (IsZero (xev_AuditID ev) \<or> IsZero (xev_OutboxID ev) \<or> IsZero (xev_EventID ev)
          \<or> IsZero (xev_RequestID ev) \<or> xev_ReasonCodes ev = [])"
  using assms by (auto simp: ExtendResources_def and_then_Inr split: if_splits)


lemma extension_target_Some:
  "extension_target t i a db = Some (e, r) \<Longrightarrow> find_run t i db = Some r \<and> find_principal t a db \<noteq> None \<and> e_tenant e = t \<and> e_run e = i"
  by (auto simp: extension_target_def split: option.splits dest: find_SomeD)

lemma resumed_state_Inr:
  "resumed_state r at = Inr (s, v) \<Longrightarrow> s = (if r_state r = RunPausedForBudget then RunRunning else r_state r)"
  by (auto simp: resumed_state_def dest!: Transition_to split: if_splits sum.splits prod.splits)

definition not_earlier :: "Time option \<Rightarrow> Time option \<Rightarrow> bool" where
  "not_earlier d d' \<longleftrightarrow>
     (case (d, d') of (None, None) \<Rightarrow> True | (Some a, Some b) \<Rightarrow> unix_nano a \<le> unix_nano b | _ \<Rightarrow> False)"

lemma extended_deadline_Inr: "extended_deadline seconds d = Inr d' \<Longrightarrow> not_earlier d d'"
  by (cases d) (auto simp: not_earlier_def extended_deadline_def Let_def After_def split: if_splits)


section \<open>Witnesses\<close>

text \<open>The parent run is paused for budget with a deadline; the operator adds fifty tokens and a minute.\<close>

definition paused_db :: DB where
  "paused_db = demo_db\<lparr>runs := [(demo_run parent_run None)\<lparr>r_state := RunPausedForBudget, r_deadline := Some (demo_time 100)\<rparr>]\<rparr>"

definition demo_extension :: ResourceExtension where
  "demo_extension =
     \<lparr>ext_ID = demo_id 91, ext_TenantID = demo_tenant, ext_RunID = parent_run, ext_ActorPrincipalID = operator,
      ext_PolicyDecisionID = demo_id 62, ext_IdempotencyKey = ''extend-1'', ext_ReasonCode = ''incident'',
      ext_ApprovalReference = ''CHG-1'',
      ext_Additions = [\<lparr>xa_Name = ''llm_tokens'', xa_Quantity = \<lparr>amount = \<lparr>coefficient = 50, scale = 0\<rparr>, unit = ''token''\<rparr>\<rparr>],
      ext_DeadlineExtensionSeconds = 60, ext_CreatedAt = demo_time 70\<rparr>"

definition demo_extension_evidence :: ResourceExtensionEvidence where
  "demo_extension_evidence =
     \<lparr>xev_AuditID = demo_id 92, xev_OutboxID = demo_id 93, xev_EventID = demo_id 94, xev_RequestID = demo_id 95,
      xev_ReasonCodes = [''resource.extension.approved'']\<rparr>"

definition extended_db :: DB where
  "extended_db = snd (projr (ExtendResources demo_env demo_tenant demo_extension demo_extension_evidence paused_db))"

definition extended_result :: ResourceExtensionResult where
  "extended_result = \<lparr>er_ID = demo_id 91, er_EnvelopeVersion = 2, er_DeadlineAt = Some (demo_time (100 + 60000000000)), er_Resumed = True\<rparr>"

lemma demo_extension_valid: "ValidateResourceExtension demo_extension = Inr demo_extension"
proof -
  have "resourceDimensionNamePattern ''llm_tokens''" "extensionReferencePattern ''extend-1''" "extensionReferencePattern ''CHG-1''"
    "extensionReasonPattern ''incident''" by code_simp+
  then show ?thesis
    by (simp add: ValidateResourceExtension_def demo_extension_def demo_ids RequireUTC_eq demo_time_def Unix_UTC_def int64_simps IsZeroTime_def zero_nano_def)
qed

lemma demo_extension_restricted: "\<not> containsRestrictedJSONKey (au_Metadata (extension_audit x ev e v b))"
  by (simp add: extension_audit_def) code_simp

lemmas extension_eval = ExtendResources_def extend_new_def extension_target_def find_extension_def extended_deadline_def insert_extension_def
  extension_check_def extension_conflict_def extend_addition_def extension_grant_def extension_item_check_def extension_item_key_def
  credit_extension_def credit_def extended_def resumed_state_def extend_run_def version_envelope_def extension_evidence_def
  extension_payload_def validateEvidence_def extension_message_def resourceExtensionDigest_def
  validJSONArray_def validJSONObject_def AddDuration_def Second_def After_def

lemma demo_extension_run:
  "ExtendResources demo_env demo_tenant demo_extension demo_extension_evidence paused_db = Inr (extended_result, extended_db)"
  "accounts extended_db (demo_tenant, parent_envelope, tokens_dimension) = Some \<lparr>avail = 150, consumed = 0, allocated = 0\<rparr>"
proof -
  have "extensionReasonPattern ''incident''" by code_simp
  then have "map_sum id (\<lambda>(r, db). (r, accounts db (demo_tenant, parent_envelope, tokens_dimension)))
      (ExtendResources demo_env demo_tenant demo_extension demo_extension_evidence paused_db)
    = Inr (extended_result, Some \<lparr>avail = 150, consumed = 0, allocated = 0\<rparr>)"
    using demo_extension_valid demo_extension_restricted
    by (simp add: extension_eval extension_audit_def usage_eval exhaust_eval demo_extension_def demo_extension_evidence_def extended_result_def paused_db_def demo_rows demo_ids demo_digest
        Let_def zero_nano_def int64_simps Unix_UTC_def accounts_def account_of_def)
  then show "ExtendResources demo_env demo_tenant demo_extension demo_extension_evidence paused_db = Inr (extended_result, extended_db)"
    "accounts extended_db (demo_tenant, parent_envelope, tokens_dimension) = Some \<lparr>avail = 150, consumed = 0, allocated = 0\<rparr>"
    by (cases "ExtendResources demo_env demo_tenant demo_extension demo_extension_evidence paused_db"; auto simp: extended_db_def)+
qed

lemma paused_db_inv: "ledger_inv paused_db"
  by (subst ledger_inv_cong[of _ demo_db]) (simp_all add: paused_db_def demo_db_inv)

lemma no_demo_extension:
  "find_extension demo_tenant (ext_ActorPrincipalID demo_extension) (ext_IdempotencyKey demo_extension) paused_db = None"
  by (simp add: find_extension_def paused_db_def demo_rows)

theorem extension_refines_witness:
  "\<exists>x e r. ValidateResourceExtension demo_extension = Inr x \<and> extension_target demo_tenant parent_run operator paused_db = Some (e, r) \<and>
    accounts extended_db = fold (credit_spec (granted_dimension paused_db demo_tenant (e_id e)) demo_tenant (e_id e)) (ext_Additions x) (accounts paused_db) \<and>
    accounts extended_db (demo_tenant, parent_envelope, tokens_dimension) = Some \<lparr>avail = 150, consumed = 0, allocated = 0\<rparr>"
  using extension_refines[OF paused_db_inv demo_extension_run(1) no_demo_extension] demo_extension_run(2)
  by (auto simp: demo_extension_def)



end
