(* ===== verification/Settlement.thy ===== *)
theory Settlement
  imports Extension "HOL-Library.Product_Lexorder"
begin

text \<open>
  Settlement (internal/adapters/postgres/resource\_settlement.go) and reconciliation
  (resource\_reconciliation.go): when the child of a reservation has ended, what it consumed is charged to the
  parent, the rest is returned, and the reservation is closed. A settlement is asked for by an actor
  under an idempotency key; reconciliation selects an open reservation itself, one whose child has ended or one
  that has expired, and times the child out in the second case. The two operations share the statements on
  the items, which are defined once here, with the messages of the caller as arguments.
\<close>

section \<open>Items\<close>

record locked_item =
  it_dimension :: ID
  it_name :: string
  it_unit :: string
  it_scale :: nat
  it_reserved :: int
  it_available :: int
  it_allocated :: int

text \<open>The items of a reservation with the balances of the child and the parent, in the order of the dimension.\<close>

definition locked_item_of :: "ID \<Rightarrow> ID \<Rightarrow> ID \<Rightarrow> DB \<Rightarrow> reservation_item_row \<Rightarrow> locked_item option" where
  "locked_item_of tenant child parent db i =
     (case (find_dimension tenant (ri_dimension i) db, find_balance (tenant, child, ri_dimension i) db,
            find_balance (tenant, parent, ri_dimension i) db) of
        (Some d, Some c, Some p) \<Rightarrow>
          Some \<lparr>it_dimension = ri_dimension i, it_name = dim_Name d, it_unit = ri_unit i, it_scale = ri_scale i,
                it_reserved = ri_reserved i, it_available = b_available c, it_allocated = b_allocated_open c\<rparr>
      | _ \<Rightarrow> None)"

definition locked_items :: "ID \<Rightarrow> ID \<Rightarrow> ID \<Rightarrow> ID \<Rightarrow> DB \<Rightarrow> locked_item list" where
  "locked_items tenant reservation child parent db =
     List.map_filter (locked_item_of tenant child parent db)
       (sort_key ri_dimension (filter (\<lambda>i. ri_tenant i = tenant \<and> ri_reservation i = reservation) (resource_reservation_items db)))"

definition check_items :: "string \<Rightarrow> string \<Rightarrow> locked_item list \<Rightarrow> unit result" where
  "check_items none unsafe items =
     (if items = [] then Inl (NewError CodeConflict none)
      else if list_ex (\<lambda>x. it_allocated x \<noteq> 0 \<or> it_available x > it_reserved x) items then Inl (NewError CodeConflict unsafe)
      else Inr ())"

definition settle :: "int \<Rightarrow> int \<Rightarrow> int \<Rightarrow> Time \<Rightarrow> balance_row \<Rightarrow> balance_row" where
  "settle returned charged reserved at b =
     b\<lparr>b_available := b_available b + returned, b_direct_consumed := b_direct_consumed b + charged,
       b_allocated_open := b_allocated_open b - reserved, b_state_version := b_state_version b + 1, b_updated := at\<rparr>"

text \<open>A statement whose error is replaced by another one.\<close>

definition replacing_error :: "goerror \<Rightarrow> 'a result \<Rightarrow> 'a result" where
  "replacing_error e m = (case m of Inl _ \<Rightarrow> Inl e | Inr x \<Rightarrow> Inr x)"

lemma replacing_error_Inr [result_simps, simp]: "replacing_error e m = Inr x \<longleftrightarrow> m = Inr x"
  by (cases m) (simp_all add: replacing_error_def)

text \<open>The body of the loop over the items: the settlement item, and the parent's balance.\<close>

definition settle_item :: "string \<Rightarrow> string \<Rightarrow> ID \<Rightarrow> ID \<Rightarrow> ID \<Rightarrow> Time \<Rightarrow> locked_item \<Rightarrow> DB \<Rightarrow> DB result" where
  "settle_item insert_message changed tenant settlement parent at x db =
     (let charged = it_reserved x - it_available x in
      and_then (wrapping insert_message
        (pg_insert settlement_item_check (\<lambda>i j. settlement_item_key i = settlement_item_key j)
          \<lparr>si_tenant = tenant, si_settlement = settlement, si_dimension = it_dimension x, si_reserved = it_reserved x,
           si_consumed = charged, si_returned = it_available x, si_unit = it_unit x, si_scale = it_scale x\<rparr>
          (resource_settlement_items db))) (\<lambda>items.
      and_then (replacing_error (NewError CodeConflict changed)
          (update_balance (tenant, parent, it_dimension x)
            (\<lambda>b. b_available b \<le> 9223372036854775807 - it_available x \<and> b_direct_consumed b \<le> 9223372036854775807 - charged
               \<and> b_allocated_open b \<ge> it_reserved x \<and> b_state_version b < 9223372036854775807)
            (settle (it_available x) charged (it_reserved x) at) (db\<lparr>resource_settlement_items := items\<rparr>)))
        (\<lambda>(db, n). if n \<noteq> 1 then Inl (NewError CodeConflict changed) else Inr db)))"

definition insert_settlement :: "string \<Rightarrow> ID \<Rightarrow> ResourceSettlement \<Rightarrow> string \<Rightarrow> SettlementReason \<Rightarrow> DB \<Rightarrow> DB result" where
  "insert_settlement message tenant s digest reason db =
     and_then (wrapping message
         (pg_insert settlement_check settlement_conflict
           \<lparr>s_id = set_ID s, s_tenant = tenant, s_reservation = set_ReservationID s, s_actor = set_ActorPrincipalID s,
            s_decision = set_PolicyDecisionID s, s_idempotency_key = set_IdempotencyKey s, s_run_state = set_TerminalRunState s,
            s_digest = digest, s_reason = reason, s_settled_at = set_SettledAt s\<rparr>
           (resource_settlements db)))
       (\<lambda>rows. Inr (db\<lparr>resource_settlements := rows\<rparr>))"

definition close_reservation :: "ID \<Rightarrow> ID \<Rightarrow> ReservationState \<Rightarrow> Time \<Rightarrow> DB \<Rightarrow> (DB \<times> nat) result" where
  "close_reservation tenant reservation state at db =
     and_then (pg_update reservation_check (\<lambda>r. rr_tenant r = tenant \<and> rr_id r = reservation \<and> rr_state r = OPEN)
         (\<lambda>r. r\<lparr>rr_state := state, rr_settled := Some at\<rparr>) (resource_reservations db))
       (\<lambda>(rows, n). Inr (db\<lparr>resource_reservations := rows\<rparr>, n))"

definition resourceSettlementDigest :: "hash \<Rightarrow> ResourceSettlement \<Rightarrow> string" where
  "resourceSettlementDigest sha256 s =
     digest_text sha256 (join nul [ID_String (set_ReservationID s), RunState_text (set_TerminalRunState s),
       join '','' (sort (map ID_String (set_FinalUsageEventIDs s)))])"

text \<open>
  \<open>loadSettlementResult\<close>: the amounts of a recorded settlement, by name. The identifiers are read back from
  their text.
\<close>

definition settlement_amounts :: "ID \<Rightarrow> ID \<Rightarrow> (settlement_item_row \<Rightarrow> int) \<Rightarrow> DB \<Rightarrow> ResourceSettlementAmount list" where
  "settlement_amounts tenant settlement amt db =
     sort_key sa_Name (List.map_filter (\<lambda>i.
         map_option (\<lambda>d. \<lparr>sa_Name = dim_Name d, sa_Unit = si_unit i, sa_Scale = si_scale i, sa_Value = amt i\<rparr>)
           (find_dimension tenant (si_dimension i) db))
       (filter (\<lambda>i. si_tenant i = tenant \<and> si_settlement i = settlement) (resource_settlement_items db)))"

definition loadSettlementResult :: "ID \<Rightarrow> ID \<Rightarrow> ID \<Rightarrow> Time \<Rightarrow> bool \<Rightarrow> DB \<Rightarrow> ResourceSettlementResult result" where
  "loadSettlementResult tenant settlement reservation at duplicate db =
     and_then (ParseID (ID_String settlement)) (\<lambda>i.
     and_then (ParseID (ID_String reservation)) (\<lambda>rid.
       Inr \<lparr>sr_ID = i, sr_ReservationID = rid, sr_Consumed = settlement_amounts tenant settlement si_consumed db,
            sr_Returned = settlement_amounts tenant settlement si_returned db, sr_SettledAt = ToUTC at, sr_Duplicate = duplicate\<rparr>))"

section \<open>Settlement\<close>

record ResourceSettlementEvidence =
  sev_AuditID :: ID
  sev_OutboxID :: ID
  sev_RequestID :: ID
  sev_ReasonCodes :: "string list"

definition settlement_audit :: "ResourceSettlement \<Rightarrow> ResourceSettlementEvidence \<Rightarrow> AuditEvent" where
  "settlement_audit s evidence =
     \<lparr>au_ID = sev_AuditID evidence, au_TenantID = Some (set_TenantID s), au_PrincipalID = Some (set_ActorPrincipalID s),
      au_Action = ''resources.settle'', au_ResourceType = ''resource_reservation'', au_ResourceID = ID_String (set_ReservationID s),
      au_Outcome = ''SUCCEEDED'', au_ReasonCodes = JArr (map JStr (sev_ReasonCodes evidence)),
      au_PolicyDecisionID = Some (set_PolicyDecisionID s), au_RequestID = Some (sev_RequestID evidence), au_TraceID = [],
      au_Metadata = JObj [(''request_id'', JStr (ID_String (sev_RequestID evidence)))], au_PreviousHash = [],
      au_OccurredAt = set_SettledAt s\<rparr>"

definition settlement_message :: "ResourceSettlement \<Rightarrow> ResourceSettlementEvidence \<Rightarrow> OutboxMessage" where
  "settlement_message s evidence =
     \<lparr>ob_ID = sev_OutboxID evidence, ob_TenantID = Some (set_TenantID s), ob_AggregateType = ''resource_reservation'',
      ob_AggregateID = ID_String (set_ReservationID s), ob_EventType = ''resource.reservation.settled'', ob_SchemaVersion = 1,
      ob_Payload = JObj [(''reservation_id'', JStr (ID_String (set_ReservationID s))), (''settlement_id'', JStr (ID_String (set_ID s))),
        (''terminal_run_state'', JStr (RunState_text (set_TerminalRunState s)))],
      ob_Headers = JObj [], ob_OccurredAt = set_SettledAt s, ob_AvailableAt = set_SettledAt s\<rparr>"

definition find_settlement :: "ID \<Rightarrow> ID \<Rightarrow> string \<Rightarrow> DB \<Rightarrow> settlement_row option" where
  "find_settlement tenant actor key db =
     List.find (\<lambda>s. s_tenant s = tenant \<and> s_actor s = actor \<and> s_idempotency_key s = key) (resource_settlements db)"

definition settlement_of :: "ID \<Rightarrow> ID \<Rightarrow> DB \<Rightarrow> settlement_row option" where
  "settlement_of tenant reservation db = List.find (\<lambda>s. s_tenant s = tenant \<and> s_reservation s = reservation) (resource_settlements db)"

text \<open>The state of the child run, when the actor is an enabled principal.\<close>

definition settlement_run_state :: "ID \<Rightarrow> ID \<Rightarrow> ID \<Rightarrow> DB \<Rightarrow> RunState option" where
  "settlement_run_state tenant run actor db =
     (case (find_run tenant run db, find_principal tenant actor db) of (Some r, Some _) \<Rightarrow> Some (r_state r) | _ \<Rightarrow> None)"

definition unknown_final_events :: "ID \<Rightarrow> ID \<Rightarrow> ID list \<Rightarrow> DB \<Rightarrow> bool" where
  "unknown_final_events tenant run events db \<longleftrightarrow>
     events \<noteq> [] \<and>
     rows_affected (\<lambda>u. u_tenant u = tenant \<and> u_run u = run \<and> u_id u \<in> set events) (trusted_usage_entries db) \<noteq> length events"

text \<open>The settlement of an open reservation, after the replay checks.\<close>

definition settle_open :: "Env \<Rightarrow> ID \<Rightarrow> ResourceSettlement \<Rightarrow> string \<Rightarrow> ResourceSettlementEvidence \<Rightarrow> reservation_row \<Rightarrow> DB
    \<Rightarrow> (ResourceSettlementResult \<times> DB) result" where
  "settle_open env tenant s digest evidence rr db =
     (case settlement_run_state tenant (rr_run rr) (set_ActorPrincipalID s) db of
        None \<Rightarrow> Inl (NewError CodeForbidden ''settlement actor or run is unavailable'')
      | Some state \<Rightarrow>
          if state \<noteq> set_TerminalRunState s \<or> \<not> Terminal state
          then Inl (NewError CodeConflict ''reservation child is not in the declared terminal state'')
          else if unknown_final_events tenant (rr_run rr) (set_FinalUsageEventIDs s) db
          then Inl (NewError CodeConflict ''final usage event set contains an unknown event'')
          else
            let items = locked_items tenant (set_ReservationID s) (rr_child rr) (rr_parent rr) db in
            and_then (check_items ''reservation has no consumable items'' ''child has open allocations or an invalid balance'' items) (\<lambda>_.
            and_then (insert_settlement ''insert settlement'' tenant s digest ReasonTerminal db) (\<lambda>db.
            and_then (fold_result (settle_item ''insert settlement item'' ''parent settlement balance changed or overflowed''
                tenant (set_ID s) (rr_parent rr) (set_SettledAt s)) items db) (\<lambda>db.
            and_then (wrapping ''close reservation'' (close_reservation tenant (set_ReservationID s) SETTLED (set_SettledAt s) db)) (\<lambda>(db, _).
            and_then (validateEvidence (settlement_audit s evidence) (settlement_message s evidence)) (\<lambda>_.
            and_then (wrapping ''append settlement audit'' (insert_audit env (settlement_audit s evidence) db)) (\<lambda>db.
            and_then (wrapping ''append settlement outbox'' (insert_outbox (settlement_message s evidence) db)) (\<lambda>db.
            and_then (loadSettlementResult tenant (set_ID s) (set_ReservationID s) (set_SettledAt s) False db) (\<lambda>result.
            Inr (result, db))))))))))"

definition SettleReservation :: "Env \<Rightarrow> ID \<Rightarrow> ResourceSettlement \<Rightarrow> ResourceSettlementEvidence \<Rightarrow> DB \<Rightarrow> (ResourceSettlementResult \<times> DB) result" where
  "SettleReservation env tenant candidate evidence db =
     and_then (repository_valid tenant) (\<lambda>_.
     and_then (ValidateResourceSettlement candidate) (\<lambda>s.
       if set_TenantID s \<noteq> tenant \<or> IsZero (sev_AuditID evidence) \<or> IsZero (sev_OutboxID evidence) \<or> IsZero (sev_RequestID evidence)
          \<or> sev_ReasonCodes evidence = []
       then Inl (New ''resource settlement scope or evidence is invalid'')
       else
         let digest = resourceSettlementDigest (env_sha256 env) s in
         case find_settlement tenant (set_ActorPrincipalID s) (set_IdempotencyKey s) db of
           Some existing \<Rightarrow>
             if s_digest existing \<noteq> digest
             then Inl (NewError CodeConflict ''settlement idempotency key was reused with different content'')
             else and_then (loadSettlementResult tenant (s_id existing) (s_reservation existing) (s_settled_at existing) True db)
               (\<lambda>result. Inr (result, db))
         | None \<Rightarrow>
             (case find_reservation tenant (set_ReservationID s) db of
                None \<Rightarrow> Inl (NewError CodeNotFound ''reservation not found'')
              | Some rr \<Rightarrow>
                  if rr_state rr \<noteq> OPEN then
                    case settlement_of tenant (set_ReservationID s) db of
                      None \<Rightarrow> Inl (NewError CodeConflict ''reservation is already closed'')
                    | Some established \<Rightarrow>
                        if s_digest established \<noteq> digest
                        then Inl (NewError CodeConflict ''reservation was settled with different content'')
                        else and_then (loadSettlementResult tenant (s_id established) (set_ReservationID s) (s_settled_at established) True db)
                          (\<lambda>result. Inr (result, db))
                  else settle_open env tenant s digest evidence rr db)))"

section \<open>Reconciliation\<close>

record ResourceReconciliationEvidence =
  rev_SettlementID :: ID
  rev_PolicyDecisionID :: ID
  rev_AuditID :: ID
  rev_OutboxID :: ID
  rev_RunEventID :: ID

record ResourceReconciliationResult =
  rec_Settlement :: ResourceSettlementResult
  rec_Expired :: bool

text \<open>The states of a child that has ended, as the query spells them, and of one that may expire.\<close>

definition ended_state :: "RunState \<Rightarrow> bool" where
  "ended_state s \<longleftrightarrow> s \<in> {RunCompleted, RunFailed, RunCancelled, RunTimedOut, RunFailedBudget}"

definition expirable_state :: "RunState \<Rightarrow> bool" where
  "expirable_state s \<longleftrightarrow> s \<in> {RunAdmitted, RunRunning, RunPausedForBudget}"

definition reconcilable :: "ID \<Rightarrow> Time \<Rightarrow> DB \<Rightarrow> reservation_row \<Rightarrow> run_row \<Rightarrow> bool" where
  "reconcilable tenant now db rr ru \<longleftrightarrow>
     rr_tenant rr = tenant \<and> rr_state rr = OPEN \<and>
     (ended_state (r_state ru) \<or>
      (case rr_expires rr of None \<Rightarrow> False | Some t \<Rightarrow> unix_nano t \<le> unix_nano now) \<and> expirable_state (r_state ru)) \<and>
     \<not> list_ex (\<lambda>b. b_tenant b = tenant \<and> b_envelope b = rr_child rr \<and> b_allocated_open b \<noteq> 0) (resource_balances db)"

definition reconciliation_due :: "reservation_row \<Rightarrow> int" where
  "reconciliation_due rr = unix_nano (case rr_expires rr of None \<Rightarrow> rr_created rr | Some t \<Rightarrow> t)"

text \<open>The order of the selection: ended children before expired ones, then by due time, then by identifier.\<close>

definition reconciliation_order :: "reservation_row \<times> run_row \<Rightarrow> nat \<times> int \<times> ID" where
  "reconciliation_order = (\<lambda>(rr, ru). (if ended_state (r_state ru) then 0 else 1, reconciliation_due rr, rr_id rr))"

definition reconciliation_candidates :: "ID \<Rightarrow> Time \<Rightarrow> DB \<Rightarrow> (reservation_row \<times> run_row) list" where
  "reconciliation_candidates tenant now db =
     filter (\<lambda>(rr, ru). reconcilable tenant now db rr ru)
       (List.map_filter (\<lambda>rr. map_option (\<lambda>ru. (rr, ru)) (find_run (rr_tenant rr) (rr_run rr) db)) (resource_reservations db))"

definition reconciliation_candidate :: "ID \<Rightarrow> ID \<Rightarrow> Time \<Rightarrow> DB \<Rightarrow> (reservation_row \<times> run_row) option" where
  "reconciliation_candidate tenant system now db =
     (if \<not> list_ex (\<lambda>p. p_tenant p = tenant \<and> p_id p = system \<and> p_type p = PrincipalSystem \<and> p_disabled p = None) (principals db) then None
      else case sort_key reconciliation_order (reconciliation_candidates tenant now db) of [] \<Rightarrow> None | x # _ \<Rightarrow> Some x)"

text \<open>The timeout of an expired child: lifecycle step, row, event.\<close>

definition time_out_run :: "ID \<Rightarrow> ID \<Rightarrow> int \<Rightarrow> Time \<Rightarrow> int \<Rightarrow> int \<Rightarrow> DB \<Rightarrow> (DB \<times> nat) result" where
  "time_out_run tenant run version now token expected db =
     and_then (pg_update run_check (\<lambda>r. r_tenant r = tenant \<and> r_id r = run \<and> r_state_version r = expected)
         (\<lambda>r. r\<lparr>r_state := RunTimedOut, r_state_version := version, r_updated := now, r_terminal := Some now, r_lease_id := None,
                r_lease_expires := None, r_fencing_token := token\<rparr>) (runs db))
       (\<lambda>(rows, n). Inr (db\<lparr>runs := rows\<rparr>, n))"

definition expire_child :: "ID \<Rightarrow> ID \<Rightarrow> Time \<Rightarrow> ResourceReconciliationEvidence \<Rightarrow> reservation_row \<Rightarrow> run_row \<Rightarrow> DB \<Rightarrow> DB result" where
  "expire_child tenant system now evidence rr ru db =
     (if r_fencing_token ru = MaxInt64 then Inl (NewError CodeConflict ''expired run fencing token is exhausted'')
      else case Transition \<lparr>State = r_state ru, Version = r_state_version ru, UpdatedAt = ToUTC (r_updated ru), TerminalAt = None\<rparr>
          \<lparr>To = RunTimedOut, Actor = RunActorSystem, ExpectedVersion = r_state_version ru, At = now\<rparr> of
        Inl e \<Rightarrow> Inl (WrapError CodeConflict ''expired run cannot be timed out'' e)
      | Inr (timed_out, changed) \<Rightarrow>
          if \<not> changed then Inl (NewError CodeConflict ''expired run cannot be timed out'')
          else
            and_then (wrapping ''time out expired reservation child''
              (time_out_run tenant (rr_run rr) (Version timed_out) now (wrap64 (r_fencing_token ru + 1)) (r_state_version ru) db)) (\<lambda>(db, n).
            if n \<noteq> 1 then Inl (New ''time out expired reservation child'')
            else wrapping ''append reconciliation timeout event''
              (insert_run_event_with_outbox
                \<lparr>ev_id = rev_RunEventID evidence, ev_tenant = tenant, ev_run = rr_run rr,
                 ev_sequence = next_sequence tenant (rr_run rr) db, ev_type = ''run.timed_out'', ev_actor_type = RunActorSystem,
                 ev_actor = Some system, ev_state = Some RunTimedOut, ev_state_version = Some (Version timed_out),
                 ev_payload = JObj [(''reason'', JStr ''reservation_expired''), (''reservation_id'', JStr (ID_String (rr_id rr))),
                   (''state'', JStr ''TIMED_OUT''), (''state_version'', JNum (Version timed_out))],
                 ev_occurred = now\<rparr> db)))"

fun SettlementReason_text :: "SettlementReason \<Rightarrow> string" where
  "SettlementReason_text ReasonTerminal = ''TERMINAL''"
| "SettlementReason_text ReasonExpired = ''EXPIRED''"
| "SettlementReason_text ReasonCancelled = ''CANCELLED''"
| "SettlementReason_text ReasonReconciled = ''RECONCILED''"

definition reconciliation_settlement :: "ID \<Rightarrow> ID \<Rightarrow> Time \<Rightarrow> ResourceReconciliationEvidence \<Rightarrow> ID \<Rightarrow> RunState \<Rightarrow> ResourceSettlement" where
  "reconciliation_settlement tenant system now evidence reservation state =
     \<lparr>set_ID = rev_SettlementID evidence, set_TenantID = tenant, set_ReservationID = reservation, set_ActorPrincipalID = system,
      set_PolicyDecisionID = rev_PolicyDecisionID evidence, set_IdempotencyKey = ''reconcile:'' @ ID_String reservation,
      set_TerminalRunState = state, set_FinalUsageEventIDs = [], set_SettledAt = now\<rparr>"

definition reconciliation_audit :: "ResourceSettlement \<Rightarrow> ResourceReconciliationEvidence \<Rightarrow> bool \<Rightarrow> AuditEvent" where
  "reconciliation_audit s evidence expired =
     \<lparr>au_ID = rev_AuditID evidence, au_TenantID = Some (set_TenantID s), au_PrincipalID = Some (set_ActorPrincipalID s),
      au_Action = ''resources.reconcile'', au_ResourceType = ''resource_reservation'', au_ResourceID = ID_String (set_ReservationID s),
      au_Outcome = ''SUCCEEDED'', au_ReasonCodes = JArr [JStr ''resource.reservation.reconciled''],
      au_PolicyDecisionID = Some (rev_PolicyDecisionID evidence), au_RequestID = None, au_TraceID = [],
      au_Metadata = JObj [(''expired'', JBool expired)], au_PreviousHash = [], au_OccurredAt = set_SettledAt s\<rparr>"

definition reconciliation_message :: "ResourceSettlement \<Rightarrow> ResourceReconciliationEvidence \<Rightarrow> SettlementReason \<Rightarrow> OutboxMessage" where
  "reconciliation_message s evidence reason =
     \<lparr>ob_ID = rev_OutboxID evidence, ob_TenantID = Some (set_TenantID s), ob_AggregateType = ''resource_reservation'',
      ob_AggregateID = ID_String (set_ReservationID s), ob_EventType = ''resource.reservation.reconciled'', ob_SchemaVersion = 1,
      ob_Payload = JObj [(''reason'', JStr (SettlementReason_text reason)), (''reservation_id'', JStr (ID_String (set_ReservationID s))),
        (''settlement_id'', JStr (ID_String (set_ID s))), (''terminal_run_state'', JStr (RunState_text (set_TerminalRunState s)))],
      ob_Headers = JObj [], ob_OccurredAt = set_SettledAt s, ob_AvailableAt = set_SettledAt s\<rparr>"

text \<open>The settlement of the selected reservation, after its child has been timed out if it expired.\<close>

definition reconcile_selected :: "Env \<Rightarrow> ResourceSettlement \<Rightarrow> ResourceReconciliationEvidence \<Rightarrow> bool \<Rightarrow> reservation_row \<Rightarrow> DB
    \<Rightarrow> (ResourceReconciliationResult \<times> DB) result" where
  "reconcile_selected env s evidence expired rr db =
     (let tenant = set_TenantID s; now = set_SettledAt s;
          items = locked_items tenant (rr_id rr) (rr_child rr) (rr_parent rr) db;
          reason = (if expired then ReasonExpired else ReasonReconciled);
          state = (if expired then EXPIRED_SETTLED else SETTLED)
      in and_then (check_items ''reconciliation reservation has no consumable items'' ''reconciliation child balance is unsafe'' items) (\<lambda>_.
         and_then (ParseID (ID_String (rr_id rr))) (\<lambda>_.
         and_then (insert_settlement ''insert reconciled settlement'' tenant s (resourceSettlementDigest (env_sha256 env) s) reason db) (\<lambda>db.
         and_then (fold_result (settle_item ''insert reconciled settlement item'' ''parent reconciliation balance changed or overflowed''
             tenant (set_ID s) (rr_parent rr) now) items db) (\<lambda>db.
         and_then (wrapping ''close reconciled reservation'' (close_reservation tenant (rr_id rr) state now db)) (\<lambda>(db, n).
         if n \<noteq> 1 then Inl (New ''close reconciled reservation'')
         else
         and_then (validateEvidence (reconciliation_audit s evidence expired) (reconciliation_message s evidence reason)) (\<lambda>_.
         and_then (wrapping ''append reconciliation evidence''
             (and_then (insert_audit env (reconciliation_audit s evidence expired) db) (insert_outbox (reconciliation_message s evidence reason)))) (\<lambda>db.
         and_then (loadSettlementResult tenant (set_ID s) (rr_id rr) now False db) (\<lambda>result.
         Inr (\<lparr>rec_Settlement = result, rec_Expired = expired\<rparr>, db))))))))))"

definition ReconcileNextReservation :: "Env \<Rightarrow> ID \<Rightarrow> ID \<Rightarrow> Time \<Rightarrow> ResourceReconciliationEvidence \<Rightarrow> DB
    \<Rightarrow> (ResourceReconciliationResult \<times> DB) result" where
  "ReconcileNextReservation env tenant system now evidence db =
     (if IsZero tenant \<or> IsZero system \<or> IsZero (rev_SettlementID evidence) \<or> IsZero (rev_PolicyDecisionID evidence)
         \<or> IsZero (rev_AuditID evidence) \<or> IsZero (rev_OutboxID evidence) \<or> IsZero (rev_RunEventID evidence)
      then Inl (New ''resource reconciliation request is invalid'')
      else case RequireUTC now of
        Inl _ \<Rightarrow> Inl (New ''resource reconciliation time is invalid'')
      | Inr now \<Rightarrow>
          if IsZeroTime now then Inl (New ''resource reconciliation time is invalid'')
          else
            (case reconciliation_candidate tenant system now db of
               None \<Rightarrow> Inl ErrResourceReconciliationUnavailable
             | Some (rr, ru) \<Rightarrow>
                 let expired = \<not> Terminal (r_state ru) in
                 and_then (if expired then expire_child tenant system now evidence rr ru db else Inr db) (\<lambda>db.
                   reconcile_selected env
                     (reconciliation_settlement tenant system now evidence (rr_id rr) (if expired then RunTimedOut else r_state ru))
                     evidence expired rr db)))"

section \<open>Conservation\<close>

text \<open>
  The ledger while a reservation is being settled: the amounts in \<open>adj\<close> have left the allocation of
  their balances although the reservation is still open.
\<close>

definition balance_upto :: "(ID \<times> ID \<times> ID \<Rightarrow> int) \<Rightarrow> DB \<Rightarrow> balance_row \<Rightarrow> bool" where
  "balance_upto adj db b \<longleftrightarrow>
     balance_check b \<and>
     b_available b + b_direct_consumed b + b_allocated_open b = granted_total db (balance_key b) \<and>
     b_allocated_open b = reserved_open db (balance_key b) - adj (balance_key b) \<and> has_grant db (balance_key b)"

definition ledger_upto :: "(ID \<times> ID \<times> ID \<Rightarrow> int) \<Rightarrow> DB \<Rightarrow> bool" where
  "ledger_upto adj db \<longleftrightarrow>
     keys_ok db \<and> list_all (balance_upto adj db) (resource_balances db) \<and>
     list_all (reservation_item_ok db) (resource_reservation_items db) \<and>
     list_all (extension_item_ok db) (resource_extension_items db)"

lemma ledger_upto_zero: "ledger_upto (\<lambda>_. 0) db \<longleftrightarrow> ledger_inv db"
  by (simp add: ledger_upto_def ledger_inv_def balance_upto_def[abs_def] balance_conserved_def[abs_def])

lemma settle_simps [simp]:
  "balance_key (settle r c l at b) = balance_key b" "b_available (settle r c l at b) = b_available b + r"
  "b_direct_consumed (settle r c l at b) = b_direct_consumed b + c" "b_allocated_open (settle r c l at b) = b_allocated_open b - l"
  "account_of (settle r c l at b) = \<lparr>avail = b_available b + r, consumed = b_direct_consumed b + c, allocated = b_allocated_open b - l\<rparr>"
  by (simp_all add: settle_def balance_key_def account_of_def)

text \<open>The rows that one item writes.\<close>

lemma settle_item_Inr:
  assumes "settle_item m1 m2 t sid e at x db = Inr db'" "unique_key balance_key (resource_balances db)"
  obtains i b where "b \<in> set (resource_balances db)" "balance_key b = (t, e, it_dimension x)"
    "balance_check (settle (it_available x) (it_reserved x - it_available x) (it_reserved x) at b)"
    "db' = db\<lparr>resource_settlement_items := resource_settlement_items db @ [i],
       resource_balances := update_where (\<lambda>y. y = b) (settle (it_available x) (it_reserved x - it_available x) (it_reserved x) at) (resource_balances db)\<rparr>"
    "si_tenant i = t" "si_settlement i = sid" "si_dimension i = it_dimension x" "si_reserved i = it_reserved x"
    "si_consumed i = it_reserved x - it_available x" "si_returned i = it_available x" "si_unit i = it_unit x" "si_scale i = it_scale x"
proof -
  let ?c = "it_reserved x - it_available x"
  define i where "i = \<lparr>si_tenant = t, si_settlement = sid, si_dimension = it_dimension x, si_reserved = it_reserved x,
     si_consumed = ?c, si_returned = it_available x, si_unit = it_unit x, si_scale = it_scale x\<rparr>"
  let ?db = "db\<lparr>resource_settlement_items := resource_settlement_items db @ [i]\<rparr>"
  from assms(1) obtain n where n: "update_balance (t, e, it_dimension x)
        (\<lambda>b. b_available b \<le> 9223372036854775807 - it_available x \<and> b_direct_consumed b \<le> 9223372036854775807 - ?c
           \<and> b_allocated_open b \<ge> it_reserved x \<and> b_state_version b < 9223372036854775807)
        (settle (it_available x) ?c (it_reserved x) at) ?db = Inr (db', n)" "n \<noteq> 0"
    by (auto simp: settle_item_def Let_def and_then_Inr pg_insert_Inr i_def split: if_splits)
  obtain b where b: "b \<in> set (resource_balances ?db)" "balance_key b = (t, e, it_dimension x)"
    "balance_check (settle (it_available x) ?c (it_reserved x) at b)"
    "db' = ?db\<lparr>resource_balances := update_where (\<lambda>y. y = b) (settle (it_available x) ?c (it_reserved x) at) (resource_balances ?db)\<rparr>"
    by (rule update_balance_one[OF n]) (use assms(2) in simp_all)
  show ?thesis by (rule that[of b i]) (use b in \<open>simp_all add: i_def\<close>)
qed

lemma update_balance_eq:
  "update_balance k guard f db = Inr (db', n) \<Longrightarrow> \<exists>rows. db' = db\<lparr>resource_balances := rows\<rparr>"
  by (auto simp: update_balance_def and_then_Inr)

lemma settle_item_tables:
  assumes "settle_item m1 m2 t sid e at x db = Inr db'"
  shows "resource_reservations db' = resource_reservations db" "resource_reservation_items db' = resource_reservation_items db"
    "resource_dimensions db' = resource_dimensions db" "runs db' = runs db" "resource_settlements db' = resource_settlements db"
    "resource_extensions db' = resource_extensions db" "resource_extension_items db' = resource_extension_items db"
    "resource_envelope_grants db' = resource_envelope_grants db"
  using assms by (auto simp: settle_item_def Let_def and_then_Inr split: if_splits dest!: update_balance_eq)

lemma settle_item_upto:
  assumes "ledger_upto adj db" "settle_item m1 m2 t sid e at x db = Inr db'"
  shows "ledger_upto (adj((t, e, it_dimension x) := adj (t, e, it_dimension x) + it_reserved x)) db'"
proof -
  let ?f = "settle (it_available x) (it_reserved x - it_available x) (it_reserved x) at"
  have ub: "unique_key balance_key (resource_balances db)" using assms(1) by (simp add: ledger_upto_def keys_ok_def)
  obtain i b where b: "b \<in> set (resource_balances db)" "balance_key b = (t, e, it_dimension x)" "balance_check (?f b)"
    and db': "db' = db\<lparr>resource_settlement_items := resource_settlement_items db @ [i],
       resource_balances := update_where (\<lambda>y. y = b) ?f (resource_balances db)\<rparr>"
    by (rule settle_item_Inr[OF assms(2) ub])
  have bal: "resource_balances db' = update_where (\<lambda>y. y = b) ?f (resource_balances db)" by (simp add: db')
  note same = settle_item_tables[OF assms(2)]
  have eqs: "granted_total db' = granted_total db" "reserved_open db' = reserved_open db" "has_grant db' = has_grant db"
    by (auto simp: granted_total_def[abs_def] extended_def[abs_def] extension_of_def reserved_open_def[abs_def] reservation_open_def has_grant_def[abs_def] same)
  have hb: "has_balance db' = has_balance db"
    unfolding has_balance_def[abs_def] bal by (metis settle_simps(1) image_set map_update_where)
  have "balance_upto (adj((t, e, it_dimension x) := adj (t, e, it_dimension x) + it_reserved x)) db' y"
    if y: "y \<in> set (resource_balances db')" for y
  proof -
    have bu: "balance_upto adj db z" if "z \<in> set (resource_balances db)" for z using assms(1) that by (simp add: ledger_upto_def list_all_iff)
    from y consider "y = ?f b" | "y \<in> set (resource_balances db)" "y \<noteq> b"
      unfolding bal set_update_where by (elim UnE imageE CollectE conjE) simp_all
    then show ?thesis
    proof cases
      case 1
      show ?thesis using bu[OF b(1)] b(2,3) unfolding 1 balance_upto_def eqs settle_simps by simp
    next
      case 2
      then have "balance_key y \<noteq> (t, e, it_dimension x)" using unique_keyD[OF ub 2(1) b(1)] b(2) by auto
      then show ?thesis using bu[OF 2(1)] unfolding balance_upto_def eqs by simp
    qed
  qed
  moreover have "keys_ok db'" using assms(1) by (simp add: ledger_upto_def keys_ok_def same bal)
  moreover have "reservation_item_ok db' = reservation_item_ok db" "extension_item_ok db' = extension_item_ok db"
    by (auto simp: reservation_item_ok_def[abs_def] extension_item_ok_def[abs_def] hb eqs same)
  ultimately show ?thesis using assms(1) by (simp add: ledger_upto_def list_all_iff same)
qed


definition settled_amounts :: "ID \<Rightarrow> ID \<Rightarrow> locked_item list \<Rightarrow> ID \<times> ID \<times> ID \<Rightarrow> int" where
  "settled_amounts t e items k = sum_where (\<lambda>x. (t, e, it_dimension x) = k) it_reserved items"

lemma settle_items_upto:
  "fold_result (settle_item m1 m2 t sid e at) items db = Inr db' \<Longrightarrow> ledger_upto adj db \<Longrightarrow>
   ledger_upto (\<lambda>k. adj k + settled_amounts t e items k) db' \<and>
   resource_reservations db' = resource_reservations db \<and> resource_reservation_items db' = resource_reservation_items db \<and>
   resource_dimensions db' = resource_dimensions db \<and> runs db' = runs db \<and> resource_settlements db' = resource_settlements db"
proof (induction items arbitrary: db adj)
  case Nil
  then show ?case by (simp add: settled_amounts_def)
next
  case (Cons x items)
  from Cons.prems(1) obtain db1 where db1: "settle_item m1 m2 t sid e at x db = Inr db1" "fold_result (settle_item m1 m2 t sid e at) items db1 = Inr db'"
    by (auto simp: and_then_Inr)
  let ?adj = "adj((t, e, it_dimension x) := adj (t, e, it_dimension x) + it_reserved x)"
  have "(\<lambda>k. ?adj k + settled_amounts t e items k) = (\<lambda>k. adj k + settled_amounts t e (x # items) k)"
    by (auto simp: settled_amounts_def fun_eq_iff)
  then show ?case
    using Cons.IH[OF db1(2) settle_item_upto[OF Cons.prems(2) db1(1)]] settle_item_tables[OF db1(1)] by simp
qed

text \<open>Under the invariant the query joins every item of the reservation.\<close>

lemma sum_where_sort_key: "sum_where p v (sort_key f xs) = sum_where p v xs"
proof -
  have "sum_where p v ys = (\<Sum>x \<in># filter_mset p (mset ys). v x)" for ys
    by (induction ys) auto
  then show ?thesis by simp
qed

lemma locked_item_of_Some:
  assumes "ledger_inv db" "i \<in> set (resource_reservation_items db)" "ri_tenant i = t" "ri_reservation i = rr_id rr"
    "rr \<in> set (resource_reservations db)"
  shows "\<exists>x. locked_item_of t (rr_child rr) (rr_parent rr) db i = Some x \<and> it_dimension x = ri_dimension i \<and> it_reserved x = ri_reserved i"
proof -
  have "reservation_item_ok db i" using assms(1,2) by (simp add: ledger_inv_def list_all_iff)
  then obtain r where r: "r \<in> set (resource_reservations db)" "rr_id r = rr_id rr"
    "has_balance db (t, rr_parent r, ri_dimension i)" "has_balance db (t, rr_child r, ri_dimension i)"
    and d: "\<exists>d \<in> set (resource_dimensions db). dim_TenantID d = t \<and> dim_ID d = ri_dimension i"
    unfolding reservation_item_ok_def assms(3,4) by blast
  have rr: "r = rr" using unique_keyD[OF _ r(1) assms(5) r(2)] assms(1) by (simp add: ledger_inv_def keys_ok_def)
  from d obtain d where "find_dimension t (ri_dimension i) db = Some d"
    by (cases "find_dimension t (ri_dimension i) db") (auto simp: find_dimension_def find_None_iff)
  moreover from r(3) obtain p where "find_balance (t, rr_parent rr, ri_dimension i) db = Some p"
    using find_balance_None[of "(t, rr_parent rr, ri_dimension i)" db] rr by (cases "find_balance (t, rr_parent rr, ri_dimension i) db") auto
  moreover from r(4) obtain c where "find_balance (t, rr_child rr, ri_dimension i) db = Some c"
    using find_balance_None[of "(t, rr_child rr, ri_dimension i)" db] rr by (cases "find_balance (t, rr_child rr, ri_dimension i) db") auto
  ultimately show ?thesis by (simp add: locked_item_of_def)
qed

lemma settled_amounts_locked:
  assumes "ledger_inv db" "rr \<in> set (resource_reservations db)"
  shows "settled_amounts t (rr_parent rr) (locked_items t (rr_id rr) (rr_child rr) (rr_parent rr) db) k =
    sum_where (\<lambda>i. ri_tenant i = t \<and> ri_reservation i = rr_id rr \<and> (t, rr_parent rr, ri_dimension i) = k) ri_reserved (resource_reservation_items db)"
proof -
  let ?g = "locked_item_of t (rr_child rr) (rr_parent rr) db"
  let ?q = "\<lambda>i. ri_tenant i = t \<and> ri_reservation i = rr_id rr"
  have map: "sum_where (\<lambda>x. (t, rr_parent rr, it_dimension x) = k) it_reserved (List.map_filter ?g is) =
      sum_where (\<lambda>i. (t, rr_parent rr, ri_dimension i) = k) ri_reserved is"
    if "\<forall>i \<in> set is. i \<in> set (resource_reservation_items db) \<and> ?q i" for "is"
    using that
  proof (induction "is")
    case (Cons i "is")
    have i: "i \<in> set (resource_reservation_items db)" "ri_tenant i = t" "ri_reservation i = rr_id rr" using Cons.prems by auto
    obtain x where x: "?g i = Some x" "it_dimension x = ri_dimension i" "it_reserved x = ri_reserved i"
      using locked_item_of_Some[OF assms(1) i assms(2)] by blast
    have "\<forall>i \<in> set is. i \<in> set (resource_reservation_items db) \<and> ?q i" using Cons.prems by simp
    note ih = Cons.IH[OF this]
    show ?case by (simp only: map_filter_simps x option.case sum_where_Cons ih)
  qed (simp add: map_filter_simps)
  have "sum_where p v (filter q xs) = sum_where (\<lambda>i. q i \<and> p i) v xs" for p q v and xs :: "reservation_item_row list"
    by (simp add: sum_where_def)
  then show ?thesis
    unfolding settled_amounts_def locked_items_def by (subst map) (simp_all add: sum_where_sort_key)
qed


lemma sum_where_diff:
  assumes "\<And>i. C i \<longleftrightarrow> A i \<and> B i"
  shows "sum_where (\<lambda>i. A i \<and> \<not> B i) v rows = sum_where A v rows - sum_where C v rows"
  unfolding assms by (induction rows) auto

lemma close_reservation_Inr:
  assumes "close_reservation t rid s at db = Inr (db', n)"
  shows "db' = db\<lparr>resource_reservations := update_where (\<lambda>r. rr_tenant r = t \<and> rr_id r = rid \<and> rr_state r = OPEN)
      (\<lambda>r. r\<lparr>rr_state := s, rr_settled := Some at\<rparr>) (resource_reservations db)\<rparr>"
    "n = rows_affected (\<lambda>r. rr_tenant r = t \<and> rr_id r = rid \<and> rr_state r = OPEN) (resource_reservations db)"
  using assms by (auto simp: close_reservation_def and_then_Inr pg_update_Inr)

text \<open>Closing a reservation takes its items out of what is reserved from its parent.\<close>

lemma reserved_open_close:
  assumes "unique_key rr_id (resource_reservations db)" "rr \<in> set (resource_reservations db)" "rr_tenant rr = t" "rr_state rr = OPEN"
    "close_reservation t (rr_id rr) s at db = Inr (db', n)" "s \<noteq> OPEN"
  shows "reserved_open db' k = reserved_open db k -
    sum_where (\<lambda>i. ri_tenant i = t \<and> ri_reservation i = rr_id rr \<and> (t, rr_parent rr, ri_dimension i) = k) ri_reserved (resource_reservation_items db)"
proof -
  obtain t' e d where k: "k = (t', e, d)" by (cases k)
  note db' = close_reservation_Inr(1)[OF assms(5)]
  have other: "reservation_open db' t' rid e = (reservation_open db t' rid e \<and> \<not> (t' = t \<and> rid = rr_id rr))" for rid
    using unique_keyD[OF assms(1) _ assms(2)] assms(6)
    by (auto simp: reservation_open_def list_ex_iff db' set_update_where)
  have own: "reservation_open db t (rr_id rr) e \<longleftrightarrow> e = rr_parent rr"
    using unique_keyD[OF assms(1) _ assms(2)] assms(2-4) by (auto simp: reservation_open_def list_ex_iff)
  have items: "resource_reservation_items db' = resource_reservation_items db" by (simp add: db')
  let ?A = "\<lambda>i. ri_tenant i = t' \<and> ri_dimension i = d \<and> reservation_open db t' (ri_reservation i) e"
  let ?B = "\<lambda>i. t' = t \<and> ri_reservation i = rr_id rr"
  let ?C = "\<lambda>i. ri_tenant i = t \<and> ri_reservation i = rr_id rr \<and> (t, rr_parent rr, ri_dimension i) = k"
  have "?C i \<longleftrightarrow> ?A i \<and> ?B i" for i using own by (auto simp: k)
  then have "sum_where (\<lambda>i. ?A i \<and> \<not> ?B i) ri_reserved rows = sum_where ?A ri_reserved rows - sum_where ?C ri_reserved rows" for rows
    by (rule sum_where_diff)
  then show ?thesis unfolding reserved_open_def k prod.case other items by (simp add: conj_assoc)
qed

lemma close_reservation_inv:
  assumes "ledger_upto adj db" "rr \<in> set (resource_reservations db)" "rr_tenant rr = t" "rr_state rr = OPEN"
    "close_reservation t (rr_id rr) s at db = Inr (db', n)" "s \<noteq> OPEN"
    "\<And>k. adj k = sum_where (\<lambda>i. ri_tenant i = t \<and> ri_reservation i = rr_id rr \<and> (t, rr_parent rr, ri_dimension i) = k) ri_reserved (resource_reservation_items db)"
  shows "ledger_inv db'"
proof -
  note db' = close_reservation_Inr(1)[OF assms(5)]
  have keys: "keys_ok db" using assms(1) by (simp add: ledger_upto_def)
  have reserved: "reserved_open db' k = reserved_open db k - adj k" for k
    using reserved_open_close[OF _ assms(2-6)] keys assms(7) by (simp add: keys_ok_def)
  have same: "resource_balances db' = resource_balances db" "resource_dimensions db' = resource_dimensions db"
    "resource_envelope_grants db' = resource_envelope_grants db" "resource_extensions db' = resource_extensions db"
    "resource_extension_items db' = resource_extension_items db" "resource_reservation_items db' = resource_reservation_items db"
    by (simp_all add: db')
  have eqs: "granted_total db' = granted_total db" "has_grant db' = has_grant db" "has_balance db' = has_balance db"
    by (auto simp: granted_total_def[abs_def] extended_def[abs_def] extension_of_def has_grant_def[abs_def] has_balance_def[abs_def] same)
  have "balance_conserved db' = balance_upto adj db"
    by (intro ext) (simp add: balance_conserved_def balance_upto_def reserved eqs)
  moreover have "keys_ok db'" using keys unfolding keys_ok_def same by (simp add: db')
  moreover have "extension_item_ok db' = extension_item_ok db" by (auto simp: extension_item_ok_def[abs_def] eqs same)
  moreover have "reservation_item_ok db i \<Longrightarrow> reservation_item_ok db' i" for i
  proof -
    let ?p = "\<lambda>r. rr_tenant r = t \<and> rr_id r = rr_id rr \<and> rr_state r = OPEN" and ?f = "\<lambda>r. r\<lparr>rr_state := s, rr_settled := Some at\<rparr>"
    assume "reservation_item_ok db i"
    then obtain r where r: "r \<in> set (resource_reservations db)" "0 \<le> ri_reserved i" "rr_tenant r = ri_tenant i" "rr_id r = ri_reservation i"
      "has_balance db (ri_tenant i, rr_parent r, ri_dimension i)" "has_balance db (ri_tenant i, rr_child r, ri_dimension i)"
      "\<exists>d \<in> set (resource_dimensions db). dim_TenantID d = ri_tenant i \<and> dim_ID d = ri_dimension i"
      unfolding reservation_item_ok_def by blast
    have "(if ?p r then ?f r else r) \<in> set (resource_reservations db')" using r(1) by (auto simp: db' update_where_def)
    then show "reservation_item_ok db' i"
      unfolding reservation_item_ok_def eqs same using r(2-) by (intro conjI bexI[of _ "if ?p r then ?f r else r"]) auto
  qed
  ultimately show ?thesis using assms(1) by (auto simp: ledger_inv_def ledger_upto_def list_all_iff same)
qed

section \<open>Effect\<close>

definition settle_spec :: "ID \<Rightarrow> ID \<Rightarrow> locked_item \<Rightarrow> accounts \<Rightarrow> accounts" where
  "settle_spec t e x m =
     (case m (t, e, it_dimension x) of
        None \<Rightarrow> m
      | Some a \<Rightarrow> m((t, e, it_dimension x) \<mapsto>
          \<lparr>avail = avail a + it_available x, consumed = consumed a + (it_reserved x - it_available x), allocated = allocated a - it_reserved x\<rparr>))"

lemma settle_item_accounts:
  assumes "settle_item m1 m2 t sid e at x db = Inr db'" "unique_key balance_key (resource_balances db)"
  shows "accounts db' = settle_spec t e x (accounts db)" "unique_key balance_key (resource_balances db')"
    "accounts db (t, e, it_dimension x) \<noteq> None"
proof -
  let ?f = "settle (it_available x) (it_reserved x - it_available x) (it_reserved x) at"
  obtain i b where b: "b \<in> set (resource_balances db)" "balance_key b = (t, e, it_dimension x)"
    and db': "db' = db\<lparr>resource_settlement_items := resource_settlement_items db @ [i],
       resource_balances := update_where (\<lambda>y. y = b) ?f (resource_balances db)\<rparr>"
    by (rule settle_item_Inr[OF assms])
  have "accounts db' = (accounts db)((t, e, it_dimension x) \<mapsto> account_of (?f b))"
    using accounts_update[OF assms(2) b(1), of ?f db'] b(2) by (simp add: db')
  then show "accounts db' = settle_spec t e x (accounts db)"
    using accounts_Some[OF assms(2) b(1)] by (simp add: settle_spec_def b(2)) (simp add: account_of_def)
  show "unique_key balance_key (resource_balances db')" using assms(2) by (simp add: db')
  show "accounts db (t, e, it_dimension x) \<noteq> None" using accounts_Some[OF assms(2) b(1)] b(2) by simp
qed

lemma settle_items_accounts:
  "fold_result (settle_item m1 m2 t sid e at) items db = Inr db' \<Longrightarrow> unique_key balance_key (resource_balances db) \<Longrightarrow>
   accounts db' = fold (settle_spec t e) items (accounts db)"
proof (induction items arbitrary: db)
  case (Cons x items)
  from Cons.prems(1) obtain db1 where db1: "settle_item m1 m2 t sid e at x db = Inr db1" "fold_result (settle_item m1 m2 t sid e at) items db1 = Inr db'"
    by (auto simp: and_then_Inr)
  then show ?case using Cons.IH[OF db1(2)] settle_item_accounts[OF db1(1) Cons.prems(2)] by simp
qed simp

text \<open>The settlement items that the loop records, one for each item in its order.\<close>

definition settlement_item :: "ID \<Rightarrow> ID \<Rightarrow> locked_item \<Rightarrow> settlement_item_row" where
  "settlement_item t sid x =
     \<lparr>si_tenant = t, si_settlement = sid, si_dimension = it_dimension x, si_reserved = it_reserved x,
      si_consumed = it_reserved x - it_available x, si_returned = it_available x, si_unit = it_unit x, si_scale = it_scale x\<rparr>"

lemma settle_items_rows:
  "fold_result (settle_item m1 m2 t sid e at) items db = Inr db' \<Longrightarrow>
   resource_settlement_items db' = resource_settlement_items db @ map (settlement_item t sid) items"
proof (induction items arbitrary: db)
  case (Cons x items)
  from Cons.prems(1) obtain db1 where db1: "settle_item m1 m2 t sid e at x db = Inr db1" "fold_result (settle_item m1 m2 t sid e at) items db1 = Inr db'"
    by (auto simp: and_then_Inr)
  have "resource_settlement_items db1 = resource_settlement_items db @ [settlement_item t sid x]"
    using db1(1) by (auto simp: settle_item_def Let_def and_then_Inr pg_insert_Inr settlement_item_def split: if_splits dest!: update_balance_eq)
  then show ?case using Cons.IH[OF db1(2)] by simp
qed simp

lemma insert_settlement_Inr:
  assumes "insert_settlement m t s digest reason db = Inr db'"
  obtains row where "db' = db\<lparr>resource_settlements := resource_settlements db @ [row]\<rparr>" "s_tenant row = t" "s_id row = set_ID s"
    "s_reservation row = set_ReservationID s" "s_actor row = set_ActorPrincipalID s" "s_idempotency_key row = set_IdempotencyKey s"
    "s_digest row = digest" "s_settled_at row = set_SettledAt s"
    "\<forall>y \<in> set (resource_settlements db). \<not> (s_tenant y = t \<and> s_reservation y = set_ReservationID s)"
    "s_run_state row = set_TerminalRunState s" "settlement_check row"
proof -
  define row where "row = last (resource_settlements db')"
  show ?thesis
    by (rule that[of row]; use assms in \<open>auto simp: insert_settlement_def and_then_Inr pg_insert_Inr settlement_conflict_def row_def\<close>)
qed

text \<open>The three steps that settlement and reconciliation share: record, charge the parent, close.\<close>

lemma settle_core:
  assumes "ledger_inv db" "rr \<in> set (resource_reservations db)" "rr_tenant rr = t" "rr_state rr = OPEN" "st \<noteq> OPEN"
    and items: "items = locked_items t (rr_id rr) (rr_child rr) (rr_parent rr) db"
    and 1: "insert_settlement m t s digest reason db = Inr db1"
    and 2: "fold_result (settle_item m1 m2 t (set_ID s) (rr_parent rr) at) items db1 = Inr db2"
    and 3: "close_reservation t (rr_id rr) st at db2 = Inr (db3, n)"
  shows "ledger_inv db3" "accounts db3 = fold (settle_spec t (rr_parent rr)) items (accounts db)"
    "resource_reservations db3 = update_where (\<lambda>r. r = rr) (\<lambda>r. r\<lparr>rr_state := st, rr_settled := Some at\<rparr>) (resource_reservations db)"
    "resource_settlements db3 = resource_settlements db1" "runs db3 = runs db" "resource_dimensions db3 = resource_dimensions db"
    "resource_settlement_items db3 = resource_settlement_items db @ map (settlement_item t (set_ID s)) items"
proof -
  obtain row where db1: "db1 = db\<lparr>resource_settlements := resource_settlements db @ [row]\<rparr>" by (rule insert_settlement_Inr[OF 1])
  have inv1: "ledger_inv db1" using assms(1) by (subst ledger_inv_cong[of db1 db]) (simp_all add: db1)
  then have up: "ledger_upto (\<lambda>_. 0) db1" by (simp add: ledger_upto_zero)
  note loop = settle_items_upto[OF 2 up]
  have res: "resource_reservations db2 = resource_reservations db" "resource_reservation_items db2 = resource_reservation_items db"
    using loop by (simp_all add: db1)
  have "ledger_upto (settled_amounts t (rr_parent rr) items) db2" using loop by simp
  then show "ledger_inv db3"
    by (rule close_reservation_inv[OF _ _ assms(3,4) 3 assms(5)])
      (simp_all add: items res settled_amounts_locked[OF assms(1,2)] assms(2))
  note db3 = close_reservation_Inr(1)[OF 3]
  have ub: "unique_key balance_key (resource_balances db1)" using inv1 by (simp add: ledger_inv_def keys_ok_def)
  have "accounts db3 = accounts db2" by (rule accounts_cong) (simp add: db3)
  also have "\<dots> = fold (settle_spec t (rr_parent rr)) items (accounts db1)" by (rule settle_items_accounts[OF 2 ub])
  also have "accounts db1 = accounts db" by (rule accounts_cong) (simp add: db1)
  finally show "accounts db3 = fold (settle_spec t (rr_parent rr)) items (accounts db)" .
  have uk: "unique_key rr_id (resource_reservations db)" using assms(1) by (simp add: ledger_inv_def keys_ok_def)
  have "(rr_tenant r = t \<and> rr_id r = rr_id rr \<and> rr_state r = OPEN) = (r = rr)" if "r \<in> set (resource_reservations db)" for r
    using unique_keyD[OF uk that assms(2)] assms(3,4) by auto
  then show "resource_reservations db3 = update_where (\<lambda>r. r = rr) (\<lambda>r. r\<lparr>rr_state := st, rr_settled := Some at\<rparr>) (resource_reservations db)"
    by (simp add: db3 res update_where_def)
  show "resource_settlements db3 = resource_settlements db1" "runs db3 = runs db" "resource_dimensions db3 = resource_dimensions db"
    "resource_settlement_items db3 = resource_settlement_items db @ map (settlement_item t (set_ID s)) items"
    using loop settle_items_rows[OF 2] by (simp_all add: db3 db1)
qed

lemma ValidateResourceSettlement_Inr:
  "ValidateResourceSettlement q = Inr s \<Longrightarrow> set_ID s = set_ID q \<and> set_TenantID s = set_TenantID q \<and> set_ReservationID s = set_ReservationID q \<and>
     set_ActorPrincipalID s = set_ActorPrincipalID q \<and> set_IdempotencyKey s = set_IdempotencyKey q \<and>
     set_TerminalRunState s = set_TerminalRunState q \<and> utc_time (set_SettledAt s)"
  by (auto simp: ValidateResourceSettlement_def Let_def and_then_Inr split: if_splits sum.splits dest: RequireUTC_result)

lemma settle_open_Inr:
  assumes "settle_open env t s digest ev rr db = Inr (res, db')"
  obtains state items db1 db2 db3 n db4 where "settlement_run_state t (rr_run rr) (set_ActorPrincipalID s) db = Some state"
    "state = set_TerminalRunState s" "Terminal state"
    "items = locked_items t (set_ReservationID s) (rr_child rr) (rr_parent rr) db"
    "check_items ''reservation has no consumable items'' ''child has open allocations or an invalid balance'' items = Inr ()"
    "insert_settlement ''insert settlement'' t s digest ReasonTerminal db = Inr db1"
    "fold_result (settle_item ''insert settlement item'' ''parent settlement balance changed or overflowed''
                t (set_ID s) (rr_parent rr) (set_SettledAt s)) items db1 = Inr db2"
    "close_reservation t (set_ReservationID s) SETTLED (set_SettledAt s) db2 = Inr (db3, n)"
    "insert_audit env (settlement_audit s ev) db3 = Inr db4" "insert_outbox (settlement_message s ev) db4 = Inr db'"
    "loadSettlementResult t (set_ID s) (set_ReservationID s) (set_SettledAt s) False db' = Inr res"
  using assms that by (auto simp: settle_open_def Let_def and_then_Inr split: if_splits option.splits)

lemma SettleReservation_cases:
  assumes "SettleReservation env t q ev db = Inr (res, db')"
  obtains (replay) s sid rid at where "ValidateResourceSettlement q = Inr s" "db' = db" "loadSettlementResult t sid rid at True db = Inr res"
    | (new) s rr where "ValidateResourceSettlement q = Inr s" "set_TenantID s = t" "find_reservation t (set_ReservationID s) db = Some rr" "rr_state rr = OPEN"
      "find_settlement t (set_ActorPrincipalID s) (set_IdempotencyKey s) db = None"
      "settle_open env t s (resourceSettlementDigest (env_sha256 env) s) ev rr db = Inr (res, db')"
  using assms by (auto simp: SettleReservation_def Let_def and_then_Inr split: if_splits option.splits)

lemma loadSettlementResult_dup: "loadSettlementResult t sid rid at d db = Inr res \<Longrightarrow> sr_Duplicate res = d"
  by (auto simp: loadSettlementResult_def and_then_Inr)

lemma find_reservation_Some:
  "find_reservation t i db = Some rr \<Longrightarrow> rr \<in> set (resource_reservations db) \<and> rr_tenant rr = t \<and> rr_id rr = i"
  by (auto simp: find_reservation_def dest: find_SomeD)

lemma find_update_eq:
  assumes "List.find p rows = Some r" "p (f r)" "distinct rows"
  shows "List.find p (update_where (\<lambda>x. x = r) f rows) = Some (f r)"
  using assms
proof (induction rows)
  case (Cons x xs)
  show ?case
  proof (cases "p x")
    case True
    then show ?thesis using Cons.prems by (simp add: update_where_def)
  next
    case False
    then have "x \<noteq> r" using Cons.prems(1) by (auto dest: find_SomeD)
    then show ?thesis using Cons False by (simp add: update_where_def)
  qed
qed simp

text \<open>The state after a new settlement.\<close>

lemma settle_open_effect:
  assumes "ledger_inv db" "find_reservation t (set_ReservationID s) db = Some rr" "rr_state rr = OPEN"
    "settle_open env t s digest ev rr db = Inr (res, db')"
  obtains row where "ledger_inv db'"
    "accounts db' = fold (settle_spec t (rr_parent rr)) (locked_items t (rr_id rr) (rr_child rr) (rr_parent rr) db) (accounts db)"
    "find_reservation t (set_ReservationID s) db' = Some (rr\<lparr>rr_state := SETTLED, rr_settled := Some (set_SettledAt s)\<rparr>)"
    "resource_settlements db' = resource_settlements db @ [row]" "s_tenant row = t" "s_id row = set_ID s"
    "s_reservation row = set_ReservationID s" "s_actor row = set_ActorPrincipalID s" "s_idempotency_key row = set_IdempotencyKey s"
    "s_digest row = digest" "s_settled_at row = set_SettledAt s" "runs db' = runs db" "resource_dimensions db' = resource_dimensions db"
    "resource_settlement_items db' = resource_settlement_items db @
       map (settlement_item t (set_ID s)) (locked_items t (rr_id rr) (rr_child rr) (rr_parent rr) db)"
proof -
  note rr = find_reservation_Some[OF assms(2)]
  obtain state items db1 db2 db3 n db4 where "settlement_run_state t (rr_run rr) (set_ActorPrincipalID s) db = Some state"
    and items: "items = locked_items t (set_ReservationID s) (rr_child rr) (rr_parent rr) db"
    and 1: "insert_settlement ''insert settlement'' t s digest ReasonTerminal db = Inr db1"
    and 2: "fold_result (settle_item ''insert settlement item'' ''parent settlement balance changed or overflowed''
                t (set_ID s) (rr_parent rr) (set_SettledAt s)) items db1 = Inr db2"
    and 3: "close_reservation t (set_ReservationID s) SETTLED (set_SettledAt s) db2 = Inr (db3, n)"
    and 4: "insert_audit env (settlement_audit s ev) db3 = Inr db4" and 5: "insert_outbox (settlement_message s ev) db4 = Inr db'"
    by (rule settle_open_Inr[OF assms(4)])
  have same: "same_ledger db3 db'" "runs db' = runs db3"
    using insert_audit_same[OF 4] insert_outbox_same[OF 5] by (auto intro: same_ledger_trans)
  have eqs: "resource_reservations db' = resource_reservations db3" "resource_balances db' = resource_balances db3"
    "resource_settlements db' = resource_settlements db3" "resource_settlement_items db' = resource_settlement_items db3"
    "resource_dimensions db' = resource_dimensions db3" using same(1) by (simp_all add: same_ledger_def)
  have items': "items = locked_items t (rr_id rr) (rr_child rr) (rr_parent rr) db" and c3: "close_reservation t (rr_id rr) SETTLED (set_SettledAt s) db2 = Inr (db3, n)"
    using items 3 rr by simp_all
  note core = settle_core[OF assms(1) _ _ assms(3) _ items' 1 2 c3]
  obtain row where row: "db1 = db\<lparr>resource_settlements := resource_settlements db @ [row]\<rparr>" "s_tenant row = t" "s_id row = set_ID s"
    "s_reservation row = set_ReservationID s" "s_actor row = set_ActorPrincipalID s" "s_idempotency_key row = set_IdempotencyKey s"
    "s_digest row = digest" "s_settled_at row = set_SettledAt s" by (rule insert_settlement_Inr[OF 1])
  have dist: "distinct (resource_reservations db)" using assms(1) by (simp add: ledger_inv_def keys_ok_def unique_key_def distinct_map)
  show ?thesis
  proof (rule that[OF _ _ _ _ row(2-8)])
    show "ledger_inv db'" using core(1) rr same_ledger_inv[OF same(1)] by simp
    show "accounts db' = fold (settle_spec t (rr_parent rr)) (locked_items t (rr_id rr) (rr_child rr) (rr_parent rr) db) (accounts db)"
      using core(2) rr accounts_cong[OF eqs(2)] items' by simp
    show "find_reservation t (set_ReservationID s) db' = Some (rr\<lparr>rr_state := SETTLED, rr_settled := Some (set_SettledAt s)\<rparr>)"
      using core(3) rr assms(2) dist unfolding find_reservation_def eqs by (simp add: find_update_eq)
    show "resource_settlements db' = resource_settlements db @ [row]" using core(4) rr by (simp add: eqs row(1))
    show "runs db' = runs db" "resource_dimensions db' = resource_dimensions db" using core(5,6) rr same(2) by (simp_all add: eqs)
    show "resource_settlement_items db' = resource_settlement_items db @
       map (settlement_item t (set_ID s)) (locked_items t (rr_id rr) (rr_child rr) (rr_parent rr) db)"
      using core(7) rr items' by (simp add: eqs)
  qed
qed

lemma SettleReservation_inv:
  assumes "ledger_inv db" "SettleReservation env t q ev db = Inr (res, db')"
  shows "ledger_inv db'"
  using assms(2)
proof (cases rule: SettleReservation_cases)
  case (new s rr)
  show ?thesis by (rule settle_open_effect[OF assms(1) new(3,4,6)])
qed (use assms in simp)

section \<open>Properties\<close>

text \<open>
  C27: a settlement charges the parent exactly what the child consumed. For every item of the
  reservation the parent's account gets back what the child has left, is charged the rest of what was
  reserved, and is relieved of the allocation; no other account changes, the child run is in the
  declared terminal state, and the reservation is closed.
\<close>

theorem settlement_refines:
  assumes "ledger_inv db" "SettleReservation env t q ev db = Inr (res, db')" "\<not> sr_Duplicate res"
  shows "\<exists>rr state. find_reservation t (set_ReservationID q) db = Some rr \<and> rr_state rr = OPEN \<and>
    settlement_run_state t (rr_run rr) (set_ActorPrincipalID q) db = Some state \<and> state = set_TerminalRunState q \<and> Terminal state \<and>
    accounts db' = fold (settle_spec t (rr_parent rr)) (locked_items t (rr_id rr) (rr_child rr) (rr_parent rr) db) (accounts db) \<and>
    ledger_inv db' \<and> (\<exists>rr'. find_reservation t (set_ReservationID q) db' = Some rr' \<and> rr_state rr' = SETTLED)"
  using assms(2)
proof (cases rule: SettleReservation_cases)
  case (replay s sid rid at)
  then show ?thesis using assms(3) loadSettlementResult_dup[OF replay(3)] by simp
next
  case (new s rr)
  note v = ValidateResourceSettlement_Inr[OF new(1)]
  obtain state items where state: "settlement_run_state t (rr_run rr) (set_ActorPrincipalID s) db = Some state"
    "state = set_TerminalRunState s" "Terminal state" "items = locked_items t (set_ReservationID s) (rr_child rr) (rr_parent rr) db"
    by (rule settle_open_Inr[OF new(6)])
  show ?thesis
    by (rule settle_open_effect[OF assms(1) new(3,4,6)]) (use state(1-3) new(3,4) v in auto)
qed

text \<open>
  A reservation is settled once. The same request repeated after a settlement returns the recorded
  amounts, marked as a duplicate, and changes nothing; any other request for the reservation
  that succeeds afterwards changes nothing either.
\<close>

theorem settled_once:
  assumes "ledger_inv db" "SettleReservation env t q ev db = Inr (res, db')" "\<not> sr_Duplicate res"
  shows "SettleReservation env t q ev db' = Inr (res\<lparr>sr_Duplicate := True\<rparr>, db') \<and>
    (\<forall>q' ev' res' db''. set_ReservationID q' = set_ReservationID q \<longrightarrow> SettleReservation env t q' ev' db' = Inr (res', db'') \<longrightarrow>
       db'' = db' \<and> sr_Duplicate res')"
  using assms(2)
proof (cases rule: SettleReservation_cases)
  case (replay s sid rid at)
  then show ?thesis using assms(3) loadSettlementResult_dup[OF replay(3)] by simp
next
  case (new s rr)
  note v = ValidateResourceSettlement_Inr[OF new(1)]
  obtain row where find: "find_reservation t (set_ReservationID s) db' = Some (rr\<lparr>rr_state := SETTLED, rr_settled := Some (set_SettledAt s)\<rparr>)"
    and row: "resource_settlements db' = resource_settlements db @ [row]" "s_tenant row = t" "s_id row = set_ID s"
    "s_reservation row = set_ReservationID s" "s_actor row = set_ActorPrincipalID s" "s_idempotency_key row = set_IdempotencyKey s"
    "s_digest row = resourceSettlementDigest (env_sha256 env) s" "s_settled_at row = set_SettledAt s"
    by (rule settle_open_effect[OF assms(1) new(3,4,6)])
  obtain state items db1 db2 db3 n db4 where "settlement_run_state t (rr_run rr) (set_ActorPrincipalID s) db = Some state"
    and "insert_settlement ''insert settlement'' t s (resourceSettlementDigest (env_sha256 env) s) ReasonTerminal db = Inr db1"
    and "fold_result (settle_item ''insert settlement item'' ''parent settlement balance changed or overflowed''
                t (set_ID s) (rr_parent rr) (set_SettledAt s)) items db1 = Inr db2"
    and "close_reservation t (set_ReservationID s) SETTLED (set_SettledAt s) db2 = Inr (db3, n)"
    and "insert_audit env (settlement_audit s ev) db3 = Inr db4"
    and load: "loadSettlementResult t (set_ID s) (set_ReservationID s) (set_SettledAt s) False db' = Inr res"
    by (rule settle_open_Inr[OF new(6)])
  have "find_settlement t (set_ActorPrincipalID s) (set_IdempotencyKey s) db' = Some row"
    using new(5) row by (simp add: find_settlement_def find_append)
  moreover have "loadSettlementResult t (s_id row) (s_reservation row) (s_settled_at row) True db' = Inr (res\<lparr>sr_Duplicate := True\<rparr>)"
    using load row by (auto simp: loadSettlementResult_def and_then_Inr)
  ultimately have "SettleReservation env t q ev db' = Inr (res\<lparr>sr_Duplicate := True\<rparr>, db')"
    using assms(2) new(1) row(7) by (auto simp: SettleReservation_def Let_def and_then_Inr split: if_splits)
  moreover have "db'' = db' \<and> sr_Duplicate res'" if q': "set_ReservationID q' = set_ReservationID q" and s': "SettleReservation env t q' ev' db' = Inr (res', db'')"
    for q' ev' res' db''
    using s'
  proof (cases rule: SettleReservation_cases)
    case (replay s' sid rid at)
    then show ?thesis using loadSettlementResult_dup[OF replay(3)] by simp
  next
    case (new s' rr')
    then show ?thesis using find q' v ValidateResourceSettlement_Inr[OF new(1)] by simp
  qed
  ultimately show ?thesis by blast
qed

section \<open>Reconciliation\<close>

lemma reconciliation_candidate_Some:
  assumes "reconciliation_candidate t system now db = Some (rr, ru)"
  shows "rr \<in> set (resource_reservations db)" "find_run (rr_tenant rr) (rr_run rr) db = Some ru" "reconcilable t now db rr ru"
    "\<And>y. y \<in> set (reconciliation_candidates t now db) \<Longrightarrow> reconciliation_order (rr, ru) \<le> reconciliation_order y"
proof -
  obtain ys where ys: "sort_key reconciliation_order (reconciliation_candidates t now db) = (rr, ru) # ys"
    using assms by (auto simp: reconciliation_candidate_def split: if_splits list.splits)
  then have "(rr, ru) \<in> set (reconciliation_candidates t now db)" by (metis list.set_intros(1) set_sort)
  then show "rr \<in> set (resource_reservations db)" "find_run (rr_tenant rr) (rr_run rr) db = Some ru" "reconcilable t now db rr ru"
    by (auto simp: reconciliation_candidates_def map_filter_def)
  have "sorted (map reconciliation_order ((rr, ru) # ys))" unfolding ys[symmetric] by simp
  moreover fix y assume "y \<in> set (reconciliation_candidates t now db)"
  then have "y \<in> set ((rr, ru) # ys)" unfolding ys[symmetric] by simp
  ultimately show "reconciliation_order (rr, ru) \<le> reconciliation_order y" by auto
qed

lemma find_update_first:
  assumes "List.find p rows = Some r" "q r" "\<And>x. p (f x) = p x"
  shows "List.find p (update_where q f rows) = Some (f r)"
  using assms by (induction rows) (auto simp: update_where_def split: if_splits)

lemma expire_child_Inr:
  assumes "expire_child t system now ev rr ru db = Inr db'" "find_run t (rr_run rr) db = Some ru"
  shows "same_ledger db db'" "\<exists>r. find_run t (rr_run rr) db' = Some r \<and> r_state r = RunTimedOut \<and> r_lease_id r = None"
proof -
  obtain l v n db1 e where 1: "time_out_run t (rr_run rr) v now l (r_state_version ru) db = Inr (db1, n)"
    and 2: "insert_run_event_with_outbox e db1 = Inr db'"
    using assms(1) by (auto simp: expire_child_def and_then_Inr split: if_splits sum.splits prod.splits)
  have db1: "db1 = db\<lparr>runs := update_where (\<lambda>r. r_tenant r = t \<and> r_id r = rr_run rr \<and> r_state_version r = r_state_version ru)
      (\<lambda>r. r\<lparr>r_state := RunTimedOut, r_state_version := v, r_updated := now, r_terminal := Some now, r_lease_id := None,
             r_lease_expires := None, r_fencing_token := l\<rparr>) (runs db)\<rparr>"
    using 1 by (auto simp: time_out_run_def and_then_Inr pg_update_Inr)
  show "same_ledger db db'" using insert_run_event_with_outbox_same[OF 2] by (auto simp: db1 same_ledger_def)
  have "runs db' = runs db1" using insert_run_event_with_outbox_same[OF 2] by simp
  moreover have "r_tenant ru = t \<and> r_id ru = rr_run rr" using assms(2) by (auto simp: find_run_def dest: find_SomeD)
  ultimately show "\<exists>r. find_run t (rr_run rr) db' = Some r \<and> r_state r = RunTimedOut \<and> r_lease_id r = None"
    using find_update_first[where q = "\<lambda>r. r_tenant r = t \<and> r_id r = rr_run rr \<and> r_state_version r = r_state_version ru",
        OF assms(2)[unfolded find_run_def], of "\<lambda>r. r\<lparr>r_state := RunTimedOut, r_state_version := v, r_updated := now, r_terminal := Some now,
             r_lease_id := None, r_lease_expires := None, r_fencing_token := l\<rparr>"]
    by (simp add: find_run_def db1)
qed

lemma reconcile_selected_Inr:
  assumes "reconcile_selected env s ev expired rr db = Inr (res, db')"
  obtains db1 db2 db3 n db4 where
    "insert_settlement ''insert reconciled settlement'' (set_TenantID s) s (resourceSettlementDigest (env_sha256 env) s)
       (if expired then ReasonExpired else ReasonReconciled) db = Inr db1"
    "fold_result (settle_item ''insert reconciled settlement item'' ''parent reconciliation balance changed or overflowed''
       (set_TenantID s) (set_ID s) (rr_parent rr) (set_SettledAt s))
       (locked_items (set_TenantID s) (rr_id rr) (rr_child rr) (rr_parent rr) db) db1 = Inr db2"
    "close_reservation (set_TenantID s) (rr_id rr) (if expired then EXPIRED_SETTLED else SETTLED) (set_SettledAt s) db2 = Inr (db3, n)"
    "same_ledger db3 db'" "runs db' = runs db3" "rec_Expired res = expired"
proof -
  let ?a = "reconciliation_audit s ev expired" and ?m = "reconciliation_message s ev (if expired then ReasonExpired else ReasonReconciled)"
  from assms obtain db1 db2 db3 n db4 where
    r: "insert_settlement ''insert reconciled settlement'' (set_TenantID s) s (resourceSettlementDigest (env_sha256 env) s)
       (if expired then ReasonExpired else ReasonReconciled) db = Inr db1"
    "fold_result (settle_item ''insert reconciled settlement item'' ''parent reconciliation balance changed or overflowed''
       (set_TenantID s) (set_ID s) (rr_parent rr) (set_SettledAt s))
       (locked_items (set_TenantID s) (rr_id rr) (rr_child rr) (rr_parent rr) db) db1 = Inr db2"
    "close_reservation (set_TenantID s) (rr_id rr) (if expired then EXPIRED_SETTLED else SETTLED) (set_SettledAt s) db2 = Inr (db3, n)"
    and 4: "insert_audit env ?a db3 = Inr db4" and 5: "insert_outbox ?m db4 = Inr db'" and e: "rec_Expired res = expired"
    unfolding reconcile_selected_def Let_def and_then_Inr wrapping_Inr
    by (auto simp: and_then_Inr split: if_splits prod.splits)
  have "same_ledger db3 db'" "runs db' = runs db3"
    using insert_audit_same[OF 4] insert_outbox_same[OF 5] by (auto intro: same_ledger_trans)
  then show ?thesis by (rule that[OF r]) (rule e)
qed

lemma ReconcileNextReservation_Inr:
  assumes "ReconcileNextReservation env t system now ev db = Inr (res, db')"
  obtains at rr ru db1 where "RequireUTC now = Inr at" "reconciliation_candidate t system at db = Some (rr, ru)"
    "if Terminal (r_state ru) then db1 = db else expire_child t system at ev rr ru db = Inr db1"
    "reconcile_selected env (reconciliation_settlement t system at ev (rr_id rr) (if Terminal (r_state ru) then r_state ru else RunTimedOut))
       ev (\<not> Terminal (r_state ru)) rr db1 = Inr (res, db')"
proof -
  from assms obtain at rr ru where 1: "RequireUTC now = Inr at" "reconciliation_candidate t system at db = Some (rr, ru)"
    by (auto simp: ReconcileNextReservation_def split: if_splits sum.splits option.splits)
  show ?thesis
    using assms that[OF 1] by (auto simp: ReconcileNextReservation_def 1 Let_def and_then_Inr split: if_splits)
qed

definition open_reservations :: "DB \<Rightarrow> nat" where
  "open_reservations db = length (filter (\<lambda>r. rr_state r = OPEN) (resource_reservations db))"

lemma count_update_eq:
  assumes "distinct rows" "r \<in> set rows" "P r" "\<not> P (f r)"
  shows "Suc (length (filter P (update_where (\<lambda>x. x = r) f rows))) = length (filter P rows)"
  using assms(1,2)
proof (induction rows)
  case (Cons x xs)
  show ?case
  proof (cases "x = r")
    case True
    then have "update_where (\<lambda>x. x = r) f xs = xs" using Cons.prems by (auto simp: update_where_def intro: map_idI)
    then show ?thesis using True assms(3,4) by (simp add: update_where_def)
  next
    case False
    then show ?thesis using Cons by (auto simp: update_where_def)
  qed
qed simp

lemma locked_items_cong: "same_ledger db db' \<Longrightarrow> locked_items t i c p db' = locked_items t i c p db"
proof -
  assume same: "same_ledger db db'"
  have "locked_item_of t c p db' = locked_item_of t c p db"
    using same by (intro ext) (simp add: locked_item_of_def find_dimension_def find_balance_def same_ledger_def)
  then show ?thesis using same by (simp add: locked_items_def same_ledger_def)
qed

lemma reconcile_effect:
  assumes "ledger_inv db" "ReconcileNextReservation env t system now ev db = Inr (res, db')"
  obtains at rr ru where "RequireUTC now = Inr at" "reconciliation_candidate t system at db = Some (rr, ru)"
    "rec_Expired res = (\<not> Terminal (r_state ru))" "ledger_inv db'"
    "accounts db' = fold (settle_spec t (rr_parent rr)) (locked_items t (rr_id rr) (rr_child rr) (rr_parent rr) db) (accounts db)"
    "Suc (open_reservations db') = open_reservations db"
    "\<exists>r. find_run t (rr_run rr) db' = Some r \<and> Terminal (r_state r)"
proof -
  obtain at rr ru db0 where 0: "RequireUTC now = Inr at" "reconciliation_candidate t system at db = Some (rr, ru)"
    and x: "if Terminal (r_state ru) then db0 = db else expire_child t system at ev rr ru db = Inr db0"
    and sel: "reconcile_selected env (reconciliation_settlement t system at ev (rr_id rr) (if Terminal (r_state ru) then r_state ru else RunTimedOut))
       ev (\<not> Terminal (r_state ru)) rr db0 = Inr (res, db')"
    by (rule ReconcileNextReservation_Inr[OF assms(2)])
  note cand = reconciliation_candidate_Some[OF 0(2)]
  have rr: "rr_tenant rr = t" "rr_state rr = OPEN" using cand(3) by (simp_all add: reconcilable_def)
  have run: "find_run t (rr_run rr) db = Some ru" using cand(2) rr by simp
  have same: "same_ledger db db0" and ended: "\<exists>r. find_run t (rr_run rr) db0 = Some r \<and> Terminal (r_state r)"
  proof (atomize (full), cases "Terminal (r_state ru)")
    case True
    then show "same_ledger db db0 \<and> (\<exists>r. find_run t (rr_run rr) db0 = Some r \<and> Terminal (r_state r))" using x run by simp
  next
    case False
    then have "expire_child t system at ev rr ru db = Inr db0" using x by simp
    moreover have "Terminal RunTimedOut" by (simp add: Terminal_def)
    ultimately show "same_ledger db db0 \<and> (\<exists>r. find_run t (rr_run rr) db0 = Some r \<and> Terminal (r_state r))"
      using expire_child_Inr[OF _ run] by metis
  qed
  let ?s = "reconciliation_settlement t system at ev (rr_id rr) (if Terminal (r_state ru) then r_state ru else RunTimedOut)"
  let ?st = "if \<not> Terminal (r_state ru) then EXPIRED_SETTLED else SETTLED"
  have s: "set_TenantID ?s = t" "set_SettledAt ?s = at" by (simp_all add: reconciliation_settlement_def)
  obtain db1 db2 db3 n db4 where
    1: "insert_settlement ''insert reconciled settlement'' t ?s (resourceSettlementDigest (env_sha256 env) ?s)
       (if \<not> Terminal (r_state ru) then ReasonExpired else ReasonReconciled) db0 = Inr db1"
    and 2: "fold_result (settle_item ''insert reconciled settlement item'' ''parent reconciliation balance changed or overflowed''
       t (set_ID ?s) (rr_parent rr) at) (locked_items t (rr_id rr) (rr_child rr) (rr_parent rr) db0) db1 = Inr db2"
    and 3: "close_reservation t (rr_id rr) ?st at db2 = Inr (db3, n)"
    and same': "same_ledger db3 db'" and runs: "runs db' = runs db3" and e: "rec_Expired res = (\<not> Terminal (r_state ru))"
    by (rule reconcile_selected_Inr[OF sel, unfolded s])
  have inv0: "ledger_inv db0" using assms(1) same_ledger_inv[OF same] by simp
  have in0: "rr \<in> set (resource_reservations db0)" using cand(1) same by (simp add: same_ledger_def)
  have st: "?st \<noteq> OPEN" by simp
  note core = settle_core[OF inv0 in0 rr st refl 1 2 3]
  have "ledger_inv db'" using core(1) same_ledger_inv[OF same'] by simp
  moreover have "accounts db' = fold (settle_spec t (rr_parent rr)) (locked_items t (rr_id rr) (rr_child rr) (rr_parent rr) db) (accounts db)"
    using core(2) accounts_cong[of db' db3] accounts_cong[of db0 db] same same' locked_items_cong[OF same] by (simp add: same_ledger_def)
  moreover have "Suc (open_reservations db') = open_reservations db"
  proof -
    have "distinct (resource_reservations db0)" using inv0 by (simp add: ledger_inv_def keys_ok_def unique_key_def distinct_map)
    from count_update_eq[OF this in0, of "\<lambda>r. rr_state r = OPEN" "\<lambda>r. r\<lparr>rr_state := ?st, rr_settled := Some at\<rparr>"]
    show ?thesis using core(3) rr same same' by (simp add: open_reservations_def same_ledger_def)
  qed
  moreover have "\<exists>r. find_run t (rr_run rr) db' = Some r \<and> Terminal (r_state r)"
    using ended core(5) runs by (simp add: find_run_def)
  ultimately show ?thesis using that[OF 0 e] by blast
qed

lemma ReconcileNextReservation_inv:
  assumes "ledger_inv db" "ReconcileNextReservation env t system now ev db = Inr (res, db')"
  shows "ledger_inv db'"
  by (rule reconcile_effect[OF assms])


text \<open>
  Reconciliation closes the most urgent reservation and makes progress. It selects, among the open
  reservations of the tenant whose child has ended or has expired and has no open allocations, the
  first in the order of the query; it settles it against the parent as a settlement does; the child run is
  terminal afterwards; and the number of open reservations drops by one, so repeating it ends.
\<close>

theorem reconciliation_progress:
  assumes "ledger_inv db" "utc_time now" "ReconcileNextReservation env t system now ev db = Inr (res, db')"
  shows "\<exists>rr ru. reconciliation_candidate t system now db = Some (rr, ru) \<and> reconcilable t now db rr ru \<and>
    (\<forall>y \<in> set (reconciliation_candidates t now db). reconciliation_order (rr, ru) \<le> reconciliation_order y) \<and>
    accounts db' = fold (settle_spec t (rr_parent rr)) (locked_items t (rr_id rr) (rr_child rr) (rr_parent rr) db) (accounts db) \<and>
    ledger_inv db' \<and> (\<exists>r. find_run t (rr_run rr) db' = Some r \<and> Terminal (r_state r)) \<and>
    Suc (open_reservations db') = open_reservations db"
proof -
  obtain at rr ru where r: "RequireUTC now = Inr at" "reconciliation_candidate t system at db = Some (rr, ru)"
    "rec_Expired res = (\<not> Terminal (r_state ru))" "ledger_inv db'"
    "accounts db' = fold (settle_spec t (rr_parent rr)) (locked_items t (rr_id rr) (rr_child rr) (rr_parent rr) db) (accounts db)"
    "Suc (open_reservations db') = open_reservations db"
    "\<exists>r. find_run t (rr_run rr) db' = Some r \<and> Terminal (r_state r)"
    by (rule reconcile_effect[OF assms(1,3)])
  have "at = now" using r(1) RequireUTC_utc_time[OF assms(2)] by simp
  then show ?thesis using r reconciliation_candidate_Some[of t system now db rr ru] by blast
qed

section \<open>Witnesses\<close>

text \<open>The child reserved forty tokens of its parent, consumed twenty-five and has completed.\<close>

definition demo_open_reservation :: reservation_row where
  "demo_open_reservation =
     \<lparr>rr_id = demo_id 71, rr_tenant = demo_tenant, rr_parent = parent_envelope, rr_child = child_envelope, rr_run = child_run,
      rr_state = OPEN, rr_expires = Some (demo_time 500), rr_created = demo_time 20, rr_settled = None\<rparr>"

definition delegated_db :: "RunState \<Rightarrow> Time option \<Rightarrow> DB" where
  "delegated_db state terminal = demo_db\<lparr>
     runs := [demo_run parent_run None, (demo_run child_run (Some parent_run))\<lparr>r_state := state, r_terminal := terminal\<rparr>],
     resource_envelope_grants := resource_envelope_grants demo_db @ [demo_grant child_envelope 21 40 ''token''],
     resource_balances := [demo_balance parent_envelope 21 60 0 40, demo_balance child_envelope 21 15 25 0],
     resource_reservations := [demo_open_reservation],
     resource_reservation_items :=
       [\<lparr>ri_tenant = demo_tenant, ri_reservation = demo_id 71, ri_dimension = tokens_dimension, ri_reserved = 40, ri_unit = ''token'', ri_scale = 0\<rparr>]\<rparr>"

abbreviation completed_db :: DB where
  "completed_db \<equiv> delegated_db RunCompleted (Some (demo_time 10))"

lemma delegated_db_inv: "ledger_inv (delegated_db state terminal)"
  by (simp add: delegated_db_def demo_open_reservation_def demo_rows demo_ids ledger_inv_def keys_ok_def unique_key_def balance_key_def grant_key_def balance_conserved_def
      balance_check_def granted_total_def extended_def reserved_open_def reservation_open_def has_grant_def has_balance_def reservation_item_ok_def reservation_item_key_def)

definition demo_settlement :: ResourceSettlement where
  "demo_settlement =
     \<lparr>set_ID = demo_id 72, set_TenantID = demo_tenant, set_ReservationID = demo_id 71, set_ActorPrincipalID = operator,
      set_PolicyDecisionID = demo_id 62, set_IdempotencyKey = ''settle-1'', set_TerminalRunState = RunCompleted,
      set_FinalUsageEventIDs = [], set_SettledAt = demo_time 80\<rparr>"

definition demo_settlement_evidence :: ResourceSettlementEvidence where
  "demo_settlement_evidence =
     \<lparr>sev_AuditID = demo_id 73, sev_OutboxID = demo_id 74, sev_RequestID = demo_id 75, sev_ReasonCodes = [''resource.settled'']\<rparr>"

definition settled_db :: DB where
  "settled_db = snd (projr (SettleReservation demo_env demo_tenant demo_settlement demo_settlement_evidence completed_db))"

definition settled_result :: ResourceSettlementResult where
  "settled_result =
     \<lparr>sr_ID = demo_id 72, sr_ReservationID = demo_id 71,
      sr_Consumed = [\<lparr>sa_Name = ''llm_tokens'', sa_Unit = ''token'', sa_Scale = 0, sa_Value = 25\<rparr>],
      sr_Returned = [\<lparr>sa_Name = ''llm_tokens'', sa_Unit = ''token'', sa_Scale = 0, sa_Value = 15\<rparr>],
      sr_SettledAt = demo_time 80, sr_Duplicate = False\<rparr>"

lemma demo_settlement_valid: "ValidateResourceSettlement demo_settlement = Inr demo_settlement"
proof -
  have "extensionReferencePattern ''settle-1''" by code_simp
  then show ?thesis
    by (simp add: ValidateResourceSettlement_def demo_settlement_def demo_ids RequireUTC_eq demo_time_def Unix_UTC_def int64_simps IsZeroTime_def zero_nano_def Terminal_def)
qed

lemma settlement_restricted:
  "\<not> containsRestrictedJSONKey (au_Metadata (settlement_audit s ev))" "\<not> containsRestrictedJSONKey (au_Metadata (reconciliation_audit s ev2 b))"
  by (simp_all add: settlement_audit_def reconciliation_audit_def) code_simp+

lemmas settlement_eval = SettleReservation_def settle_open_def settlement_run_state_def find_reservation_def find_settlement_def unknown_final_events_def
  locked_items_def locked_item_of_def find_dimension_def check_items_def insert_settlement_def settlement_check_def settlement_conflict_def
  settle_item_def settle_def settlement_item_check_def settlement_item_key_def replacing_error_def close_reservation_def reservation_check_def
  loadSettlementResult_def settlement_amounts_def settlement_message_def resourceSettlementDigest_def map_filter_simps
  validateEvidence_def validJSONArray_def validJSONObject_def

lemma demo_settlement_run:
  "SettleReservation demo_env demo_tenant demo_settlement demo_settlement_evidence completed_db = Inr (settled_result, settled_db)"
  "accounts settled_db (demo_tenant, parent_envelope, tokens_dimension) = Some \<lparr>avail = 75, consumed = 25, allocated = 0\<rparr>"
proof -
  have "map_sum id (\<lambda>(r, db). (r, accounts db (demo_tenant, parent_envelope, tokens_dimension)))
      (SettleReservation demo_env demo_tenant demo_settlement demo_settlement_evidence completed_db)
    = Inr (settled_result, Some \<lparr>avail = 75, consumed = 25, allocated = 0\<rparr>)"
    using demo_settlement_valid settlement_restricted(1)
    by (simp add: settlement_eval settlement_audit_def usage_eval exhaust_eval demo_settlement_def demo_settlement_evidence_def settled_result_def
        delegated_db_def demo_open_reservation_def demo_rows demo_ids demo_digest Let_def zero_nano_def int64_simps Unix_UTC_def accounts_def account_of_def
        Terminal_def ParseID_ID_String)
  then show "SettleReservation demo_env demo_tenant demo_settlement demo_settlement_evidence completed_db = Inr (settled_result, settled_db)"
    "accounts settled_db (demo_tenant, parent_envelope, tokens_dimension) = Some \<lparr>avail = 75, consumed = 25, allocated = 0\<rparr>"
    by (cases "SettleReservation demo_env demo_tenant demo_settlement demo_settlement_evidence completed_db"; auto simp: settled_db_def)+
qed

theorem settlement_refines_witness:
  "\<exists>rr. find_reservation demo_tenant (demo_id 71) completed_db = Some rr \<and>
    accounts settled_db = fold (settle_spec demo_tenant (rr_parent rr)) (locked_items demo_tenant (rr_id rr) (rr_child rr) (rr_parent rr) completed_db)
      (accounts completed_db) \<and>
    accounts settled_db (demo_tenant, parent_envelope, tokens_dimension) = Some \<lparr>avail = 75, consumed = 25, allocated = 0\<rparr>"
  using settlement_refines[OF delegated_db_inv demo_settlement_run(1)] demo_settlement_run(2)
  by (auto simp: demo_settlement_def settled_result_def)

theorem settled_once_witness:
  "SettleReservation demo_env demo_tenant demo_settlement demo_settlement_evidence settled_db = Inr (settled_result\<lparr>sr_Duplicate := True\<rparr>, settled_db)"
  using settled_once[OF delegated_db_inv demo_settlement_run(1)] by (simp add: settled_result_def)

text \<open>The same delegation with a child that is still running when the reservation has expired.\<close>

abbreviation expired_db :: DB where
  "expired_db \<equiv> delegated_db RunRunning None"

definition demo_reconciliation_evidence :: ResourceReconciliationEvidence where
  "demo_reconciliation_evidence =
     \<lparr>rev_SettlementID = demo_id 76, rev_PolicyDecisionID = demo_id 62, rev_AuditID = demo_id 77, rev_OutboxID = demo_id 78, rev_RunEventID = demo_id 79\<rparr>"

definition reconciled_db :: DB where
  "reconciled_db = snd (projr (ReconcileNextReservation demo_env demo_tenant reconciler (demo_time 600) demo_reconciliation_evidence expired_db))"

lemmas reconciliation_eval = ReconcileNextReservation_def reconciliation_candidate_def reconciliation_candidates_def reconcilable_def ended_state_def
  expirable_state_def reconciliation_settlement_def expire_child_def time_out_run_def reconcile_selected_def reconciliation_message_def

lemma demo_reconciliation_run:
  "\<exists>res. ReconcileNextReservation demo_env demo_tenant reconciler (demo_time 600) demo_reconciliation_evidence expired_db = Inr (res, reconciled_db) \<and> rec_Expired res"
  "accounts reconciled_db (demo_tenant, parent_envelope, tokens_dimension) = Some \<lparr>avail = 75, consumed = 25, allocated = 0\<rparr>"
proof -
  have "map_sum id (\<lambda>(r, db). (rec_Expired r, accounts db (demo_tenant, parent_envelope, tokens_dimension)))
      (ReconcileNextReservation demo_env demo_tenant reconciler (demo_time 600) demo_reconciliation_evidence expired_db)
    = Inr (True, Some \<lparr>avail = 75, consumed = 25, allocated = 0\<rparr>)"
    using settlement_restricted(2)
    by (simp add: reconciliation_eval settlement_eval reconciliation_audit_def usage_eval exhaust_eval demo_reconciliation_evidence_def
        delegated_db_def demo_open_reservation_def demo_rows demo_ids demo_digest Let_def zero_nano_def int64_simps Unix_UTC_def accounts_def account_of_def
        Terminal_def ParseID_ID_String)
  then show "\<exists>res. ReconcileNextReservation demo_env demo_tenant reconciler (demo_time 600) demo_reconciliation_evidence expired_db = Inr (res, reconciled_db) \<and> rec_Expired res"
    "accounts reconciled_db (demo_tenant, parent_envelope, tokens_dimension) = Some \<lparr>avail = 75, consumed = 25, allocated = 0\<rparr>"
    by (cases "ReconcileNextReservation demo_env demo_tenant reconciler (demo_time 600) demo_reconciliation_evidence expired_db"; auto simp: reconciled_db_def)+
qed

theorem reconciliation_progress_witness:
  "ledger_inv reconciled_db \<and> Suc (open_reservations reconciled_db) = open_reservations expired_db \<and>
   accounts reconciled_db (demo_tenant, parent_envelope, tokens_dimension) = Some \<lparr>avail = 75, consumed = 25, allocated = 0\<rparr>"
proof -
  obtain res where "ReconcileNextReservation demo_env demo_tenant reconciler (demo_time 600) demo_reconciliation_evidence expired_db = Inr (res, reconciled_db)"
    using demo_reconciliation_run(1) by blast
  moreover have "utc_time (demo_time 600)" by (simp add: demo_time_def utc_time_def int64_simps)
  ultimately show ?thesis using reconciliation_progress[OF delegated_db_inv] demo_reconciliation_run(2) by blast
qed

end
