(* ===== verification/Constraints.thy ===== *)
theory Constraints
  imports Json Complex_Main "HOL-Library.AList"
begin

text \<open>
  Constraints of a policy decision: the values of Go type \<open>any\<close> that they are made of, the test that one set
  of constraints narrows another (\<open>constraintsNarrow\<close> of internal/policy/contract.go) and the
  intersection of constraints (internal/policy/constraints.go). A map is the list of its entries, with
  one entry per key; the loops over a map visit the entries in the order of the list, and which
  of several errors is returned is the only thing that depends on it.
\<close>

section \<open>Values\<close>

text \<open>
  The dynamic values that the sources distinguish. A number (\<open>json.Number\<close>, \<open>float64\<close>, \<open>int64\<close> or \<open>int\<close>) is the text
  that \<open>fmt.Sprint\<close> and \<open>strconv\<close> give for it, and the text that \<open>json.Marshal\<close> writes, \<open>None\<close> when it refuses the number.
\<close>

datatype any_value =
    ANil | ABool bool | ANum string "string option" | AStr string | AStrs "string list"
  | AArr "any_value list" | AObj "(string \<times> any_value) list"

type_synonym constraints = "(string \<times> any_value) list"

text \<open>
  \<open>(*big.Rat).SetString\<close> on the decimal texts that the decoder and the formatters produce: sign, digits,
  fraction, exponent. Exponents beyond a million are refused unless the mantissa is zero.
\<close>

definition rat_exponent :: "string \<Rightarrow> int option" where
  "rat_exponent s = (case s of [] \<Rightarrow> Some 0 | c # cs \<Rightarrow> if c = CHR ''e'' \<or> c = CHR ''E'' then ParseInt64 cs else None)"

definition rat_SetString :: "string \<Rightarrow> rat option" where
  "rat_SetString s =
     (let negative = (s \<noteq> [] \<and> hd s = CHR ''-'');
          s = (if s \<noteq> [] \<and> (hd s = CHR ''-'' \<or> hd s = CHR ''+'') then tl s else s);
          whole = takeWhile is_digit s; rest = dropWhile is_digit s;
          point = (rest \<noteq> [] \<and> hd rest = CHR ''.'');
          fraction = (if point then takeWhile is_digit (tl rest) else []);
          rest = (if point then dropWhile is_digit (tl rest) else rest);
          mantissa = digits_value (whole @ fraction)
      in if whole @ fraction = [] then None
         else case rat_exponent rest of
             None \<Rightarrow> None
           | Some n \<Rightarrow>
               let e = n - int (length fraction) in
               if mantissa = 0 then Some 0
               else if e < - 1000000 \<or> 1000000 < e then None
               else Some ((if negative then - 1 else 1) * of_nat mantissa * 10 powi e))"

definition constraintNumber :: "any_value \<Rightarrow> rat option" where
  "constraintNumber v = (case v of ANum t _ \<Rightarrow> rat_SetString t | _ \<Rightarrow> None)"

text \<open>\<open>fmt.Sprint\<close>.\<close>

fun Sprint :: "any_value \<Rightarrow> string" where
  "Sprint ANil = ''<nil>''"
| "Sprint (ABool b) = (if b then ''true'' else ''false'')"
| "Sprint (ANum t _) = t"
| "Sprint (AStr s) = s"
| "Sprint (AStrs ss) = ''['' @ join '' '' ss @ '']''"
| "Sprint (AArr vs) = ''['' @ join '' '' (map Sprint vs) @ '']''"
| "Sprint (AObj kvs) = ''map['' @ join '' '' (map (\<lambda>(k, s). k @ '':'' @ s) (sort_key fst (map (\<lambda>(k, v). (k, Sprint v)) kvs))) @ '']''"

section \<open>Narrowing\<close>

definition subset :: "any_value list \<Rightarrow> any_value list \<Rightarrow> bool" where
  "subset vs allowed \<longleftrightarrow> (let printed = map Sprint allowed in list_all (\<lambda>v. Sprint v \<in> set printed) vs)"

text \<open>One entry of the loop of \<open>constraintsNarrow\<close>.\<close>

fun narrow_value :: "any_value \<Rightarrow> any_value \<Rightarrow> bool" where
  "narrow_value (ANum t j) limit =
     (case constraintNumber (ANum t j) of
        Some n \<Rightarrow> (case constraintNumber limit of None \<Rightarrow> False | Some c \<Rightarrow> n \<le> c)
      | None \<Rightarrow> t = Sprint limit)"
| "narrow_value (AStr s) limit \<longleftrightarrow> limit = AStr s"
| "narrow_value (AArr vs) limit = (case limit of AArr allowed \<Rightarrow> subset vs allowed | _ \<Rightarrow> False)"
| "narrow_value (AObj kvs) limit =
     (case limit of
        AObj limits \<Rightarrow> list_all (\<lambda>(k, v). case map_of limits k of None \<Rightarrow> False | Some l \<Rightarrow> narrow_value v l) kvs
      | _ \<Rightarrow> False)"
| "narrow_value v limit \<longleftrightarrow> Sprint v = Sprint limit"

definition constraintsNarrow :: "constraints \<Rightarrow> constraints \<Rightarrow> bool" where
  "constraintsNarrow got limits =
     list_all (\<lambda>(k, v). case map_of limits k of None \<Rightarrow> False | Some l \<Rightarrow> narrow_value v l) got"

section \<open>Intersection\<close>

text \<open>
  \<open>IntersectConstraints\<close>, given for every authoritative key its ceiling and the intersection with it: the result holds
  every ceiling, intersected with itself, and then the intersections with the restrictions.
\<close>

definition intersect_maps :: "(string \<times> any_value \<times> (any_value \<Rightarrow> any_value result)) list \<Rightarrow> constraints \<Rightarrow> constraints result" where
  "intersect_maps authority restrictions =
     and_then (fold_result (\<lambda>(k, ceiling, meet) result. and_then (meet ceiling) (\<lambda>v. Inr (AList.update k v result))) authority []) (\<lambda>result.
       fold_result (\<lambda>(k, restriction) result.
         case map_of authority k of
           None \<Rightarrow> Inl (New ''constraint has no authoritative ceiling'')
         | Some (_, meet) \<Rightarrow> and_then (meet restriction) (\<lambda>v. Inr (AList.update k v result))) restrictions result)"

text \<open>The two loops over allowlists: every entry must be a string; the restriction's entries that are allowed are kept.\<close>

fun allowlist :: "any_value list \<Rightarrow> string list result" where
  "allowlist [] = Inr []"
| "allowlist (v # vs) = (case v of AStr s \<Rightarrow> and_then (allowlist vs) (\<lambda>ss. Inr (s # ss)) | _ \<Rightarrow> Inl (New ''invalid constraint allowlist''))"

definition ErrConstraintShape :: goerror where
  "ErrConstraintShape = New ''incompatible constraint shape''"

fun intersectConstraint :: "any_value \<Rightarrow> any_value \<Rightarrow> any_value result" where
  "intersectConstraint (ANum t j) restriction =
     (case constraintNumber (ANum t j) of
        None \<Rightarrow> Inl ErrConstraintShape
      | Some limit \<Rightarrow>
          (case constraintNumber restriction of
             None \<Rightarrow> Inl (New ''invalid numeric constraint'')
           | Some n \<Rightarrow>
               if limit < 0 \<or> n < 0 then Inl (New ''invalid numeric constraint'')
               else Inr (if n < limit then restriction else ANum t j)))"
| "intersectConstraint (AStr limit) restriction = (if restriction = AStr limit then Inr (AStr limit) else Inl ErrConstraintShape)"
| "intersectConstraint (AArr limit) restriction =
     (case restriction of
        AArr vs \<Rightarrow>
          and_then (allowlist limit) (\<lambda>allowed.
          and_then (allowlist vs) (\<lambda>ss. Inr (AArr (map AStr (filter (\<lambda>s. s \<in> set allowed) ss)))))
      | _ \<Rightarrow> Inl ErrConstraintShape)"
| "intersectConstraint (AObj limit) restriction =
     (case restriction of
        AObj kvs \<Rightarrow> and_then (intersect_maps (map (\<lambda>(k, c). (k, c, intersectConstraint c)) limit) kvs) (\<lambda>m. Inr (AObj m))
      | _ \<Rightarrow> Inl ErrConstraintShape)"
| "intersectConstraint _ _ = Inl ErrConstraintShape"

definition IntersectConstraints :: "constraints \<Rightarrow> constraints \<Rightarrow> constraints result" where
  "IntersectConstraints authority restrictions = intersect_maps (map (\<lambda>(k, c). (k, c, intersectConstraint c)) authority) restrictions"

text \<open>The maps of a caller may be nil, which reads as empty, except that a nil resolution is refused.\<close>

definition ResolveConstraints :: "constraints option \<Rightarrow> constraints option \<Rightarrow> constraints option \<Rightarrow> constraints result" where
  "ResolveConstraints authority requested resolved =
     and_then (IntersectConstraints (case_option [] id authority) (case_option [] id requested)) (\<lambda>effective.
       case resolved of
         None \<Rightarrow> Inl (New ''policy decision expands effective constraints'')
       | Some r \<Rightarrow>
           if \<not> constraintsNarrow r effective then Inl (New ''policy decision expands effective constraints'')
           else IntersectConstraints effective r)"

section \<open>What constraints permit\<close>

text \<open>
  The meaning of constraints, independent of how they are compared: under a path of keys they permit the use of an
  amount up to the number there, or of a choice that is the value there or is on the list there. What is not
  mentioned is not permitted.
\<close>

datatype use = Amount rat | Choice string

fun permits_leaf :: "any_value \<Rightarrow> use \<Rightarrow> bool" where
  "permits_leaf v (Amount q) = (case constraintNumber v of None \<Rightarrow> False | Some n \<Rightarrow> q \<le> n)"
| "permits_leaf v (Choice s) =
     (constraintNumber v = None \<and> (case v of AArr vs \<Rightarrow> list_ex (\<lambda>x. Sprint x = s) vs | AObj _ \<Rightarrow> False | _ \<Rightarrow> Sprint v = s))"

fun permits :: "any_value \<Rightarrow> string list \<Rightarrow> use \<Rightarrow> bool" where
  "permits v [] u = permits_leaf v u"
| "permits v (k # path) u = (case v of AObj kvs \<Rightarrow> (case map_of kvs k of None \<Rightarrow> False | Some w \<Rightarrow> permits w path u) | _ \<Rightarrow> False)"

text \<open>Restrictions permit what they do not mention.\<close>

fun allows :: "any_value \<Rightarrow> string list \<Rightarrow> use \<Rightarrow> bool" where
  "allows v [] u = permits_leaf v u"
| "allows v (k # path) u = (case v of AObj kvs \<Rightarrow> (case map_of kvs k of None \<Rightarrow> True | Some w \<Rightarrow> allows w path u) | _ \<Rightarrow> False)"

text \<open>
  A decoded JSON document: keys are unique, numbers are numbers, and there is no \<open>[]string\<close>, which the decoder does not make.
\<close>

fun decoded :: "any_value \<Rightarrow> bool" where
  "decoded (ANum t j) \<longleftrightarrow> rat_SetString t \<noteq> None"
| "decoded (AStrs _) \<longleftrightarrow> False"
| "decoded (AArr vs) \<longleftrightarrow> list_all decoded vs"
| "decoded (AObj kvs) \<longleftrightarrow> distinct (map fst kvs) \<and> list_all (\<lambda>(k, v). decoded v) kvs"
| "decoded _ \<longleftrightarrow> True"

lemma permits_allows: "permits v path u \<Longrightarrow> allows v path u"
  by (induction v path u rule: permits.induct) (auto split: any_value.splits option.splits)

lemma map_of_decoded: "decoded (AObj kvs) \<Longrightarrow> map_of kvs k = Some v \<Longrightarrow> decoded v"
  by (auto simp: list_all_iff dest!: map_of_SomeD)

lemma narrow_obj: "narrow_value (AObj kvs) (AObj limits) = constraintsNarrow kvs limits"
  by (simp add: constraintsNarrow_def)

lemma Sprint_word:
  assumes "Sprint v = w" "w \<in> {''<nil>'', ''true'', ''false''}"
  shows "permits_leaf v (Choice w)"
proof -
  have "rat_SetString ''<nil>'' = None" "rat_SetString ''true'' = None" "rat_SetString ''false'' = None" by code_simp+
  note none = this
  show ?thesis using assms by (cases v) (auto simp: constraintNumber_def none)
qed

text \<open>What narrower constraints permit, the wider ones permit.\<close>

lemma narrow_leaf: "narrow_value v limit \<Longrightarrow> decoded v \<Longrightarrow> permits_leaf v u \<Longrightarrow> permits_leaf limit u"
proof (cases u)
  case (Amount q)
  assume "narrow_value v limit" "decoded v" "permits_leaf v u"
  then show ?thesis using Amount by (cases v) (auto simp: constraintNumber_def split: option.splits any_value.splits)
next
  case (Choice s)
  assume a: "narrow_value v limit" "decoded v" "permits_leaf v u"
  then have n: "constraintNumber v = None" using Choice by simp
  show ?thesis
  proof (cases v)
    case ANil
    then show ?thesis using a Choice Sprint_word[of limit "''<nil>''"] by (simp add: eq_commute)
  next
    case (ABool b)
    then show ?thesis using a Choice Sprint_word[of limit "if b then ''true'' else ''false''"] by (auto simp: eq_commute split: if_splits)
  next
    case (AArr vs)
    then obtain allowed where l: "limit = AArr allowed" "subset vs allowed" using a(1) by (auto split: any_value.splits)
    from a(3) AArr Choice obtain x where x: "x \<in> set vs" "Sprint x = s" by (auto simp: list_ex_iff)
    then have "s \<in> Sprint ` set allowed" using l(2) by (auto simp: subset_def list_all_iff)
    then show ?thesis using l(1) Choice by (auto simp: list_ex_iff constraintNumber_def)
  qed (use a n Choice in \<open>auto simp: constraintNumber_def\<close>)
qed

lemma narrow_permits: "narrow_value v limit \<Longrightarrow> decoded v \<Longrightarrow> permits v path u \<Longrightarrow> permits limit path u"
proof (induction path arbitrary: v limit)
  case Nil
  then show ?case using narrow_leaf by simp
next
  case (Cons k path)
  then obtain kvs w where v: "v = AObj kvs" "map_of kvs k = Some w" "permits w path u"
    by (auto split: any_value.splits option.splits)
  from v(1) Cons.prems(1) obtain limits where limits: "limit = AObj limits" "constraintsNarrow kvs limits"
    by (cases limit) (simp_all add: constraintsNarrow_def)
  then obtain l where l: "map_of limits k = Some l" "narrow_value w l"
    using map_of_SomeD[OF v(2)] by (auto simp: constraintsNarrow_def list_all_iff split: option.splits)
  then show ?case using Cons.IH[OF l(2) map_of_decoded v(3)] Cons.prems(2) v limits by simp
qed

section \<open>What an intersection permits\<close>

lemma fold_update:
  assumes "fold_result (\<lambda>x res. and_then (val x) (\<lambda>v. Inr (AList.update (key x) v res))) xs res0 = Inr res" "distinct (map key xs)"
  shows "(\<forall>x\<in>set xs. \<exists>v. val x = Inr v \<and> map_of res (key x) = Some v) \<and> (\<forall>k. k \<notin> key ` set xs \<longrightarrow> map_of res k = map_of res0 k) \<and>
    (distinct (map fst res0) \<longrightarrow> distinct (map fst res))"
  using assms
proof (induction xs arbitrary: res0)
  case (Cons x xs)
  then obtain v where v: "val x = Inr v" "fold_result (\<lambda>x res. and_then (val x) (\<lambda>v. Inr (AList.update (key x) v res))) xs (AList.update (key x) v res0) = Inr res"
    by (auto simp: and_then_Inr)
  have d: "key x \<notin> key ` set xs" "distinct (map key xs)" using Cons.prems(2) by auto
  note ih = Cons.IH[OF v(2) d(2)]
  have "map_of res (key x) = Some v" using ih d(1) by (simp add: update_conv')
  moreover have "map_of res k = map_of res0 k" if "k \<notin> key ` set (x # xs)" for k using ih that by (simp add: update_conv')
  ultimately show ?case using ih v(1) by (auto simp: distinct_update)
qed simp

lemma intersect_maps_Inr:
  assumes "intersect_maps authority restrictions = Inr m" "distinct (map fst authority)" "distinct (map fst restrictions)"
  shows "\<forall>k. map_of authority k = None \<longrightarrow> map_of m k = None \<and> map_of restrictions k = None"
    and "\<forall>k c meet. map_of authority k = Some (c, meet) \<longrightarrow> (\<exists>v w. meet c = Inr w \<and> meet (case map_of restrictions k of None \<Rightarrow> c | Some r \<Rightarrow> r) = Inr v \<and> map_of m k = Some v)"
    and "distinct (map fst m)"
proof -
  let ?val1 = "\<lambda>(k :: string, c, meet). (meet c :: any_value result)"
  let ?val2 = "\<lambda>(k, r). case map_of authority k of None \<Rightarrow> Inl (New ''constraint has no authoritative ceiling'') | Some (_, meet) \<Rightarrow> meet r"
  have loops: "(\<lambda>(k, c, meet) result. and_then (meet c) (\<lambda>v. Inr (AList.update k v result))) =
      (\<lambda>x result. and_then (?val1 x) (\<lambda>v. Inr (AList.update (fst x) v result)))"
    "(\<lambda>(k, r) result. case map_of authority k of None \<Rightarrow> Inl (New ''constraint has no authoritative ceiling'')
         | Some (_, meet) \<Rightarrow> and_then (meet r) (\<lambda>v. Inr (AList.update k v result))) =
      (\<lambda>x result. and_then (?val2 x) (\<lambda>v. Inr (AList.update (fst x) v result)))"
    by (auto simp: fun_eq_iff split: option.splits)
  obtain m0 where m0: "fold_result (\<lambda>x res. and_then (?val1 x) (\<lambda>v. Inr (AList.update (fst x) v res))) authority [] = Inr m0"
    "fold_result (\<lambda>x res. and_then (?val2 x) (\<lambda>v. Inr (AList.update (fst x) v res))) restrictions m0 = Inr m"
    using assms(1) unfolding intersect_maps_def loops and_then_Inr by blast
  note l1 = fold_update[OF m0(1) assms(2)] and l2 = fold_update[OF m0(2) assms(3)]
  show "distinct (map fst m)" using l1 l2 by simp
  have absent: "map_of restrictions k = None" if "map_of authority k = None" for k
  proof (rule ccontr)
    assume "map_of restrictions k \<noteq> None"
    then obtain r where "(k, r) \<in> set restrictions" by (auto dest: map_of_SomeD)
    with l2 that show False by auto
  qed
  moreover have "map_of m0 k = None" if "map_of authority k = None" for k
    using l1 that by (simp add: map_of_eq_None_iff)
  ultimately show "\<forall>k. map_of authority k = None \<longrightarrow> map_of m k = None \<and> map_of restrictions k = None"
    using l2 by (auto simp: map_of_eq_None_iff)
  show "\<forall>k c meet. map_of authority k = Some (c, meet) \<longrightarrow> (\<exists>v w. meet c = Inr w \<and> meet (case map_of restrictions k of None \<Rightarrow> c | Some r \<Rightarrow> r) = Inr v \<and> map_of m k = Some v)"
  proof (intro allI impI)
    fix k c meet
    assume a: "map_of authority k = Some (c, meet)"
    then obtain w where w: "meet c = Inr w" "map_of m0 k = Some w" using l1 map_of_SomeD[OF a] by fastforce
    show "\<exists>v w. meet c = Inr w \<and> meet (case map_of restrictions k of None \<Rightarrow> c | Some r \<Rightarrow> r) = Inr v \<and> map_of m k = Some v"
    proof (cases "map_of restrictions k")
      case None
      then have "map_of m k = map_of m0 k" using l2 by (simp add: map_of_eq_None_iff)
      then show ?thesis using w None by simp
    next
      case (Some r)
      then obtain v where "?val2 (k, r) = Inr v" "map_of m k = Some v" using l2 map_of_SomeD[OF Some] by fastforce
      then show ?thesis using a Some w(1) by auto
    qed
  qed
qed

lemma allowlist_Inr: "allowlist vs = Inr ss \<longleftrightarrow> vs = map AStr ss"
  by (induction vs arbitrary: ss) (auto simp: and_then_Inr split: any_value.splits)

lemma map_of_meets: "map_of (map (\<lambda>(k, c). (k, c, f c)) kvs) k = map_option (\<lambda>c. (c, f c)) (map_of kvs k)"
  by (induction kvs) auto

lemma intersect_keys: "map fst (map (\<lambda>(k, c). (k, c, f c)) kvs) = map fst kvs"
  by (induction kvs) auto

text \<open>The intersection is the meet: it permits exactly what the ceiling permits and the restriction allows.\<close>

lemma intersect_leaf:
  assumes "intersectConstraint c r = Inr v"
  shows "permits_leaf v u \<longleftrightarrow> permits_leaf c u \<and> permits_leaf r u"
proof (cases c)
  case (ANum t j)
  then show ?thesis using assms by (cases u) (auto simp: constraintNumber_def split: option.splits if_splits any_value.splits)
next
  case (AArr cs)
  then obtain xs rs where r: "cs = map AStr xs" "r = AArr (map AStr rs)" "v = AArr (map AStr (filter (\<lambda>s. s \<in> set xs) rs))"
    using assms by (cases r) (auto simp: and_then_Inr allowlist_Inr)
  then show ?thesis using AArr by (cases u) (auto simp: list_ex_iff constraintNumber_def)
next
  case (AObj kvs)
  then show ?thesis using assms by (cases u) (auto simp: and_then_Inr constraintNumber_def split: any_value.splits)
qed (use assms in \<open>auto split: if_splits\<close>)

lemma intersect_permits:
  assumes "intersectConstraint c r = Inr v" "decoded c" "decoded r"
  shows "permits v path u \<longleftrightarrow> permits c path u \<and> allows r path u"
  using assms
proof (induction path arbitrary: c r v)
  case Nil
  then show ?case using intersect_leaf by simp
next
  case (Cons k path)
  show ?case
  proof (cases c)
    case (AObj kvs)
    then obtain rs m where r: "r = AObj rs" "v = AObj m" "intersect_maps (map (\<lambda>(k, c). (k, c, intersectConstraint c)) kvs) rs = Inr m"
      using Cons.prems(1) by (auto simp: and_then_Inr split: any_value.splits)
    have d: "distinct (map fst (map (\<lambda>(k, c). (k, c, intersectConstraint c)) kvs))" "distinct (map fst rs)"
      using Cons.prems(2,3) AObj r by (simp_all only: intersect_keys decoded.simps)
    note im = intersect_maps_Inr[OF r(3) d, unfolded map_of_meets]
    show ?thesis
    proof (cases "map_of kvs k")
      case None
      then show ?thesis using im(1) AObj r by simp
    next
      case (Some w)
      then obtain x where x: "intersectConstraint w (case map_of rs k of None \<Rightarrow> w | Some r \<Rightarrow> r) = Inr x" "map_of m k = Some x" using im(2) by auto
      have w: "decoded w" using map_of_decoded Cons.prems(2) AObj Some by blast
      show ?thesis
      proof (cases "map_of rs k")
        case None
        then show ?thesis using Cons.IH[OF _ w w, of x] x permits_allows[of w path u] Some AObj r by auto
      next
        case (Some y)
        then have "decoded y" using map_of_decoded Cons.prems(3) r by blast
        then show ?thesis using Cons.IH[OF _ w, of y x] x Some \<open>map_of kvs k = Some w\<close> AObj r by auto
      qed
    qed
  qed (use Cons.prems(1) in \<open>auto simp: and_then_Inr constraintNumber_def split: option.splits if_splits any_value.splits\<close>)
qed

lemma decoded_map_of: "decoded (AObj kvs) \<longleftrightarrow> distinct (map fst kvs) \<and> (\<forall>k v. map_of kvs k = Some v \<longrightarrow> decoded v)"
  by (auto simp: list_all_iff dest: map_of_SomeD)

lemma intersect_decoded: "intersectConstraint c r = Inr v \<Longrightarrow> decoded c \<Longrightarrow> decoded r \<Longrightarrow> decoded v"
proof (induction c r arbitrary: v rule: intersectConstraint.induct)
  case (1 t j r)
  then show ?case by (auto split: option.splits if_splits)
next
  case (3 limit r)
  then show ?case by (auto simp: and_then_Inr list_all_iff split: any_value.splits)
next
  case (4 limit r)
  then obtain rs m where r: "r = AObj rs" "v = AObj m" "intersect_maps (map (\<lambda>(k, c). (k, c, intersectConstraint c)) limit) rs = Inr m"
    by (auto simp: and_then_Inr split: any_value.splits)
  have d: "distinct (map fst (map (\<lambda>(k, c). (k, c, intersectConstraint c)) limit))" "distinct (map fst rs)"
    using 4(3,4) r by (simp_all only: intersect_keys decoded.simps)
  note im = intersect_maps_Inr[OF r(3) d, unfolded map_of_meets]
  have "decoded x" if x: "map_of m k = Some x" for k x
  proof (cases "map_of limit k")
    case None
    then show ?thesis using im(1) x by simp
  next
    case (Some w)
    then have m: "intersectConstraint w (case map_of rs k of None \<Rightarrow> w | Some r \<Rightarrow> r) = Inr x" using im(2) x by fastforce
    have w: "(k, w) \<in> set limit" "decoded w" using Some 4(3) map_of_SomeD map_of_decoded by metis+
    have "decoded (case map_of rs k of None \<Rightarrow> w | Some r \<Rightarrow> r)" using w(2) 4(4) r map_of_decoded by (auto split: option.splits)
    then show ?thesis using 4(1)[OF r(1) w(1) refl m w(2)] by simp
  qed
  then show ?case using im(3) r by (simp add: decoded_map_of del: decoded.simps)
qed (auto split: if_splits)

lemma IntersectConstraints_value: "intersectConstraint (AObj a) (AObj r) = and_then (IntersectConstraints a r) (\<lambda>m. Inr (AObj m))"
  by (simp add: IntersectConstraints_def)

lemma IntersectConstraints_meet:
  assumes "IntersectConstraints a r = Inr m" "decoded (AObj a)" "decoded (AObj r)"
  shows "permits (AObj m) path u \<longleftrightarrow> permits (AObj a) path u \<and> allows (AObj r) path u" and "decoded (AObj m)"
proof -
  have "intersectConstraint (AObj a) (AObj r) = Inr (AObj m)" by (simp add: IntersectConstraints_value assms(1) del: intersectConstraint.simps)
  then show "permits (AObj m) path u \<longleftrightarrow> permits (AObj a) path u \<and> allows (AObj r) path u" "decoded (AObj m)"
    using intersect_permits intersect_decoded assms(2,3) by blast+
qed

section \<open>Properties\<close>

text \<open>
  C35: the intersection of constraints is their meet. On decoded documents it permits exactly the uses that the authority
  permits and that the restriction, where it says anything, allows: nothing that the authority does not mention is ever
  permitted, and every number, choice, allowlist and nested object is narrowed.
\<close>

theorem intersection_is_meet:
  assumes "IntersectConstraints authority restrictions = Inr m" "decoded (AObj authority)" "decoded (AObj restrictions)"
  shows "(permits (AObj m) path u \<longleftrightarrow> permits (AObj authority) path u \<and> allows (AObj restrictions) path u) \<and> decoded (AObj m)"
  using IntersectConstraints_meet[OF assms] by blast

definition demo_authority :: constraints where
  "demo_authority = [(''max_llm_tokens'', ANum ''1e+06'' (Some ''1000000'')), (''tools'', AArr [AStr ''browse'', AStr ''search'']),
     (''limits'', AObj [(''depth'', ANum ''3'' (Some ''3''))])]"

definition demo_requested :: constraints where
  "demo_requested = [(''max_llm_tokens'', ANum ''50'' (Some ''50'')), (''tools'', AArr [AStr ''shell'', AStr ''search''])]"

definition demo_effective :: constraints where
  "demo_effective = [(''max_llm_tokens'', ANum ''50'' (Some ''50'')), (''tools'', AArr [AStr ''search'']), (''limits'', AObj [(''depth'', ANum ''3'' (Some ''3''))])]"

lemma demo_numbers: "rat_SetString ''1e+06'' = Some 1000000" "rat_SetString ''50'' = Some 50" "rat_SetString ''3'' = Some 3"
  by code_simp+

lemma demo_intersection: "IntersectConstraints demo_authority demo_requested = Inr demo_effective"
  by (simp add: IntersectConstraints_def intersect_maps_def demo_authority_def demo_requested_def demo_effective_def constraintNumber_def demo_numbers)

lemma demo_decoded: "decoded (AObj demo_authority)" "decoded (AObj demo_requested)"
  by (simp_all add: demo_authority_def demo_requested_def demo_numbers)

theorem intersection_is_meet_witness:
  "IntersectConstraints demo_authority demo_requested = Inr demo_effective \<and>
   permits (AObj demo_effective) [''max_llm_tokens''] (Amount 40) \<and> permits (AObj demo_effective) [''limits'', ''depth''] (Amount 3) \<and>
   \<not> permits (AObj demo_effective) [''max_llm_tokens''] (Amount 60) \<and> \<not> permits (AObj demo_effective) [''tools''] (Choice ''shell'')"
  using intersection_is_meet[OF demo_intersection demo_decoded, of "[''max_llm_tokens'']" "Amount 40"]
    intersection_is_meet[OF demo_intersection demo_decoded, of "[''limits'', ''depth'']" "Amount 3"]
    intersection_is_meet[OF demo_intersection demo_decoded, of "[''max_llm_tokens'']" "Amount 60"]
    intersection_is_meet[OF demo_intersection demo_decoded, of "[''tools'']" "Choice ''shell''"] demo_intersection
  by (simp add: demo_authority_def demo_requested_def constraintNumber_def demo_numbers)

end
