(* ===== verification/Policy.thy ===== *)
theory Policy
  imports Constraints Usage
begin

text \<open>
  The authorization contract (internal/policy/contract.go): inputs, decisions, their validation and the digest
  of an input, and the risk of an action (action.go). The hash function is an argument.
\<close>

section \<open>Inputs and decisions\<close>

definition ContractVersion :: string where
  "ContractVersion = ''thinkpixelag.authorization/v1alpha1''"

record Subject =
  sub_PrincipalID :: string
  sub_TenantID :: string
  sub_PrincipalType :: string
  sub_Roles :: "string list option"
  sub_AuthenticationMethods :: "string list option"
  sub_Issuer :: string

record Resource =
  res_Type :: string
  res_ID :: string
  res_TenantID :: string
  res_Attributes :: "constraints option"

record PolicyAgent =
  pa_ID :: string
  pa_VersionDigest :: string
  pa_RiskClass :: string
  pa_Owner :: string
  pa_Approved :: bool
  pa_Revoked :: bool

record SecurityState =
  ss_GlobalEpoch :: int
  ss_TenantPolicyEpoch :: int
  ss_TenantRevocationEpoch :: int
  ss_AgentRevocationEpoch :: int
  ss_AgeSeconds :: int
  ss_FreshnessMaxAgeSeconds :: int
  ss_HasGap :: bool
  ss_Authoritative :: bool

record RequestContext =
  ctx_RequestID :: string
  ctx_SourceWorkload :: string

record Input =
  in_ContractVersion :: string
  in_DecisionID :: string
  in_RequestTime :: Time
  in_Subject :: Subject
  in_Action :: string
  in_Resource :: Resource
  in_Agent :: "PolicyAgent option"
  in_RequestedConstraints :: "constraints option"
  in_AuthorityConstraints :: "constraints option"
  in_SecurityState :: SecurityState
  in_Context :: RequestContext

record Obligation =
  obl_Type :: string
  obl_Mandatory :: bool

record Decision =
  dec_ContractVersion :: string
  dec_DecisionID :: string
  dec_Allow :: bool
  dec_ReasonCodes :: "string list option"
  dec_ResolvedConstraints :: "constraints option"
  dec_Obligations :: "Obligation list option"
  dec_DecisionTTLSeconds :: int

record Metadata =
  md_PolicyDigest :: string
  md_PolicyVersion :: int
  md_InputDigest :: string
  md_Duration :: Duration
  md_CacheStatus :: string

record PolicyResult =
  pr_Decision :: Decision
  pr_Metadata :: Metadata

definition reasonCodes :: "string list" where
  "reasonCodes =
     [''agent.discover.allowed'', ''agent.invoke.allowed'', ''run.access.allowed'', ''workload.operation.allowed'', ''governance.operation.allowed'',
      ''resource.extension.approved'', ''identity.invalid'', ''tenant.mismatch'', ''resource.not_visible'', ''agent.not_approved'', ''agent.revoked'',
      ''principal.revoked'', ''policy.revoked'', ''security_state.stale'', ''security_state.gap'', ''constraint.expands_authority'', ''approval.required'',
      ''action.not_permitted'', ''contract.invalid'']"

section \<open>Encoding\<close>

text \<open>\<open>json.Marshal\<close> of dynamic values: keys are sorted; \<open>None\<close> is an error.\<close>

fun any_json :: "any_value \<Rightarrow> json option" where
  "any_json ANil = Some JNull"
| "any_json (ABool b) = Some (JBool b)"
| "any_json (ANum _ j) = map_option JReal j"
| "any_json (AStr s) = Some (JStr s)"
| "any_json (AStrs ss) = Some (JArr (map JStr ss))"
| "any_json (AArr vs) = map_option JArr (those (map any_json vs))"
| "any_json (AObj kvs) =
     map_option JObj (those (map (\<lambda>(k, j). map_option (Pair k) j) (sort_key fst (map (\<lambda>(k, v). (k, any_json v)) kvs))))"

definition map_json :: "constraints option \<Rightarrow> json option" where
  "map_json m = (case m of None \<Rightarrow> Some JNull | Some kvs \<Rightarrow> any_json (AObj kvs))"

definition slice_json :: "string list option \<Rightarrow> json" where
  "slice_json v = (case v of None \<Rightarrow> JNull | Some ss \<Rightarrow> JArr (map JStr ss))"

text \<open>A time is written in RFC 3339, with an error outside the years 0 to 9999.\<close>

definition time_json :: "Time \<Rightarrow> json option" where
  "time_json t =
     (let (year, _, _) = civil_date (unix_nano t div 1000000000 div 86400)
      in if year < 0 \<or> 9999 < year then None else Some (JStr (format_rfc3339nano t)))"

definition subject_json :: "Subject \<Rightarrow> json" where
  "subject_json s =
     JObj [(''principal_id'', JStr (sub_PrincipalID s)), (''tenant_id'', JStr (sub_TenantID s)), (''principal_type'', JStr (sub_PrincipalType s)),
           (''roles'', slice_json (sub_Roles s)), (''authentication_methods'', slice_json (sub_AuthenticationMethods s)), (''issuer'', JStr (sub_Issuer s))]"

definition agent_json :: "PolicyAgent \<Rightarrow> json" where
  "agent_json a =
     JObj ([(''id'', JStr (pa_ID a)), (''version_digest'', JStr (pa_VersionDigest a)), (''risk_class'', JStr (pa_RiskClass a)),
            (''owner'', JStr (pa_Owner a)), (''approved'', JBool (pa_Approved a))] @ (if pa_Revoked a then [(''revoked'', JBool True)] else []))"

definition security_json :: "SecurityState \<Rightarrow> json" where
  "security_json s =
     JObj [(''global_epoch'', JNum (ss_GlobalEpoch s)), (''tenant_policy_epoch'', JNum (ss_TenantPolicyEpoch s)),
           (''tenant_revocation_epoch'', JNum (ss_TenantRevocationEpoch s)), (''agent_revocation_epoch'', JNum (ss_AgentRevocationEpoch s)),
           (''age_seconds'', JNum (ss_AgeSeconds s)), (''freshness_max_age_seconds'', JNum (ss_FreshnessMaxAgeSeconds s)),
           (''has_gap'', JBool (ss_HasGap s)), (''authoritative'', JBool (ss_Authoritative s))]"

definition input_json :: "Input \<Rightarrow> json option" where
  "input_json i =
     (case (time_json (in_RequestTime i), map_json (res_Attributes (in_Resource i)), map_json (in_RequestedConstraints i), map_json (in_AuthorityConstraints i)) of
        (Some time, Some attributes, Some requested, Some authority) \<Rightarrow>
          Some (JObj
            ([(''contract_version'', JStr (in_ContractVersion i)), (''decision_id'', JStr (in_DecisionID i)), (''request_time'', time),
              (''subject'', subject_json (in_Subject i)), (''action'', JStr (in_Action i)),
              (''resource'', JObj [(''type'', JStr (res_Type (in_Resource i))), (''id'', JStr (res_ID (in_Resource i))),
                 (''tenant_id'', JStr (res_TenantID (in_Resource i))), (''attributes'', attributes)])] @
             (case in_Agent i of None \<Rightarrow> [] | Some a \<Rightarrow> [(''agent'', agent_json a)]) @
             [(''requested_constraints'', requested), (''authority_constraints'', authority), (''security_state'', security_json (in_SecurityState i)),
              (''context'', JObj ((''request_id'', JStr (ctx_RequestID (in_Context i))) #
                 (if ctx_SourceWorkload (in_Context i) = [] then [] else [(''source_workload'', JStr (ctx_SourceWorkload (in_Context i)))])))]))
      | _ \<Rightarrow> None)"

definition decision_json :: "Decision \<Rightarrow> json option" where
  "decision_json d =
     map_option (\<lambda>resolved. JObj
       [(''contract_version'', JStr (dec_ContractVersion d)), (''decision_id'', JStr (dec_DecisionID d)), (''allow'', JBool (dec_Allow d)),
        (''reason_codes'', slice_json (dec_ReasonCodes d)), (''resolved_constraints'', resolved),
        (''obligations'', (case dec_Obligations d of None \<Rightarrow> JNull
           | Some os \<Rightarrow> JArr (map (\<lambda>b. JObj [(''type'', JStr (obl_Type b)), (''mandatory'', JBool (obl_Mandatory b))]) os))),
        (''decision_ttl_seconds'', JNum (dec_DecisionTTLSeconds d))])
       (map_json (dec_ResolvedConstraints d))"

definition marshal_error :: goerror where
  "marshal_error = New ''json: error calling Marshal''"

definition boundedJSON :: "json option \<Rightarrow> nat \<Rightarrow> unit result" where
  "boundedJSON v limit =
     (case v of
        None \<Rightarrow> Inl marshal_error
      | Some j \<Rightarrow> if length (json_text j) > limit then Inl (New ''policy contract exceeds size bound'') else Inr ())"

section \<open>Validation\<close>

definition restricted_policy_fields :: "string list" where
  "restricted_policy_fields =
     [''authorization'', ''cookie'', ''password'', ''secret'', ''credential'', ''token'', ''access_token'', ''refresh_token'', ''objective'', ''prompt'',
      ''payload'', ''raw_input'', ''policy_input'', ''database_url'', ''valkey_url'', ''dsn'']"

definition normalized_field :: "string \<Rightarrow> string" where
  "normalized_field k = map (\<lambda>c. if c = CHR ''-'' \<or> c = CHR ''.'' then CHR ''_'' else c) (to_lower (trim_space k))"

fun containsRestrictedPolicyField :: "any_value \<Rightarrow> bool" where
  "containsRestrictedPolicyField (AObj kvs) =
     list_ex (\<lambda>(k, v). normalized_field k \<in> set restricted_policy_fields \<or> containsRestrictedPolicyField v) kvs"
| "containsRestrictedPolicyField (AArr vs) = list_ex containsRestrictedPolicyField vs"
| "containsRestrictedPolicyField _ = False"

definition Input_Validate :: "Input \<Rightarrow> unit result" where
  "Input_Validate i =
     (if in_ContractVersion i \<noteq> ContractVersion \<or> in_DecisionID i = [] \<or> IsZeroTime (in_RequestTime i) \<or> sub_PrincipalID (in_Subject i) = []
         \<or> sub_TenantID (in_Subject i) = [] \<or> in_Action i = [] \<or> res_Type (in_Resource i) = [] \<or> res_TenantID (in_Resource i) = []
         \<or> ctx_RequestID (in_Context i) = []
      then Inl (New ''invalid policy input contract'')
      else case (in_RequestedConstraints i, in_AuthorityConstraints i, res_Attributes (in_Resource i)) of
        (Some requested, Some authority, Some attributes) \<Rightarrow>
          let s = in_SecurityState i in
          if ss_GlobalEpoch s < 0 \<or> ss_TenantPolicyEpoch s < 0 \<or> ss_TenantRevocationEpoch s < 0 \<or> ss_AgentRevocationEpoch s < 0
             \<or> ss_AgeSeconds s < 0 \<or> ss_FreshnessMaxAgeSeconds s < 0
          then Inl (New ''policy security state cannot be negative'')
          else if length (case_option [] id (sub_Roles (in_Subject i))) > 32 \<or> length (in_Action i) > 128 \<or> length (res_ID (in_Resource i)) > 512
          then Inl (New ''policy input exceeds bounds'')
          else if containsRestrictedPolicyField (AObj attributes) \<or> containsRestrictedPolicyField (AObj requested)
             \<or> containsRestrictedPolicyField (AObj authority)
          then Inl (New ''policy input contains a restricted field'')
          else boundedJSON (input_json i) 65536
      | _ \<Rightarrow> Inl (New ''policy input maps must be present''))"

text \<open>\<open>time.Duration(seconds) * time.Second\<close>.\<close>

definition seconds :: "int \<Rightarrow> Duration" where
  "seconds n = wrap64 (n * Second)"

definition ValidateDecision :: "Decision \<Rightarrow> Input \<Rightarrow> Duration \<Rightarrow> unit result" where
  "ValidateDecision d i maxTTL =
     (let codes = case_option [] id (dec_ReasonCodes d) in
      case (dec_ResolvedConstraints d, dec_Obligations d) of
        (Some resolved, Some obligations) \<Rightarrow>
          if dec_ContractVersion d \<noteq> ContractVersion \<or> dec_DecisionID d \<noteq> in_DecisionID i \<or> codes = [] \<or> length codes > 16 \<or> dec_DecisionTTLSeconds d < 0
          then Inl (New ''invalid policy decision contract'')
          else if list_ex (\<lambda>c. c \<notin> set reasonCodes) codes then Inl (New ''unregistered policy reason code'')
          else if list_ex (\<lambda>b. obl_Type b = [] \<or> obl_Mandatory b) obligations then Inl (New ''unknown mandatory policy obligation'')
          else if seconds (dec_DecisionTTLSeconds d) > maxTTL then Inl (New ''policy decision TTL exceeds configured maximum'')
          else if \<not> constraintsNarrow resolved (case_option [] id (in_AuthorityConstraints i))
          then Inl (New ''policy decision expands authority constraints'')
          else and_then
            (if dec_Allow d \<and> in_Action i = ''runs.create''
             then and_then (ResolveConstraints (in_AuthorityConstraints i) (in_RequestedConstraints i) (Some resolved)) (\<lambda>_. Inr ())
             else if \<not> constraintsNarrow resolved (case_option [] id (in_RequestedConstraints i))
             then Inl (New ''policy decision expands requested constraints'') else Inr ())
            (\<lambda>_. boundedJSON (decision_json d) 65536)
      | _ \<Rightarrow> Inl (New ''invalid policy decision contract''))"

section \<open>The digest of an input\<close>

text \<open>\<open>compact\<close> drops blank entries and entries equal to the one kept before.\<close>

fun compact_from :: "string option \<Rightarrow> string list \<Rightarrow> string list" where
  "compact_from _ [] = []"
| "compact_from kept (x # xs) =
     (if trim_space x = [] \<or> kept = Some x then compact_from kept xs else x # compact_from (Some x) xs)"

definition compact_strings :: "string list \<Rightarrow> string list" where
  "compact_strings v = compact_from None v"

text \<open>The copy of an empty slice is nil.\<close>

definition NormalizeStrings :: "string list option \<Rightarrow> string list option" where
  "NormalizeStrings v = (case v of None \<Rightarrow> None | Some [] \<Rightarrow> None | Some ss \<Rightarrow> Some (compact_strings (sort ss)))"

definition AuthorizationDigest :: "hash \<Rightarrow> Input \<Rightarrow> string result" where
  "AuthorizationDigest sha256 i =
     and_then (Input_Validate i) (\<lambda>_.
       let i = i\<lparr>in_DecisionID := [], in_RequestTime := zero_time, in_Context := (in_Context i)\<lparr>ctx_RequestID := []\<rparr>,
             in_Subject := (in_Subject i)\<lparr>sub_Roles := NormalizeStrings (sub_Roles (in_Subject i)),
               sub_AuthenticationMethods := NormalizeStrings (sub_AuthenticationMethods (in_Subject i))\<rparr>\<rparr>
       in case input_json i of None \<Rightarrow> Inl marshal_error | Some j \<Rightarrow> Inr (digest_text sha256 (json_text j)))"

section \<open>The risk of an action\<close>

datatype ActionRisk = ActionRiskLowRead | ActionRiskSensitiveRead | ActionRiskNormalWrite | ActionRiskPrivilegedWrite

definition ClassifyAction :: "string \<Rightarrow> string \<Rightarrow> ActionRisk" where
  "ClassifyAction action agentRisk =
     (let action = to_lower (trim_space action) in
      if action = ''agents.list'' then ActionRiskLowRead
      else if action \<in> set [''agents.describe'', ''runs.read'', ''runs.events.read'', ''role_mappings.read'', ''integrations.read'']
      then ActionRiskSensitiveRead
      else if action \<in> set [''runs.signal'', ''runs.cancel''] then ActionRiskNormalWrite
      else if action \<in> set [''runs.create'', ''runs.claim'', ''runs.heartbeat'', ''runs.complete'']
      then (if to_lower (trim_space agentRisk) \<in> set [''low'', ''medium''] then ActionRiskNormalWrite else ActionRiskPrivilegedWrite)
      else ActionRiskPrivilegedWrite)"

section \<open>Normal forms\<close>

lemma compact_from_sorted:
  "sorted (case kept of None \<Rightarrow> xs | Some k \<Rightarrow> k # xs) \<Longrightarrow>
     sorted_wrt (<) (case kept of None \<Rightarrow> compact_from kept xs | Some k \<Rightarrow> k # compact_from kept xs) \<and>
     set (compact_from kept xs) = {x \<in> set xs. trim_space x \<noteq> [] \<and> Some x \<noteq> kept}"
proof (induction kept xs rule: compact_from.induct)
  case (2 kept x xs)
  show ?case
  proof (cases "trim_space x = [] \<or> kept = Some x")
    case True
    then have "sorted (case kept of None \<Rightarrow> xs | Some k \<Rightarrow> k # xs)" using "2.prems" by (auto split: option.splits)
    with 2(1)[OF True] True show ?thesis by (auto split: option.splits)
  next
    case False
    then have s: "sorted (case Some x of None \<Rightarrow> xs | Some k \<Rightarrow> k # xs)" using "2.prems" by (auto split: option.splits)
    have ih: "sorted_wrt (<) (x # compact_from (Some x) xs)" "set (compact_from (Some x) xs) = {y \<in> set xs. trim_space y \<noteq> [] \<and> y \<noteq> x}"
      using 2(2)[OF False s] by simp_all
    have c: "compact_from kept (x # xs) = x # compact_from (Some x) xs" using False by simp
    have "k < x" if "kept = Some k" for k using "2.prems" False that by (auto simp: less_le)
    moreover have "k \<notin> set xs" if "kept = Some k" for k using "2.prems" \<open>\<And>k. kept = Some k \<Longrightarrow> k < x\<close>[OF that] that by (auto dest: leD)
    ultimately show ?thesis using ih False unfolding c by (auto split: option.splits)
  qed
qed (auto split: option.splits)

lemma compact_sort: "compact_strings (sort ss) = sorted_list_of_set {x \<in> set ss. trim_space x \<noteq> []}"
proof -
  have "sorted_wrt (<) (compact_strings (sort ss)) \<and> set (compact_strings (sort ss)) = {x \<in> set ss. trim_space x \<noteq> []}"
    using compact_from_sorted[where kept = None and xs = "sort ss"] by (simp add: compact_strings_def)
  then show ?thesis by (metis strict_sorted_iff sorted_list_of_set.idem_if_sorted_distinct)
qed

lemma NormalizeStrings_set:
  assumes "set (case_option [] id v) = set (case_option [] id w)"
  shows "NormalizeStrings v = NormalizeStrings w"
proof -
  have "NormalizeStrings v = (let s = set (case_option [] id v) in if s = {} then None else Some (sorted_list_of_set {x \<in> s. trim_space x \<noteq> []}))" for v
    by (simp add: NormalizeStrings_def compact_sort Let_def del: sort_key_simps split: option.split list.split)
  then show ?thesis using assms by (simp only:)
qed

lemma AuthorizationDigest_valid:
  assumes "Input_Validate i = Inr ()"
  shows "\<exists>x. AuthorizationDigest sha256 i = Inr x"
proof -
  let ?norm = "i\<lparr>in_DecisionID := [], in_RequestTime := zero_time, in_Context := (in_Context i)\<lparr>ctx_RequestID := []\<rparr>,
    in_Subject := (in_Subject i)\<lparr>sub_Roles := NormalizeStrings (sub_Roles (in_Subject i)),
      sub_AuthenticationMethods := NormalizeStrings (sub_AuthenticationMethods (in_Subject i))\<rparr>\<rparr>"
  have "\<exists>x. input_json i = Some x"
    using assms by (auto simp: Input_Validate_def boundedJSON_def Let_def split: if_splits option.splits)
  then have "map_json (res_Attributes (in_Resource i)) \<noteq> None" "map_json (in_RequestedConstraints i) \<noteq> None" "map_json (in_AuthorityConstraints i) \<noteq> None"
    by (auto simp: input_json_def split: option.splits)
  moreover have "time_json zero_time \<noteq> None" by code_simp
  ultimately obtain x where "input_json ?norm = Some x" by (auto simp: input_json_def)
  then show ?thesis using assms by (simp add: AuthorizationDigest_def Let_def)
qed

section \<open>Sizes\<close>

text \<open>An upper bound of the length of a JSON text.\<close>

fun json_bound :: "json \<Rightarrow> nat" where
  "json_bound JNull = 4"
| "json_bound (JBool _) = 5"
| "json_bound (JNum i) = nat \<bar>i\<bar> + 2"
| "json_bound (JReal s) = length s"
| "json_bound (JStr s) = 6 * length s + 2"
| "json_bound (JArr vs) = 2 + sum_list (map (\<lambda>v. 1 + json_bound v) vs)"
| "json_bound (JObj kvs) = 2 + sum_list (map (\<lambda>(k, v). 6 * length k + 4 + json_bound v) kvs)"

lemma length_FormatUint: "length (FormatUint n) \<le> n + 1"
proof (induction n rule: FormatUint.induct)
  case (1 n)
  then show ?case by (cases "n < 10") (simp_all add: FormatUint.simps[of n])
qed

lemma length_FormatInt: "length (FormatInt i) \<le> nat \<bar>i\<bar> + 2"
  using length_FormatUint[of "nat \<bar>i\<bar>"] by (auto simp: FormatInt_def)

lemma length_json_escape: "length (json_escape s) \<le> 6 * length s"
  by (induction s rule: json_escape.induct) (auto simp: Let_def unicode_escape_def)

lemma length_join: "length (join sep ss) \<le> sum_list (map (\<lambda>s. length sep + length s) ss)"
  by (induction sep ss rule: join.induct) auto

lemma length_json_text: "length (json_text j) \<le> json_bound j"
proof (induction j rule: json_text.induct)
  case (6 vs)
  have "length (json_text (JArr vs)) \<le> 2 + sum_list (map (\<lambda>s. 1 + length s) (map json_text vs))"
    using length_join[of "'',''" "map json_text vs"] by simp
  also have "\<dots> \<le> json_bound (JArr vs)" using 6 by (auto simp: comp_def intro!: sum_list_mono)
  finally show ?case .
next
  case (7 kvs)
  let ?f = "\<lambda>(k, v). json_string k @ '':'' @ json_text v"
  have "length (json_text (JObj kvs)) \<le> 2 + sum_list (map (\<lambda>s. 1 + length s) (map ?f kvs))"
    using length_join[of "'',''" "map ?f kvs"] by simp
  also have "\<dots> \<le> json_bound (JObj kvs)"
    using 7 length_json_escape by (auto simp: comp_def json_string_def intro!: sum_list_mono add_mono le_trans[OF length_json_escape])
  finally show ?case .
next
  case (3 i)
  then show ?case using length_FormatInt[of i] by simp
qed (auto simp: json_string_def length_json_escape)

section \<open>Properties\<close>

text \<open>
  The digest under which decisions are cached depends on what authorizes and on nothing else: two valid inputs that
  differ only in the decision identifier, the time, the request identifier, and the order and repetition of roles and of authentication
  methods, have the same digest.
\<close>

theorem authorization_digest_canonical:
  assumes "Input_Validate i = Inr ()" "Input_Validate j = Inr ()"
    and "j = i\<lparr>in_DecisionID := d, in_RequestTime := t, in_Context := (in_Context i)\<lparr>ctx_RequestID := r\<rparr>,
      in_Subject := (in_Subject i)\<lparr>sub_Roles := roles, sub_AuthenticationMethods := methods\<rparr>\<rparr>"
    and "set (case_option [] id roles) = set (case_option [] id (sub_Roles (in_Subject i)))"
    and "set (case_option [] id methods) = set (case_option [] id (sub_AuthenticationMethods (in_Subject i)))"
  shows "AuthorizationDigest sha256 j = AuthorizationDigest sha256 i \<and> (\<exists>x. AuthorizationDigest sha256 i = Inr x)"
proof -
  let ?norm = "\<lambda>i. i\<lparr>in_DecisionID := [], in_RequestTime := zero_time, in_Context := (in_Context i)\<lparr>ctx_RequestID := []\<rparr>,
    in_Subject := (in_Subject i)\<lparr>sub_Roles := NormalizeStrings (sub_Roles (in_Subject i)),
      sub_AuthenticationMethods := NormalizeStrings (sub_AuthenticationMethods (in_Subject i))\<rparr>\<rparr>"
  have norm: "?norm j = ?norm i"
    using NormalizeStrings_set[OF assms(4)] NormalizeStrings_set[OF assms(5)] by (simp add: assms(3))
  show ?thesis using assms(1,2) norm AuthorizationDigest_valid[OF assms(1), of sha256] by (simp add: AuthorizationDigest_def Let_def)
qed

text \<open>
  C34: a decision that passes validation never exceeds the authority: every use that its resolved constraints permit is permitted by
  the authority and, except for a new run, by the request; for a new run the constraints that take effect permit exactly what the authority
  permits and neither the request nor the decision forbids.
\<close>

theorem decision_within_authority:
  assumes "ValidateDecision d i maxTTL = Inr ()" "dec_ResolvedConstraints d = Some r"
    and "in_AuthorityConstraints i = Some a" "in_RequestedConstraints i = Some q"
    and "decoded (AObj a)" "decoded (AObj q)" "decoded (AObj r)"
  shows "(permits (AObj r) path u \<longrightarrow> permits (AObj a) path u) \<and>
    (if dec_Allow d \<and> in_Action i = ''runs.create''
     then \<exists>e. ResolveConstraints (Some a) (Some q) (Some r) = Inr e \<and>
       (permits (AObj e) path u \<longleftrightarrow> permits (AObj a) path u \<and> allows (AObj q) path u \<and> allows (AObj r) path u)
     else permits (AObj r) path u \<longrightarrow> permits (AObj q) path u)"
proof -
  have narrow: "constraintsNarrow r a"
    and rest: "if dec_Allow d \<and> in_Action i = ''runs.create'' then \<exists>e. ResolveConstraints (Some a) (Some q) (Some r) = Inr e else constraintsNarrow r q"
    using assms(1-4) by (auto simp: ValidateDecision_def Let_def and_then_Inr split: if_splits option.splits)
  have "permits (AObj r) path u \<Longrightarrow> permits (AObj a) path u" using narrow_permits[of "AObj r" "AObj a"] narrow assms(7) by (simp only: narrow_obj)
  moreover have "permits (AObj r) path u \<Longrightarrow> permits (AObj q) path u" if "constraintsNarrow r q"
    using narrow_permits[of "AObj r" "AObj q"] that assms(7) by (simp only: narrow_obj)
  moreover have "permits (AObj e) path u \<longleftrightarrow> permits (AObj a) path u \<and> allows (AObj q) path u \<and> allows (AObj r) path u"
    if e: "ResolveConstraints (Some a) (Some q) (Some r) = Inr e" for e
  proof -
    obtain m where m: "IntersectConstraints a q = Inr m" "IntersectConstraints m r = Inr e"
      using e by (auto simp: ResolveConstraints_def and_then_Inr split: if_splits)
    show ?thesis using IntersectConstraints_meet[OF m(1) assms(5,6)] IntersectConstraints_meet(1)[OF m(2) _ assms(7), of path u] by auto
  qed
  ultimately show ?thesis using rest by auto
qed


section \<open>Witnesses\<close>

definition demo_input :: Input where
  "demo_input =
     \<lparr>in_ContractVersion = ContractVersion, in_DecisionID = ''d1'', in_RequestTime = demo_time 100,
      in_Subject = \<lparr>sub_PrincipalID = ''p'', sub_TenantID = ''t'', sub_PrincipalType = ''human'', sub_Roles = Some [''viewer'', ''invoker'', ''viewer''],
        sub_AuthenticationMethods = None, sub_Issuer = ''https://issuer''\<rparr>,
      in_Action = ''runs.create'', in_Resource = \<lparr>res_Type = ''agent'', res_ID = ''a'', res_TenantID = ''t'', res_Attributes = Some [(''tool_id'', AArr [AStr ''shell''])]\<rparr>,
      in_Agent = None, in_RequestedConstraints = Some demo_requested, in_AuthorityConstraints = Some demo_authority,
      in_SecurityState = \<lparr>ss_GlobalEpoch = 1, ss_TenantPolicyEpoch = 0, ss_TenantRevocationEpoch = 1, ss_AgentRevocationEpoch = 0, ss_AgeSeconds = 2,
        ss_FreshnessMaxAgeSeconds = 30, ss_HasGap = False, ss_Authoritative = False\<rparr>,
      in_Context = \<lparr>ctx_RequestID = ''r1'', ctx_SourceWorkload = []\<rparr>\<rparr>"

definition demo_decision :: Decision where
  "demo_decision =
     \<lparr>dec_ContractVersion = ContractVersion, dec_DecisionID = ''d1'', dec_Allow = True, dec_ReasonCodes = Some [''agent.invoke.allowed''],
      dec_ResolvedConstraints = Some [(''max_llm_tokens'', ANum ''50'' (Some ''50''))], dec_Obligations = Some [], dec_DecisionTTLSeconds = 60\<rparr>"

lemma demo_fields: "normalized_field ''max_llm_tokens'' = ''max_llm_tokens''" "normalized_field ''tools'' = ''tools''"
  "normalized_field ''limits'' = ''limits''" "normalized_field ''depth'' = ''depth''" "normalized_field ''tool_id'' = ''tool_id''"
  by code_simp+

lemma demo_unrestricted:
  "\<not> containsRestrictedPolicyField (AObj demo_authority)" "\<not> containsRestrictedPolicyField (AObj demo_requested)"
  "\<not> containsRestrictedPolicyField (AObj [(''tool_id'', AArr [AStr ''shell''])])"
  by (simp_all add: demo_authority_def demo_requested_def restricted_policy_fields_def demo_fields)

lemma demo_times: "time_json (demo_time 100) = Some (JStr ''1970-01-01T00:00:00.0000001Z'')"
  by code_simp

lemma boundedJSON_bound: "json_bound j \<le> limit \<Longrightarrow> boundedJSON (Some j) limit = Inr ()"
  using length_json_text[of j] by (simp add: boundedJSON_def)

lemmas json_eval = input_json_def decision_json_def subject_json_def security_json_def agent_json_def slice_json_def map_json_def

definition demo_input_again :: Input where
  "demo_input_again = demo_input\<lparr>in_DecisionID := ''d2'', in_RequestTime := demo_time 100, in_Context := (in_Context demo_input)\<lparr>ctx_RequestID := ''r2''\<rparr>,
     in_Subject := (in_Subject demo_input)\<lparr>sub_Roles := Some [''invoker'', ''viewer''], sub_AuthenticationMethods := None\<rparr>\<rparr>"

lemma demo_input_valid: "Input_Validate demo_input = Inr ()" "Input_Validate demo_input_again = Inr ()"
proof -
  have "boundedJSON (input_json demo_input) 65536 = Inr ()" "boundedJSON (input_json demo_input_again) 65536 = Inr ()"
    by (simp add: demo_input_again_def demo_input_def json_eval demo_times demo_authority_def demo_requested_def ContractVersion_def, rule boundedJSON_bound, simp)+
  then show "Input_Validate demo_input = Inr ()" "Input_Validate demo_input_again = Inr ()"
    using demo_unrestricted by (simp_all add: Input_Validate_def demo_input_again_def demo_input_def ContractVersion_def demo_time_def IsZeroTime_def zero_nano_def)
qed

lemma demo_decision_valid: "ValidateDecision demo_decision demo_input (300 * Second) = Inr ()"
proof -
  have "boundedJSON (decision_json demo_decision) 65536 = Inr ()"
    by (simp add: demo_decision_def json_eval ContractVersion_def) (rule boundedJSON_bound, simp)
  then show ?thesis
    by (simp add: ValidateDecision_def demo_decision_def demo_input_def reasonCodes_def seconds_def Second_def wrap64_def constraintsNarrow_def
        demo_authority_def demo_requested_def constraintNumber_def demo_numbers ResolveConstraints_def IntersectConstraints_def intersect_maps_def)
qed

theorem authorization_digest_canonical_witness:
  "demo_input_again \<noteq> demo_input \<and> AuthorizationDigest (env_sha256 demo_env) demo_input_again = AuthorizationDigest (env_sha256 demo_env) demo_input \<and>
   (\<exists>x. AuthorizationDigest (env_sha256 demo_env) demo_input = Inr x)"
  using authorization_digest_canonical[OF demo_input_valid demo_input_again_def, of "env_sha256 demo_env"]
  by (auto simp: demo_input_again_def demo_input_def)

theorem decision_within_authority_witness:
  "\<exists>e. ResolveConstraints (Some demo_authority) (Some demo_requested) (Some [(''max_llm_tokens'', ANum ''50'' (Some ''50''))]) = Inr e \<and>
     permits (AObj e) [''max_llm_tokens''] (Amount 50) \<and> \<not> permits (AObj e) [''max_llm_tokens''] (Amount 51)"
proof -
  let ?r = "[(''max_llm_tokens'', ANum ''50'' (Some ''50''))]"
  have a: "dec_ResolvedConstraints demo_decision = Some ?r" "in_AuthorityConstraints demo_input = Some demo_authority" "in_RequestedConstraints demo_input = Some demo_requested"
    "decoded (AObj ?r)" "dec_Allow demo_decision \<and> in_Action demo_input = ''runs.create''"
    by (simp_all add: demo_decision_def demo_input_def demo_numbers)
  note d = decision_within_authority[OF demo_decision_valid a(1-3) demo_decoded a(4), of "[''max_llm_tokens'']"]
  show ?thesis using d[of "Amount 50"] d[of "Amount 51"] a(5) by (auto simp: demo_authority_def demo_requested_def constraintNumber_def demo_numbers)
qed

end
