(* ===== verification/RevocationStore.thy ===== *)
theory RevocationStore
  imports Usage "HOL-Library.Product_Lexorder" "HOL-Library.Sublist"
begin

text \<open>
  The revocation authority: creation and lifting of revocations with their epochs, log, audit event and outbox
  message in one transaction (internal/adapters/postgres/revocation.go), and what is distributed of it, the
  snapshot of active revocations, the changes after a sequence number and the checkpoints of gateways
  (revocation\_distribution.go). The row lock on the singleton of security\_epochs is taken before a log entry
  gets its number, so the entries commit in the order of their numbers; a number that a rolled back
  transaction has used is lost, and \<open>skipped\<close> is how many were lost since the last entry. The two statements of
  a snapshot are read in one state of the store.
\<close>

section \<open>Active revocations\<close>

definition foreign_key_violation :: goerror where
  "foreign_key_violation = New ''SQLSTATE 23503''"

definition no_rows :: goerror where
  "no_rows = New ''no rows in result set''"

text \<open>\<open>ORDER BY changed_at DESC,id DESC LIMIT 1\<close>.\<close>

definition change_order :: "revocation_change_row \<Rightarrow> int \<times> ID" where
  "change_order c = (unix_nano (rc_changed c), rc_id c)"

definition latest_change :: "ID \<Rightarrow> DB \<Rightarrow> revocation_change_row option" where
  "latest_change i db =
     (case filter (\<lambda>c. rc_revocation c = i) (revocation_changes db) of
        [] \<Rightarrow> None
      | cs \<Rightarrow> Some (last (sort_key change_order cs)))"

definition revocation_active :: "Time \<Rightarrow> DB \<Rightarrow> revocation_row \<Rightarrow> bool" where
  "revocation_active now db r \<longleftrightarrow>
     unix_nano (rk_effective r) \<le> unix_nano now \<and>
     (case rk_expires r of None \<Rightarrow> True | Some t \<Rightarrow> unix_nano now < unix_nano t) \<and>
     map_option rc_type (latest_change (rk_id r) db) = Some RevocationCreated"

definition visible_to :: "ID \<Rightarrow> ID option \<Rightarrow> bool" where
  "visible_to tenant t \<longleftrightarrow> t = None \<or> t = Some tenant"

section \<open>Epochs\<close>

definition find_tenant_epoch :: "ID \<Rightarrow> DB \<Rightarrow> tenant_epoch_row option" where
  "find_tenant_epoch tenant db = List.find (\<lambda>e. te_tenant e = tenant) (tenant_security_epochs db)"

definition find_agent_epoch :: "ID \<Rightarrow> ID \<Rightarrow> DB \<Rightarrow> agent_epoch_row option" where
  "find_agent_epoch tenant agent db = List.find (\<lambda>e. ae_tenant e = tenant \<and> ae_agent e = agent) (agent_security_epochs db)"

definition increment_security_epoch :: "DB \<Rightarrow> (int \<times> DB) result" where
  "increment_security_epoch db =
     (if security_epoch db < MaxInt64
      then Inr (security_epoch db + 1, db\<lparr>security_epoch := security_epoch db + 1\<rparr>)
      else Inl (NewError CodeConflict ''security epoch is exhausted''))"

text \<open>The upsert of a tenant's epochs; the policy epoch advances for tenant and policy revocations only.\<close>

definition increment_tenant_epochs :: "ID \<Rightarrow> bool \<Rightarrow> DB \<Rightarrow> (int \<times> int \<times> DB) result" where
  "increment_tenant_epochs tenant policy db =
     (case find_tenant_epoch tenant db of
        None \<Rightarrow>
          let p = (if policy then 1 else 0) in
          Inr (p, 1, db\<lparr>tenant_security_epochs := tenant_security_epochs db @ [\<lparr>te_tenant = tenant, te_policy = p, te_revocation = 1\<rparr>]\<rparr>)
      | Some e \<Rightarrow>
          if (policy \<longrightarrow> te_policy e < MaxInt64) \<and> te_revocation e < MaxInt64
          then
            let p = (if policy then te_policy e + 1 else te_policy e); r = te_revocation e + 1 in
            Inr (p, r, db\<lparr>tenant_security_epochs :=
              update_where (\<lambda>x. te_tenant x = tenant) (\<lambda>x. x\<lparr>te_policy := p, te_revocation := r\<rparr>) (tenant_security_epochs db)\<rparr>)
          else Inl (NewError CodeConflict ''tenant epoch is exhausted''))"

text \<open>The upsert of an agent's epoch. Every error of the statement is reported as exhaustion, an unknown agent included.\<close>

definition increment_agent_epoch :: "ID \<Rightarrow> ID \<Rightarrow> DB \<Rightarrow> (int \<times> DB) result" where
  "increment_agent_epoch tenant agent db =
     (case find_agent_epoch tenant agent db of
        None \<Rightarrow>
          if list_ex (\<lambda>a. a_tenant a = tenant \<and> a_id a = agent) (agents db)
          then Inr (1, db\<lparr>agent_security_epochs := agent_security_epochs db @ [\<lparr>ae_tenant = tenant, ae_agent = agent, ae_revocation = 1\<rparr>]\<rparr>)
          else Inl (NewError CodeConflict ''agent epoch is exhausted'')
      | Some e \<Rightarrow>
          if ae_revocation e < MaxInt64
          then Inr (ae_revocation e + 1, db\<lparr>agent_security_epochs :=
            update_where (\<lambda>x. ae_tenant x = tenant \<and> ae_agent x = agent) (\<lambda>x. x\<lparr>ae_revocation := ae_revocation e + 1\<rparr>) (agent_security_epochs db)\<rparr>)
          else Inl (NewError CodeConflict ''agent epoch is exhausted''))"

text \<open>The agent whose epoch a revocation advances: the text of its identifier, empty when there is none.\<close>

definition revoked_agent :: "ID \<Rightarrow> Revocation \<Rightarrow> DB \<Rightarrow> string result" where
  "revoked_agent tenant v db =
     (if rvk_Scope v = RevocationAgentID then Inr (rvk_Target v)
      else if rvk_Scope v = RevocationAgentVersion
      then case List.find (\<lambda>a. av_tenant a = tenant \<and> av_content_digest a = rvk_Target v) (agent_versions db) of
          None \<Rightarrow> Inl (NewError CodeInvalidArgument ''agent-version revocation target is invalid'')
        | Some a \<Rightarrow> Inr (ID_String (av_agent a))
      else Inr [])"

definition incrementRevocationEpochs :: "Revocation \<Rightarrow> DB \<Rightarrow> (EpochVector \<times> DB) result" where
  "incrementRevocationEpochs v db =
     and_then (increment_security_epoch db) (\<lambda>(s, db).
       case rvk_TenantID v of
         None \<Rightarrow> Inr (\<lparr>Security = s, TenantPolicy = 0, TenantRevocation = 0, AgentRevocation = 0\<rparr>, db)
       | Some tenant \<Rightarrow>
           and_then (increment_tenant_epochs tenant (rvk_Scope v = RevocationTenantID \<or> rvk_Scope v = RevocationPolicyVersion) db) (\<lambda>(p, r, db).
           and_then (revoked_agent tenant v db) (\<lambda>agent.
             if agent = [] then Inr (\<lparr>Security = s, TenantPolicy = p, TenantRevocation = r, AgentRevocation = 0\<rparr>, db)
             else case ParseID agent of
               Inl _ \<Rightarrow> Inl (NewError CodeInvalidArgument ''agent revocation target is invalid'')
             | Inr a \<Rightarrow> and_then (increment_agent_epoch tenant a db) (\<lambda>(g, db).
                 Inr (\<lparr>Security = s, TenantPolicy = p, TenantRevocation = r, AgentRevocation = g\<rparr>, db)))))"

definition nullableEpoch :: "ID option \<Rightarrow> int \<Rightarrow> int option" where
  "nullableEpoch t v = (case t of None \<Rightarrow> None | Some _ \<Rightarrow> Some v)"

definition nullableAgentEpoch :: "int \<Rightarrow> int option" where
  "nullableAgentEpoch v = (if v = 0 then None else Some v)"

section \<open>Changes\<close>

record RevocationEvidence =
  rve_ChangeID :: ID
  rve_EventID :: ID
  rve_AuditID :: ID
  rve_OutboxID :: ID
  rve_RequestID :: ID
  rve_PolicyDecisionID :: ID
  rve_ReasonCodes :: "string list"

text \<open>The actor of a tenant's row is one of its principals; a row without tenant is not checked.\<close>

definition actor_exists :: "ID option \<Rightarrow> ID option \<Rightarrow> DB \<Rightarrow> bool" where
  "actor_exists tenant actor db =
     (case (tenant, actor) of
        (Some t, Some a) \<Rightarrow> list_ex (\<lambda>p. p_tenant p = t \<and> p_id p = a) (principals db)
      | _ \<Rightarrow> True)"

definition null_if_empty :: "string \<Rightarrow> string option" where
  "null_if_empty s = (if s = [] then None else Some s)"

definition insert_revocation :: "Revocation \<Rightarrow> DB \<Rightarrow> DB result" where
  "insert_revocation v db =
     (let row = \<lparr>rk_id = rvk_ID v, rk_tenant = rvk_TenantID v, rk_scope = rvk_Scope v, rk_target = rvk_Target v,
           rk_reason_code = rvk_ReasonCode v, rk_detail_reference = null_if_empty (rvk_DetailReference v),
           rk_actor = Some (rvk_ActorPrincipalID v), rk_approval_reference = null_if_empty (rvk_ApprovalReference v),
           rk_effective = rvk_EffectiveAt v, rk_expires = rvk_ExpiresAt v, rk_created = rvk_CreatedAt v\<rparr>
      in and_then (pg_insert revocation_check revocation_conflict row (revocations db)) (\<lambda>rows.
        if \<not> actor_exists (rk_tenant row) (rk_actor row) db then Inl foreign_key_violation
        else Inr (db\<lparr>revocations := rows\<rparr>)))"

definition insert_revocation_change :: "revocation_change_row \<Rightarrow> DB \<Rightarrow> DB result" where
  "insert_revocation_change c db =
     and_then (pg_insert revocation_change_check revocation_change_conflict c (revocation_changes db)) (\<lambda>rows.
       if \<not> actor_exists (rc_tenant c) (rc_actor c) db then Inl foreign_key_violation
       else Inr (db\<lparr>revocation_changes := rows\<rparr>))"

definition next_log_sequence :: "nat \<Rightarrow> DB \<Rightarrow> int" where
  "next_log_sequence skipped db = foldr (\<lambda>l n. max (rl_sequence l) n) (revocation_log db) 0 + 1 + int skipped"

definition insert_revocation_log :: "revocation_log_row \<Rightarrow> DB \<Rightarrow> DB result" where
  "insert_revocation_log l db =
     and_then (pg_insert revocation_log_check revocation_log_conflict l (revocation_log db)) (\<lambda>rows. Inr (db\<lparr>revocation_log := rows\<rparr>))"

text \<open>The row of a revocation as the domain value that a lift returns; the actor is the one who lifts.\<close>

definition stored_revocation :: "ID \<Rightarrow> revocation_row \<Rightarrow> Revocation" where
  "stored_revocation actor r =
     \<lparr>rvk_ID = rk_id r, rvk_ActorPrincipalID = actor, rvk_TenantID = rk_tenant r, rvk_Scope = rk_scope r, rvk_Target = rk_target r,
      rvk_ReasonCode = rk_reason_code r, rvk_DetailReference = case_option [] id (rk_detail_reference r),
      rvk_ApprovalReference = case_option [] id (rk_approval_reference r), rvk_EffectiveAt = rk_effective r,
      rvk_ExpiresAt = rk_expires r, rvk_CreatedAt = rk_created r\<rparr>"

text \<open>
  The first part of the transaction: a new revocation is inserted, one to be lifted is read and must
  be active. The result is the revocation.
\<close>

definition change_target :: "ID \<Rightarrow> Revocation \<Rightarrow> RevocationLift option \<Rightarrow> DB \<Rightarrow> (Revocation \<times> DB) result" where
  "change_target tenant created lift db =
     (case lift of
        None \<Rightarrow> and_then (wrapping ''insert revocation'' (insert_revocation created db)) (\<lambda>db. Inr (created, db))
      | Some l \<Rightarrow>
          (case List.find (\<lambda>r. rk_id r = lift_RevocationID l) (revocations db) of
             None \<Rightarrow> Inl (NewError CodeNotFound ''revocation not found'')
           | Some r \<Rightarrow>
               if \<not> visible_to tenant (rk_tenant r) then Inl (NewError CodeNotFound ''revocation not found'')
               else case latest_change (lift_RevocationID l) db of
                   None \<Rightarrow> Inl (Wrapf ''read revocation state'' no_rows)
                 | Some c \<Rightarrow>
                     if rc_type c \<noteq> RevocationCreated then Inl (NewError CodeConflict ''revocation is not active'')
                     else Inr (stored_revocation (lift_ActorPrincipalID l) r, db)))"

definition epochs_json :: "EpochVector \<Rightarrow> json" where
  "epochs_json e =
     JObj [(''security_epoch'', JNum (Security e)), (''tenant_policy_epoch'', JNum (TenantPolicy e)),
           (''tenant_revocation_epoch'', JNum (TenantRevocation e)), (''agent_revocation_epoch'', JNum (AgentRevocation e))]"

definition change_word :: "RevocationChangeType \<Rightarrow> string" where
  "change_word change = to_lower (RevocationChangeType_text change)"

definition revocation_audit ::
  "ID \<Rightarrow> RevocationEvidence \<Rightarrow> Revocation \<Rightarrow> RevocationChangeType \<Rightarrow> ID \<Rightarrow> string \<Rightarrow> string \<Rightarrow> Time \<Rightarrow> AuditEvent" where
  "revocation_audit tenant e v change actor reason approval at =
     \<lparr>au_ID = rve_AuditID e, au_TenantID = Some tenant, au_PrincipalID = Some actor, au_Action = ''revocations.'' @ change_word change,
      au_ResourceType = ''revocation'', au_ResourceID = ID_String (rvk_ID v), au_Outcome = ''SUCCEEDED'',
      au_ReasonCodes = JArr (map JStr (rve_ReasonCodes e)), au_PolicyDecisionID = Some (rve_PolicyDecisionID e),
      au_RequestID = Some (rve_RequestID e), au_TraceID = [],
      au_Metadata = JObj [(''approval_reference'', JStr approval), (''change'', JStr (RevocationChangeType_text change)),
        (''reason_code'', JStr reason), (''scope'', JStr (RevocationScope_text (rvk_Scope v))), (''target'', JStr (rvk_Target v))],
      au_PreviousHash = [], au_OccurredAt = at\<rparr>"

definition revocation_message :: "RevocationEvidence \<Rightarrow> Revocation \<Rightarrow> RevocationChangeType \<Rightarrow> EpochVector \<Rightarrow> int \<Rightarrow> Time \<Rightarrow> OutboxMessage" where
  "revocation_message e v change epochs seq at =
     \<lparr>ob_ID = rve_OutboxID e, ob_TenantID = rvk_TenantID v, ob_AggregateType = ''revocation'', ob_AggregateID = ID_String (rvk_ID v),
      ob_EventType = ''revocation.'' @ change_word change, ob_SchemaVersion = 1,
      ob_Payload = JObj [(''change'', JStr (RevocationChangeType_text change)), (''epochs'', epochs_json epochs),
        (''event_id'', JStr (ID_String (rve_EventID e))), (''revocation_id'', JStr (ID_String (rvk_ID v))),
        (''scope'', JStr (RevocationScope_text (rvk_Scope v))), (''sequence'', JNum seq), (''target'', JStr (rvk_Target v))],
      ob_Headers = JObj [], ob_OccurredAt = at, ob_AvailableAt = at\<rparr>"

text \<open>The change, the epochs, the log entry and the evidence of a revocation that was inserted or found.\<close>

definition record_change ::
  "Env \<Rightarrow> nat \<Rightarrow> ID \<Rightarrow> RevocationEvidence \<Rightarrow> Revocation \<Rightarrow> RevocationChangeType \<Rightarrow> ID \<Rightarrow> string \<Rightarrow> string \<Rightarrow> Time \<Rightarrow> DB \<Rightarrow> (RevocationResult \<times> DB) result" where
  "record_change env skipped tenant e v change actor reason approval at db =
     and_then (wrapping ''append revocation change'' (insert_revocation_change
         \<lparr>rc_id = rve_ChangeID e, rc_revocation = rvk_ID v, rc_tenant = rvk_TenantID v, rc_type = change, rc_actor = Some actor,
          rc_reason_code = reason, rc_changed = at\<rparr> db)) (\<lambda>db.
     and_then (incrementRevocationEpochs v db) (\<lambda>(epochs, db).
     let seq = next_log_sequence skipped db in
     and_then (wrapping ''append revocation log'' (insert_revocation_log
         \<lparr>rl_sequence = seq, rl_event = rve_EventID e, rl_revocation = rvk_ID v, rl_change = rve_ChangeID e, rl_tenant = rvk_TenantID v,
          rl_scope = rvk_Scope v, rl_target = rvk_Target v, rl_change_type = change, rl_security_epoch = Security epochs,
          rl_tenant_policy_epoch = nullableEpoch (rvk_TenantID v) (TenantPolicy epochs),
          rl_tenant_revocation_epoch = nullableEpoch (rvk_TenantID v) (TenantRevocation epochs),
          rl_agent_revocation_epoch = nullableAgentEpoch (AgentRevocation epochs), rl_committed = at\<rparr> db)) (\<lambda>db.
     and_then (wrapping ''append revocation evidence'' (and_then
         (insert_audit env (revocation_audit tenant e v change actor reason approval at) db)
         (insert_outbox (revocation_message e v change epochs seq at)))) (\<lambda>db.
     Inr (\<lparr>rres_RevocationID = rvk_ID v, rres_Revocation = v, rres_State = change, rres_Sequence = seq, rres_Epochs = epochs\<rparr>, db)))))"

definition changeRevocation ::
  "Env \<Rightarrow> nat \<Rightarrow> ID \<Rightarrow> Revocation \<Rightarrow> RevocationLift option \<Rightarrow> RevocationEvidence \<Rightarrow> DB \<Rightarrow> (RevocationResult \<times> DB) result" where
  "changeRevocation env skipped tenant created lift e db =
     and_then (repository_valid tenant) (\<lambda>_.
       if IsZero (rve_ChangeID e) \<or> IsZero (rve_EventID e) \<or> IsZero (rve_AuditID e) \<or> IsZero (rve_OutboxID e)
          \<or> IsZero (rve_RequestID e) \<or> IsZero (rve_PolicyDecisionID e) \<or> rve_ReasonCodes e = []
       then Inl (New ''revocation evidence is invalid'')
       else and_then (change_target tenant created lift db) (\<lambda>(v, db).
         case lift of
           None \<Rightarrow> record_change env skipped tenant e v RevocationCreated (rvk_ActorPrincipalID created) (rvk_ReasonCode created)
                     (rvk_ApprovalReference v) (rvk_CreatedAt created) db
         | Some l \<Rightarrow> record_change env skipped tenant e v RevocationLifted (lift_ActorPrincipalID l) (lift_ReasonCode l)
                     (lift_ApprovalReference l) (lift_ChangedAt l) db))"

definition CreateRevocation :: "Env \<Rightarrow> nat \<Rightarrow> ID \<Rightarrow> Revocation \<Rightarrow> RevocationEvidence \<Rightarrow> DB \<Rightarrow> (RevocationResult \<times> DB) result" where
  "CreateRevocation env skipped tenant v e db =
     and_then (ValidateRevocation v) (\<lambda>v.
       if rvk_Scope v \<noteq> RevocationGlobal \<and> rvk_TenantID v \<noteq> Some tenant
       then Inl (New ''revocation does not match repository scope'')
       else changeRevocation env skipped tenant v None e db)"

text \<open>A lift passes the empty revocation, which is not read.\<close>

definition LiftRevocation :: "Env \<Rightarrow> nat \<Rightarrow> ID \<Rightarrow> RevocationLift \<Rightarrow> RevocationEvidence \<Rightarrow> DB \<Rightarrow> (RevocationResult \<times> DB) result" where
  "LiftRevocation env skipped tenant l e db =
     and_then (ValidateRevocationLift l) (\<lambda>l.
       if \<not> visible_to tenant (lift_TenantID l) then Inl (New ''revocation lift does not match repository scope'')
       else changeRevocation env skipped tenant
         \<lparr>rvk_ID = 0, rvk_ActorPrincipalID = 0, rvk_TenantID = None, rvk_Scope = RevocationScopeOther [], rvk_Target = [], rvk_ReasonCode = [],
          rvk_DetailReference = [], rvk_ApprovalReference = [], rvk_EffectiveAt = zero_time, rvk_ExpiresAt = None, rvk_CreatedAt = zero_time\<rparr>
         (Some l) e db)"

section \<open>Distribution\<close>

record SnapshotState =
  snap_Sequence :: int
  snap_Epochs :: EpochVector
  snap_Active :: "Revocation list"

text \<open>A stored revocation with its own actor, zero when there is none.\<close>

definition distributed_revocation :: "revocation_row \<Rightarrow> Revocation" where
  "distributed_revocation r = stored_revocation (case_option 0 id (rk_actor r)) r"

definition max_sequence :: "ID \<Rightarrow> DB \<Rightarrow> int" where
  "max_sequence tenant db = foldr (\<lambda>l n. if visible_to tenant (rl_tenant l) then max (rl_sequence l) n else n) (revocation_log db) 0"

definition max_agent_epoch :: "ID \<Rightarrow> DB \<Rightarrow> int" where
  "max_agent_epoch tenant db = foldr (\<lambda>e n. if ae_tenant e = tenant then max (ae_revocation e) n else n) (agent_security_epochs db) 0"

definition revocation_key :: "revocation_row \<Rightarrow> string \<times> string \<times> ID" where
  "revocation_key r = (RevocationScope_text (rk_scope r), rk_target r, rk_id r)"

definition active_revocations :: "ID \<Rightarrow> Time \<Rightarrow> DB \<Rightarrow> revocation_row list" where
  "active_revocations tenant now db =
     sort_key revocation_key (filter (\<lambda>r. visible_to tenant (rk_tenant r) \<and> revocation_active now db r) (revocations db))"

definition RevocationSnapshot :: "ID \<Rightarrow> Time \<Rightarrow> DB \<Rightarrow> SnapshotState result" where
  "RevocationSnapshot tenant now db =
     (if IsZero tenant \<or> IsZeroTime now then Inl (New ''revocation snapshot query is invalid'')
      else Inr \<lparr>snap_Sequence = max_sequence tenant db,
        snap_Epochs = \<lparr>Security = security_epoch db, TenantPolicy = (case find_tenant_epoch tenant db of None \<Rightarrow> 0 | Some e \<Rightarrow> te_policy e),
          TenantRevocation = (case find_tenant_epoch tenant db of None \<Rightarrow> 0 | Some e \<Rightarrow> te_revocation e),
          AgentRevocation = max_agent_epoch tenant db\<rparr>,
        snap_Active = map distributed_revocation (active_revocations tenant now db)\<rparr>)"

record RevocationAuthorityState =
  auth_Epochs :: EpochVector
  auth_Active :: "Revocation list"

definition AuthoritativeRevocations :: "ID \<Rightarrow> ID \<Rightarrow> Time \<Rightarrow> DB \<Rightarrow> RevocationAuthorityState result" where
  "AuthoritativeRevocations tenant agent now db =
     and_then (RevocationSnapshot tenant now db) (\<lambda>s.
       let epochs = (if IsZero agent then snap_Epochs s
         else (snap_Epochs s)\<lparr>AgentRevocation := (case find_agent_epoch tenant agent db of None \<Rightarrow> 0 | Some e \<Rightarrow> ae_revocation e)\<rparr>)
       in Inr \<lparr>auth_Epochs = epochs, auth_Active = snap_Active s\<rparr>)"

record RevocationLogEntry =
  log_EventID :: ID
  log_Sequence :: int
  log_Revocation :: Revocation
  log_Change :: RevocationChangeType
  log_Epochs :: EpochVector
  log_OccurredAt :: Time

definition ErrRevocationCursorGone :: goerror where
  "ErrRevocationCursorGone = New ''revocation cursor is outside retention''"

definition scan_log_entry :: "DB \<Rightarrow> revocation_log_row \<Rightarrow> RevocationLogEntry option" where
  "scan_log_entry db l =
     map_option (\<lambda>r. \<lparr>log_EventID = rl_event l, log_Sequence = rl_sequence l,
         log_Revocation = (distributed_revocation r)\<lparr>rvk_TenantID := rl_tenant l, rvk_Scope := rl_scope l, rvk_Target := rl_target l\<rparr>,
         log_Change = rl_change_type l,
         log_Epochs = \<lparr>Security = rl_security_epoch l, TenantPolicy = case_option 0 id (rl_tenant_policy_epoch l),
           TenantRevocation = case_option 0 id (rl_tenant_revocation_epoch l), AgentRevocation = case_option 0 id (rl_agent_revocation_epoch l)\<rparr>,
         log_OccurredAt = rl_committed l\<rparr>)
       (List.find (\<lambda>r. rk_id r = rl_revocation l) (revocations db))"

text \<open>The smallest number of a retained entry that the tenant sees, and whether it sees one that is not retained.\<close>

definition retained :: "Time \<Rightarrow> revocation_log_row \<Rightarrow> bool" where
  "retained retainedAfter l \<longleftrightarrow> unix_nano retainedAfter \<le> unix_nano (rl_committed l)"

definition retention_boundary :: "ID \<Rightarrow> Time \<Rightarrow> DB \<Rightarrow> int option \<times> bool" where
  "retention_boundary tenant retainedAfter db =
     (let seen = filter (\<lambda>l. visible_to tenant (rl_tenant l)) (revocation_log db);
          sequences = map rl_sequence (filter (retained retainedAfter) seen)
      in (if sequences = [] then None else Some (Min (set sequences)), list_ex (\<lambda>l. \<not> retained retainedAfter l) seen))"

definition RevocationChanges :: "ID \<Rightarrow> int \<Rightarrow> int \<Rightarrow> Time \<Rightarrow> DB \<Rightarrow> RevocationLogEntry list result" where
  "RevocationChanges tenant after limit retainedAfter db =
     (if IsZero tenant \<or> after < 0 \<or> limit < 1 \<or> limit > 10001 \<or> IsZeroTime retainedAfter
      then Inl (New ''revocation change query is invalid'')
      else
        let (earliest, hasExpired) = retention_boundary tenant retainedAfter db in
        if hasExpired \<and> (case earliest of None \<Rightarrow> True | Some s \<Rightarrow> after < s - 1) then Inl ErrRevocationCursorGone
        else Inr (take (nat limit) (List.map_filter (scan_log_entry db)
          (sort_key rl_sequence (filter (\<lambda>l. visible_to tenant (rl_tenant l) \<and> after < rl_sequence l \<and> retained retainedAfter l)
             (revocation_log db))))))"

record GatewayCheckpoint =
  gw_TenantID :: ID
  gw_GatewayPrincipalID :: ID
  gw_LastSequence :: int
  gw_Epochs :: EpochVector
  gw_LastStreamReceivedAt :: "Time option"
  gw_LastReconciledAt :: "Time option"
  gw_UpdatedAt :: Time

definition checkpoint_key :: "checkpoint_row \<Rightarrow> ID \<times> ID" where
  "checkpoint_key c = (cp_tenant c, cp_gateway c)"

definition checkpoint_not_ahead :: "GatewayCheckpoint \<Rightarrow> checkpoint_row \<Rightarrow> bool" where
  "checkpoint_not_ahead c r \<longleftrightarrow>
     cp_last_sequence r \<le> gw_LastSequence c \<and> cp_security_epoch r \<le> Security (gw_Epochs c) \<and>
     cp_tenant_policy_epoch r \<le> TenantPolicy (gw_Epochs c) \<and> cp_tenant_revocation_epoch r \<le> TenantRevocation (gw_Epochs c)"

definition checkpoint_update :: "GatewayCheckpoint \<Rightarrow> checkpoint_row \<Rightarrow> checkpoint_row" where
  "checkpoint_update c r = r\<lparr>cp_last_sequence := gw_LastSequence c, cp_security_epoch := Security (gw_Epochs c),
     cp_tenant_policy_epoch := TenantPolicy (gw_Epochs c), cp_tenant_revocation_epoch := TenantRevocation (gw_Epochs c),
     cp_last_stream_received := (case gw_LastStreamReceivedAt c of None \<Rightarrow> cp_last_stream_received r | t \<Rightarrow> t),
     cp_last_reconciled := (case gw_LastReconciledAt c of None \<Rightarrow> cp_last_reconciled r | t \<Rightarrow> t), cp_updated := gw_UpdatedAt c\<rparr>"

definition new_checkpoint :: "GatewayCheckpoint \<Rightarrow> checkpoint_row" where
  "new_checkpoint c =
     \<lparr>cp_tenant = gw_TenantID c, cp_gateway = gw_GatewayPrincipalID c, cp_last_sequence = gw_LastSequence c,
      cp_security_epoch = Security (gw_Epochs c), cp_tenant_policy_epoch = TenantPolicy (gw_Epochs c),
      cp_tenant_revocation_epoch = TenantRevocation (gw_Epochs c), cp_last_stream_received = gw_LastStreamReceivedAt c,
      cp_last_reconciled = gw_LastReconciledAt c, cp_updated = gw_UpdatedAt c\<rparr>"

definition SaveGatewayCheckpoint :: "GatewayCheckpoint \<Rightarrow> DB \<Rightarrow> DB result" where
  "SaveGatewayCheckpoint c db =
     (if IsZero (gw_TenantID c) \<or> IsZero (gw_GatewayPrincipalID c) \<or> gw_LastSequence c < 0 \<or> Security (gw_Epochs c) < 0
         \<or> TenantPolicy (gw_Epochs c) < 0 \<or> TenantRevocation (gw_Epochs c) < 0 \<or> IsZeroTime (gw_UpdatedAt c)
      then Inl (New ''gateway checkpoint is invalid'')
      else
        let k = (gw_TenantID c, gw_GatewayPrincipalID c) in
        case List.find (\<lambda>r. checkpoint_key r = k) (gateway_checkpoints db) of
          None \<Rightarrow>
            if \<not> actor_exists (Some (gw_TenantID c)) (Some (gw_GatewayPrincipalID c)) db
            then Inl (Wrapf ''save gateway checkpoint'' foreign_key_violation)
            else Inr (db\<lparr>gateway_checkpoints := gateway_checkpoints db @
              [new_checkpoint c]\<rparr>)
        | Some r \<Rightarrow>
            if checkpoint_not_ahead c r
            then Inr (db\<lparr>gateway_checkpoints := update_where (\<lambda>r. checkpoint_key r = k) (checkpoint_update c) (gateway_checkpoints db)\<rparr>)
            else Inl (NewError CodeConflict ''gateway checkpoint cannot regress''))"

section \<open>What the tables promise\<close>

text \<open>The epoch counters of the store; a counter without a row is zero.\<close>

record epoch_state =
  es_security :: int
  es_policy :: "ID \<Rightarrow> int"
  es_revocation :: "ID \<Rightarrow> int"
  es_agent :: "ID \<Rightarrow> ID \<Rightarrow> int"

definition epochs_of :: "DB \<Rightarrow> epoch_state" where
  "epochs_of db =
     \<lparr>es_security = security_epoch db, es_policy = (\<lambda>t. case find_tenant_epoch t db of None \<Rightarrow> 0 | Some e \<Rightarrow> te_policy e),
      es_revocation = (\<lambda>t. case find_tenant_epoch t db of None \<Rightarrow> 0 | Some e \<Rightarrow> te_revocation e),
      es_agent = (\<lambda>t a. case find_agent_epoch t a db of None \<Rightarrow> 0 | Some e \<Rightarrow> ae_revocation e)\<rparr>"

text \<open>
  The specification of a change: every change advances the security epoch; one of a tenant advances the tenant's
  revocation epoch, its policy epoch when a tenant or a policy is revoked, and the epoch of the agent it names.
\<close>

definition bump_tenant :: "ID \<Rightarrow> bool \<Rightarrow> epoch_state \<Rightarrow> epoch_state" where
  "bump_tenant t policy s = s\<lparr>es_policy := (es_policy s)(t := es_policy s t + (if policy then 1 else 0)),
     es_revocation := (es_revocation s)(t := es_revocation s t + 1)\<rparr>"

definition bump_agent :: "ID \<Rightarrow> ID option \<Rightarrow> epoch_state \<Rightarrow> epoch_state" where
  "bump_agent t agent s = (case agent of None \<Rightarrow> s | Some a \<Rightarrow> s\<lparr>es_agent := (es_agent s)(t := (es_agent s t)(a := es_agent s t a + 1))\<rparr>)"

definition bump_spec :: "Revocation \<Rightarrow> ID option \<Rightarrow> epoch_state \<Rightarrow> epoch_state" where
  "bump_spec v agent s =
     (let s = s\<lparr>es_security := es_security s + 1\<rparr> in
      case rvk_TenantID v of
        None \<Rightarrow> s
      | Some t \<Rightarrow> bump_agent t agent (bump_tenant t (rvk_Scope v = RevocationTenantID \<or> rvk_Scope v = RevocationPolicyVersion) s))"

definition affected_agent :: "Revocation \<Rightarrow> DB \<Rightarrow> ID option" where
  "affected_agent v db =
     (case rvk_TenantID v of
        None \<Rightarrow> None
      | Some t \<Rightarrow> (case revoked_agent t v db of Inl _ \<Rightarrow> None | Inr s \<Rightarrow> (case ParseID s of Inl _ \<Rightarrow> None | Inr a \<Rightarrow> Some a)))"

definition epochs_read :: "Revocation \<Rightarrow> ID option \<Rightarrow> epoch_state \<Rightarrow> EpochVector" where
  "epochs_read v agent s =
     (case rvk_TenantID v of
        None \<Rightarrow> \<lparr>Security = es_security s, TenantPolicy = 0, TenantRevocation = 0, AgentRevocation = 0\<rparr>
      | Some t \<Rightarrow> \<lparr>Security = es_security s, TenantPolicy = es_policy s t, TenantRevocation = es_revocation s t,
          AgentRevocation = (case agent of None \<Rightarrow> 0 | Some a \<Rightarrow> es_agent s t a)\<rparr>)"

lemma find_append_row: "List.find p (rows @ [r]) = (case List.find p rows of None \<Rightarrow> (if p r then Some r else None) | Some x \<Rightarrow> Some x)"
  by (induction rows) auto

lemma find_update_other:
  "(\<And>x. p x \<Longrightarrow> \<not> q x) \<Longrightarrow> (\<And>x. p (f x) = p x) \<Longrightarrow> List.find p (update_where q f rows) = List.find p rows"
  by (induction rows) (auto simp: update_where_def)

lemma find_update_found:
  "List.find p rows = Some r \<Longrightarrow> q r \<Longrightarrow> (\<And>x. p (f x) = p x) \<Longrightarrow> List.find p (update_where q f rows) = Some (f r)"
  by (induction rows) (auto simp: update_where_def split: if_splits)

lemma increment_security_Inr:
  "increment_security_epoch db = Inr (s, db') \<longleftrightarrow>
     security_epoch db < MaxInt64 \<and> s = security_epoch db + 1 \<and> db' = db\<lparr>security_epoch := s\<rparr>"
  by (auto simp: increment_security_epoch_def)

lemma increment_tenant_Inr:
  assumes "increment_tenant_epochs t policy db = Inr (p, r, db')"
  shows "\<exists>es. db' = db\<lparr>tenant_security_epochs := es\<rparr> \<and> map te_tenant es \<in> {map te_tenant (tenant_security_epochs db), map te_tenant (tenant_security_epochs db) @ [t]}"
    and "epochs_of db' = bump_tenant t policy (epochs_of db)" and "p = es_policy (epochs_of db') t" "r = es_revocation (epochs_of db') t"
proof -
  let ?es = "tenant_security_epochs db"
  show "\<exists>es. db' = db\<lparr>tenant_security_epochs := es\<rparr> \<and> map te_tenant es \<in> {map te_tenant ?es, map te_tenant ?es @ [t]}"
    using assms by (auto simp: increment_tenant_epochs_def Let_def split: option.splits if_splits)
  have find: "find_tenant_epoch u db' = (if u = t then Some \<lparr>te_tenant = t, te_policy = p, te_revocation = r\<rparr> else find_tenant_epoch u db)" for u
  proof (cases "find_tenant_epoch t db")
    case None
    then show ?thesis using assms by (auto simp: increment_tenant_epochs_def find_tenant_epoch_def find_append_row Let_def split: option.splits)
  next
    case (Some e)
    then have e: "List.find (\<lambda>e. te_tenant e = t) ?es = Some e" "te_tenant e = t" by (auto simp: find_tenant_epoch_def dest: find_SomeD)
    have db': "db' = db\<lparr>tenant_security_epochs := update_where (\<lambda>x. te_tenant x = t) (\<lambda>x. x\<lparr>te_policy := p, te_revocation := r\<rparr>) ?es\<rparr>"
      using assms Some by (auto simp: increment_tenant_epochs_def Let_def split: if_splits)
    show ?thesis
      using find_update_found[OF e(1), of "\<lambda>x. te_tenant x = t" "\<lambda>x. x\<lparr>te_policy := p, te_revocation := r\<rparr>"] e(2)
      by (auto simp: find_tenant_epoch_def db' find_update_other)
  qed
  have others: "security_epoch db' = security_epoch db" "agent_security_epochs db' = agent_security_epochs db"
    using assms by (auto simp: increment_tenant_epochs_def Let_def split: option.splits if_splits)
  have vals: "p = es_policy (epochs_of db) t + (if policy then 1 else 0)" "r = es_revocation (epochs_of db) t + 1"
    using assms by (auto simp: increment_tenant_epochs_def epochs_of_def Let_def split: option.splits if_splits)
  have agents: "find_agent_epoch = (\<lambda>u a db. List.find (\<lambda>e. ae_tenant e = u \<and> ae_agent e = a) (agent_security_epochs db))"
    by (intro ext) (simp add: find_agent_epoch_def)
  show "epochs_of db' = bump_tenant t policy (epochs_of db)"
    using vals by (auto simp: epochs_of_def bump_tenant_def find others agents fun_eq_iff)
  show "p = es_policy (epochs_of db') t" "r = es_revocation (epochs_of db') t"
    by (simp_all add: epochs_of_def find)
qed

lemma increment_agent_Inr:
  assumes "increment_agent_epoch t a db = Inr (g, db')"
  shows "\<exists>es. db' = db\<lparr>agent_security_epochs := es\<rparr>" "epochs_of db' = bump_agent t (Some a) (epochs_of db)" "g = es_agent (epochs_of db') t a"
proof -
  show "\<exists>es. db' = db\<lparr>agent_security_epochs := es\<rparr>"
    using assms by (auto simp: increment_agent_epoch_def split: option.splits if_splits)
  have find: "find_agent_epoch u b db' = (if u = t \<and> b = a then Some \<lparr>ae_tenant = t, ae_agent = a, ae_revocation = g\<rparr> else find_agent_epoch u b db)" for u b
  proof (cases "find_agent_epoch t a db")
    case None
    then show ?thesis using assms by (auto simp: increment_agent_epoch_def find_agent_epoch_def find_append_row split: option.splits if_splits)
  next
    case (Some e)
    then have e: "List.find (\<lambda>e. ae_tenant e = t \<and> ae_agent e = a) (agent_security_epochs db) = Some e" "ae_tenant e = t" "ae_agent e = a"
      by (auto simp: find_agent_epoch_def dest: find_SomeD)
    have db': "db' = db\<lparr>agent_security_epochs := update_where (\<lambda>x. ae_tenant x = t \<and> ae_agent x = a) (\<lambda>x. x\<lparr>ae_revocation := g\<rparr>) (agent_security_epochs db)\<rparr>"
      using assms Some by (auto simp: increment_agent_epoch_def split: if_splits)
    show ?thesis
    proof (cases "u = t \<and> b = a")
      case True
      then show ?thesis
        using find_update_found[OF e(1), of "\<lambda>x. ae_tenant x = t \<and> ae_agent x = a" "\<lambda>x. x\<lparr>ae_revocation := g\<rparr>"] e(2,3)
        by (simp add: find_agent_epoch_def db')
    next
      case False
      then have "find_agent_epoch u b db' = find_agent_epoch u b db"
        unfolding find_agent_epoch_def db' by (auto intro!: find_update_other)
      then show ?thesis using False by auto
    qed
  qed
  have others: "security_epoch db' = security_epoch db" "find_tenant_epoch u db' = find_tenant_epoch u db" for u
    using assms by (auto simp: increment_agent_epoch_def find_tenant_epoch_def split: option.splits if_splits)
  have "g = es_agent (epochs_of db) t a + 1"
    using assms by (auto simp: increment_agent_epoch_def epochs_of_def split: option.splits if_splits)
  then show "epochs_of db' = bump_agent t (Some a) (epochs_of db)"
    by (auto simp: epochs_of_def bump_agent_def find others fun_eq_iff)
  show "g = es_agent (epochs_of db') t a" by (simp add: epochs_of_def find)
qed


lemma revoked_agent_cong: "agent_versions db' = agent_versions db \<Longrightarrow> revoked_agent t v db' = revoked_agent t v db"
  by (simp add: revoked_agent_def)

lemma incrementRevocationEpochs_cases:
  assumes "incrementRevocationEpochs v db = Inr (e, db')"
  obtains (all_tenants) "rvk_TenantID v = None" "db' = db\<lparr>security_epoch := security_epoch db + 1\<rparr>"
      "e = \<lparr>Security = security_epoch db + 1, TenantPolicy = 0, TenantRevocation = 0, AgentRevocation = 0\<rparr>"
  | (one_tenant) t p r where "rvk_TenantID v = Some t" "affected_agent v db = None"
      "increment_tenant_epochs t (rvk_Scope v = RevocationTenantID \<or> rvk_Scope v = RevocationPolicyVersion) (db\<lparr>security_epoch := security_epoch db + 1\<rparr>) = Inr (p, r, db')"
      "e = \<lparr>Security = security_epoch db + 1, TenantPolicy = p, TenantRevocation = r, AgentRevocation = 0\<rparr>"
  | (one_agent) t p r db2 a g where "rvk_TenantID v = Some t" "affected_agent v db = Some a"
      "increment_tenant_epochs t (rvk_Scope v = RevocationTenantID \<or> rvk_Scope v = RevocationPolicyVersion) (db\<lparr>security_epoch := security_epoch db + 1\<rparr>) = Inr (p, r, db2)"
      "increment_agent_epoch t a db2 = Inr (g, db')"
      "e = \<lparr>Security = security_epoch db + 1, TenantPolicy = p, TenantRevocation = r, AgentRevocation = g\<rparr>"
proof (cases "rvk_TenantID v")
  case None
  then show ?thesis using assms by (intro all_tenants) (auto simp: incrementRevocationEpochs_def and_then_Inr increment_security_Inr)
next
  case (Some t)
  let ?db1 = "db\<lparr>security_epoch := security_epoch db + 1\<rparr>"
  let ?tenant = "increment_tenant_epochs t (rvk_Scope v = RevocationTenantID \<or> rvk_Scope v = RevocationPolicyVersion) ?db1"
  from assms obtain p r db2 agent where t: "?tenant = Inr (p, r, db2)" and ag: "revoked_agent t v db2 = Inr agent"
    and rest: "(if agent = [] then Inr (\<lparr>Security = security_epoch db + 1, TenantPolicy = p, TenantRevocation = r, AgentRevocation = 0\<rparr>, db2)
       else case ParseID agent of Inl _ \<Rightarrow> Inl (NewError CodeInvalidArgument ''agent revocation target is invalid'')
          | Inr a \<Rightarrow> and_then (increment_agent_epoch t a db2) (\<lambda>(g, db'). Inr (\<lparr>Security = security_epoch db + 1, TenantPolicy = p, TenantRevocation = r, AgentRevocation = g\<rparr>, db'))) = Inr (e, db')"
    unfolding incrementRevocationEpochs_def Some by (auto simp: and_then_Inr increment_security_Inr)
  obtain es where "db2 = ?db1\<lparr>tenant_security_epochs := es\<rparr>" using increment_tenant_Inr(1)[OF t] by blast
  then have ag': "revoked_agent t v db = Inr agent" using ag revoked_agent_cong[of db2 db] by simp
  show ?thesis
  proof (cases "agent = []")
    case True
    moreover have "ParseID [] = Inl ErrInvalidID" by (simp add: ParseID_def)
    ultimately show ?thesis using Some t rest ag' by (intro one_tenant[of t p r]) (auto simp: affected_agent_def)
  next
    case False
    then obtain a where "ParseID agent = Inr a" using rest by (auto split: sum.splits)
    then show ?thesis using False Some t rest ag' that(3)[of t a p r db2] by (auto simp: affected_agent_def and_then_Inr)
  qed
qed

text \<open>A change of the epochs touches no other table and meets the specification.\<close>

lemma incrementRevocationEpochs_Inr:
  assumes "incrementRevocationEpochs v db = Inr (e, db')"
  shows "\<exists>te ae. db' = db\<lparr>security_epoch := security_epoch db + 1, tenant_security_epochs := te, agent_security_epochs := ae\<rparr>" (is ?frame)
    and "epochs_of db' = bump_spec v (affected_agent v db) (epochs_of db)" (is ?spec) and "e = epochs_read v (affected_agent v db) (epochs_of db')" (is ?read)
    and "security_epoch db < MaxInt64"
proof -
  have bump1: "epochs_of (db\<lparr>security_epoch := s\<rparr>) = (epochs_of db)\<lparr>es_security := s\<rparr>" for s
    by (simp add: epochs_of_def find_tenant_epoch_def find_agent_epoch_def)
  show "security_epoch db < MaxInt64"
    using assms by (auto simp: incrementRevocationEpochs_def and_then_Inr increment_security_Inr)
  have sec: "es_security (epochs_of db) = security_epoch db" by (simp add: epochs_of_def)
  have bump2: "es_security (bump_tenant t b s) = es_security s" "es_agent (bump_tenant t b s) = es_agent s"
    "es_policy (bump_agent t a s) = es_policy s" "es_revocation (bump_agent t a s) = es_revocation s" "es_security (bump_agent t a s) = es_security s" for t b s a
    by (simp_all add: bump_tenant_def bump_agent_def split: option.splits)
  have "?frame \<and> ?spec \<and> ?read"
    using assms
  proof (cases rule: incrementRevocationEpochs_cases)
    case all_tenants
    then have "db' = db\<lparr>security_epoch := security_epoch db + 1, tenant_security_epochs := tenant_security_epochs db, agent_security_epochs := agent_security_epochs db\<rparr>" by simp
    then have ?frame by blast
    moreover have ?spec using all_tenants(1,2) by (simp add: bump_spec_def bump1 sec)
    moreover have ?read using all_tenants by (simp add: epochs_read_def epochs_of_def)
    ultimately show ?thesis by blast
  next
    case (one_tenant t p r)
    note inc = increment_tenant_Inr[OF one_tenant(3)]
    obtain es where es: "db' = db\<lparr>security_epoch := security_epoch db + 1, tenant_security_epochs := es\<rparr>" using inc(1) by auto
    then have "db' = db\<lparr>security_epoch := security_epoch db + 1, tenant_security_epochs := es, agent_security_epochs := agent_security_epochs db\<rparr>" by simp
    then have ?frame by blast
    moreover have ?spec using one_tenant(1,2) inc(2) by (simp add: bump_spec_def bump1 sec bump_agent_def)
    moreover have "security_epoch db + 1 = es_security (epochs_of db')" using es by (simp add: epochs_of_def)
    then have ?read unfolding one_tenant(4) epochs_read_def using inc(3,4) one_tenant(1,2) by simp
    ultimately show ?thesis by blast
  next
    case (one_agent t p r db2 a g)
    note inc = increment_tenant_Inr[OF one_agent(3)] and inc2 = increment_agent_Inr[OF one_agent(4)]
    obtain es es2 where es: "db2 = db\<lparr>security_epoch := security_epoch db + 1, tenant_security_epochs := es\<rparr>" "db' = db2\<lparr>agent_security_epochs := es2\<rparr>"
      using inc(1) inc2(1) by auto
    then have "?frame" by auto
    moreover have ?spec using one_agent(1,2) inc(2) inc2(2) by (simp add: bump_spec_def bump1 sec)
    moreover have "security_epoch db + 1 = es_security (epochs_of db')" using es by (simp add: epochs_of_def)
    then have ?read unfolding one_agent(5) epochs_read_def using inc(3,4) inc2(2,3) one_agent(1,2) by (simp add: bump2)
    ultimately show ?thesis by blast
  qed
  then show ?frame ?spec ?read by simp_all
qed

text \<open>What a recorded change does to the store: it inserts the change, advances the epochs, appends one log entry and the evidence.\<close>

lemma fold_max_bound: "l \<in> set ls \<Longrightarrow> f l \<le> foldr (\<lambda>l n. max (f l) n) ls (0::int)"
  by (induction ls) auto

lemma next_log_sequence_above: "l \<in> set (revocation_log db) \<Longrightarrow> rl_sequence l < next_log_sequence skipped db"
  using fold_max_bound[of l "revocation_log db" rl_sequence] by (simp add: next_log_sequence_def)

lemma next_log_sequence_pos: "0 < next_log_sequence skipped db"
proof -
  have "0 \<le> foldr (\<lambda>l n. max (rl_sequence l) n) ls (0::int)" for ls by (induction ls) auto
  from this[of "revocation_log db"] show ?thesis by (simp add: next_log_sequence_def)
qed

definition change_row :: "RevocationEvidence \<Rightarrow> Revocation \<Rightarrow> RevocationChangeType \<Rightarrow> ID \<Rightarrow> string \<Rightarrow> Time \<Rightarrow> revocation_change_row" where
  "change_row e v change actor reason at = \<lparr>rc_id = rve_ChangeID e, rc_revocation = rvk_ID v, rc_tenant = rvk_TenantID v, rc_type = change,
     rc_actor = Some actor, rc_reason_code = reason, rc_changed = at\<rparr>"

definition log_row :: "RevocationEvidence \<Rightarrow> RevocationResult \<Rightarrow> Time \<Rightarrow> revocation_log_row" where
  "log_row e res at = (let v = rres_Revocation res; epochs = rres_Epochs res in
     \<lparr>rl_sequence = rres_Sequence res, rl_event = rve_EventID e, rl_revocation = rvk_ID v, rl_change = rve_ChangeID e, rl_tenant = rvk_TenantID v,
      rl_scope = rvk_Scope v, rl_target = rvk_Target v, rl_change_type = rres_State res, rl_security_epoch = Security epochs,
      rl_tenant_policy_epoch = nullableEpoch (rvk_TenantID v) (TenantPolicy epochs),
      rl_tenant_revocation_epoch = nullableEpoch (rvk_TenantID v) (TenantRevocation epochs),
      rl_agent_revocation_epoch = nullableAgentEpoch (AgentRevocation epochs), rl_committed = at\<rparr>)"

text \<open>The rows of the evidence.\<close>

definition audit_row_of :: "Env \<Rightarrow> AuditEvent \<Rightarrow> audit_row" where
  "audit_row_of env a = AuditEvent.extend a \<lparr>au_event_hash = hashAuditEvent env a\<rparr>"

definition outbox_row_of :: "OutboxMessage \<Rightarrow> outbox_row" where
  "outbox_row_of m = OutboxMessage.extend m \<lparr>ob_claimed_by = None, ob_claim_token = None, ob_claimed_until = None, ob_attempt_count = 0,
     ob_last_attempt_at = None, ob_last_error_code = None, ob_published_at = None, ob_dead_lettered_at = None\<rparr>"

lemma insert_audit_Inr: "insert_audit env a db = Inr db' \<Longrightarrow> db' = db\<lparr>audit_events := audit_events db @ [audit_row_of env a]\<rparr>"
  by (auto simp: insert_audit_def audit_row_of_def and_then_Inr result_simps)

lemma insert_outbox_Inr: "insert_outbox m db = Inr db' \<Longrightarrow> db' = db\<lparr>outbox_messages := outbox_messages db @ [outbox_row_of m]\<rparr>"
  by (auto simp: insert_outbox_def outbox_row_of_def and_then_Inr result_simps)

lemma affected_agent_cong: "agent_versions db = agent_versions db' \<Longrightarrow> affected_agent v db = affected_agent v db'"
  by (simp add: affected_agent_def revoked_agent_cong[of db db'] split: option.splits)

lemma epochs_of_cong:
  "security_epoch db = security_epoch db' \<Longrightarrow> tenant_security_epochs db = tenant_security_epochs db' \<Longrightarrow> agent_security_epochs db = agent_security_epochs db'
   \<Longrightarrow> epochs_of db = epochs_of db'"
  by (simp add: epochs_of_def find_tenant_epoch_def find_agent_epoch_def)

lemma record_change_Inr:
  assumes "record_change env skipped tenant e v change actor reason approval at db = Inr (res, db')"
  shows "\<exists>te ae. db' = db\<lparr>revocation_changes := revocation_changes db @ [change_row e v change actor reason at],
      security_epoch := security_epoch db + 1, tenant_security_epochs := te, agent_security_epochs := ae,
      revocation_log := revocation_log db @ [log_row e res at],
      audit_events := audit_events db @ [audit_row_of env (revocation_audit tenant e v change actor reason approval at)],
      outbox_messages := outbox_messages db @ [outbox_row_of (revocation_message e v change (rres_Epochs res) (rres_Sequence res) at)]\<rparr>" (is ?frame)
    and "epochs_of db' = bump_spec v (affected_agent v db) (epochs_of db)" (is ?spec)
    and "res = \<lparr>rres_RevocationID = rvk_ID v, rres_Revocation = v, rres_State = change, rres_Sequence = next_log_sequence skipped db,
      rres_Epochs = epochs_read v (affected_agent v db) (epochs_of db')\<rparr>" (is ?res)
    and "\<forall>c\<in>set (revocation_changes db). rc_id c \<noteq> rve_ChangeID e" (is ?fresh)
proof -
  let ?c = "change_row e v change actor reason at"
  let ?db1 = "db\<lparr>revocation_changes := revocation_changes db @ [?c]\<rparr>"
  from assms obtain db1 epochs db2 db3 db4 where
    c: "insert_revocation_change ?c db = Inr db1" and inc: "incrementRevocationEpochs v db1 = Inr (epochs, db2)"
    and res: "res = \<lparr>rres_RevocationID = rvk_ID v, rres_Revocation = v, rres_State = change, rres_Sequence = next_log_sequence skipped db2, rres_Epochs = epochs\<rparr>"
    and l: "insert_revocation_log (log_row e res at) db2 = Inr db3"
    and a: "insert_audit env (revocation_audit tenant e v change actor reason approval at) db3 = Inr db4"
    and m: "insert_outbox (revocation_message e v change (rres_Epochs res) (rres_Sequence res) at) db4 = Inr db'"
    by (auto simp: record_change_def and_then_Inr Let_def change_row_def log_row_def)
  have db1: "db1 = ?db1" and fresh: ?fresh
    using c by (auto simp: insert_revocation_change_def and_then_Inr result_simps revocation_change_conflict_def change_row_def split: if_splits)
  have db3: "db3 = db2\<lparr>revocation_log := revocation_log db2 @ [log_row e res at]\<rparr>"
    using l by (auto simp: insert_revocation_log_def and_then_Inr result_simps)
  note spec = incrementRevocationEpochs_Inr[OF inc]
  have agent: "affected_agent v db1 = affected_agent v db" by (rule affected_agent_cong) (simp add: db1)
  have ep1: "epochs_of db1 = epochs_of db" and ep': "epochs_of db' = epochs_of db2"
    by (rule epochs_of_cong; simp add: db1 insert_outbox_Inr[OF m] insert_audit_Inr[OF a] db3)+
  obtain te ae where db2: "db2 = db1\<lparr>security_epoch := security_epoch db1 + 1, tenant_security_epochs := te, agent_security_epochs := ae\<rparr>"
    using spec(1) by blast
  show ?spec using spec(2) unfolding agent ep1 ep' .
  have "epochs = epochs_read v (affected_agent v db) (epochs_of db')" using spec(3) unfolding agent ep' .
  moreover have "next_log_sequence skipped db2 = next_log_sequence skipped db" by (simp add: next_log_sequence_def db2 db1)
  ultimately show ?res unfolding res by (simp only:)
  show ?fresh by (fact fresh)
  show ?frame unfolding insert_outbox_Inr[OF m] insert_audit_Inr[OF a] db3 db2 db1
    by (intro exI[of _ te] exI[of _ ae]) simp
qed

definition row_of_revocation :: "Revocation \<Rightarrow> revocation_row" where
  "row_of_revocation v =
     \<lparr>rk_id = rvk_ID v, rk_tenant = rvk_TenantID v, rk_scope = rvk_Scope v, rk_target = rvk_Target v,
      rk_reason_code = rvk_ReasonCode v, rk_detail_reference = null_if_empty (rvk_DetailReference v),
      rk_actor = Some (rvk_ActorPrincipalID v), rk_approval_reference = null_if_empty (rvk_ApprovalReference v),
      rk_effective = rvk_EffectiveAt v, rk_expires = rvk_ExpiresAt v, rk_created = rvk_CreatedAt v\<rparr>"

lemma insert_revocation_Inr:
  "insert_revocation v db = Inr db' \<Longrightarrow>
     db' = db\<lparr>revocations := revocations db @ [row_of_revocation v]\<rparr> \<and> (\<forall>r\<in>set (revocations db). rk_id r \<noteq> rvk_ID v)"
  by (auto simp: insert_revocation_def row_of_revocation_def and_then_Inr result_simps Let_def revocation_conflict_def split: if_splits)

lemma stored_row_of_revocation: "distributed_revocation (row_of_revocation v) = v"
  by (simp add: distributed_revocation_def stored_revocation_def row_of_revocation_def null_if_empty_def)

text \<open>A change is the creation of a new revocation or the lift of an active one.\<close>

lemma changeRevocation_cases [consumes 1, case_names created lifted]:
  assumes "changeRevocation env skipped tenant v lift e db = Inr (res, db')"
  obtains "lift = None" "\<forall>r\<in>set (revocations db). rk_id r \<noteq> rvk_ID v"
      "record_change env skipped tenant e v RevocationCreated (rvk_ActorPrincipalID v) (rvk_ReasonCode v) (rvk_ApprovalReference v) (rvk_CreatedAt v)
         (db\<lparr>revocations := revocations db @ [row_of_revocation v]\<rparr>) = Inr (res, db')"
    | l r c where "lift = Some l" "List.find (\<lambda>r. rk_id r = lift_RevocationID l) (revocations db) = Some r" "visible_to tenant (rk_tenant r)"
      "latest_change (lift_RevocationID l) db = Some c" "rc_type c = RevocationCreated"
      "record_change env skipped tenant e (stored_revocation (lift_ActorPrincipalID l) r) RevocationLifted (lift_ActorPrincipalID l) (lift_ReasonCode l)
         (lift_ApprovalReference l) (lift_ChangedAt l) db = Inr (res, db')"
proof (cases lift)
  case None
  with assms obtain db1 where "insert_revocation v db = Inr db1"
    "record_change env skipped tenant e v RevocationCreated (rvk_ActorPrincipalID v) (rvk_ReasonCode v) (rvk_ApprovalReference v) (rvk_CreatedAt v) db1 = Inr (res, db')"
    by (auto simp: changeRevocation_def change_target_def and_then_Inr split: if_splits)
  then show ?thesis using None insert_revocation_Inr[of v db db1] by (intro that(1)) simp_all
next
  case (Some l)
  with assms show ?thesis
    by (auto simp: changeRevocation_def change_target_def and_then_Inr split: if_splits option.splits intro: that(2))
qed

text \<open>
  What the revocation tables keep: identifiers are unique, every change and log entry is of a stored revocation, log entries
  are numbered and stamped with the security epoch in strictly increasing order, and no counter is ahead of the one above it.
\<close>

definition epochs_bounded :: "epoch_state \<Rightarrow> bool" where
  "epochs_bounded s \<longleftrightarrow>
     (\<forall>t. 0 \<le> es_policy s t \<and> es_policy s t \<le> es_revocation s t \<and> es_revocation s t \<le> es_security s \<and>
       (\<forall>a. 0 \<le> es_agent s t a \<and> es_agent s t a \<le> es_revocation s t))"

definition log_precedes :: "revocation_log_row \<Rightarrow> revocation_log_row \<Rightarrow> bool" where
  "log_precedes l m \<longleftrightarrow> rl_sequence l < rl_sequence m \<and> rl_security_epoch l < rl_security_epoch m"

definition revocation_inv :: "DB \<Rightarrow> bool" where
  "revocation_inv db \<longleftrightarrow>
     unique_key rk_id (revocations db) \<and> unique_key rc_id (revocation_changes db) \<and>
     (\<forall>c\<in>set (revocation_changes db). rc_revocation c \<in> rk_id ` set (revocations db)) \<and>
     (\<forall>l\<in>set (revocation_log db). rl_revocation l \<in> rk_id ` set (revocations db) \<and> 0 < rl_sequence l \<and> rl_security_epoch l \<le> security_epoch db) \<and>
     sorted_wrt log_precedes (revocation_log db) \<and> epochs_bounded (epochs_of db) \<and> unique_key checkpoint_key (gateway_checkpoints db)"

text \<open>The order in which a store moves: nothing is deleted or renumbered and no epoch and no checkpoint moves back.\<close>

definition epoch_state_le :: "epoch_state \<Rightarrow> epoch_state \<Rightarrow> bool" where
  "epoch_state_le s s' \<longleftrightarrow>
     es_security s \<le> es_security s' \<and> (\<forall>t. es_policy s t \<le> es_policy s' t \<and> es_revocation s t \<le> es_revocation s' t \<and> (\<forall>a. es_agent s t a \<le> es_agent s' t a))"

definition checkpoint_le :: "checkpoint_row \<Rightarrow> checkpoint_row \<Rightarrow> bool" where
  "checkpoint_le c d \<longleftrightarrow>
     checkpoint_key c = checkpoint_key d \<and> cp_last_sequence c \<le> cp_last_sequence d \<and> cp_security_epoch c \<le> cp_security_epoch d \<and>
     cp_tenant_policy_epoch c \<le> cp_tenant_policy_epoch d \<and> cp_tenant_revocation_epoch c \<le> cp_tenant_revocation_epoch d"

definition revocation_forward :: "DB \<Rightarrow> DB \<Rightarrow> bool" where
  "revocation_forward db db' \<longleftrightarrow>
     prefix (revocations db) (revocations db') \<and> prefix (revocation_changes db) (revocation_changes db') \<and>
     prefix (revocation_log db) (revocation_log db') \<and> epoch_state_le (epochs_of db) (epochs_of db') \<and>
     (\<forall>c\<in>set (gateway_checkpoints db). \<exists>d\<in>set (gateway_checkpoints db'). checkpoint_le c d)"

lemma bump_bounded: "epochs_bounded s \<Longrightarrow> epochs_bounded (bump_spec v agent s) \<and> epoch_state_le s (bump_spec v agent s)"
  by (auto simp: bump_spec_def bump_agent_def bump_tenant_def epochs_bounded_def epoch_state_le_def Let_def split: option.splits)
     (smt (verit))+

lemma bump_security: "es_security (bump_spec v agent s) = es_security s + 1"
  by (auto simp: bump_spec_def bump_agent_def bump_tenant_def Let_def split: option.splits)

lemma record_change_inv:
  assumes "record_change env skipped tenant e v change actor reason approval at db = Inr (res, db')" "revocation_inv db" "rvk_ID v \<in> rk_id ` set (revocations db)"
  shows "revocation_inv db'" "revocation_forward db db'"
proof -
  note rc = record_change_Inr[OF assms(1)]
  obtain te ae where db': "db' = db\<lparr>revocation_changes := revocation_changes db @ [change_row e v change actor reason at],
      security_epoch := security_epoch db + 1, tenant_security_epochs := te, agent_security_epochs := ae,
      revocation_log := revocation_log db @ [log_row e res at],
      audit_events := audit_events db @ [audit_row_of env (revocation_audit tenant e v change actor reason approval at)],
      outbox_messages := outbox_messages db @ [outbox_row_of (revocation_message e v change (rres_Epochs res) (rres_Sequence res) at)]\<rparr>"
    using rc(1) by blast
  have sec: "security_epoch db' = security_epoch db + 1" by (simp add: db')
  have log: "rl_sequence (log_row e res at) = next_log_sequence skipped db" "rl_revocation (log_row e res at) = rvk_ID v"
    "rl_security_epoch (log_row e res at) = security_epoch db + 1"
    unfolding log_row_def rc(3) by (auto simp: epochs_read_def epochs_of_def sec split: option.splits)
  have change: "rc_id (change_row e v change actor reason at) = rve_ChangeID e" "rc_revocation (change_row e v change actor reason at) = rvk_ID v"
    by (simp_all add: change_row_def)
  have bounded: "epochs_bounded (epochs_of db')" "epoch_state_le (epochs_of db) (epochs_of db')"
    using bump_bounded assms(2) unfolding rc(2) revocation_inv_def by blast+
  show "revocation_forward db db'"
    using bounded(2) unfolding revocation_forward_def by (auto simp: db' checkpoint_le_def)
  have keys: "unique_key rc_id (revocation_changes db')" using assms(2) rc(4) by (auto simp: db' revocation_inv_def unique_key_def change)
  have ordered: "sorted_wrt log_precedes (revocation_log db')"
    using assms(2) next_log_sequence_above[of _ db skipped] by (auto simp: db' revocation_inv_def sorted_wrt_append log_precedes_def log)
  show "revocation_inv db'"
    using assms(2,3) bounded(1) keys ordered next_log_sequence_pos[of skipped db]
    unfolding revocation_inv_def by (auto simp: db' log change)
qed


lemma changeRevocation_inv:
  assumes "changeRevocation env skipped tenant v lift e db = Inr (res, db')" "revocation_inv db"
  shows "revocation_inv db' \<and> revocation_forward db db'"
  using assms(1)
proof (cases rule: changeRevocation_cases)
  case created
  let ?db = "db\<lparr>revocations := revocations db @ [row_of_revocation v]\<rparr>"
  have id: "rk_id (row_of_revocation v) = rvk_ID v" by (simp add: row_of_revocation_def)
  have ep: "epochs_of ?db = epochs_of db" by (rule epochs_of_cong) simp_all
  have "revocation_inv ?db" using assms(2) created(2) unfolding revocation_inv_def ep by (auto simp: unique_key_def id)
  then have "revocation_inv db' \<and> revocation_forward ?db db'" using record_change_inv[OF created(3)] by (simp add: id)
  then show ?thesis by (auto simp: revocation_forward_def ep dest: append_prefixD)
next
  case (lifted l r c)
  then have "r \<in> set (revocations db)" by (auto dest!: find_SomeD)
  then show ?thesis using record_change_inv[OF lifted(6) assms(2)] by (simp add: stored_revocation_def)
qed

lemma CreateRevocation_change:
  "CreateRevocation env skipped tenant v e db = Inr x \<Longrightarrow>
     \<exists>w. ValidateRevocation v = Inr w \<and> (rvk_Scope w \<noteq> RevocationGlobal \<longrightarrow> rvk_TenantID w = Some tenant)
       \<and> changeRevocation env skipped tenant w None e db = Inr x"
  by (auto simp: CreateRevocation_def and_then_Inr split: if_splits)

lemma LiftRevocation_change:
  "LiftRevocation env skipped tenant l e db = Inr x \<Longrightarrow>
     \<exists>w m. ValidateRevocationLift l = Inr m \<and> changeRevocation env skipped tenant w (Some m) e db = Inr x"
  by (auto simp: LiftRevocation_def and_then_Inr split: if_splits)

text \<open>A checkpoint is inserted or overwritten by one that is not behind it.\<close>

lemma checkpoint_update_key [simp]: "checkpoint_key (checkpoint_update c r) = checkpoint_key r"
  by (simp add: checkpoint_key_def checkpoint_update_def)

lemma checkpoint_kept: "c \<in> set xs \<Longrightarrow> set xs \<subseteq> set ys \<Longrightarrow> \<exists>d\<in>set ys. checkpoint_le c d"
  by (auto simp: checkpoint_le_def)

lemma SaveGatewayCheckpoint_cases [consumes 1, case_names new overwritten]:
  assumes "SaveGatewayCheckpoint c db = Inr db'"
  obtains r where "\<forall>s\<in>set (gateway_checkpoints db). checkpoint_key s \<noteq> checkpoint_key r"
      "db' = db\<lparr>gateway_checkpoints := gateway_checkpoints db @ [r]\<rparr>"
    | r where "List.find (\<lambda>r. checkpoint_key r = (gw_TenantID c, gw_GatewayPrincipalID c)) (gateway_checkpoints db) = Some r" "checkpoint_not_ahead c r"
      "db' = db\<lparr>gateway_checkpoints := update_where (\<lambda>s. checkpoint_key s = checkpoint_key r) (checkpoint_update c) (gateway_checkpoints db)\<rparr>"
proof (cases "List.find (\<lambda>r. checkpoint_key r = (gw_TenantID c, gw_GatewayPrincipalID c)) (gateway_checkpoints db)")
  case None
  with assms have "db' = db\<lparr>gateway_checkpoints := gateway_checkpoints db @ [new_checkpoint c]\<rparr>"
    by (simp add: SaveGatewayCheckpoint_def Let_def split: if_splits)
  moreover have "checkpoint_key (new_checkpoint c) = (gw_TenantID c, gw_GatewayPrincipalID c)" by (simp add: checkpoint_key_def new_checkpoint_def)
  ultimately show ?thesis using None by (intro that(1)[of "new_checkpoint c"]) (auto simp: find_None_iff)
next
  case (Some r)
  then have "checkpoint_key r = (gw_TenantID c, gw_GatewayPrincipalID c)" by (auto dest!: find_SomeD)
  then show ?thesis using assms Some by (auto simp: SaveGatewayCheckpoint_def Let_def split: if_splits intro!: that(2))
qed

lemma SaveGatewayCheckpoint_inv:
  assumes "SaveGatewayCheckpoint c db = Inr db'" "revocation_inv db"
  shows "revocation_inv db' \<and> revocation_forward db db'"
  using assms(1)
proof (cases rule: SaveGatewayCheckpoint_cases)
  case (new r)
  have "epochs_of db' = epochs_of db" by (rule epochs_of_cong) (simp_all add: new(2))
  then show ?thesis
    using assms(2) new by (auto simp: revocation_inv_def revocation_forward_def epoch_state_le_def unique_key_def intro: checkpoint_kept)
next
  case (overwritten r)
  let ?rows = "gateway_checkpoints db" and ?f = "checkpoint_update c"
  have ep: "epochs_of db' = epochs_of db" by (rule epochs_of_cong) (simp_all add: overwritten(3))
  have unique: "s = r" if "s \<in> set ?rows" "checkpoint_key s = checkpoint_key r" for s
    using that assms(2) find_SomeD[OF overwritten(1)] unfolding revocation_inv_def by (blast intro: unique_keyD[of checkpoint_key ?rows])
  have "\<exists>d\<in>set (gateway_checkpoints db'). checkpoint_le s d" if "s \<in> set ?rows" for s
  proof (cases "checkpoint_key s = checkpoint_key r")
    case True
    then have "checkpoint_le s (?f s)" using unique[OF that] overwritten(2) by (auto simp: checkpoint_le_def checkpoint_not_ahead_def checkpoint_update_def checkpoint_key_def)
    then show ?thesis using that True by (auto simp: overwritten(3) update_where_def intro!: bexI[of _ "?f s"] image_eqI[of _ _ s])
  next
    case False
    then show ?thesis using that by (auto simp: overwritten(3) update_where_def checkpoint_le_def intro!: bexI[of _ s] image_eqI[of _ _ s])
  qed
  moreover have "map checkpoint_key (gateway_checkpoints db') = map checkpoint_key ?rows" by (simp add: overwritten(3) update_where_def)
  ultimately show ?thesis using assms(2) unfolding revocation_inv_def revocation_forward_def ep unique_key_def
    by (simp add: overwritten(3) epoch_state_le_def)
qed

text \<open>The operations on the revocation tables, as they follow each other in a history of the store.\<close>

datatype revocation_operation =
    Create nat ID Revocation RevocationEvidence
  | Lift nat ID RevocationLift RevocationEvidence
  | Checkpoint GatewayCheckpoint

fun revocation_step :: "Env \<Rightarrow> revocation_operation \<Rightarrow> DB \<Rightarrow> (unit \<times> DB) result" where
  "revocation_step env (Create skipped tenant v e) db = and_then (CreateRevocation env skipped tenant v e db) (\<lambda>(_, db). Inr ((), db))"
| "revocation_step env (Lift skipped tenant l e) db = and_then (LiftRevocation env skipped tenant l e db) (\<lambda>(_, db). Inr ((), db))"
| "revocation_step env (Checkpoint c) db = and_then (SaveGatewayCheckpoint c db) (\<lambda>db. Inr ((), db))"

lemma revocation_step_inv: "revocation_step env c db = Inr (x, db') \<Longrightarrow> revocation_inv db \<Longrightarrow> revocation_inv db' \<and> revocation_forward db db'"
  by (cases c) (auto simp: and_then_Inr dest!: CreateRevocation_change LiftRevocation_change changeRevocation_inv SaveGatewayCheckpoint_inv)

lemma revocation_forward_refl: "revocation_forward db db"
  by (auto simp: revocation_forward_def epoch_state_le_def intro: checkpoint_kept)

lemma epoch_state_le_trans:
  assumes "epoch_state_le a b" "epoch_state_le b c"
  shows "epoch_state_le a c"
proof -
  have "es_policy a t \<le> es_policy c t" "es_revocation a t \<le> es_revocation c t" "es_agent a t g \<le> es_agent c t g" for t g
    using assms order_trans[of "es_policy a t" "es_policy b t"] order_trans[of "es_revocation a t" "es_revocation b t"]
      order_trans[of "es_agent a t g" "es_agent b t g"] by (simp_all add: epoch_state_le_def)
  then show ?thesis using assms by (simp add: epoch_state_le_def)
qed

lemma checkpoint_le_trans: "checkpoint_le a b \<Longrightarrow> checkpoint_le b c \<Longrightarrow> checkpoint_le a c"
  by (simp add: checkpoint_le_def)

lemma revocation_forward_trans:
  assumes "revocation_forward a b" "revocation_forward b c"
  shows "revocation_forward a c"
proof -
  note 1 = assms(1)[unfolded revocation_forward_def] and 2 = assms(2)[unfolded revocation_forward_def]
  have "\<exists>d\<in>set (gateway_checkpoints c). checkpoint_le s d" if s: "s \<in> set (gateway_checkpoints a)" for s
  proof -
    obtain r where r: "r \<in> set (gateway_checkpoints b)" "checkpoint_le s r" using 1 s by blast
    obtain d where d: "d \<in> set (gateway_checkpoints c)" "checkpoint_le r d" using 2 r(1) by blast
    show ?thesis using checkpoint_le_trans[OF r(2) d(2)] d(1) by (rule bexI)
  qed
  moreover have "epoch_state_le (epochs_of a) (epochs_of c)"
    by (rule epoch_state_le_trans[of _ "epochs_of b"]) (simp_all add: 1 2)
  moreover have "prefix (revocations a) (revocations c)" "prefix (revocation_changes a) (revocation_changes c)" "prefix (revocation_log a) (revocation_log c)"
    using 1 2 by (blast intro: prefix_order.trans)+
  ultimately show ?thesis unfolding revocation_forward_def by blast
qed

interpretation revocation_history: monotone_operations "revocation_step env" revocation_inv revocation_forward for env
proof unfold_locales
  fix s s' c and r :: unit
  assume "revocation_inv s" "revocation_step env c s = Inr (r, s')"
  then show "revocation_inv s'" "revocation_forward s s'" using revocation_step_inv[of env c s r s'] by simp_all
qed (rule revocation_forward_refl, rule revocation_forward_trans)

section \<open>Properties\<close>

lemma sorted_le_last: "sorted (map f xs) \<Longrightarrow> y \<in> set xs \<Longrightarrow> f y \<le> f (last xs)"
  by (induction xs) auto

lemma last_sort_key:
  fixes f :: "'a \<Rightarrow> 'b :: linorder"
  assumes "ys \<noteq> []"
  shows "last (sort_key f ys) \<in> set ys \<and> (\<forall>y\<in>set ys. f y \<le> f (last (sort_key f ys)))"
proof -
  have ne: "sort_key f ys \<noteq> []" using assms by (metis length_sort list.size(3) length_0_conv)
  then show ?thesis using last_in_set[OF ne] sorted_le_last[of f "sort_key f ys"] by simp
qed

lemma latest_change_Some:
  assumes "unique_key rc_id (revocation_changes db)"
  shows "latest_change i db = Some c \<longleftrightarrow>
    c \<in> set (revocation_changes db) \<and> rc_revocation c = i \<and> (\<forall>d\<in>set (revocation_changes db). rc_revocation d = i \<longrightarrow> change_order d \<le> change_order c)"
proof -
  let ?cs = "filter (\<lambda>c. rc_revocation c = i) (revocation_changes db)"
  have "d = c" if "change_order d = change_order c" "d \<in> set ?cs" "c \<in> set ?cs" for c d
    using that unique_keyD[OF assms, of d c] by (simp add: change_order_def)
  then have eq: "d = c" if "change_order d \<le> change_order c" "change_order c \<le> change_order d" "d \<in> set ?cs" "c \<in> set ?cs" for c d
    using that by (meson order_antisym)
  have some: "latest_change i db = (if ?cs = [] then None else Some (last (sort_key change_order ?cs)))"
    by (simp add: latest_change_def split: list.split)
  show ?thesis
  proof (cases "?cs = []")
    case True
    then show ?thesis unfolding some by (auto simp: filter_empty_conv)
  next
    case False
    note l = last_sort_key[OF False, where f = change_order]
    show ?thesis
    proof
      assume "latest_change i db = Some c"
      then have "c = last (sort_key change_order ?cs)" using False by (simp add: some)
      then show "c \<in> set (revocation_changes db) \<and> rc_revocation c = i \<and> (\<forall>d\<in>set (revocation_changes db). rc_revocation d = i \<longrightarrow> change_order d \<le> change_order c)"
        using l by simp
    next
      assume c: "c \<in> set (revocation_changes db) \<and> rc_revocation c = i \<and> (\<forall>d\<in>set (revocation_changes db). rc_revocation d = i \<longrightarrow> change_order d \<le> change_order c)"
      then have "last (sort_key change_order ?cs) = c" using l by (intro eq) simp_all
      then show "latest_change i db = Some c" using False by (simp add: some)
    qed
  qed
qed

lemma latest_change_None: "latest_change i db = None \<longleftrightarrow> (\<forall>d\<in>set (revocation_changes db). rc_revocation d \<noteq> i)"
proof -
  have "latest_change i db = None \<longleftrightarrow> filter (\<lambda>c. rc_revocation c = i) (revocation_changes db) = []"
    by (simp add: latest_change_def split: list.split)
  then show ?thesis by (simp add: filter_empty_conv)
qed

text \<open>After a change it is the latest one, unless an earlier one of the same revocation is stamped later.\<close>

lemma latest_change_append:
  assumes "unique_key rc_id (revocation_changes db)" "\<forall>d\<in>set (revocation_changes db). rc_id d \<noteq> rc_id c"
    and "revocation_changes db' = revocation_changes db @ [c]"
  shows "latest_change (rc_revocation c) db' =
    (case latest_change (rc_revocation c) db of None \<Rightarrow> Some c | Some d \<Rightarrow> Some (if change_order d < change_order c then c else d))"
proof -
  have u: "unique_key rc_id (revocation_changes db')" using assms by (auto simp: unique_key_def)
  show ?thesis
  proof (cases "latest_change (rc_revocation c) db")
    case None
    then have "\<forall>d\<in>set (revocation_changes db). rc_revocation d \<noteq> rc_revocation c" by (simp add: latest_change_None)
    then show ?thesis using None by (auto simp: latest_change_Some[OF u] assms(3))
  next
    case (Some d)
    note d = Some[unfolded latest_change_Some[OF assms(1)]]
    show ?thesis
      using d Some by (auto simp: latest_change_Some[OF u] assms(3) intro: order_trans)
  qed
qed

lemma latest_change_cong: "revocation_changes db = revocation_changes db' \<Longrightarrow> latest_change i db = latest_change i db'"
  by (simp add: latest_change_def)

text \<open>
  C28: a change of a revocation refines the specification of the epochs: exactly the counters that the specification names
  advance by one, the result carries them, and one log entry with a new number and these epochs, one audit event and one
  outbox message are appended; nothing else but the new revocation and the change is written.
\<close>

theorem revocation_change_refines:
  assumes "changeRevocation env skipped tenant created lift e db = Inr (res, db')"
  shows "let v = rres_Revocation res; agent = affected_agent v db in
    epochs_of db' = bump_spec v agent (epochs_of db) \<and> rres_Epochs res = epochs_read v agent (epochs_of db') \<and>
    (\<exists>l. revocation_log db' = revocation_log db @ [l] \<and> (\<forall>m\<in>set (revocation_log db). rl_sequence m < rl_sequence l) \<and>
       rl_sequence l = rres_Sequence res \<and> rl_revocation l = rres_RevocationID res \<and> rl_change_type l = rres_State res \<and>
       rl_security_epoch l = Security (rres_Epochs res)) \<and>
    length (audit_events db') = length (audit_events db) + 1 \<and> length (outbox_messages db') = length (outbox_messages db) + 1 \<and>
    runs db' = runs db \<and> agents db' = agents db \<and> gateway_checkpoints db' = gateway_checkpoints db"
proof -
  let ?db = "if lift = None then db\<lparr>revocations := revocations db @ [row_of_revocation created]\<rparr> else db"
  obtain v change actor reason approval at where r: "record_change env skipped tenant e v change actor reason approval at ?db = Inr (res, db')"
    using assms by (cases rule: changeRevocation_cases) auto
  note rc = record_change_Inr[OF r]
  have res: "rres_Revocation res = v" "rres_RevocationID res = rvk_ID v" "rres_State res = change" "rres_Sequence res = next_log_sequence skipped db"
    "rres_Epochs res = epochs_read v (affected_agent v ?db) (epochs_of db')"
    using arg_cong[OF rc(3), of rres_Revocation] arg_cong[OF rc(3), of rres_RevocationID] arg_cong[OF rc(3), of rres_State] arg_cong[OF rc(3), of rres_Sequence]
      arg_cong[OF rc(3), of rres_Epochs] by (simp_all add: next_log_sequence_def)
  have "affected_agent v ?db = affected_agent v db" by (rule affected_agent_cong) simp
  moreover have "epochs_of ?db = epochs_of db" by (rule epochs_of_cong) simp_all
  moreover obtain te ae where "db' = ?db\<lparr>revocation_changes := revocation_changes ?db @ [change_row e v change actor reason at],
      security_epoch := security_epoch ?db + 1, tenant_security_epochs := te, agent_security_epochs := ae,
      revocation_log := revocation_log ?db @ [log_row e res at],
      audit_events := audit_events ?db @ [audit_row_of env (revocation_audit tenant e v change actor reason approval at)],
      outbox_messages := outbox_messages ?db @ [outbox_row_of (revocation_message e v change (rres_Epochs res) (rres_Sequence res) at)]\<rparr>"
    using rc(1) by blast
  then have rows: "revocation_log db' = revocation_log db @ [log_row e res at]" "length (audit_events db') = length (audit_events db) + 1"
    "length (outbox_messages db') = length (outbox_messages db) + 1" "runs db' = runs db" "agents db' = agents db" "gateway_checkpoints db' = gateway_checkpoints db"
    by simp_all
  have log: "rl_sequence (log_row e res at) = next_log_sequence skipped db" "rl_revocation (log_row e res at) = rvk_ID v" "rl_change_type (log_row e res at) = change"
    "rl_security_epoch (log_row e res at) = Security (rres_Epochs res)"
    by (simp_all add: log_row_def Let_def res(1,3,4))
  ultimately show ?thesis
    using rc(2) next_log_sequence_above[of _ db skipped] unfolding Let_def res(1)
    by (simp add: rows res(2-4) log) (simp add: res(5))
qed

text \<open>
  Whatever revocations, lifts and gateway checkpoints follow each other, the tables keep their invariant, no revocation, change or log
  entry is deleted or renumbered, and no epoch and no gateway checkpoint ever moves back.
\<close>

theorem revocation_history_monotone:
  assumes "revocation_inv db"
  shows "revocation_inv (run_all (revocation_step env) cs db) \<and> revocation_forward db (run_all (revocation_step env) cs db)"
  using revocation_history.run_all_inv[OF assms] revocation_history.run_all_forward[OF assms] by blast

lemma created_revocation_read:
  assumes "revocation_inv db" "CreateRevocation env skipped tenant v e db = Inr (res, db')"
    and "visible_to t (rvk_TenantID v)" "\<not> IsZero t" "\<not> IsZeroTime now"
    and "unix_nano (rvk_EffectiveAt (rres_Revocation res)) \<le> unix_nano now"
    and "case rvk_ExpiresAt (rres_Revocation res) of None \<Rightarrow> True | Some x \<Rightarrow> unix_nano now < unix_nano x"
  shows "\<exists>s. AuthoritativeRevocations t agent now db' = Inr s \<and> rres_Revocation res \<in> set (auth_Active s) \<and>
    Security (auth_Epochs s) = Security (rres_Epochs res) \<and>
    (rvk_TenantID v = Some t \<longrightarrow> TenantRevocation (auth_Epochs s) = TenantRevocation (rres_Epochs res) \<and> TenantPolicy (auth_Epochs s) = TenantPolicy (rres_Epochs res))"
proof -
  obtain w where w: "ValidateRevocation v = Inr w" "changeRevocation env skipped tenant w None e db = Inr (res, db')"
    using CreateRevocation_change[OF assms(2)] by blast
  let ?db = "db\<lparr>revocations := revocations db @ [row_of_revocation w]\<rparr>" and ?r = "row_of_revocation w"
  from w(2) have new: "\<forall>r\<in>set (revocations db). rk_id r \<noteq> rvk_ID w"
    and r: "record_change env skipped tenant e w RevocationCreated (rvk_ActorPrincipalID w) (rvk_ReasonCode w) (rvk_ApprovalReference w) (rvk_CreatedAt w) ?db = Inr (res, db')"
    by (cases rule: changeRevocation_cases; simp)+
  note rc = record_change_Inr[OF r]
  have rows: "revocations db' = revocations db @ [?r]"
    "revocation_changes db' = revocation_changes db @ [change_row e w RevocationCreated (rvk_ActorPrincipalID w) (rvk_ReasonCode w) (rvk_CreatedAt w)]"
    using rc(1) by auto
  have res: "rres_Revocation res = w" "rres_Epochs res = epochs_read w (affected_agent w ?db) (epochs_of db')"
    using arg_cong[OF rc(3), of rres_Revocation] arg_cong[OF rc(3), of rres_Epochs] by simp_all
  have w': "rvk_TenantID w = rvk_TenantID v" using ValidateRevocation_Inr[OF w(1)] by simp
  have "latest_change (rvk_ID w) db = None"
    using new assms(1) by (auto simp: latest_change_None revocation_inv_def)
  then have "latest_change (rvk_ID w) db' = Some (change_row e w RevocationCreated (rvk_ActorPrincipalID w) (rvk_ReasonCode w) (rvk_CreatedAt w))"
    using latest_change_append[OF _ _ rows(2)] assms(1) rc(4) by (simp add: revocation_inv_def change_row_def)
  then have "revocation_active now db' ?r"
    using assms(6,7) by (simp add: revocation_active_def row_of_revocation_def change_row_def res)
  then have "distributed_revocation ?r \<in> set (map distributed_revocation (active_revocations t now db'))"
    using assms(3) by (simp add: active_revocations_def rows w' row_of_revocation_def)
  moreover have "TenantRevocation (rres_Epochs res) = es_revocation (epochs_of db') t \<and> TenantPolicy (rres_Epochs res) = es_policy (epochs_of db') t"
    if "rvk_TenantID v = Some t" using that by (simp add: res epochs_read_def w')
  moreover have "Security (rres_Epochs res) = security_epoch db'" by (simp add: res epochs_read_def epochs_of_def split: option.splits)
  ultimately show ?thesis using assms(4,5)
    by (simp add: AuthoritativeRevocations_def RevocationSnapshot_def stored_row_of_revocation res Let_def epochs_of_def)
qed

text \<open>
  A revocation that was created is among the active ones which the authoritative read of every tenant that sees it returns, at
  every time from when it is effective until it expires, together with epochs that have reached those of the change.
\<close>

theorem created_revocation_enforced:
  assumes "revocation_inv db" "CreateRevocation env skipped tenant v e db = Inr (res, db')"
    and "visible_to t (rvk_TenantID v)" "\<not> IsZero t" "\<not> IsZeroTime now"
    and "unix_nano (rvk_EffectiveAt (rres_Revocation res)) \<le> unix_nano now"
    and "case rvk_ExpiresAt (rres_Revocation res) of None \<Rightarrow> True | Some x \<Rightarrow> unix_nano now < unix_nano x"
  shows "\<exists>s. AuthoritativeRevocations t agent now db' = Inr s \<and> rres_Revocation res \<in> set (auth_Active s) \<and>
    Security (auth_Epochs s) = Security (rres_Epochs res) \<and>
    (rvk_TenantID v = Some t \<longrightarrow> TenantRevocation (auth_Epochs s) = TenantRevocation (rres_Epochs res) \<and> TenantPolicy (auth_Epochs s) = TenantPolicy (rres_Epochs res))"
  by (rule created_revocation_read[OF assms])


lemma ordered_times:
  assumes "sorted_wrt log_precedes ls" "sorted (map (unix_nano \<circ> rl_committed) ls)" "x \<in> set ls" "y \<in> set ls" "rl_sequence x \<le> rl_sequence y"
  shows "unix_nano (rl_committed x) \<le> unix_nano (rl_committed y)"
  using assms by (induction ls) (auto simp: log_precedes_def)

lemma scan_log_entry_Some:
  assumes "revocation_inv db" "l \<in> set (revocation_log db)"
  shows "\<exists>x. scan_log_entry db l = Some x \<and> log_Sequence x = rl_sequence l"
proof -
  have "rl_revocation l \<in> rk_id ` set (revocations db)" using assms by (simp add: revocation_inv_def)
  then obtain r where "List.find (\<lambda>r. rk_id r = rl_revocation l) (revocations db) = Some r"
    by (cases "List.find (\<lambda>r. rk_id r = rl_revocation l) (revocations db)") (auto simp: find_None_iff)
  then show ?thesis by (simp add: scan_log_entry_def)
qed

lemma revocation_delta:
  assumes "revocation_inv db" "sorted (map (unix_nano \<circ> rl_committed) (revocation_log db))"
    and "RevocationChanges tenant after limit retainedAfter db = Inr entries"
  shows "map log_Sequence entries = take (nat limit) (map rl_sequence (filter (\<lambda>l. visible_to tenant (rl_tenant l) \<and> after < rl_sequence l) (revocation_log db)))"
proof -
  let ?log = "revocation_log db" and ?seen = "\<lambda>l. visible_to tenant (rl_tenant l)"
  let ?wanted = "filter (\<lambda>l. ?seen l \<and> after < rl_sequence l \<and> retained retainedAfter l) ?log"
  have sorted: "sorted_wrt log_precedes ?log" using assms(1) by (simp add: revocation_inv_def)
  have retained: "retained retainedAfter l" if l: "l \<in> set ?log" "?seen l" "after < rl_sequence l" for l
  proof (cases "\<exists>x\<in>set ?log. ?seen x \<and> \<not> retained retainedAfter x")
    case True
    obtain s where s: "fst (retention_boundary tenant retainedAfter db) = Some s" "s - 1 \<le> after"
      using assms(3) True by (auto simp: RevocationChanges_def retention_boundary_def Let_def list_ex_iff split: if_splits option.splits)
    let ?R = "{x\<in>set ?log. ?seen x \<and> retained retainedAfter x}"
    have "?R \<noteq> {} \<and> s = Min (rl_sequence ` ?R)"
      using s(1) by (auto simp: retention_boundary_def Let_def filter_empty_conv split: if_splits)
    moreover have "finite (rl_sequence ` ?R)" by simp
    ultimately have "s \<in> rl_sequence ` ?R" using Min_in[of "rl_sequence ` ?R"] by blast
    then obtain x where x: "x \<in> set ?log" "retained retainedAfter x" "rl_sequence x \<le> rl_sequence l" using s(2) l(3) by auto
    have "unix_nano (rl_committed x) \<le> unix_nano (rl_committed l)"
      using ordered_times[OF sorted assms(2) x(1) l(1) x(3)] .
    then show ?thesis using x(2) by (simp add: retained_def)
  next
    case False
    then show ?thesis using l by blast
  qed
  have "sort_key rl_sequence ?wanted = ?wanted"
    using sorted by (intro sort_key_id_if_sorted) (auto simp: sorted_map log_precedes_def elim!: sorted_wrt_mono_rel[rotated] intro!: sorted_wrt_filter)
  moreover have "filter (\<lambda>l. ?seen l \<and> after < rl_sequence l) ?log = ?wanted" using retained by (intro filter_cong) auto
  moreover have "map log_Sequence (List.map_filter (scan_log_entry db) ls) = map rl_sequence ls" if "set ls \<subseteq> set ?log" for ls
    using that
  proof (induction ls)
    case (Cons l ls)
    then show ?case using scan_log_entry_Some[OF assms(1), of l] by (auto simp: List.map_filter_simps)
  qed (simp add: List.map_filter_simps)
  ultimately show ?thesis
    using assms(3) by (auto simp: RevocationChanges_def Let_def take_map[symmetric] split: if_splits prod.splits)
qed

text \<open>
  A delta is complete: when the log is stamped in the order of its numbers, an answer to a gateway that has applied the
  entries up to a number holds every entry after it which the tenant sees, in order and without a gap, up to the limit. Entries outside the retention
  window are never skipped silently: the gateway is told that its cursor is gone.
\<close>

theorem revocation_delta_complete:
  assumes "revocation_inv db" "sorted (map (unix_nano \<circ> rl_committed) (revocation_log db))"
    and "RevocationChanges tenant after limit retainedAfter db = Inr entries"
  shows "map log_Sequence entries = take (nat limit) (map rl_sequence (filter (\<lambda>l. visible_to tenant (rl_tenant l) \<and> after < rl_sequence l) (revocation_log db)))"
  by (rule revocation_delta[OF assms])


section \<open>Witnesses\<close>

definition demo_revocation :: Revocation where
  "demo_revocation =
     \<lparr>rvk_ID = demo_id 71, rvk_ActorPrincipalID = operator, rvk_TenantID = Some demo_tenant, rvk_Scope = RevocationToolID, rvk_Target = ''shell'',
      rvk_ReasonCode = ''incident'', rvk_DetailReference = [], rvk_ApprovalReference = ''CHG-1'', rvk_EffectiveAt = demo_time 100,
      rvk_ExpiresAt = None, rvk_CreatedAt = demo_time 90\<rparr>"

definition demo_revocation_evidence :: "nat \<Rightarrow> RevocationEvidence" where
  "demo_revocation_evidence n =
     \<lparr>rve_ChangeID = demo_id n, rve_EventID = demo_id (n + 1), rve_AuditID = demo_id (n + 2), rve_OutboxID = demo_id (n + 3),
      rve_RequestID = demo_id (n + 4), rve_PolicyDecisionID = demo_id (n + 5), rve_ReasonCodes = [''allowed'']\<rparr>"

definition demo_lift :: RevocationLift where
  "demo_lift = \<lparr>lift_RevocationID = demo_id 71, lift_ActorPrincipalID = operator, lift_TenantID = Some demo_tenant,
     lift_ReasonCode = ''resolved'', lift_ApprovalReference = ''CHG-2'', lift_ChangedAt = demo_time 200\<rparr>"

definition revoked_db :: DB where
  "revoked_db = snd (projr (CreateRevocation demo_env 0 demo_tenant demo_revocation (demo_revocation_evidence 80) demo_db))"

definition active_db :: DB where
  "active_db = demo_db\<lparr>revocations := [row_of_revocation demo_revocation],
     revocation_changes := [change_row (demo_revocation_evidence 80) demo_revocation RevocationCreated operator ''incident'' (demo_time 90)],
     revocation_log := [\<lparr>rl_sequence = 4, rl_event = demo_id 81, rl_revocation = demo_id 71, rl_change = demo_id 80, rl_tenant = Some demo_tenant,
       rl_scope = RevocationToolID, rl_target = ''shell'', rl_change_type = RevocationCreated, rl_security_epoch = 1, rl_tenant_policy_epoch = Some 0,
       rl_tenant_revocation_epoch = Some 1, rl_agent_revocation_epoch = None, rl_committed = demo_time 90\<rparr>],
     security_epoch := 1, tenant_security_epochs := [\<lparr>te_tenant = demo_tenant, te_policy = 0, te_revocation = 1\<rparr>]\<rparr>"

definition demo_epochs :: "int \<Rightarrow> EpochVector" where
  "demo_epochs n = \<lparr>Security = n, TenantPolicy = 0, TenantRevocation = n, AgentRevocation = 0\<rparr>"

definition revoked_result :: RevocationResult where
  "revoked_result = \<lparr>rres_RevocationID = demo_id 71, rres_Revocation = demo_revocation, rres_State = RevocationCreated, rres_Sequence = 1, rres_Epochs = demo_epochs 1\<rparr>"

lemma demo_revocation_valid: "ValidateRevocation demo_revocation = Inr demo_revocation" "ValidateRevocationLift demo_lift = Inr demo_lift"
proof -
  have "revocationReasonPattern ''incident''" "revocationReferencePattern ''CHG-1''" "revocationReasonPattern ''resolved''" "revocationReferencePattern ''CHG-2''"
    by code_simp+
  then show "ValidateRevocation demo_revocation = Inr demo_revocation" "ValidateRevocationLift demo_lift = Inr demo_lift"
    by (simp_all add: ValidateRevocation_def ValidateRevocationLift_def demo_revocation_def demo_lift_def demo_ids RequireUTC_eq demo_time_def Unix_UTC_def int64_simps
        IsZeroTime_def zero_nano_def RevocationScope_Valid_def)
qed

lemma change_words: "change_word RevocationCreated = ''created''" "change_word RevocationLifted = ''lifted''"
  by code_simp+

lemmas revocation_eval = change_words CreateRevocation_def LiftRevocation_def changeRevocation_def change_target_def record_change_def repository_valid_def insert_revocation_def
  insert_revocation_change_def insert_revocation_log_def incrementRevocationEpochs_def increment_security_epoch_def increment_tenant_epochs_def revoked_agent_def
  find_tenant_epoch_def actor_exists_def null_if_empty_def pg_insert_def revocation_check_def revocation_conflict_def revocation_change_check_def
  revocation_change_conflict_def revocation_log_check_def revocation_log_conflict_def nonnegative_epoch_def nullableEpoch_def nullableAgentEpoch_def
  next_log_sequence_def insert_audit_def insert_outbox_def revocation_audit_def revocation_message_def audit_check_def audit_conflict_def outbox_check_def
  outbox_conflict_def hashAuditEvent_def validJSONArray_def validJSONObject_def OutboxMessage.defs AuditEvent.defs visible_to_def wrapping_def RevocationScope_Valid_def
  latest_change_def stored_revocation_def

lemma demo_revoked:
  "CreateRevocation demo_env 0 demo_tenant demo_revocation (demo_revocation_evidence 80) demo_db = Inr (revoked_result, revoked_db)"
proof -
  have "map_sum id fst (CreateRevocation demo_env 0 demo_tenant demo_revocation (demo_revocation_evidence 80) demo_db) = Inr revoked_result"
    using demo_revocation_valid
    by (simp add: revocation_eval demo_revocation_def demo_revocation_evidence_def revoked_result_def demo_epochs_def demo_rows demo_ids demo_digest Let_def int64_simps)
  then show ?thesis
    by (cases "CreateRevocation demo_env 0 demo_tenant demo_revocation (demo_revocation_evidence 80) demo_db") (auto simp: revoked_db_def)
qed

lemma demo_db_revocation_inv: "revocation_inv demo_db"
  by (simp add: revocation_inv_def demo_rows epochs_bounded_def epochs_of_def find_tenant_epoch_def find_agent_epoch_def unique_key_def)


lemma active_db_revocation_inv: "revocation_inv active_db"
  by (simp add: revocation_inv_def active_db_def demo_rows epochs_bounded_def epochs_of_def find_tenant_epoch_def find_agent_epoch_def unique_key_def
      row_of_revocation_def change_row_def demo_revocation_def)

lemma demo_lifted:
  assumes "t = 50 \<or> t = 200"
  shows "\<exists>res db'. LiftRevocation demo_env 2 demo_tenant (demo_lift\<lparr>lift_ChangedAt := demo_time t\<rparr>) (demo_revocation_evidence 90) active_db = Inr (res, db')"
proof -
  have "ValidateRevocationLift (demo_lift\<lparr>lift_ChangedAt := demo_time t\<rparr>) = Inr (demo_lift\<lparr>lift_ChangedAt := demo_time t\<rparr>)"
    using demo_revocation_valid(2) assms by (auto simp: ValidateRevocationLift_def demo_lift_def RequireUTC_eq demo_time_def Unix_UTC_def int64_simps
        IsZeroTime_def zero_nano_def split: if_splits)
  then show ?thesis
    by (simp add: revocation_eval demo_lift_def demo_revocation_evidence_def active_db_def row_of_revocation_def change_row_def demo_revocation_def
        demo_epochs_def demo_rows demo_ids demo_digest Let_def int64_simps)
qed

theorem revocation_change_refines_witness:
  "changeRevocation demo_env 0 demo_tenant demo_revocation None (demo_revocation_evidence 80) demo_db = Inr (revoked_result, revoked_db)
   \<and> epochs_of revoked_db = bump_spec demo_revocation None (epochs_of demo_db)"
proof -
  have c: "changeRevocation demo_env 0 demo_tenant demo_revocation None (demo_revocation_evidence 80) demo_db = Inr (revoked_result, revoked_db)"
    using CreateRevocation_change[OF demo_revoked] demo_revocation_valid(1) by auto
  moreover have "affected_agent demo_revocation demo_db = None"
    by (simp add: affected_agent_def revoked_agent_def demo_revocation_def ParseID_def)
  ultimately show ?thesis using revocation_change_refines[OF c] by (simp add: Let_def revoked_result_def)
qed

theorem revocation_history_monotone_witness:
  "run_all (revocation_step demo_env) [Create 0 demo_tenant demo_revocation (demo_revocation_evidence 80)] demo_db = revoked_db \<and> revocation_forward demo_db revoked_db"
  using revocation_history_monotone[OF demo_db_revocation_inv, of demo_env "[Create 0 demo_tenant demo_revocation (demo_revocation_evidence 80)]"]
  by (simp add: committed_def demo_revoked)

theorem created_revocation_enforced_witness:
  "\<exists>s. AuthoritativeRevocations demo_tenant (demo_id 51) (demo_time 150) revoked_db = Inr s \<and> demo_revocation \<in> set (auth_Active s) \<and> Security (auth_Epochs s) = 1"
  using created_revocation_enforced[OF demo_db_revocation_inv demo_revoked, of demo_tenant "demo_time 150" "demo_id 51"]
  by (auto simp: visible_to_def demo_revocation_def revoked_result_def demo_tenant_def demo_time_def IsZeroTime_def zero_nano_def demo_epochs_def)


theorem revocation_delta_complete_witness:
  "\<exists>entries. RevocationChanges demo_tenant 3 10 (demo_time 5) active_db = Inr entries \<and> map log_Sequence entries = [4]"
proof -
  have "\<not> snd (retention_boundary demo_tenant (demo_time 5) active_db)"
    by (simp add: retention_boundary_def retained_def active_db_def demo_time_def Let_def)
  then obtain entries where e: "RevocationChanges demo_tenant 3 10 (demo_time 5) active_db = Inr entries"
    by (cases "retention_boundary demo_tenant (demo_time 5) active_db") (simp add: RevocationChanges_def demo_tenant_def demo_time_def IsZeroTime_def zero_nano_def)
  have times: "sorted (map (unix_nano \<circ> rl_committed) (revocation_log active_db))" by (simp add: active_db_def)
  have "map rl_sequence (filter (\<lambda>l. visible_to demo_tenant (rl_tenant l) \<and> 3 < rl_sequence l) (revocation_log active_db)) = [4]"
    by (simp add: active_db_def visible_to_def)
  with revocation_delta_complete[OF active_db_revocation_inv times e] have "map log_Sequence entries = take (nat 10) [4]" by (simp only:)
  then show ?thesis by (intro exI[of _ entries] conjI e) simp
qed

end
