(* ===== verification/Enforcement.thy ===== *)
theory Enforcement
  imports Policy RevocationStore
begin

text \<open>
  The evaluators between a request and its policy: the one that denies what is revoked (internal/policy/revocation.go) and the
  decision cache (cache.go). The evaluator behind them is an argument, and so are the hash function, the
  readings of the clock and the answers of the remote cache. The bytes of a cache entry are their number
  and what the decoder reads from them.
\<close>

section \<open>Revocations before policy\<close>

type_synonym evaluator = "Input \<Rightarrow> PolicyResult result"

definition denied :: "Input \<Rightarrow> string \<Rightarrow> PolicyResult" where
  "denied i reason =
     \<lparr>pr_Decision = \<lparr>dec_ContractVersion = ContractVersion, dec_DecisionID = in_DecisionID i, dec_Allow = False, dec_ReasonCodes = Some [reason],
        dec_ResolvedConstraints = Some [], dec_Obligations = Some [], dec_DecisionTTLSeconds = 0\<rparr>,
      pr_Metadata = \<lparr>md_PolicyDigest = [], md_PolicyVersion = 0, md_InputDigest = [], md_Duration = 0, md_CacheStatus = []\<rparr>\<rparr>"

definition asString :: "any_value \<Rightarrow> string" where
  "asString v = (case v of AStr s \<Rightarrow> s | _ \<Rightarrow> [])"

definition attribute :: "Input \<Rightarrow> string \<Rightarrow> string \<Rightarrow> bool" where
  "attribute i key want =
     (case map_of (case_option [] id (res_Attributes (in_Resource i))) key of
        None \<Rightarrow> False
      | Some (AStr s) \<Rightarrow> s = want
      | Some (AStrs ss) \<Rightarrow> list_ex (\<lambda>s. s = want) ss
      | Some (AArr vs) \<Rightarrow> list_ex (\<lambda>s. trim_space want = trim_space (asString s)) vs
      | Some _ \<Rightarrow> False)"

definition revocationMatches :: "Revocation \<Rightarrow> Input \<Rightarrow> bool" where
  "revocationMatches v i =
     (case rvk_Scope v of
        RevocationGlobal \<Rightarrow> True
      | RevocationTenantID \<Rightarrow> rvk_Target v = sub_TenantID (in_Subject i)
      | RevocationPrincipalID \<Rightarrow> rvk_Target v = sub_PrincipalID (in_Subject i)
      | RevocationRunID \<Rightarrow> rvk_Target v = res_ID (in_Resource i) \<and> res_Type (in_Resource i) = ''run''
      | RevocationAgentID \<Rightarrow> (case in_Agent i of None \<Rightarrow> False | Some a \<Rightarrow> rvk_Target v = pa_ID a)
      | RevocationAgentVersion \<Rightarrow> (case in_Agent i of None \<Rightarrow> False | Some a \<Rightarrow> rvk_Target v = pa_VersionDigest a)
      | RevocationPolicyVersion \<Rightarrow> attribute i ''policy_version'' (rvk_Target v)
      | RevocationSkillDigest \<Rightarrow> attribute i ''skill_digest'' (rvk_Target v)
      | RevocationToolID \<Rightarrow> attribute i ''tool_id'' (rvk_Target v)
      | RevocationScopeOther _ \<Rightarrow> False)"

definition revocation_reason :: "RevocationScope \<Rightarrow> string" where
  "revocation_reason scope =
     (if scope = RevocationPolicyVersion \<or> scope = RevocationTenantID \<or> scope = RevocationGlobal then ''policy.revoked''
      else if scope = RevocationPrincipalID then ''principal.revoked'' else ''agent.revoked'')"

text \<open>
  The decision, and the caller's agent after it: the input is a copy but its agent is shared, and a revocation of the
  agent is marked there.
\<close>

definition RevocationEvaluator_Decide ::
  "evaluator \<Rightarrow> (ID \<Rightarrow> ID \<Rightarrow> Time \<Rightarrow> RevocationAuthorityState result) \<Rightarrow> Time \<Rightarrow> Input \<Rightarrow> PolicyResult result \<times> PolicyAgent option" where
  "RevocationEvaluator_Decide decide authority now i =
     (case ParseID (sub_TenantID (in_Subject i)) of
        Inl _ \<Rightarrow> (Inl (WithRetryable (NewError CodeUnavailable ''revocation authority input is invalid'')), in_Agent i)
      | Inr tenant \<Rightarrow>
          let agentID = (case in_Agent i of None \<Rightarrow> 0 | Some a \<Rightarrow> (case ParseID (pa_ID a) of Inl _ \<Rightarrow> 0 | Inr x \<Rightarrow> x)) in
          (case authority tenant agentID (ToUTC now) of
            Inl err \<Rightarrow> (Inl (WithRetryable (WrapError CodeUnavailable ''revocation authority is unavailable'' err)), in_Agent i)
          | Inr state \<Rightarrow>
              let s = in_SecurityState i; e = auth_Epochs state in
              if \<not> ss_Authoritative s \<and> (ss_GlobalEpoch s \<noteq> Security e \<or> ss_TenantPolicyEpoch s \<noteq> TenantPolicy e
                  \<or> ss_TenantRevocationEpoch s \<noteq> TenantRevocation e \<or> in_Agent i \<noteq> None \<and> ss_AgentRevocationEpoch s \<noteq> AgentRevocation e)
              then (Inr (denied i ''security_state.stale''), in_Agent i)
              else
                let i = i\<lparr>in_SecurityState := s\<lparr>ss_GlobalEpoch := Security e, ss_TenantPolicyEpoch := TenantPolicy e,
                      ss_TenantRevocationEpoch := TenantRevocation e, ss_AgentRevocationEpoch := AgentRevocation e, ss_AgeSeconds := 0,
                      ss_HasGap := False, ss_Authoritative := True\<rparr>\<rparr>
                in (case List.find (\<lambda>v. revocationMatches v i) (auth_Active state) of
                    Some v \<Rightarrow>
                      (Inr (denied i (revocation_reason (rvk_Scope v))),
                       if rvk_Scope v = RevocationAgentID \<or> rvk_Scope v = RevocationAgentVersion
                       then map_option (\<lambda>a. a\<lparr>pa_Revoked := True\<rparr>) (in_Agent i) else in_Agent i)
                  | None \<Rightarrow> (decide i, in_Agent i))))"

section \<open>The decision cache\<close>

record cacheEntry =
  ce_Decision :: Decision
  ce_PolicyDigest :: string
  ce_PolicyVersion :: int
  ce_InputDigest :: string
  ce_ExpiresAt :: Time

text \<open>The bytes of an entry: how many they are, and what the strict decoder reads from them, \<open>None\<close> when it refuses them or finds more.\<close>

record raw_entry =
  re_length :: nat
  re_entry :: "cacheEntry option"

text \<open>What decoding with \<open>UseNumber\<close> makes of a marshalled value: numbers become their JSON text, string slices become arrays.\<close>

fun recoded :: "any_value \<Rightarrow> any_value" where
  "recoded (ANum t j) = (case j of None \<Rightarrow> ANum t j | Some s \<Rightarrow> ANum s (Some s))"
| "recoded (AStrs ss) = AArr (map AStr ss)"
| "recoded (AArr vs) = AArr (map recoded vs)"
| "recoded (AObj kvs) = AObj (map (\<lambda>(k, v). (k, recoded v)) kvs)"
| "recoded v = v"

definition entry_json :: "cacheEntry \<Rightarrow> json option" where
  "entry_json e =
     (case (decision_json (ce_Decision e), time_json (ce_ExpiresAt e)) of
        (Some d, Some t) \<Rightarrow> Some (JObj [(''decision'', d), (''policy_digest'', JStr (ce_PolicyDigest e)), (''policy_version'', JNum (ce_PolicyVersion e)),
          (''input_digest'', JStr (ce_InputDigest e)), (''expires_at'', t)])
      | _ \<Rightarrow> None)"

definition marshal_entry :: "cacheEntry \<Rightarrow> raw_entry option" where
  "marshal_entry e =
     map_option (\<lambda>j. \<lparr>re_length = length (json_text j),
         re_entry = Some (e\<lparr>ce_Decision := (ce_Decision e)\<lparr>dec_ResolvedConstraints :=
           map_option (map (\<lambda>(k, v). (k, recoded v))) (dec_ResolvedConstraints (ce_Decision e))\<rparr>\<rparr>)\<rparr>)
       (entry_json e)"

record localCacheEntry =
  lce_tenant :: string
  lce_raw :: raw_entry
  lce_expiresAt :: Time

record CachedEvaluator =
  ev_maxTTL :: Duration
  ev_generation :: "string \<Rightarrow> 64 word"
  ev_local :: "(string \<times> localCacheEntry) list"

definition maxLocalDecisionEntries :: nat where
  "maxLocalDecisionEntries = 1024"

definition NewCachedEvaluator :: "Duration \<Rightarrow> CachedEvaluator result" where
  "NewCachedEvaluator maxTTL =
     (if maxTTL \<le> 0 then Inl (New ''cached evaluator dependencies and bounds are required'')
      else Inr \<lparr>ev_maxTTL = maxTTL, ev_generation = (\<lambda>_. 0), ev_local = []\<rparr>)"

definition InvalidateTenant :: "string \<Rightarrow> CachedEvaluator \<Rightarrow> CachedEvaluator" where
  "InvalidateTenant tenant e =
     (if tenant = [] then e\<lparr>ev_generation := (ev_generation e)([] := ev_generation e [] + 1), ev_local := []\<rparr>
      else e\<lparr>ev_generation := (ev_generation e)(tenant := ev_generation e tenant + 1),
             ev_local := filter (\<lambda>(_, entry). lce_tenant entry \<noteq> tenant) (ev_local e)\<rparr>)"

definition cacheGeneration :: "CachedEvaluator \<Rightarrow> string \<Rightarrow> 64 word \<times> 64 word" where
  "cacheGeneration e tenant = (ev_generation e [], ev_generation e tenant)"

definition localGet :: "CachedEvaluator \<Rightarrow> string \<Rightarrow> Time \<Rightarrow> raw_entry option" where
  "localGet e key now =
     (case map_of (ev_local e) key of
        None \<Rightarrow> None
      | Some entry \<Rightarrow> if \<not> Before now (lce_expiresAt entry) then None else Some (lce_raw entry))"

text \<open>At the bound some entry is evicted, the one that the iteration over the map meets first: \<open>victim\<close> counts it off.\<close>

definition localSet :: "nat \<Rightarrow> string \<Rightarrow> string \<Rightarrow> raw_entry \<Rightarrow> Time \<Rightarrow> CachedEvaluator \<Rightarrow> CachedEvaluator" where
  "localSet victim key tenant raw expiresAt e =
     (let entries = (if length (ev_local e) \<ge> maxLocalDecisionEntries
            then AList.delete (fst (ev_local e ! (victim mod length (ev_local e)))) (ev_local e) else ev_local e)
      in e\<lparr>ev_local := AList.update key \<lparr>lce_tenant = tenant, lce_raw = raw, lce_expiresAt = expiresAt\<rparr> entries\<rparr>)"

definition cache_ttl :: "CachedEvaluator \<Rightarrow> Decision \<Rightarrow> Input \<Rightarrow> Duration" where
  "cache_ttl e d i =
     (let ttl = seconds (dec_DecisionTTLSeconds d) in
      if ttl \<le> 0 then 0
      else
        let ttl = (if ttl > ev_maxTTL e then ev_maxTTL e else ttl); s = in_SecurityState i in
        if ss_Authoritative s then ttl
        else if ss_FreshnessMaxAgeSeconds s \<le> 0 then 0
        else
          let remaining = seconds (wrap64 (ss_FreshnessMaxAgeSeconds s - ss_AgeSeconds s)) in
          if remaining \<le> 0 then 0 else if ttl > remaining then remaining else ttl)"

definition cacheKey :: "hash \<Rightarrow> string \<Rightarrow> int \<Rightarrow> 64 word \<Rightarrow> 64 word \<Rightarrow> Input \<Rightarrow> string \<Rightarrow> string" where
  "cacheKey sha256 policyDigest version globalGeneration tenantGeneration i inputDigest =
     (let s = in_SecurityState i in
      ''thinkpixelag:policy:v1:'' @ hex_encode (sha256 (join [CHR 0x00]
        [ContractVersion, policyDigest, FormatInt version, FormatInt (uint globalGeneration), FormatInt (uint tenantGeneration),
         FormatInt (ss_GlobalEpoch s), FormatInt (ss_TenantPolicyEpoch s), FormatInt (ss_TenantRevocationEpoch s), FormatInt (ss_AgentRevocationEpoch s),
         FormatInt (ss_FreshnessMaxAgeSeconds s), sub_TenantID (in_Subject i), sub_PrincipalID (in_Subject i), in_Action i,
         res_Type (in_Resource i) @ '':'' @ res_ID (in_Resource i), inputDigest])))"

definition decode :: "CachedEvaluator \<Rightarrow> raw_entry \<Rightarrow> Input \<Rightarrow> string \<Rightarrow> int \<Rightarrow> string \<Rightarrow> Time \<Rightarrow> PolicyResult option" where
  "decode e raw i digest version inputDigest now =
     (if re_length raw = 0 \<or> re_length raw > 65536 then None
      else case re_entry raw of
        None \<Rightarrow> None
      | Some entry \<Rightarrow>
          if ce_PolicyDigest entry \<noteq> digest \<or> ce_PolicyVersion entry \<noteq> version \<or> ce_InputDigest entry \<noteq> inputDigest
             \<or> \<not> Before now (ce_ExpiresAt entry)
          then None
          else
            let d = (ce_Decision entry)\<lparr>dec_DecisionID := in_DecisionID i\<rparr>;
                hit = (\<lambda>d. \<lparr>pr_Decision = d, pr_Metadata = \<lparr>md_PolicyDigest = digest, md_PolicyVersion = version, md_InputDigest = inputDigest,
                  md_Duration = 0, md_CacheStatus = ''hit''\<rparr>\<rparr>) in
            case ValidateDecision d i (ev_maxTTL e) of
              Inl _ \<Rightarrow> None
            | Inr _ \<Rightarrow>
                if dec_Allow d \<and> in_Action i = ''runs.create''
                then (case ResolveConstraints (in_AuthorityConstraints i) (in_RequestedConstraints i) (dec_ResolvedConstraints d) of
                    Inl _ \<Rightarrow> None
                  | Inr resolved \<Rightarrow> Some (hit (d\<lparr>dec_ResolvedConstraints := Some resolved\<rparr>)))
                else Some (hit d))"

text \<open>
  \<open>Decide\<close>: the result, the evaluator after it, and the entry it asks the remote cache to keep. \<open>active\<close> is the digest, the version
  and the freshness of the active policy; \<open>remote\<close> the answers of the remote cache, if there is one; \<open>now\<close> the clock
  readings of the local lookup, of the two decodings and of the expiry.
\<close>

definition store_decision ::
  "nat \<Rightarrow> string \<Rightarrow> string \<Rightarrow> Time \<Rightarrow> (string \<Rightarrow> raw_entry option) option \<Rightarrow> Input \<Rightarrow> PolicyResult \<Rightarrow> CachedEvaluator
     \<Rightarrow> CachedEvaluator \<times> (string \<times> raw_entry \<times> Duration) option" where
  "store_decision victim key inputDigest now remote i result e =
     (let ttl = cache_ttl e (pr_Decision result) i;
          entry = \<lparr>ce_Decision = (pr_Decision result)\<lparr>dec_DecisionID := []\<rparr>, ce_PolicyDigest = md_PolicyDigest (pr_Metadata result),
            ce_PolicyVersion = md_PolicyVersion (pr_Metadata result), ce_InputDigest = inputDigest, ce_ExpiresAt = AddDuration now ttl\<rparr>
      in if ttl \<le> 0 then (e, None)
         else case marshal_entry entry of
             None \<Rightarrow> (e, None)
           | Some raw \<Rightarrow> (localSet victim key (sub_TenantID (in_Subject i)) raw (ce_ExpiresAt entry) e,
               if remote = None then None else Some (key, raw, ttl)))"

definition CachedEvaluator_Decide ::
  "hash \<Rightarrow> evaluator \<Rightarrow> string \<times> int \<times> bool \<Rightarrow> (string \<Rightarrow> raw_entry option) option \<Rightarrow> (nat \<Rightarrow> Time) \<Rightarrow> nat \<Rightarrow> Input \<Rightarrow> CachedEvaluator
     \<Rightarrow> PolicyResult result \<times> CachedEvaluator \<times> (string \<times> raw_entry \<times> Duration) option" where
  "CachedEvaluator_Decide sha256 decide active remote now victim i e =
     (case Input_Validate i of
        Inl err \<Rightarrow> (Inl err, e, None)
      | Inr _ \<Rightarrow>
          let (digest, version, fresh) = active; status = (\<lambda>s r. r\<lparr>pr_Metadata := (pr_Metadata r)\<lparr>md_CacheStatus := s\<rparr>\<rparr>) in
          if ss_Authoritative (in_SecurityState i) then (map_sum id (status ''bypass'') (decide i), e, None)
          else if \<not> fresh \<or> digest = [] \<or> version < 1 then (decide i, e, None)
          else case AuthorizationDigest sha256 i of
              Inl err \<Rightarrow> (Inl err, e, None)
            | Inr inputDigest \<Rightarrow>
                let (g, t) = cacheGeneration e (sub_TenantID (in_Subject i)); key = cacheKey sha256 digest version g t i inputDigest;
                    lookup = (\<lambda>raw k. case raw of None \<Rightarrow> None | Some r \<Rightarrow> decode e r i digest version inputDigest (now k));
                    shared = (case remote of None \<Rightarrow> None | Some get \<Rightarrow> get key)
                in case lookup (localGet e key (now 0)) 1 of
                     Some hit \<Rightarrow> (Inr hit, e, None)
                   | None \<Rightarrow>
                       (case lookup shared 2 of
                          Some hit \<Rightarrow>
                            (Inr hit, localSet victim key (sub_TenantID (in_Subject i)) (the shared) (AddDuration (now 3) (cache_ttl e (pr_Decision hit) i)) e, None)
                        | None \<Rightarrow>
                            (case decide i of
                               Inl err \<Rightarrow> (Inl err, e, None)
                             | Inr result \<Rightarrow>
                                 let result = status ''miss'' result
                                 in (Inr result, store_decision victim key inputDigest (now 3) remote i result e))))"

section \<open>Properties\<close>

lemma find_exists: "x \<in> set xs \<Longrightarrow> p x \<Longrightarrow> \<exists>y. List.find p xs = Some y"
  by (cases "List.find p xs") (auto simp: find_None_iff)

lemma revocationMatches_security [simp]: "revocationMatches v (i\<lparr>in_SecurityState := s\<rparr>) = revocationMatches v i"
  by (simp add: revocationMatches_def attribute_def split: RevocationScope.splits)

lemma matching_input_denied:
  assumes "ParseID (sub_TenantID (in_Subject i)) = Inr t"
    and "authority t (case in_Agent i of None \<Rightarrow> 0 | Some a \<Rightarrow> (case ParseID (pa_ID a) of Inl _ \<Rightarrow> 0 | Inr x \<Rightarrow> x)) (ToUTC now) = Inr s"
    and "v \<in> set (auth_Active s)" "revocationMatches v i"
  shows "\<exists>r. fst (RevocationEvaluator_Decide decide authority now i) = Inr r \<and> \<not> dec_Allow (pr_Decision r)"
proof -
  obtain w where "List.find (\<lambda>v. revocationMatches v i) (auth_Active s) = Some w" using find_exists[OF assms(3), of "\<lambda>v. revocationMatches v i", OF assms(4)] by blast
  then show ?thesis unfolding RevocationEvaluator_Decide_def Let_def assms(1) sum.case assms(2) revocationMatches_security by (simp add: denied_def)
qed


lemma wrap64_le: "0 \<le> n \<Longrightarrow> wrap64 n \<le> n"
  using zmod_le_nonneg_dividend[of "n + 9223372036854775808" 18446744073709551616] by (simp add: wrap64_def)

text \<open>
  The time a decision may be cached is never negative, never more than the configured maximum and, for a decision that is not
  authoritative, never more than what is left of the freshness bound of its operation.
\<close>

theorem cache_ttl_bounded:
  assumes "0 \<le> ev_maxTTL e" "Input_Validate i = Inr ()" "ss_AgeSeconds (in_SecurityState i) \<le> 9223372036" "int64 (ss_FreshnessMaxAgeSeconds (in_SecurityState i))"
  shows "0 \<le> cache_ttl e d i \<and> cache_ttl e d i \<le> ev_maxTTL e \<and>
    (\<not> ss_Authoritative (in_SecurityState i) \<longrightarrow>
       cache_ttl e d i \<le> max 0 ((ss_FreshnessMaxAgeSeconds (in_SecurityState i) - ss_AgeSeconds (in_SecurityState i)) * Second))"
proof -
  let ?s = "in_SecurityState i"
  let ?left = "ss_FreshnessMaxAgeSeconds ?s - ss_AgeSeconds ?s"
  have age: "0 \<le> ss_AgeSeconds ?s" "0 \<le> ss_FreshnessMaxAgeSeconds ?s"
    using assms(2) by (auto simp: Input_Validate_def Let_def split: if_splits option.splits)
  have "int64 ?left" using age assms(3,4) by (simp add: int64_simps)
  then have left: "wrap64 ?left = ?left" by (rule wrap64_id)
  have "seconds ?left \<le> max 0 (?left * Second)"
  proof (cases "0 \<le> ?left")
    case True
    then show ?thesis using wrap64_le[of "?left * Second"] by (simp add: seconds_def Second_def)
  next
    case False
    then have "int64 (?left * Second)" using age assms(3) by (simp add: int64_simps Second_def)
    then show ?thesis using wrap64_id[of "?left * Second"] by (simp add: seconds_def)
  qed
  then show ?thesis using assms(1) unfolding cache_ttl_def Let_def left by auto
qed


text \<open>The answer is the decision of the entry, validated for this input; for a new run its constraints are resolved anew.\<close>

definition revalidated :: "CachedEvaluator \<Rightarrow> Input \<Rightarrow> cacheEntry \<Rightarrow> Decision \<Rightarrow> bool" where
  "revalidated e i entry d \<longleftrightarrow>
     ValidateDecision ((ce_Decision entry)\<lparr>dec_DecisionID := in_DecisionID i\<rparr>) i (ev_maxTTL e) = Inr () \<and>
     dec_Allow d = dec_Allow (ce_Decision entry) \<and> dec_DecisionID d = in_DecisionID i \<and>
     (if dec_Allow d \<and> in_Action i = ''runs.create''
      then map_sum id Some (ResolveConstraints (in_AuthorityConstraints i) (in_RequestedConstraints i) (dec_ResolvedConstraints (ce_Decision entry))) = Inr (dec_ResolvedConstraints d)
      else dec_ResolvedConstraints d = dec_ResolvedConstraints (ce_Decision entry))"

lemma decode_Some:
  assumes "decode e raw i digest version inputDigest now = Some r"
  obtains entry where "re_entry raw = Some entry" "ce_PolicyDigest entry = digest" "ce_PolicyVersion entry = version" "ce_InputDigest entry = inputDigest"
    "Before now (ce_ExpiresAt entry)" "revalidated e i entry (pr_Decision r)"
  using assms by (auto simp: decode_def Let_def revalidated_def split: if_splits option.splits sum.splits)

text \<open>
  C36: a decision served from the cache was validated again for the very input it answers. A hit is served for a request that does not demand
  an authoritative answer, under the active and fresh policy, from an unexpired entry for the same digest of the input, whose decision
  passes validation against the authority and the request of this input and keeps its verdict; for a new run the
  constraints are resolved anew.
\<close>

theorem cache_hit_sound:
  assumes "CachedEvaluator_Decide sha256 decide active remote now victim i e = (Inr r, e', write)" "md_CacheStatus (pr_Metadata r) = ''hit''"
    and "\<forall>j x. decide j = Inr x \<longrightarrow> md_CacheStatus (pr_Metadata x) \<noteq> ''hit''"
  shows "\<exists>digest version raw entry k. \<not> ss_Authoritative (in_SecurityState i) \<and> active = (digest, version, True) \<and>
    (raw \<in> (lce_raw \<circ> snd) ` set (ev_local e) \<or> (\<exists>get key. remote = Some get \<and> get key = Some raw)) \<and>
    re_entry raw = Some entry \<and> ce_PolicyDigest entry = digest \<and> ce_PolicyVersion entry = version \<and> AuthorizationDigest sha256 i = Inr (ce_InputDigest entry) \<and>
    Before (now k) (ce_ExpiresAt entry) \<and> revalidated e i entry (pr_Decision r)"
proof -
  obtain digest version fresh where act: "active = (digest, version, fresh)" by (cases active)
  have v: "Input_Validate i = Inr ()" using assms(1) by (cases "Input_Validate i") (simp_all add: CachedEvaluator_Decide_def)
  note D = assms(1)[unfolded CachedEvaluator_Decide_def act v sum.case prod.case Let_def]
  have na: "\<not> ss_Authoritative (in_SecurityState i)"
    using D assms(2) by (cases "decide i") (auto split: if_splits)
  have fr: "fresh" "digest \<noteq> []" "1 \<le> version" using D na assms(2,3) by (auto simp: not_le split: if_splits)
  obtain inputDigest where ad: "AuthorizationDigest sha256 i = Inr inputDigest" using D na fr by (cases "AuthorizationDigest sha256 i") auto
  let ?key = "cacheKey sha256 digest version (ev_generation e []) (ev_generation e (sub_TenantID (in_Subject i))) i inputDigest"
  let ?shared = "case remote of None \<Rightarrow> None | Some get \<Rightarrow> get ?key"
  let ?lookup = "\<lambda>raw k. case raw of None \<Rightarrow> None | Some x \<Rightarrow> decode e x i digest version inputDigest (now k)"
  have "?lookup (localGet e ?key (now 0)) 1 = Some r \<or> ?lookup ?shared 2 = Some r"
  proof (cases "?lookup (localGet e ?key (now 0)) 1")
    case (Some hit)
    then show ?thesis using D na fr ad by (simp add: cacheGeneration_def)
  next
    case None
    show ?thesis
    proof (cases "?lookup ?shared 2")
      case (Some hit)
      then show ?thesis using D na fr ad None by (simp add: cacheGeneration_def)
    next
      case none: None
      then show ?thesis using D na fr ad None assms(2) by (cases "decide i") (auto simp: cacheGeneration_def)
    qed
  qed
  then have "\<exists>raw k. (localGet e ?key (now 0) = Some raw \<or> (\<exists>get. remote = Some get \<and> get ?key = Some raw)) \<and> decode e raw i digest version inputDigest (now k) = Some r"
    by (auto split: option.splits)
  then obtain raw k where raw: "localGet e ?key (now 0) = Some raw \<or> (\<exists>get. remote = Some get \<and> get ?key = Some raw)"
    and d: "decode e raw i digest version inputDigest (now k) = Some r" by blast
  have src: "raw \<in> (lce_raw \<circ> snd) ` set (ev_local e) \<or> (\<exists>get key. remote = Some get \<and> get key = Some raw)"
    using raw by (force simp: localGet_def image_iff split: option.splits if_splits dest!: map_of_SomeD)
  obtain entry where entry: "re_entry raw = Some entry" "ce_PolicyDigest entry = digest" "ce_PolicyVersion entry = version" "ce_InputDigest entry = inputDigest"
    "Before (now k) (ce_ExpiresAt entry)" "revalidated e i entry (pr_Decision r)"
    by (rule decode_Some[OF d])
  show ?thesis
    by (rule exI[of _ digest], rule exI[of _ version], rule exI[of _ raw], rule exI[of _ entry], rule exI[of _ k]) (simp only: na act fr(1) src entry ad not_False_eq_True simp_thms)
qed

lemma join_Cons: "xs \<noteq> [] \<Longrightarrow> join sep (x # xs) = x @ sep @ join sep xs"
  by (cases xs) auto

lemma separated: "c \<notin> set x \<Longrightarrow> c \<notin> set y \<Longrightarrow> x @ c # a = y @ c # b \<longleftrightarrow> x = y \<and> a = b"
proof (induction x arbitrary: y)
  case Nil
  then show ?case by (cases y) auto
next
  case (Cons z x)
  then show ?case by (cases y) auto
qed

lemma FormatInt_no_nul: "CHR 0x00 \<notin> set (FormatInt n)"
proof -
  have "\<not> is_digit (CHR 0x00)" by (simp add: is_digit_def)
  then have "CHR 0x00 \<notin> set (FormatUint k)" for k using FormatUint_digits[of k] by (auto simp: list_all_iff)
  then show ?thesis by (simp add: FormatInt_def)
qed

lemma FormatInt_inj: "FormatInt m = FormatInt n \<longleftrightarrow> m = n"
proof
  assume eq: "FormatInt m = FormatInt n"
  have u: "FormatUint k = FormatUint l \<longleftrightarrow> k = l" for k l using arg_cong[of _ _ digits_value] FormatUint_value by metis
  have "CHR ''-'' \<notin> set (FormatUint k)" for k using FormatUint_digits[of k] by (auto simp: list_all_iff is_digit_def)
  then have "FormatUint k \<noteq> CHR ''-'' # s" for k s by (metis list.set_intros(1))
  moreover from this have "CHR ''-'' # s \<noteq> FormatUint k" for k s by metis
  ultimately show "m = n" using eq by (cases "m < 0"; cases "n < 0") (simp_all add: FormatInt_def u)
qed simp

lemma ContractVersion_no_nul: "CHR 0x00 \<notin> set ContractVersion"
  by (simp add: ContractVersion_def)



section \<open>Witnesses\<close>

lemma demo_uuid: "uuid7 demo_tenant"
proof -
  have "unat demo_tenant = 0x01900000000070008000000000000002" by (simp add: demo_tenant_def unat_demo_id)
  moreover have "(16 :: nat) = Suc (Suc (Suc (Suc (Suc (Suc (Suc (Suc (Suc (Suc (Suc (Suc (Suc (Suc (Suc (Suc 0)))))))))))))))" by simp
  ultimately have "ID_bytes demo_tenant = [1, 0x90, 0, 0, 0, 0, 0x70, 0, 0x80, 0, 0, 0, 0, 0, 0, 2]"
    by (simp only: ID_bytes_def be_bytes.simps) simp
  then show ?thesis by (simp add: uuid7_def drop_bit_eq_div) 
qed


definition demo_tool_input :: Input where
  "demo_tool_input = demo_input\<lparr>in_Subject := (in_Subject demo_input)\<lparr>sub_TenantID := ID_String demo_tenant\<rparr>\<rparr>"


definition demo_evaluator :: CachedEvaluator where
  "demo_evaluator = \<lparr>ev_maxTTL = 300 * Second, ev_generation = (\<lambda>_. 0), ev_local = []\<rparr>"

theorem cache_ttl_bounded_witness:
  "cache_ttl demo_evaluator demo_decision demo_input = 28 * Second \<and> cache_ttl demo_evaluator demo_decision demo_input \<le> ev_maxTTL demo_evaluator"
  using cache_ttl_bounded[of demo_evaluator demo_input demo_decision] demo_input_valid(1)
  by (simp add: demo_evaluator_def demo_input_def demo_decision_def cache_ttl_def seconds_def wrap64_def Second_def int64_simps)

definition demo_entry :: cacheEntry where
  "demo_entry = \<lparr>ce_Decision = demo_decision\<lparr>dec_DecisionID := []\<rparr>, ce_PolicyDigest = ''sha256:1'', ce_PolicyVersion = 3,
     ce_InputDigest = projr (AuthorizationDigest (env_sha256 demo_env) demo_input), ce_ExpiresAt = demo_time 500\<rparr>"

definition demo_remote :: "string \<Rightarrow> raw_entry option" where
  "demo_remote key = Some \<lparr>re_length = 400, re_entry = Some demo_entry\<rparr>"

lemma demo_hit:
  "\<exists>r e'. CachedEvaluator_Decide (env_sha256 demo_env) (\<lambda>_. Inl marshal_error) (''sha256:1'', 3, True) (Some demo_remote) (\<lambda>_. demo_time 200) 0 demo_input demo_evaluator
     = (Inr r, e', None) \<and> md_CacheStatus (pr_Metadata r) = ''hit'' \<and> dec_Allow (pr_Decision r)"
proof -
  obtain x where x: "AuthorizationDigest (env_sha256 demo_env) demo_input = Inr x" using AuthorizationDigest_valid[OF demo_input_valid(1)] by blast
  have d: "demo_decision\<lparr>dec_DecisionID := in_DecisionID demo_input\<rparr> = demo_decision" by (simp add: demo_decision_def demo_input_def)
  have r: "ResolveConstraints (in_AuthorityConstraints demo_input) (in_RequestedConstraints demo_input) (dec_ResolvedConstraints demo_decision) = Inr demo_effective"
    by (simp add: demo_input_def demo_decision_def ResolveConstraints_def IntersectConstraints_def intersect_maps_def demo_authority_def demo_requested_def
        demo_effective_def constraintNumber_def demo_numbers constraintsNarrow_def)
  have "decode demo_evaluator \<lparr>re_length = 400, re_entry = Some demo_entry\<rparr> demo_input ''sha256:1'' 3 x (demo_time 200) =
    Some \<lparr>pr_Decision = demo_decision\<lparr>dec_ResolvedConstraints := Some demo_effective\<rparr>, pr_Metadata = \<lparr>md_PolicyDigest = ''sha256:1'', md_PolicyVersion = 3,
      md_InputDigest = x, md_Duration = 0, md_CacheStatus = ''hit''\<rparr>\<rparr>"
    using demo_decision_valid r by (simp add: decode_def demo_entry_def x d Before_def demo_time_def demo_evaluator_def Let_def) (simp add: demo_decision_def demo_input_def)
  moreover have "dec_Allow demo_decision" by (simp add: demo_decision_def)
  moreover have "localGet demo_evaluator key now = None" for key now by (simp add: localGet_def demo_evaluator_def)
  moreover have "\<not> ss_Authoritative (in_SecurityState demo_input)" by (simp add: demo_input_def)
  ultimately show ?thesis
    by (simp add: CachedEvaluator_Decide_def demo_input_valid x cacheGeneration_def demo_remote_def Let_def)
qed

theorem cache_hit_sound_witness:
  "\<exists>r e' entry. CachedEvaluator_Decide (env_sha256 demo_env) (\<lambda>_. Inl marshal_error) (''sha256:1'', 3, True) (Some demo_remote) (\<lambda>_. demo_time 200) 0 demo_input demo_evaluator
     = (Inr r, e', None) \<and> revalidated demo_evaluator demo_input entry (pr_Decision r)"
proof -
  obtain r e' where d: "CachedEvaluator_Decide (env_sha256 demo_env) (\<lambda>_. Inl marshal_error) (''sha256:1'', 3, True) (Some demo_remote) (\<lambda>_. demo_time 200) 0 demo_input demo_evaluator
     = (Inr r, e', None)" "md_CacheStatus (pr_Metadata r) = ''hit''" using demo_hit by (elim exE conjE)
  obtain entry where "revalidated demo_evaluator demo_input entry (pr_Decision r)" using cache_hit_sound[OF d] by auto
  with d(1) show ?thesis by (intro exI conjI)
qed

definition plain_bytes :: "string \<Rightarrow> byte list" where
  "plain_bytes s = map (\<lambda>c. of_nat (of_char c)) s"

lemma plain_bytes_inj: "inj plain_bytes"
proof -
  have "c = d" if "(of_nat (of_char c) :: byte) = of_nat (of_char d)" for c d
    using arg_cong[OF that, of unat] by (simp add: unat_of_nat take_bit_eq_mod)
  then have "inj (\<lambda>c. of_nat (of_char c) :: byte)" by (rule injI)
  then show ?thesis unfolding plain_bytes_def by (rule inj_mapI)
qed


end
