(* ===== verification/Freshness.thy ===== *)
theory Freshness
  imports Enforcement
begin

text \<open>
  Freshness of the revocation state in one process: the tracker of what was applied per tenant
  (internal/application/revocation\_freshness.go) and the evaluator that refuses decisions on state that is too old
  (revocation\_freshness\_enforcement.go). The map of states is the list of its entries; the wall clock, the
  monotonic clock and the evaluator behind are arguments. An accepted observation is returned with the
  tenant that every registered invalidator is called with.
\<close>

section \<open>The tracker\<close>

definition ErrInvalidFreshnessObservation :: goerror where
  "ErrInvalidFreshnessObservation = New ''invalid revocation freshness observation''"

definition ErrFreshnessRegression :: goerror where
  "ErrFreshnessRegression = New ''revocation freshness must not regress''"

definition ErrFreshnessGap :: goerror where
  "ErrFreshnessGap = New ''revocation freshness sequence gap''"

definition ErrMonotonicClockRegression :: goerror where
  "ErrMonotonicClockRegression = New ''revocation freshness monotonic clock regressed''"

record RevocationFreshness =
  fr_TenantID :: ID
  fr_LastAppliedSequence :: int
  fr_LastAppliedEpochs :: EpochVector
  fr_LastStreamReceipt :: Time
  fr_LastReconciliation :: Time
  fr_Age :: Duration
  fr_HasAuthoritativeState :: bool
  fr_MonotonicClockHealthy :: bool

record revocationFreshnessState =
  fs_lastAppliedSequence :: int
  fs_lastAppliedEpochs :: EpochVector
  fs_lastStreamReceipt :: Time
  fs_lastReconciliation :: Time
  fs_observedElapsed :: Duration
  fs_authoritativeSequence :: int
  fs_gap :: bool
  fs_hasObservation :: bool

definition zero_epochs :: EpochVector where
  "zero_epochs = \<lparr>Security = 0, TenantPolicy = 0, TenantRevocation = 0, AgentRevocation = 0\<rparr>"

definition unknown_state :: revocationFreshnessState where
  "unknown_state = \<lparr>fs_lastAppliedSequence = 0, fs_lastAppliedEpochs = zero_epochs, fs_lastStreamReceipt = zero_time, fs_lastReconciliation = zero_time,
     fs_observedElapsed = 0, fs_authoritativeSequence = 0, fs_gap = False, fs_hasObservation = False\<rparr>"

record RevocationFreshnessMetrics =
  fm_MaximumAge :: Duration
  fm_MaximumLag :: int
  fm_CurrentGaps :: int
  fm_GapEvents :: "64 word"
  fm_TrackedTenants :: int
  fm_Healthy :: bool

record RevocationFreshnessTracker =
  ft_states :: "(ID \<times> revocationFreshnessState) list"
  ft_gapEvents :: "64 word"

definition new_tracker :: RevocationFreshnessTracker where
  "new_tracker = \<lparr>ft_states = [], ft_gapEvents = 0\<rparr>"

text \<open>\<open>t.states[tenant]\<close>, the zero value when there is none, and its assignment.\<close>

definition state_of :: "RevocationFreshnessTracker \<Rightarrow> ID \<Rightarrow> revocationFreshnessState" where
  "state_of t tenant = (case map_of (ft_states t) tenant of None \<Rightarrow> unknown_state | Some s \<Rightarrow> s)"

definition set_state :: "ID \<Rightarrow> revocationFreshnessState \<Rightarrow> RevocationFreshnessTracker \<Rightarrow> RevocationFreshnessTracker" where
  "set_state tenant s t = t\<lparr>ft_states := AList.update tenant s (ft_states t)\<rparr>"

definition TrackTenant :: "ID \<Rightarrow> RevocationFreshnessTracker \<Rightarrow> RevocationFreshnessTracker" where
  "TrackTenant tenant t =
     (if IsZero tenant then t
      else case map_of (ft_states t) tenant of None \<Rightarrow> set_state tenant unknown_state t | Some _ \<Rightarrow> t)"

definition head_regresses :: "int \<Rightarrow> revocationFreshnessState \<Rightarrow> bool" where
  "head_regresses sequence s \<longleftrightarrow>
     sequence < fs_authoritativeSequence s \<or> fs_lastAppliedSequence s > 0 \<and> sequence < fs_lastAppliedSequence s"

definition RecordAuthoritativeHead :: "ID \<Rightarrow> int \<Rightarrow> RevocationFreshnessTracker \<Rightarrow> RevocationFreshnessTracker result" where
  "RecordAuthoritativeHead tenant sequence t =
     (if IsZero tenant \<or> sequence < 0 then Inl ErrInvalidFreshnessObservation
      else if head_regresses sequence (state_of t tenant) then Inl ErrFreshnessRegression
      else Inr (set_state tenant ((state_of t tenant)\<lparr>fs_authoritativeSequence := sequence\<rparr>) t))"

definition RecordGap :: "ID \<Rightarrow> int \<Rightarrow> RevocationFreshnessTracker \<Rightarrow> RevocationFreshnessTracker result" where
  "RecordGap tenant sequence t =
     (if IsZero tenant \<or> sequence < 0 then Inl ErrInvalidFreshnessObservation
      else if head_regresses sequence (state_of t tenant) then Inl ErrFreshnessRegression
      else Inr ((set_state tenant ((state_of t tenant)\<lparr>fs_authoritativeSequence := sequence, fs_gap := True\<rparr>) t)
        \<lparr>ft_gapEvents := ft_gapEvents t + 1\<rparr>))"

definition validEpochVector :: "EpochVector \<Rightarrow> bool" where
  "validEpochVector v \<longleftrightarrow> Security v \<ge> 0 \<and> TenantPolicy v \<ge> 0 \<and> TenantRevocation v \<ge> 0 \<and> AgentRevocation v \<ge> 0"

definition epochRegresses :: "EpochVector \<Rightarrow> EpochVector \<Rightarrow> bool" where
  "epochRegresses v previous \<longleftrightarrow>
     Security v < Security previous \<or> TenantPolicy v < TenantPolicy previous \<or> TenantRevocation v < TenantRevocation previous
     \<or> AgentRevocation v < AgentRevocation previous"

definition epochAdvances :: "EpochVector \<Rightarrow> EpochVector \<Rightarrow> bool" where
  "epochAdvances v previous \<longleftrightarrow>
     Security v > Security previous \<or> TenantPolicy v > TenantPolicy previous \<or> TenantRevocation v > TenantRevocation previous
     \<or> AgentRevocation v > AgentRevocation previous"

definition mergeEpochs :: "EpochVector \<Rightarrow> EpochVector \<Rightarrow> EpochVector" where
  "mergeEpochs current observed =
     \<lparr>Security = (if Security observed > Security current then Security observed else Security current),
      TenantPolicy = (if TenantPolicy observed > TenantPolicy current then TenantPolicy observed else TenantPolicy current),
      TenantRevocation = (if TenantRevocation observed > TenantRevocation current then TenantRevocation observed else TenantRevocation current),
      AgentRevocation = (if AgentRevocation observed > AgentRevocation current then AgentRevocation observed else AgentRevocation current)\<rparr>"

text \<open>
  \<open>record\<close>: the error, if any, the tracker after the call, which a gap changes too, and the tenant that invalidators are notified of.
\<close>

definition apply_observation :: "ID \<Rightarrow> int \<Rightarrow> EpochVector \<Rightarrow> bool \<Rightarrow> Time \<Rightarrow> Duration \<Rightarrow> RevocationFreshnessTracker \<Rightarrow> RevocationFreshnessTracker" where
  "apply_observation tenant sequence epochs stream wall elapsed t =
     (let s = state_of t tenant;
          s = s\<lparr>fs_lastAppliedSequence := sequence, fs_hasObservation := True,
                fs_authoritativeSequence := (if sequence > fs_authoritativeSequence s then sequence else fs_authoritativeSequence s),
                fs_lastAppliedEpochs := mergeEpochs (fs_lastAppliedEpochs s) epochs, fs_observedElapsed := elapsed\<rparr>
      in set_state tenant (if stream then s\<lparr>fs_lastStreamReceipt := wall\<rparr> else s\<lparr>fs_lastReconciliation := wall, fs_gap := False\<rparr>) t)"

definition record_gap_seen :: "ID \<Rightarrow> int \<Rightarrow> RevocationFreshnessTracker \<Rightarrow> RevocationFreshnessTracker" where
  "record_gap_seen tenant sequence t =
     (let s = state_of t tenant in
      (set_state tenant (s\<lparr>fs_authoritativeSequence := (if sequence > fs_authoritativeSequence s then sequence else fs_authoritativeSequence s), fs_gap := True\<rparr>) t)
        \<lparr>ft_gapEvents := ft_gapEvents t + 1\<rparr>)"

definition record_observation ::
  "ID \<Rightarrow> int \<Rightarrow> EpochVector \<Rightarrow> bool \<Rightarrow> Time \<Rightarrow> Duration \<Rightarrow> RevocationFreshnessTracker \<Rightarrow> goerror option \<times> RevocationFreshnessTracker \<times> string option" where
  "record_observation tenant sequence epochs stream clock elapsed t =
     (if IsZero tenant \<or> sequence < 0 \<or> \<not> validEpochVector epochs then (Some ErrInvalidFreshnessObservation, t, None)
      else case RequireUTC clock of
        Inl _ \<Rightarrow> (Some ErrInvalidFreshnessObservation, t, None)
      | Inr wall \<Rightarrow>
          if IsZeroTime wall then (Some ErrInvalidFreshnessObservation, t, None)
          else if elapsed < 0 then (Some ErrMonotonicClockRegression, t, None)
          else
            let accepted = (None, apply_observation tenant sequence epochs stream wall elapsed t, Some (ID_String tenant)) in
            case map_of (ft_states t) tenant of
              None \<Rightarrow> accepted
            | Some s \<Rightarrow>
                if elapsed < fs_observedElapsed s then (Some ErrMonotonicClockRegression, t, None)
                else if sequence < fs_lastAppliedSequence s \<or> Security epochs < Security (fs_lastAppliedEpochs s) then (Some ErrFreshnessRegression, t, None)
                else if \<not> stream \<and> epochRegresses epochs (fs_lastAppliedEpochs s) then (Some ErrFreshnessRegression, t, None)
                else if stream \<and> fs_hasObservation s \<and> sequence = fs_lastAppliedSequence s \<and> epochAdvances epochs (fs_lastAppliedEpochs s)
                then (Some ErrFreshnessRegression, t, None)
                else if stream \<and> fs_hasObservation s \<and> sequence = fs_lastAppliedSequence s then (None, t, None)
                else if stream \<and> fs_hasObservation s \<and> sequence > wrap64 (fs_lastAppliedSequence s + 1)
                then (Some ErrFreshnessGap, record_gap_seen tenant sequence t, None)
                else accepted)"

definition RecordStreamReceipt where
  "RecordStreamReceipt tenant sequence epochs clock elapsed t = record_observation tenant sequence epochs True clock elapsed t"

definition RecordReconciliation where
  "RecordReconciliation tenant sequence epochs clock elapsed t = record_observation tenant sequence epochs False clock elapsed t"

definition Snapshot :: "ID \<Rightarrow> Duration \<Rightarrow> RevocationFreshnessTracker \<Rightarrow> RevocationFreshness" where
  "Snapshot tenant now t =
     (let out = \<lparr>fr_TenantID = tenant, fr_LastAppliedSequence = 0, fr_LastAppliedEpochs = zero_epochs, fr_LastStreamReceipt = zero_time,
            fr_LastReconciliation = zero_time, fr_Age = 0, fr_HasAuthoritativeState = False, fr_MonotonicClockHealthy = True\<rparr> in
      if IsZero tenant then out\<lparr>fr_MonotonicClockHealthy := False\<rparr>
      else case map_of (ft_states t) tenant of
        None \<Rightarrow> out
      | Some s \<Rightarrow>
          if \<not> fs_hasObservation s then out
          else
            let out = out\<lparr>fr_LastAppliedSequence := fs_lastAppliedSequence s, fr_LastAppliedEpochs := fs_lastAppliedEpochs s,
                  fr_LastStreamReceipt := fs_lastStreamReceipt s, fr_LastReconciliation := fs_lastReconciliation s, fr_HasAuthoritativeState := True\<rparr> in
            if fs_gap s \<or> fs_authoritativeSequence s > fs_lastAppliedSequence s then out\<lparr>fr_HasAuthoritativeState := False\<rparr>
            else if now < fs_observedElapsed s then out\<lparr>fr_MonotonicClockHealthy := False, fr_HasAuthoritativeState := False\<rparr>
            else out\<lparr>fr_Age := now - fs_observedElapsed s\<rparr>)"

text \<open>One state in the loop of \<open>Metrics\<close>.\<close>

definition measure_state :: "Duration \<Rightarrow> Duration \<Rightarrow> revocationFreshnessState \<Rightarrow> RevocationFreshnessMetrics \<Rightarrow> RevocationFreshnessMetrics" where
  "measure_state maxAge now s out =
     (let clockHealthy = (now \<ge> fs_observedElapsed s);
          age = (if clockHealthy then now - fs_observedElapsed s else 0);
          lag = wrap64 (fs_authoritativeSequence s - fs_lastAppliedSequence s)
      in out\<lparr>fm_MaximumAge := (if age > fm_MaximumAge out then age else fm_MaximumAge out),
             fm_MaximumLag := (if lag > fm_MaximumLag out then lag else fm_MaximumLag out),
             fm_CurrentGaps := (if fs_gap s then fm_CurrentGaps out + 1 else fm_CurrentGaps out),
             fm_Healthy := (fm_Healthy out \<and> \<not> (\<not> fs_hasObservation s \<or> \<not> clockHealthy \<or> age > maxAge \<or> lag > 0 \<or> fs_gap s))\<rparr>)"

definition Metrics :: "Duration \<Rightarrow> Duration \<Rightarrow> RevocationFreshnessTracker \<Rightarrow> RevocationFreshnessMetrics" where
  "Metrics maxAge now t =
     (if maxAge \<le> 0
      then \<lparr>fm_MaximumAge = 0, fm_MaximumLag = 0, fm_CurrentGaps = 0, fm_GapEvents = 0, fm_TrackedTenants = 0, fm_Healthy = False\<rparr>
      else fold (measure_state maxAge now) (map snd (ft_states t))
        \<lparr>fm_MaximumAge = 0, fm_MaximumLag = 0, fm_CurrentGaps = 0, fm_GapEvents = ft_gapEvents t, fm_TrackedTenants = int (length (ft_states t)),
         fm_Healthy = (ft_states t \<noteq> [])\<rparr>)"

text \<open>The error message also prints the measurements, which the model leaves out.\<close>

definition Ready :: "Duration \<Rightarrow> Duration \<Rightarrow> RevocationFreshnessTracker \<Rightarrow> unit result" where
  "Ready maxAge now t =
     (if \<not> fm_Healthy (Metrics maxAge now t) then Inl (New ''revocation security state is not fresh'') else Inr ())"

section \<open>Enforcement\<close>

datatype FreshnessClass = FreshnessHighRiskWrite | FreshnessNormalWrite | FreshnessSensitiveRead | FreshnessLowRiskRead

record RevocationFreshnessPolicy =
  fp_NormalWriteMaxAge :: Duration
  fp_SensitiveReadMaxAge :: Duration
  fp_LowRiskReadMaxAge :: Duration

definition DefaultNormalWriteFreshness :: Duration where
  "DefaultNormalWriteFreshness = 30 * Second"

definition DefaultSensitiveReadFreshness :: Duration where
  "DefaultSensitiveReadFreshness = 60 * Second"

text \<open>The configuration that \<open>NewFreshnessEnforcingEvaluator\<close> accepts; the evaluator is its bounds.\<close>

definition NewFreshnessEnforcingEvaluator :: "RevocationFreshnessPolicy \<Rightarrow> RevocationFreshnessPolicy result" where
  "NewFreshnessEnforcingEvaluator bounds =
     (if fp_NormalWriteMaxAge bounds \<le> 0 \<or> fp_NormalWriteMaxAge bounds > DefaultNormalWriteFreshness \<or> fp_SensitiveReadMaxAge bounds \<le> 0
         \<or> fp_SensitiveReadMaxAge bounds > DefaultSensitiveReadFreshness \<or> fp_LowRiskReadMaxAge bounds \<le> 0
         \<or> fp_NormalWriteMaxAge bounds mod Second \<noteq> 0 \<or> fp_SensitiveReadMaxAge bounds mod Second \<noteq> 0 \<or> fp_LowRiskReadMaxAge bounds mod Second \<noteq> 0
      then Inl (New ''revocation freshness evaluator requires safe bounded configuration'')
      else Inr bounds)"

definition DefaultRevocationFreshnessPolicy :: "Duration \<Rightarrow> RevocationFreshnessPolicy" where
  "DefaultRevocationFreshnessPolicy lowRiskReadMaxAge =
     \<lparr>fp_NormalWriteMaxAge = DefaultNormalWriteFreshness, fp_SensitiveReadMaxAge = DefaultSensitiveReadFreshness, fp_LowRiskReadMaxAge = lowRiskReadMaxAge\<rparr>"

definition ClassifyFreshness :: "Input \<Rightarrow> FreshnessClass" where
  "ClassifyFreshness i =
     (case ClassifyAction (in_Action i) (case in_Agent i of None \<Rightarrow> [] | Some a \<Rightarrow> pa_RiskClass a) of
        ActionRiskLowRead \<Rightarrow> FreshnessLowRiskRead
      | ActionRiskSensitiveRead \<Rightarrow> FreshnessSensitiveRead
      | ActionRiskNormalWrite \<Rightarrow> FreshnessNormalWrite
      | ActionRiskPrivilegedWrite \<Rightarrow> FreshnessHighRiskWrite)"

definition maxAge_of :: "RevocationFreshnessPolicy \<Rightarrow> FreshnessClass \<Rightarrow> Duration" where
  "maxAge_of bounds class =
     (case class of
        FreshnessNormalWrite \<Rightarrow> fp_NormalWriteMaxAge bounds
      | FreshnessSensitiveRead \<Rightarrow> fp_SensitiveReadMaxAge bounds
      | _ \<Rightarrow> fp_LowRiskReadMaxAge bounds)"

text \<open>The age in seconds, rounded up; the sum wraps around and the division truncates.\<close>

definition age_seconds :: "Duration \<Rightarrow> int" where
  "age_seconds age =
     (let n = wrap64 (age + Second - 1) in if n < 0 then - ((- n) div Second) else n div Second)"

definition no_security_state :: SecurityState where
  "no_security_state = \<lparr>ss_GlobalEpoch = 0, ss_TenantPolicyEpoch = 0, ss_TenantRevocationEpoch = 0, ss_AgentRevocationEpoch = 0, ss_AgeSeconds = 0,
     ss_FreshnessMaxAgeSeconds = 0, ss_HasGap = False, ss_Authoritative = False\<rparr>"

text \<open>The security state that a decision which is not of high risk is taken under, if the state is fresh enough.\<close>

definition fresh_security :: "RevocationFreshness \<Rightarrow> Duration \<Rightarrow> SecurityState option" where
  "fresh_security state maxAge =
     (if \<not> fr_HasAuthoritativeState state \<or> \<not> fr_MonotonicClockHealthy state \<or> fr_Age state > maxAge then None
      else Some (no_security_state\<lparr>ss_GlobalEpoch := Security (fr_LastAppliedEpochs state), ss_TenantPolicyEpoch := TenantPolicy (fr_LastAppliedEpochs state),
        ss_TenantRevocationEpoch := TenantRevocation (fr_LastAppliedEpochs state), ss_AgentRevocationEpoch := AgentRevocation (fr_LastAppliedEpochs state),
        ss_AgeSeconds := age_seconds (fr_Age state), ss_FreshnessMaxAgeSeconds := maxAge div Second\<rparr>))"

definition freshnessDenied :: "Input \<Rightarrow> string \<Rightarrow> PolicyResult" where
  "freshnessDenied i reason = denied i reason"

definition FreshnessEnforcingEvaluator_Decide ::
  "evaluator \<Rightarrow> RevocationFreshnessPolicy \<Rightarrow> Duration \<Rightarrow> Input \<Rightarrow> RevocationFreshnessTracker \<Rightarrow> PolicyResult result \<times> RevocationFreshnessTracker" where
  "FreshnessEnforcingEvaluator_Decide decide bounds now i t =
     (case ParseID (sub_TenantID (in_Subject i)) of
        Inl _ \<Rightarrow> (Inl (WithRetryable (NewError CodeUnavailable ''revocation freshness input is invalid'')), t)
      | Inr tenant \<Rightarrow>
          let class = ClassifyFreshness i; t = TrackTenant tenant t in
          (if class = FreshnessHighRiskWrite
           then and_then (decide (i\<lparr>in_SecurityState := no_security_state\<lparr>ss_Authoritative := True\<rparr>\<rparr>)) (\<lambda>result.
             if dec_Allow (pr_Decision result) \<and> dec_DecisionTTLSeconds (pr_Decision result) \<noteq> 0
             then Inl (WithRetryable (NewError CodeUnavailable ''authoritative policy decision is not cache safe'')) else Inr result)
           else case fresh_security (Snapshot tenant now t) (maxAge_of bounds class) of
               None \<Rightarrow> Inr (freshnessDenied i ''security_state.stale'')
             | Some s \<Rightarrow> decide (i\<lparr>in_SecurityState := s\<rparr>), t))"

section \<open>The tracker moves forward\<close>

text \<open>What a state promises: it is not ahead of the authority it has heard of, and everything it counts is nonnegative.\<close>

definition state_ok :: "revocationFreshnessState \<Rightarrow> bool" where
  "state_ok s \<longleftrightarrow>
     0 \<le> fs_lastAppliedSequence s \<and> fs_lastAppliedSequence s \<le> fs_authoritativeSequence s \<and> 0 \<le> fs_observedElapsed s \<and>
     validEpochVector (fs_lastAppliedEpochs s) \<and> (fs_lastAppliedSequence s > 0 \<longrightarrow> fs_hasObservation s)"

definition tracker_ok :: "RevocationFreshnessTracker \<Rightarrow> bool" where
  "tracker_ok t \<longleftrightarrow> distinct (map fst (ft_states t)) \<and> (\<forall>(tenant, s) \<in> set (ft_states t). state_ok s)"

definition state_le :: "revocationFreshnessState \<Rightarrow> revocationFreshnessState \<Rightarrow> bool" where
  "state_le s s' \<longleftrightarrow>
     fs_lastAppliedSequence s \<le> fs_lastAppliedSequence s' \<and> fs_authoritativeSequence s \<le> fs_authoritativeSequence s' \<and>
     epochs_le (fs_lastAppliedEpochs s) (fs_lastAppliedEpochs s') \<and> fs_observedElapsed s \<le> fs_observedElapsed s' \<and>
     (fs_hasObservation s \<longrightarrow> fs_hasObservation s')"

definition tracker_forward :: "RevocationFreshnessTracker \<Rightarrow> RevocationFreshnessTracker \<Rightarrow> bool" where
  "tracker_forward t t' \<longleftrightarrow> (\<forall>tenant. state_le (state_of t tenant) (state_of t' tenant))"

datatype tracker_operation =
    Track ID | Head ID int | Gap ID int | Observe ID int EpochVector bool Time Duration

fun tracker_step :: "tracker_operation \<Rightarrow> RevocationFreshnessTracker \<Rightarrow> (string option \<times> RevocationFreshnessTracker) result" where
  "tracker_step (Track tenant) t = Inr (None, TrackTenant tenant t)"
| "tracker_step (Head tenant sequence) t = and_then (RecordAuthoritativeHead tenant sequence t) (\<lambda>t. Inr (None, t))"
| "tracker_step (Gap tenant sequence) t = and_then (RecordGap tenant sequence t) (\<lambda>t. Inr (None, t))"
| "tracker_step (Observe tenant sequence epochs stream clock elapsed) t =
     (case record_observation tenant sequence epochs stream clock elapsed t of (_, t, notified) \<Rightarrow> Inr (notified, t))"

lemma state_of_set [simp]: "state_of (set_state k s t) k' = (if k' = k then s else state_of t k')"
  by (simp add: state_of_def set_state_def update_conv')

lemma state_of_gap [simp]: "state_of (t\<lparr>ft_gapEvents := n\<rparr>) k = state_of t k" "tracker_ok (t\<lparr>ft_gapEvents := n\<rparr>) = tracker_ok t"
  "tracker_forward t (t'\<lparr>ft_gapEvents := n\<rparr>) = tracker_forward t t'"
  by (simp_all add: state_of_def tracker_ok_def tracker_forward_def)

lemma tracker_ok_map_of: "tracker_ok t \<longleftrightarrow> distinct (map fst (ft_states t)) \<and> (\<forall>k s. map_of (ft_states t) k = Some s \<longrightarrow> state_ok s)"
  by (auto simp: tracker_ok_def dest: map_of_SomeD)

lemma unknown_state_ok: "state_ok unknown_state"
  by (simp add: state_ok_def unknown_state_def validEpochVector_def zero_epochs_def)

lemma state_of_ok: "tracker_ok t \<Longrightarrow> state_ok (state_of t k)"
  by (auto simp: tracker_ok_map_of state_of_def unknown_state_ok split: option.splits)

lemma set_state_ok: "tracker_ok t \<Longrightarrow> state_ok s \<Longrightarrow> tracker_ok (set_state k s t)"
  by (auto simp: tracker_ok_map_of set_state_def update_conv' distinct_update)

lemma state_le_refl [simp]: "state_le s s"
  by (simp add: state_le_def)

lemma set_state_forward: "state_le (state_of t k) s \<Longrightarrow> tracker_forward t (set_state k s t)"
  by (simp add: tracker_forward_def)

lemma tracker_forward_refl: "tracker_forward t t"
  by (simp add: tracker_forward_def)

lemma state_le_trans: "state_le a b \<Longrightarrow> state_le b c \<Longrightarrow> state_le a c"
  by (auto simp: state_le_def intro: epochs_le_trans)

lemma tracker_forward_trans: "tracker_forward a b \<Longrightarrow> tracker_forward b c \<Longrightarrow> tracker_forward a c"
  unfolding tracker_forward_def using state_le_trans by meson

lemma mergeEpochs_facts: "epochs_le a (mergeEpochs a b)" "validEpochVector a \<Longrightarrow> validEpochVector (mergeEpochs a b)"
  by (simp_all add: mergeEpochs_def epochs_le_def validEpochVector_def)

lemma update_state_step:
  assumes "tracker_ok t" "state_ok (state_of t k) \<Longrightarrow> state_ok s \<and> state_le (state_of t k) s"
  shows "tracker_ok (set_state k s t) \<and> tracker_forward t (set_state k s t)"
  using assms state_of_ok[OF assms(1), of k] by (simp add: set_state_ok set_state_forward)

lemma TrackTenant_step: "tracker_ok t \<Longrightarrow> tracker_ok (TrackTenant k t) \<and> tracker_forward t (TrackTenant k t)"
proof -
  assume ok: "tracker_ok t"
  show ?thesis
  proof (cases "IsZero k \<or> map_of (ft_states t) k \<noteq> None")
    case True
    then have "TrackTenant k t = t" by (auto simp: TrackTenant_def)
    then show ?thesis using ok by (simp add: tracker_forward_refl)
  next
    case False
    then have "TrackTenant k t = set_state k unknown_state t" "state_of t k = unknown_state" by (simp_all add: TrackTenant_def state_of_def)
    then show ?thesis using update_state_step[OF ok, of k unknown_state] by (simp add: unknown_state_ok)
  qed
qed

lemma apply_observation_step:
  assumes "tracker_ok t" "0 \<le> sequence" "0 \<le> elapsed" "fs_lastAppliedSequence (state_of t k) \<le> sequence" "fs_observedElapsed (state_of t k) \<le> elapsed"
  shows "tracker_ok (apply_observation k sequence epochs stream wall elapsed t) \<and> tracker_forward t (apply_observation k sequence epochs stream wall elapsed t)"
  unfolding apply_observation_def Let_def
  by (rule update_state_step[OF assms(1)]) (use assms(2-5) in \<open>auto simp: state_ok_def state_le_def mergeEpochs_facts\<close>)

lemma gap_step:
  assumes "tracker_ok t"
  shows "tracker_ok (record_gap_seen k sequence t) \<and> tracker_forward t (record_gap_seen k sequence t)"
  unfolding record_gap_seen_def Let_def state_of_gap
  by (rule update_state_step[OF assms]) (auto simp: state_ok_def state_le_def)

lemma record_observation_cases [consumes 1, case_names unchanged gap accepted]:
  assumes "record_observation k sequence epochs stream clock elapsed t = (err, t', notified)"
  obtains "t' = t" "notified = None"
    | "stream" "err = Some ErrFreshnessGap" "t' = record_gap_seen k sequence t" "notified = None"
    | wall where "err = None" "t' = apply_observation k sequence epochs stream wall elapsed t" "notified = Some (ID_String k)" "0 \<le> sequence" "0 \<le> elapsed"
      "fs_lastAppliedSequence (state_of t k) \<le> sequence" "fs_observedElapsed (state_of t k) \<le> elapsed" "\<not> IsZero k"
      "stream \<Longrightarrow> fs_hasObservation (state_of t k) \<Longrightarrow> sequence \<le> wrap64 (fs_lastAppliedSequence (state_of t k) + 1)"
proof (cases "map_of (ft_states t) k")
  case None
  then have s: "state_of t k = unknown_state" by (simp add: state_of_def)
  show ?thesis using assms None
    by (auto simp: record_observation_def Let_def s unknown_state_def split: if_splits sum.splits intro: that)
next
  case (Some s)
  then have s: "state_of t k = s" by (simp add: state_of_def)
  show ?thesis using assms Some
    by (auto simp: record_observation_def Let_def s not_less split: if_splits sum.splits intro: that)
qed

lemma tracker_step_forward:
  assumes "tracker_step c t = Inr (x, t')" "tracker_ok t"
  shows "tracker_ok t' \<and> tracker_forward t t'"
proof (cases c)
  case (Track k)
  then show ?thesis using assms TrackTenant_step by auto
next
  case (Head k sequence)
  then have "t' = set_state k ((state_of t k)\<lparr>fs_authoritativeSequence := sequence\<rparr>) t" "\<not> head_regresses sequence (state_of t k)" "0 \<le> sequence"
    using assms(1) by (auto simp: RecordAuthoritativeHead_def split: if_splits)
  then show ?thesis using update_state_step[OF assms(2), of k] by (auto simp: state_ok_def state_le_def head_regresses_def)
next
  case (Gap k sequence)
  then have "t' = (set_state k ((state_of t k)\<lparr>fs_authoritativeSequence := sequence, fs_gap := True\<rparr>) t)\<lparr>ft_gapEvents := ft_gapEvents t + 1\<rparr>"
    "\<not> head_regresses sequence (state_of t k)" "0 \<le> sequence"
    using assms(1) by (auto simp: RecordGap_def split: if_splits)
  then show ?thesis using update_state_step[OF assms(2), of k] by (auto simp: state_ok_def state_le_def head_regresses_def)
next
  case (Observe k sequence epochs stream clock elapsed)
  then obtain err where "record_observation k sequence epochs stream clock elapsed t = (err, t', x)"
    using assms(1) by (auto split: prod.splits)
  then show ?thesis
  proof (cases rule: record_observation_cases)
    case unchanged
    then show ?thesis using assms(2) by (simp add: tracker_forward_refl)
  next
    case gap
    then show ?thesis using gap_step[OF assms(2)] by simp
  next
    case (accepted wall)
    then show ?thesis using apply_observation_step[OF assms(2)] by simp
  qed
qed

interpretation freshness_history: monotone_operations tracker_step tracker_ok tracker_forward
proof unfold_locales
  fix s s' c r
  assume "tracker_ok s" "tracker_step c s = Inr (r, s')"
  then show "tracker_ok s'" "tracker_forward s s'" using tracker_step_forward by simp_all
qed (rule tracker_forward_refl, rule tracker_forward_trans)

text \<open>
  C32: what a process believes about revocations only moves forward. Whatever heads, gaps, stream receipts and reconciliations it
  records, accepted or refused, in whatever order they arrive, the applied sequence, the authority's sequence, every epoch and the observation time of each
  tenant never decrease, and no tenant is recorded ahead of the authority.
\<close>

theorem freshness_never_regresses:
  assumes "tracker_ok t"
  shows "tracker_ok (run_all tracker_step cs t) \<and> tracker_forward t (run_all tracker_step cs t)"
  using freshness_history.run_all_inv[OF assms] freshness_history.run_all_forward[OF assms] by simp

lemma Snapshot_fresh:
  assumes "fresh_security (Snapshot k now (TrackTenant k t)) maxAge = Some s"
  shows "\<exists>st. map_of (ft_states t) k = Some st \<and> fs_hasObservation st \<and> \<not> fs_gap st \<and> fs_authoritativeSequence st \<le> fs_lastAppliedSequence st \<and>
    fs_observedElapsed st \<le> now \<and> now - fs_observedElapsed st \<le> maxAge \<and>
    s = no_security_state\<lparr>ss_GlobalEpoch := Security (fs_lastAppliedEpochs st), ss_TenantPolicyEpoch := TenantPolicy (fs_lastAppliedEpochs st),
      ss_TenantRevocationEpoch := TenantRevocation (fs_lastAppliedEpochs st), ss_AgentRevocationEpoch := AgentRevocation (fs_lastAppliedEpochs st),
      ss_AgeSeconds := age_seconds (now - fs_observedElapsed st), ss_FreshnessMaxAgeSeconds := maxAge div Second\<rparr>"
  using assms
  by (auto simp: fresh_security_def Snapshot_def TrackTenant_def Let_def set_state_def update_conv' unknown_state_def split: if_splits option.splits)

lemma age_seconds_covers:
  assumes "0 \<le> age" "int64 (age + Second)"
  shows "age \<le> age_seconds age * Second" "age_seconds age * Second < age + Second" "0 \<le> age_seconds age"
proof -
  have "wrap64 (age + Second - 1) = age + Second - 1" by (rule wrap64_id) (use assms in \<open>simp add: int64_simps Second_def\<close>)
  then have "age_seconds age = (age + Second - 1) div Second" using assms(1) by (simp add: age_seconds_def Second_def)
  then show "age \<le> age_seconds age * Second" "age_seconds age * Second < age + Second" "0 \<le> age_seconds age"
    using assms(1) by (simp_all add: Second_def)
qed

lemma cached_within_bound:
  assumes "ss_FreshnessMaxAgeSeconds s = maxAge div Second" "ss_AgeSeconds s = age_seconds age" "\<not> ss_Authoritative s"
    and "0 \<le> age" "age \<le> maxAge" "int64 (maxAge + Second)" "cache_ttl e d (i\<lparr>in_SecurityState := s\<rparr>) > 0"
  shows "age + cache_ttl e d (i\<lparr>in_SecurityState := s\<rparr>) \<le> maxAge"
proof -
  have "int64 (age + Second)" using assms(4-6) by (simp add: int64_simps Second_def)
  note age = age_seconds_covers[OF assms(4) this]
  let ?left = "maxAge div Second - age_seconds age"
  have whole: "maxAge div Second * Second \<le> maxAge" "0 \<le> maxAge div Second" using assms(4,5) by (simp_all add: Second_def)
  have "int64 ?left" "int64 (?left * Second)" using age whole assms(4-6) by (simp_all add: int64_simps Second_def left_diff_distrib)
  then have left: "seconds (wrap64 ?left) = ?left * Second" by (simp add: seconds_def)
  have "cache_ttl e d (i\<lparr>in_SecurityState := s\<rparr>) \<le> ?left * Second"
    using assms(7) unfolding cache_ttl_def Let_def by (simp add: assms(1-3) left split: if_splits)
  then show ?thesis using age(1) whole(1) by (simp add: left_diff_distrib)
qed


text \<open>An operation that reconciles the tenant with the authority.\<close>

fun reconciles :: "ID \<Rightarrow> tracker_operation \<Rightarrow> bool" where
  "reconciles k (Observe k' sequence epochs stream clock elapsed) = (k' = k \<and> \<not> stream)"
| "reconciles k _ = False"

lemma gap_kept:
  assumes "fs_gap (state_of t k)" "\<not> reconciles k c"
  shows "fs_gap (state_of (committed tracker_step c t) k)"
proof (cases c)
  case (Track k')
  then show ?thesis using assms(1) by (auto simp: committed_def TrackTenant_def state_of_def set_state_def update_conv' split: option.splits)
next
  case (Head k' sequence)
  then show ?thesis using assms(1) by (auto simp: committed_def RecordAuthoritativeHead_def)
next
  case (Gap k' sequence)
  then show ?thesis using assms(1) by (auto simp: committed_def RecordGap_def)
next
  case (Observe k' sequence epochs stream clock elapsed)
  obtain err t' x where o: "record_observation k' sequence epochs stream clock elapsed t = (err, t', x)" by (cases "record_observation k' sequence epochs stream clock elapsed t")
  then have "committed tracker_step c t = t'" by (simp add: committed_def Observe)
  with o show ?thesis using assms Observe
    by (cases rule: record_observation_cases) (auto simp: record_gap_seen_def apply_observation_def Let_def)
qed

lemma gaps_kept: "fs_gap (state_of t k) \<Longrightarrow> \<forall>c \<in> set cs. \<not> reconciles k c \<Longrightarrow> fs_gap (state_of (run_all tracker_step cs t) k)"
  by (induction cs arbitrary: t) (simp_all add: gap_kept)

lemma healthy_measured:
  "fm_Healthy (fold (measure_state maxAge now) ss m) \<longleftrightarrow> fm_Healthy m \<and>
     (\<forall>s \<in> set ss. fs_hasObservation s \<and> fs_observedElapsed s \<le> now \<and> now - fs_observedElapsed s \<le> maxAge \<and>
       wrap64 (fs_authoritativeSequence s - fs_lastAppliedSequence s) \<le> 0 \<and> \<not> fs_gap s)"
  by (induction ss arbitrary: m) (auto simp: measure_state_def Let_def not_less)

lemma Ready_iff:
  "Ready maxAge now t = Inr () \<longleftrightarrow> 0 < maxAge \<and> ft_states t \<noteq> [] \<and>
     (\<forall>s \<in> snd ` set (ft_states t). fs_hasObservation s \<and> fs_observedElapsed s \<le> now \<and> now - fs_observedElapsed s \<le> maxAge \<and>
       wrap64 (fs_authoritativeSequence s - fs_lastAppliedSequence s) \<le> 0 \<and> \<not> fs_gap s)"
  by (auto simp: Ready_def Metrics_def healthy_measured)

lemma gap_state: "fs_gap (state_of t k) \<Longrightarrow> \<exists>s. (k, s) \<in> set (ft_states t) \<and> map_of (ft_states t) k = Some s \<and> fs_gap s"
  by (auto simp: state_of_def unknown_state_def split: option.splits dest: map_of_SomeD)


definition demo_cancel_input :: Input where
  "demo_cancel_input = demo_tool_input\<lparr>in_Action := ''runs.cancel''\<rparr>"

definition demo_epochs :: EpochVector where
  "demo_epochs = \<lparr>Security = 1, TenantPolicy = 1, TenantRevocation = 2, AgentRevocation = 0\<rparr>"

definition demo_tracker :: RevocationFreshnessTracker where
  "demo_tracker = fst (snd (RecordReconciliation demo_tenant 4 demo_epochs (demo_time 150) (100 * Second) new_tracker))"


lemma demo_tracker_eval:
  "demo_tracker = \<lparr>ft_states = [(demo_tenant, unknown_state\<lparr>fs_lastAppliedSequence := 4, fs_hasObservation := True, fs_authoritativeSequence := 4,
     fs_lastAppliedEpochs := demo_epochs, fs_observedElapsed := 100 * Second, fs_lastReconciliation := demo_time 150\<rparr>)], ft_gapEvents = 0\<rparr>"
  by (simp add: demo_tracker_def RecordReconciliation_def record_observation_def demo_tenant_def validEpochVector_def demo_epochs_def new_tracker_def RequireUTC_def demo_time_def UnixNano_def Unix_UTC_def wrap64_def
    IsZeroTime_def zero_nano_def Second_def apply_observation_def state_of_def set_state_def unknown_state_def mergeEpochs_def zero_epochs_def)

lemma demo_cancel_facts:
  "ParseID (sub_TenantID (in_Subject demo_cancel_input)) = Inr demo_tenant" "ClassifyFreshness demo_cancel_input = FreshnessNormalWrite"
proof -
  show "ParseID (sub_TenantID (in_Subject demo_cancel_input)) = Inr demo_tenant"
    by (simp add: demo_cancel_input_def demo_tool_input_def ParseID_ID_String demo_uuid)
  have "ClassifyAction ''runs.cancel'' [] = ActionRiskNormalWrite" by code_simp
  then show "ClassifyFreshness demo_cancel_input = FreshnessNormalWrite"
    by (simp add: ClassifyFreshness_def demo_cancel_input_def demo_tool_input_def demo_input_def)
qed

theorem freshness_never_regresses_witness:
  "tracker_forward demo_tracker (run_all tracker_step [Head demo_tenant 5, Observe demo_tenant 7 demo_epochs True (demo_time 160) (110 * Second)] demo_tracker) \<and>
   fs_gap (state_of (run_all tracker_step [Head demo_tenant 5, Observe demo_tenant 7 demo_epochs True (demo_time 160) (110 * Second)] demo_tracker) demo_tenant)"
proof -
  have "tracker_ok demo_tracker" by (simp add: demo_tracker_eval tracker_ok_def state_ok_def unknown_state_def demo_epochs_def validEpochVector_def Second_def)
  note forward = freshness_never_regresses[OF this, of "[Head demo_tenant 5, Observe demo_tenant 7 demo_epochs True (demo_time 160) (110 * Second)]"]
  moreover have "fs_gap (state_of (run_all tracker_step [Head demo_tenant 5, Observe demo_tenant 7 demo_epochs True (demo_time 160) (110 * Second)] demo_tracker) demo_tenant)"
    by (simp add: committed_def demo_tracker_eval RecordAuthoritativeHead_def head_regresses_def demo_tenant_def record_observation_def validEpochVector_def demo_epochs_def
      RequireUTC_def demo_time_def UnixNano_def Unix_UTC_def wrap64_def IsZeroTime_def zero_nano_def Second_def record_gap_seen_def state_of_def set_state_def unknown_state_def)
  ultimately show ?thesis by blast
qed

definition demo_allowed :: PolicyResult where
  "demo_allowed = \<lparr>pr_Decision = demo_decision, pr_Metadata = pr_Metadata (denied demo_input [])\<rparr>"



end
