(* ===== verification/RunStore.thy ===== *)
theory RunStore
  imports Enforcement Settlement
begin

text \<open>
  Runs in the store: claims, heartbeats and worker operations under a lease with a fencing token
  (internal/adapters/postgres/run\_worker.go), cancellation (run\_cancel.go), signals (run\_signal.go and
  internal/domain/run\_signal.go), the events of a run (run\_events.go) and its public projection (run\_query.go).
  Every operation is one transaction; the transactions run one after another, so a claim skips no locked row.
\<close>

section \<open>Signals\<close>

datatype RunSignalType = RunSignalPause | RunSignalResume | RunSignalCustom | RunSignalTypeOther string

fun RunSignalType_text :: "RunSignalType \<Rightarrow> string" where
  "RunSignalType_text RunSignalPause = ''PAUSE''"
| "RunSignalType_text RunSignalResume = ''RESUME''"
| "RunSignalType_text RunSignalCustom = ''CUSTOM''"
| "RunSignalType_text (RunSignalTypeOther s) = s"

record RunSignal =
  sig_ID :: ID
  sig_TenantID :: ID
  sig_RunID :: ID
  sig_ActorPrincipalID :: ID
  sig_Type :: RunSignalType
  sig_Payload :: RawMessage
  sig_IdempotencyKey :: string
  sig_ExpectedStateVersion :: "int option"
  sig_CreatedAt :: Time

text \<open>\<open>Data\<close> is the object of its fields.\<close>

record RunEvent =
  event_ID :: ID
  event_RunID :: ID
  event_Sequence :: int
  event_Type :: string
  event_Data :: "json option"
  event_OccurredAt :: Time

definition onlySignalKeys :: "string list \<Rightarrow> string list \<Rightarrow> bool" where
  "onlySignalKeys keys allowed \<longleftrightarrow> list_all (\<lambda>k. k \<in> set allowed) keys"

definition validRequiredSignalName :: "json option \<Rightarrow> bool" where
  "validRequiredSignalName raw =
     (case raw of None \<Rightarrow> False | Some v \<Rightarrow> (case json_string_value v of None \<Rightarrow> False | Some name \<Rightarrow> signalNamePattern name))"

definition validOptionalSignalName :: "json option \<Rightarrow> bool" where
  "validOptionalSignalName raw \<longleftrightarrow> raw = None \<or> validRequiredSignalName raw"

definition signal_payload_valid :: "RunSignalType \<Rightarrow> (string \<rightharpoonup> json) \<Rightarrow> string list \<Rightarrow> unit result" where
  "signal_payload_valid type payload keys =
     (case type of
        RunSignalPause \<Rightarrow>
          if \<not> onlySignalKeys keys [''reason_code''] \<or> \<not> validOptionalSignalName (payload ''reason_code'')
          then Inl (New ''pause signal payload is invalid'') else Inr ()
      | RunSignalResume \<Rightarrow> if length keys \<noteq> 0 then Inl (New ''resume signal payload must be empty'') else Inr ()
      | RunSignalCustom \<Rightarrow>
          if \<not> onlySignalKeys keys [''name'', ''data''] \<or> \<not> validRequiredSignalName (payload ''name'') \<or> payload ''data'' = None
          then Inl (New ''custom signal payload is invalid'')
          else if json_fields (payload ''data'') = None \<or> length (json_keys (payload ''data'')) > 100
          then Inl (New ''custom signal data must be a bounded object'') else Inr ()
      | RunSignalTypeOther _ \<Rightarrow> Inl (New ''unsupported run signal type''))"

definition RunSignal_Validate :: "RunSignal \<Rightarrow> unit result" where
  "RunSignal_Validate s =
     (if IsZero (sig_ID s) \<or> IsZero (sig_TenantID s) \<or> IsZero (sig_RunID s) \<or> IsZero (sig_ActorPrincipalID s)
         \<or> length (sig_IdempotencyKey s) < 1 \<or> length (sig_IdempotencyKey s) > 256
      then Inl (New ''run signal identity is invalid'')
      else if (case sig_ExpectedStateVersion s of None \<Rightarrow> False | Some v \<Rightarrow> v < 1) then Inl (New ''expected state version is invalid'')
      else if isl (RequireUTC (sig_CreatedAt s)) \<or> IsZeroTime (sig_CreatedAt s) \<or> raw_length (sig_Payload s) = 0
         \<or> raw_length (sig_Payload s) > 65536 \<or> raw_value (sig_Payload s) = None
      then Inl (New ''run signal payload or time is invalid'')
      else case json_fields (raw_value (sig_Payload s)) of
          None \<Rightarrow> Inl (New ''run signal payload must be a bounded object'')
        | Some payload \<Rightarrow>
            if length (json_keys (raw_value (sig_Payload s))) > 100 then Inl (New ''run signal payload must be a bounded object'')
            else signal_payload_valid (sig_Type s) payload (json_keys (raw_value (sig_Payload s))))"

section \<open>The public projection\<close>

record RunAccessRecord =
  access_Run :: Run
  access_AgentRiskClass :: AgentRiskClass
  access_AgentOwnerID :: ID

text \<open>The columns of the join: the run, the digest it was resolved to, the version of its envelope and its agent.\<close>

definition run_projection :: "ID \<Rightarrow> ID \<Rightarrow> DB \<Rightarrow> (run_row \<times> string \<times> int \<times> agent_row) option" where
  "run_projection tenant i db =
     (case find_run tenant i db of
        None \<Rightarrow> None
      | Some r \<Rightarrow>
          (case (List.find (\<lambda>v. rv_tenant v = tenant \<and> rv_run v = i) (run_version_resolutions db),
                 List.find (\<lambda>e. e_tenant e = tenant \<and> e_run e = i) (resource_envelopes db),
                 List.find (\<lambda>a. a_tenant a = tenant \<and> a_id a = r_agent r) (agents db)) of
             (Some v, Some e, Some a) \<Rightarrow> Some (r, rv_agent_content_digest v, e_version e, a)
           | _ \<Rightarrow> None))"

definition decode_id :: "ID \<Rightarrow> ID result" where
  "decode_id i = wrapping ''decode run identifier'' (ParseID (ID_String i))"

definition decode_parent :: "ID option \<Rightarrow> ID option result" where
  "decode_parent parent =
     (case parent of None \<Rightarrow> Inr None
      | Some i \<Rightarrow> and_then (wrapping ''decode parent run identifier'' (ParseID (ID_String i))) (\<lambda>i. Inr (Some i)))"

definition GetRun :: "ID \<Rightarrow> ID \<Rightarrow> DB \<Rightarrow> RunAccessRecord result" where
  "GetRun tenant runID db =
     and_then (repository_valid tenant) (\<lambda>_.
       if IsZero runID then Inl (New ''run query requires an ID'')
       else case run_projection tenant runID db of
           None \<Rightarrow> Inl (NewError CodeNotFound ''run not found'')
         | Some (r, digest, version, a) \<Rightarrow>
             and_then (decode_id (r_id r)) (\<lambda>i. and_then (decode_id (r_tenant r)) (\<lambda>t. and_then (decode_id (r_agent r)) (\<lambda>agent.
             and_then (decode_id (r_agent_version r)) (\<lambda>agentVersion. and_then (decode_id (r_requested_by r)) (\<lambda>requestedBy.
             and_then (decode_id (a_owner a)) (\<lambda>owner. and_then (decode_parent (r_parent r)) (\<lambda>parent.
               let run = \<lparr>run_ID = i, run_TenantID = t, run_AgentID = agent, run_AgentVersionID = agentVersion, run_RequestedBy = requestedBy,
                     run_VersionDigest = digest, run_ParentRunID = parent, run_State = r_state r, run_StateVersion = r_state_version r,
                     run_EnvelopeVersion = version, run_DeadlineAt = map_option ToUTC (r_deadline r), run_CreatedAt = ToUTC (r_created r),
                     run_UpdatedAt = ToUTC (r_updated r)\<rparr>
               in and_then (wrapping ''validate stored run projection'' (Run_Validate run)) (\<lambda>run.
                    if \<not> AgentRiskClass_Valid (a_risk_class a) then Inl (New ''validate stored run projection: invalid agent risk class'')
                    else Inr \<lparr>access_Run = run, access_AgentRiskClass = a_risk_class a, access_AgentOwnerID = owner\<rparr>)))))))))"

section \<open>Worker leases\<close>

text \<open>
  The NOT EXISTS clause of a claim, negated: an active revocation, visible to the tenant, of everything, the tenant, the
  worker, the run, its agent or the digest of its version.
\<close>

definition claim_revoked :: "ID \<Rightarrow> ID \<Rightarrow> Time \<Rightarrow> DB \<Rightarrow> run_row \<Rightarrow> bool" where
  "claim_revoked tenant worker now db r \<longleftrightarrow>
     list_ex (\<lambda>v. visible_to tenant (rk_tenant v) \<and> revocation_active now db v \<and>
       (rk_scope v = RevocationGlobal
        \<or> rk_scope v = RevocationTenantID \<and> rk_target v = ID_String tenant
        \<or> rk_scope v = RevocationPrincipalID \<and> rk_target v = ID_String worker
        \<or> rk_scope v = RevocationRunID \<and> rk_target v = ID_String (r_id r)
        \<or> rk_scope v = RevocationAgentID \<and> rk_target v = ID_String (r_agent r)
        \<or> rk_scope v = RevocationAgentVersion \<and>
            list_ex (\<lambda>av. av_tenant av = r_tenant r \<and> av_id av = r_agent_version r \<and> av_content_digest av = rk_target v) (agent_versions db)))
       (revocations db)"

definition claimable :: "ID \<Rightarrow> ID \<Rightarrow> Time \<Rightarrow> DB \<Rightarrow> run_row \<Rightarrow> bool" where
  "claimable tenant worker now db r \<longleftrightarrow>
     r_tenant r = tenant \<and> (r_state r = RunAdmitted \<or> r_state r = RunRunning) \<and>
     (case r_lease_expires r of None \<Rightarrow> True | Some t \<Rightarrow> unix_nano t \<le> unix_nano now) \<and>
     \<not> claim_revoked tenant worker now db r"

definition claim_candidate :: "ID \<Rightarrow> ID \<Rightarrow> Time \<Rightarrow> DB \<Rightarrow> run_row option" where
  "claim_candidate tenant worker now db =
     (case sort_key (\<lambda>r. (unix_nano (r_created r), r_id r)) (filter (claimable tenant worker now db) (runs db)) of
        [] \<Rightarrow> None | r # _ \<Rightarrow> Some r)"

definition update_run :: "(run_row \<Rightarrow> bool) \<Rightarrow> (run_row \<Rightarrow> run_row) \<Rightarrow> DB \<Rightarrow> (DB \<times> nat) result" where
  "update_run p f db = and_then (pg_update run_check p f (runs db)) (\<lambda>(rows, n). Inr (db\<lparr>runs := rows\<rparr>, n))"

text \<open>The rows that a lease holds, with the fencing token it was given.\<close>

definition lease_row :: "RunLease \<Rightarrow> run_row \<Rightarrow> bool" where
  "lease_row lease r \<longleftrightarrow>
     r_tenant r = lease_TenantID lease \<and> r_id r = lease_RunID lease \<and> r_lease_id r = Some (lease_LeaseID lease)
     \<and> r_fencing_token r = lease_FencingToken lease"

definition leased_run :: "RunLease \<Rightarrow> Time \<Rightarrow> DB \<Rightarrow> run_row option" where
  "leased_run lease now db =
     List.find (\<lambda>r. lease_row lease r \<and> (case r_lease_expires r of None \<Rightarrow> False | Some t \<Rightarrow> unix_nano now < unix_nano t)) (runs db)"

definition not_null_violation :: goerror where
  "not_null_violation = New ''SQLSTATE 23502''"

text \<open>
  The event of a worker and its outbox message. The payload has the fields of the caller between the fencing token and the
  run, as the encoder sorts them; \<open>None\<close> stands for fields that cannot be encoded.
\<close>

definition worker_event :: "RunLease \<Rightarrow> ID \<Rightarrow> string \<Rightarrow> RunActor \<Rightarrow> RunState \<Rightarrow> int \<Rightarrow> int \<Rightarrow> Time \<Rightarrow> (string \<times> json) list \<Rightarrow> run_event_row" where
  "worker_event lease eventID eventType actor state version sequence occurred extra =
     \<lparr>ev_id = eventID, ev_tenant = lease_TenantID lease, ev_run = lease_RunID lease, ev_sequence = sequence, ev_type = eventType,
      ev_actor_type = actor, ev_actor = Some (lease_WorkerID lease), ev_state = Some state, ev_state_version = Some version,
      ev_payload = JObj ([(''fencing_token'', JNum (lease_FencingToken lease))] @ extra @ [(''run_id'', JStr (ID_String (lease_RunID lease))),
        (''sequence'', JNum sequence), (''state'', JStr (RunState_text state)), (''state_version'', JNum version)]),
      ev_occurred = occurred\<rparr>"

definition appendWorkerEventWithID ::
  "RunLease \<Rightarrow> ID \<Rightarrow> string \<Rightarrow> RunActor \<Rightarrow> RunLifecycle option \<Rightarrow> Time \<Rightarrow> (string \<times> json) list option \<Rightarrow> DB \<Rightarrow> DB result" where
  "appendWorkerEventWithID lease eventID eventType actor lifecycle occurred payload db =
     and_then (case lifecycle of
         Some l \<Rightarrow> Inr (State l, Version l)
       | None \<Rightarrow> (case find_run (lease_TenantID lease) (lease_RunID lease) db of
           None \<Rightarrow> Inl no_rows | Some r \<Rightarrow> Inr (r_state r, r_state_version r))) (\<lambda>(state, version).
       let sequence = next_sequence (lease_TenantID lease) (lease_RunID lease) db in
       case payload of
         None \<Rightarrow> Inl not_null_violation
       | Some extra \<Rightarrow> insert_run_event_with_outbox (worker_event lease eventID eventType actor state version sequence occurred extra) db)"

definition appendWorkerEvent :: "Env \<Rightarrow> RunLease \<Rightarrow> string \<Rightarrow> RunLifecycle option \<Rightarrow> Time \<Rightarrow> (string \<times> json) list option \<Rightarrow> DB \<Rightarrow> DB result" where
  "appendWorkerEvent env lease eventType lifecycle occurred payload db =
     and_then (env_NewID env 0) (\<lambda>i. appendWorkerEventWithID lease i eventType RunActorWorker lifecycle occurred payload db)"

definition expiry_field :: "Time \<Rightarrow> (string \<times> json) list option" where
  "expiry_field expires = map_option (\<lambda>j. [(''lease_expires_at'', j)]) (time_json expires)"

fun workerEventSuffix :: "WorkerRunOperation \<Rightarrow> string" where
  "workerEventSuffix WorkerRunStart = ''started''"
| "workerEventSuffix WorkerRunComplete = ''completed''"
| "workerEventSuffix WorkerRunFail = ''failed''"
| "workerEventSuffix _ = ''timed_out''"

definition workerRepositoryError :: "goerror \<Rightarrow> goerror" where
  "workerRepositoryError err =
     (if errors_Is err ErrRunLeaseUnavailable then NewError CodeNotFound ''no run is available''
      else if errors_Is err ErrRunLeaseStale then NewError CodeConflict ''run lease is stale'' else err)"

definition worker_transaction :: "'a result \<Rightarrow> 'a result" where
  "worker_transaction m = (case m of Inl err \<Rightarrow> Inl (workerRepositoryError err) | Inr x \<Rightarrow> Inr x)"

definition ClaimRun :: "Env \<Rightarrow> ID \<Rightarrow> ID \<Rightarrow> ID \<Rightarrow> Time \<Rightarrow> Time \<Rightarrow> DB \<Rightarrow> (RunLease \<times> DB) result" where
  "ClaimRun env tenantID workerID leaseID now expiresAt db =
     (if IsZero tenantID \<or> IsZero workerID \<or> IsZero leaseID \<or> \<not> After expiresAt now then Inl (New ''run claim is invalid'')
      else worker_transaction (case claim_candidate tenantID workerID now db of
          None \<Rightarrow> Inl ErrRunLeaseUnavailable
        | Some r \<Rightarrow>
            and_then (wrapping ''decode claimed run'' (ParseID (ID_String (r_id r)))) (\<lambda>runID.
              case NextFencingToken (r_fencing_token r) of
                Inl _ \<Rightarrow> Inl (NewError CodeConflict ''run fencing token is exhausted'')
              | Inr fence \<Rightarrow>
                  and_then (wrapping ''claim run'' (update_run (\<lambda>x. r_tenant x = tenantID \<and> r_id x = r_id r)
                      (\<lambda>x. x\<lparr>r_lease_id := Some leaseID, r_lease_expires := Some expiresAt, r_fencing_token := fence\<rparr>) db)) (\<lambda>(db, n).
                    if n \<noteq> 1 then Inl (New ''claim run'')
                    else
                      let lease = \<lparr>lease_RunID = runID, lease_TenantID = tenantID, lease_LeaseID = leaseID, lease_WorkerID = workerID,
                            lease_FencingToken = fence, lease_ExpiresAt = expiresAt\<rparr>
                      in and_then (appendWorkerEvent env lease ''run.claimed'' None now (expiry_field expiresAt) db) (\<lambda>db. Inr (lease, db))))))"

definition HeartbeatRun :: "Env \<Rightarrow> RunLease \<Rightarrow> Time \<Rightarrow> Time \<Rightarrow> DB \<Rightarrow> (RunLease \<times> DB) result" where
  "HeartbeatRun env lease now expiresAt db =
     (if isl (RunLease_Validate lease) \<or> \<not> After expiresAt now \<or> \<not> After expiresAt (lease_ExpiresAt lease)
      then Inl (New ''run heartbeat is invalid'')
      else worker_transaction (case leased_run lease now db of
          None \<Rightarrow> Inl ErrRunLeaseStale
        | Some r \<Rightarrow>
            if Terminal (r_state r) then Inl ErrRunLeaseStale
            else and_then (wrapping ''heartbeat run'' (update_run (lease_row lease) (\<lambda>x. x\<lparr>r_lease_expires := Some expiresAt\<rparr>) db)) (\<lambda>(db, n).
              if n \<noteq> 1 then Inl (New ''heartbeat run'')
              else and_then (appendWorkerEvent env lease ''run.heartbeat'' None now (expiry_field expiresAt) db) (\<lambda>db.
                Inr (lease\<lparr>lease_ExpiresAt := expiresAt\<rparr>, db)))))"

text \<open>The transaction of a worker operation, and the operation, which reads the run after the commit.\<close>

definition mutate_run :: "RunLease \<Rightarrow> WorkerRunOperation \<Rightarrow> RunState \<Rightarrow> RunActor \<Rightarrow> ID \<Rightarrow> Time \<Rightarrow> DB \<Rightarrow> DB result" where
  "mutate_run lease operation target actor eventID now db =
     (case leased_run lease now db of
        None \<Rightarrow> Inl ErrRunLeaseStale
      | Some r \<Rightarrow>
          (case Transition \<lparr>State = r_state r, Version = r_state_version r, UpdatedAt = ToUTC (r_updated r), TerminalAt = r_terminal r\<rparr>
                  \<lparr>To = target, Actor = actor, ExpectedVersion = r_state_version r, At = now\<rparr> of
             Inl _ \<Rightarrow> Inl (NewError CodeConflict ''worker operation conflicts with run state'')
           | Inr (final, changed) \<Rightarrow>
               if \<not> changed then Inr db
               else and_then (wrapping ''mutate worker run'' (update_run (lease_row lease)
                   (\<lambda>x. x\<lparr>r_state := target, r_state_version := Version final, r_updated := now, r_terminal := TerminalAt final,
                          r_lease_id := (if Terminal target then None else r_lease_id x),
                          r_lease_expires := (if Terminal target then None else r_lease_expires x)\<rparr>) db)) (\<lambda>(db, n).
                 if n \<noteq> 1 then Inl (New ''mutate worker run'')
                 else appendWorkerEventWithID lease eventID (''run.'' @ workerEventSuffix operation) actor (Some final) now
                   (Some [(''previous_state'', JStr (RunState_text (r_state r)))]) db)))"

definition MutateWorkerRun :: "RunLease \<Rightarrow> WorkerRunOperation \<Rightarrow> ID \<Rightarrow> Time \<Rightarrow> DB \<Rightarrow> Run result \<times> DB" where
  "MutateWorkerRun lease operation eventID now db =
     (if isl (RunLease_Validate lease) \<or> IsZero eventID then (Inl (New ''worker run mutation is invalid''), db)
      else case Target operation of
          Inl err \<Rightarrow> (Inl err, db)
        | Inr (target, actor) \<Rightarrow>
            (case worker_transaction (mutate_run lease operation target actor eventID now db) of
               Inl err \<Rightarrow> (Inl err, db)
             | Inr db \<Rightarrow> (map_sum id access_Run (GetRun (lease_TenantID lease) (lease_RunID lease) db), db)))"

section \<open>Cancellation\<close>

record RunCancellationEvidence =
  ce_SignalID :: ID
  ce_EventID :: ID
  ce_AuditID :: ID
  ce_OutboxID :: ID
  ce_RequestID :: ID
  ce_PolicyDecisionID :: ID
  ce_ReasonCodes :: "string list"

definition cancel_audit :: "RunCancellation \<Rightarrow> RunCancellationEvidence \<Rightarrow> RunState \<Rightarrow> RunLifecycle \<Rightarrow> int \<Rightarrow> AuditEvent" where
  "cancel_audit c e previous final sequence =
     \<lparr>au_ID = ce_AuditID e, au_TenantID = Some (cancel_TenantID c), au_PrincipalID = Some (cancel_ActorPrincipalID c), au_Action = ''runs.cancel'',
      au_ResourceType = ''run'', au_ResourceID = ID_String (cancel_RunID c), au_Outcome = ''SUCCEEDED'', au_ReasonCodes = JArr (map JStr (ce_ReasonCodes e)),
      au_PolicyDecisionID = Some (ce_PolicyDecisionID e), au_RequestID = Some (ce_RequestID e), au_TraceID = [],
      au_Metadata = JObj [(''event_sequence'', JNum sequence), (''previous_state'', JStr (RunState_text previous)), (''reason_code'', JStr (cancel_ReasonCode c)),
        (''state'', JStr (RunState_text (State final))), (''state_version'', JNum (Version final))],
      au_PreviousHash = [], au_OccurredAt = cancel_CreatedAt c\<rparr>"

definition cancel_message :: "RunCancellation \<Rightarrow> RunCancellationEvidence \<Rightarrow> RunState \<Rightarrow> RunLifecycle \<Rightarrow> int \<Rightarrow> OutboxMessage" where
  "cancel_message c e previous final sequence =
     \<lparr>ob_ID = ce_OutboxID e, ob_TenantID = Some (cancel_TenantID c), ob_AggregateType = ''run'', ob_AggregateID = ID_String (cancel_RunID c),
      ob_EventType = ''run.cancelled'', ob_SchemaVersion = 1,
      ob_Payload = JObj [(''event_id'', JStr (ID_String (ce_EventID e))), (''previous_state'', JStr (RunState_text previous)),
        (''reason_code'', JStr (cancel_ReasonCode c)), (''run_id'', JStr (ID_String (cancel_RunID c))), (''sequence'', JNum sequence),
        (''state'', JStr (RunState_text (State final))), (''state_version'', JNum (Version final))],
      ob_Headers = JObj [], ob_OccurredAt = cancel_CreatedAt c, ob_AvailableAt = cancel_CreatedAt c\<rparr>"

definition insert_signal :: "run_signal_row \<Rightarrow> DB \<Rightarrow> DB result" where
  "insert_signal s db =
     (if \<not> list_ex (\<lambda>p. p_tenant p = sg_tenant s \<and> p_id p = sg_actor s) (principals db) then Inl foreign_key_violation
      else and_then (pg_insert run_signal_check run_signal_conflict s (run_signals db)) (\<lambda>rows. Inr (db\<lparr>run_signals := rows\<rparr>)))"

definition cancel_signal :: "RunCancellation \<Rightarrow> RunCancellationEvidence \<Rightarrow> run_signal_row" where
  "cancel_signal c e =
     \<lparr>sg_id = ce_SignalID e, sg_tenant = cancel_TenantID c, sg_run = cancel_RunID c, sg_type = ''CANCEL'',
      sg_payload = JObj [(''reason_code'', JStr (cancel_ReasonCode c))], sg_idempotency_key = cancel_IdempotencyKey c,
      sg_actor = cancel_ActorPrincipalID c, sg_created = cancel_CreatedAt c\<rparr>"

definition cancel_event :: "RunCancellation \<Rightarrow> RunCancellationEvidence \<Rightarrow> RunState \<Rightarrow> RunLifecycle \<Rightarrow> int \<Rightarrow> run_event_row" where
  "cancel_event c e previous final sequence =
     \<lparr>ev_id = ce_EventID e, ev_tenant = cancel_TenantID c, ev_run = cancel_RunID c, ev_sequence = sequence, ev_type = ''run.cancelled'',
      ev_actor_type = RunActorCaller, ev_actor = Some (cancel_ActorPrincipalID c), ev_state = Some RunCancelled, ev_state_version = Some (Version final),
      ev_payload = JObj [(''previous_state'', JStr (RunState_text previous)), (''reason_code'', JStr (cancel_ReasonCode c))],
      ev_occurred = cancel_CreatedAt c\<rparr>"

text \<open>The one statement that updates the run and inserts signal, event, audit event and outbox message for an updated row.\<close>

definition cancel_statement :: "Env \<Rightarrow> RunCancellation \<Rightarrow> RunCancellationEvidence \<Rightarrow> run_row \<Rightarrow> RunLifecycle \<Rightarrow> int \<Rightarrow> DB \<Rightarrow> DB result" where
  "cancel_statement env c e r final sequence db =
     and_then (update_run (\<lambda>x. r_tenant x = cancel_TenantID c \<and> r_id x = cancel_RunID c \<and> r_state_version x = r_state_version r \<and> r_state x = r_state r)
         (\<lambda>x. x\<lparr>r_state := RunCancelled, r_state_version := Version final, r_updated := cancel_CreatedAt c, r_terminal := Some (cancel_CreatedAt c),
                r_lease_id := None, r_lease_expires := None, r_fencing_token := r_fencing_token x + 1\<rparr>) db) (\<lambda>(db, n).
       if n = 0 then Inr db
       else and_then (insert_signal (cancel_signal c e) db) (\<lambda>db.
         and_then (insert_run_event (cancel_event c e (r_state r) final sequence) db) (\<lambda>db.
         and_then (insert_audit env (cancel_audit c e (r_state r) final sequence) db) (\<lambda>db.
           insert_outbox (cancel_message c e (r_state r) final sequence) db))))"

definition cancel_run :: "Env \<Rightarrow> RunCancellation \<Rightarrow> RunCancellationEvidence \<Rightarrow> DB \<Rightarrow> DB result" where
  "cancel_run env c e db =
     (case find_run (cancel_TenantID c) (cancel_RunID c) db of
        None \<Rightarrow> Inl (NewError CodeNotFound ''run not found'')
      | Some r \<Rightarrow>
          if Terminal (r_state r) then Inr db
          else
            let expected = (case cancel_ExpectedStateVersion c of None \<Rightarrow> r_state_version r | Some v \<Rightarrow> v) in
            (case Transition \<lparr>State = r_state r, Version = r_state_version r, UpdatedAt = ToUTC (r_updated r), TerminalAt = r_terminal r\<rparr>
                    \<lparr>To = RunCancelled, Actor = RunActorCaller, ExpectedVersion = expected, At = cancel_CreatedAt c\<rparr> of
               Inl err \<Rightarrow>
                 if errors_Is err ErrRunVersionConflict then Inl (NewError CodeConflict ''run state version conflict'')
                 else Inl (NewError CodeConflict ''run cannot be cancelled from its current state'')
             | Inr (final, changed) \<Rightarrow>
                 if \<not> changed then Inr db
                 else if r_fencing_token r = MaxInt64 then Inl (NewError CodeConflict ''run fencing token is exhausted'')
                 else
                   let sequence = next_sequence (cancel_TenantID c) (cancel_RunID c) db in
                   and_then (validateEvidence (cancel_audit c e (r_state r) final sequence) (cancel_message c e (r_state r) final sequence)) (\<lambda>_.
                     wrapping ''cancel run with evidence'' (cancel_statement env c e r final sequence db))))"

definition CancelRun :: "Env \<Rightarrow> ID \<Rightarrow> RunCancellation \<Rightarrow> RunCancellationEvidence \<Rightarrow> DB \<Rightarrow> Run result \<times> DB" where
  "CancelRun env tenant c e db =
     (case and_then (repository_valid tenant) (\<lambda>_.
         if cancel_TenantID c \<noteq> tenant then Inl (New ''run cancellation does not match repository scope'')
         else and_then (RunCancellation_Validate c) (\<lambda>_.
           if IsZero (ce_SignalID e) \<or> IsZero (ce_EventID e) \<or> IsZero (ce_AuditID e) \<or> IsZero (ce_OutboxID e) \<or> IsZero (ce_RequestID e)
              \<or> IsZero (ce_PolicyDecisionID e) \<or> ce_ReasonCodes e = []
           then Inl (New ''run cancellation evidence is invalid'')
           else cancel_run env c e db)) of
        Inl err \<Rightarrow> (Inl err, db)
      | Inr db \<Rightarrow> (map_sum id access_Run (GetRun tenant (cancel_RunID c) db), db))"

section \<open>Accepted signals\<close>

record RunSignalEvidence =
  se_EventID :: ID
  se_AuditID :: ID
  se_OutboxID :: ID
  se_RequestID :: ID
  se_PolicyDecisionID :: ID
  se_ReasonCodes :: "string list"

definition signal_audit :: "RunSignal \<Rightarrow> RunSignalEvidence \<Rightarrow> int \<Rightarrow> AuditEvent" where
  "signal_audit s e sequence =
     \<lparr>au_ID = se_AuditID e, au_TenantID = Some (sig_TenantID s), au_PrincipalID = Some (sig_ActorPrincipalID s), au_Action = ''runs.signal'',
      au_ResourceType = ''run'', au_ResourceID = ID_String (sig_RunID s), au_Outcome = ''SUCCEEDED'', au_ReasonCodes = JArr (map JStr (se_ReasonCodes e)),
      au_PolicyDecisionID = Some (se_PolicyDecisionID e), au_RequestID = Some (se_RequestID e), au_TraceID = [],
      au_Metadata = JObj [(''event_sequence'', JNum sequence), (''signal_id'', JStr (ID_String (sig_ID s))), (''signal_type'', JStr (RunSignalType_text (sig_Type s)))],
      au_PreviousHash = [], au_OccurredAt = sig_CreatedAt s\<rparr>"

definition signal_message :: "RunSignal \<Rightarrow> json \<Rightarrow> RunSignalEvidence \<Rightarrow> int \<Rightarrow> OutboxMessage" where
  "signal_message s payload e sequence =
     \<lparr>ob_ID = se_OutboxID e, ob_TenantID = Some (sig_TenantID s), ob_AggregateType = ''run'', ob_AggregateID = ID_String (sig_RunID s),
      ob_EventType = ''run.signal.accepted'', ob_SchemaVersion = 1,
      ob_Payload = JObj [(''event_id'', JStr (ID_String (se_EventID e))), (''payload'', payload), (''run_id'', JStr (ID_String (sig_RunID s))),
        (''sequence'', JNum sequence), (''signal_id'', JStr (ID_String (sig_ID s))), (''signal_type'', JStr (RunSignalType_text (sig_Type s)))],
      ob_Headers = JObj [], ob_OccurredAt = sig_CreatedAt s, ob_AvailableAt = sig_CreatedAt s\<rparr>"

definition signal_row :: "RunSignal \<Rightarrow> json \<Rightarrow> run_signal_row" where
  "signal_row s payload =
     \<lparr>sg_id = sig_ID s, sg_tenant = sig_TenantID s, sg_run = sig_RunID s, sg_type = RunSignalType_text (sig_Type s), sg_payload = payload,
      sg_idempotency_key = sig_IdempotencyKey s, sg_actor = sig_ActorPrincipalID s, sg_created = sig_CreatedAt s\<rparr>"

definition signal_event :: "RunSignal \<Rightarrow> json \<Rightarrow> RunSignalEvidence \<Rightarrow> run_row \<Rightarrow> int \<Rightarrow> run_event_row" where
  "signal_event s payload e r sequence =
     \<lparr>ev_id = se_EventID e, ev_tenant = sig_TenantID s, ev_run = sig_RunID s, ev_sequence = sequence, ev_type = ''run.signal.accepted'',
      ev_actor_type = RunActorCaller, ev_actor = Some (sig_ActorPrincipalID s), ev_state = Some (r_state r), ev_state_version = Some (r_state_version r),
      ev_payload = JObj [(''payload'', payload), (''signal_id'', JStr (ID_String (sig_ID s))), (''signal_type'', JStr (RunSignalType_text (sig_Type s)))],
      ev_occurred = sig_CreatedAt s\<rparr>"

text \<open>The data of an accepted signal: the two text fields of the payload, empty when absent.\<close>

definition signal_data :: "string \<Rightarrow> string \<Rightarrow> json" where
  "signal_data i type = JObj [(''signal_id'', JStr i), (''signal_type'', JStr type)]"

definition decode_signal_data :: "json \<Rightarrow> json result" where
  "decode_signal_data payload =
     (let field = (\<lambda>m key. case m key of None \<Rightarrow> Some [] | Some v \<Rightarrow> json_string_value v) in
      case json_fields (Some payload) of
        None \<Rightarrow> Inl (New ''stored signal event payload is invalid'')
      | Some m \<Rightarrow>
          (case (field m ''signal_id'', field m ''signal_type'') of
             (Some i, Some type) \<Rightarrow> Inr (signal_data i type)
           | _ \<Rightarrow> Inl (New ''stored signal event payload is invalid'')))"

definition loadSignalEvent :: "ID \<Rightarrow> ID \<Rightarrow> ID \<Rightarrow> DB \<Rightarrow> RunEvent result" where
  "loadSignalEvent tenant run signal db =
     (let parsed = (\<lambda>i. case ParseID (ID_String i) of Inl _ \<Rightarrow> 0 | Inr i \<Rightarrow> i) in
      case List.find (\<lambda>x. ev_tenant x = tenant \<and> ev_run x = run \<and> json_text_field ''signal_id'' (ev_payload x) = Some (ID_String signal)) (run_events db) of
        None \<Rightarrow> Inl (Wrapf ''load idempotent signal event'' no_rows)
      | Some x \<Rightarrow>
          and_then (decode_signal_data (ev_payload x)) (\<lambda>data.
            Inr \<lparr>event_ID = parsed (ev_id x), event_RunID = parsed (ev_run x), event_Sequence = ev_sequence x, event_Type = ev_type x,
                 event_Data = Some data, event_OccurredAt = ToUTC (ev_occurred x)\<rparr>))"

definition find_signal :: "ID \<Rightarrow> ID \<Rightarrow> string \<Rightarrow> DB \<Rightarrow> run_signal_row option" where
  "find_signal tenant run key db =
     List.find (\<lambda>s. sg_tenant s = tenant \<and> sg_run s = run \<and> sg_idempotency_key s = key) (run_signals db)"

text \<open>The statement that inserts signal, event, audit event and outbox message.\<close>

definition signal_statement :: "Env \<Rightarrow> RunSignal \<Rightarrow> json \<Rightarrow> RunSignalEvidence \<Rightarrow> run_row \<Rightarrow> int \<Rightarrow> DB \<Rightarrow> DB result" where
  "signal_statement env s payload e r sequence db =
     and_then (insert_signal (signal_row s payload) db) (\<lambda>db.
     and_then (insert_run_event (signal_event s payload e r sequence) db) (\<lambda>db.
     and_then (insert_audit env (signal_audit s e sequence) db) (\<lambda>db.
       insert_outbox (signal_message s payload e sequence) db)))"

definition append_signal :: "Env \<Rightarrow> RunSignal \<Rightarrow> json \<Rightarrow> RunSignalEvidence \<Rightarrow> DB \<Rightarrow> (RunEvent \<times> DB) result" where
  "append_signal env s payload e db =
     (case find_run (sig_TenantID s) (sig_RunID s) db of
        None \<Rightarrow> Inl (NewError CodeNotFound ''run not found'')
      | Some r \<Rightarrow>
          if Terminal (r_state r) then Inl (NewError CodeConflict ''terminal run cannot accept signals'')
          else if (case sig_ExpectedStateVersion s of None \<Rightarrow> False | Some v \<Rightarrow> v \<noteq> r_state_version r)
          then Inl (NewError CodeConflict ''run state version conflict'')
          else case find_signal (sig_TenantID s) (sig_RunID s) (sig_IdempotencyKey s) db of
              Some x \<Rightarrow> and_then (loadSignalEvent (sig_TenantID s) (sig_RunID s) (sg_id x) db) (\<lambda>event. Inr (event, db))
            | None \<Rightarrow>
                let sequence = next_sequence (sig_TenantID s) (sig_RunID s) db in
                and_then (validateEvidence (signal_audit s e sequence) (signal_message s payload e sequence)) (\<lambda>_.
                and_then (wrapping ''append run signal evidence'' (signal_statement env s payload e r sequence db)) (\<lambda>db.
                  Inr (\<lparr>event_ID = se_EventID e, event_RunID = sig_RunID s, event_Sequence = sequence, event_Type = ''run.signal.accepted'',
                        event_Data = Some (signal_data (ID_String (sig_ID s)) (RunSignalType_text (sig_Type s))), event_OccurredAt = sig_CreatedAt s\<rparr>, db))))"

definition AppendRunSignal :: "Env \<Rightarrow> ID \<Rightarrow> RunSignal \<Rightarrow> RunSignalEvidence \<Rightarrow> DB \<Rightarrow> (RunEvent \<times> DB) result" where
  "AppendRunSignal env tenant s e db =
     and_then (repository_valid tenant) (\<lambda>_.
       if sig_TenantID s \<noteq> tenant then Inl (New ''run signal does not match repository scope'')
       else and_then (RunSignal_Validate s) (\<lambda>_.
         if IsZero (se_EventID e) \<or> IsZero (se_AuditID e) \<or> IsZero (se_OutboxID e) \<or> IsZero (se_RequestID e) \<or> IsZero (se_PolicyDecisionID e)
            \<or> se_ReasonCodes e = []
         then Inl (New ''run signal evidence is invalid'')
         else append_signal env s (the (raw_value (sig_Payload s))) e db))"

section \<open>Events\<close>

record RunEventWindow =
  window_Events :: "RunEvent list"
  window_OldestRetained :: int
  window_Latest :: int

definition run_events_of :: "ID \<Rightarrow> ID \<Rightarrow> DB \<Rightarrow> run_event_row list" where
  "run_events_of tenant run db = filter (\<lambda>e. ev_tenant e = tenant \<and> ev_run e = run) (run_events db)"

definition scan_run_event :: "run_event_row \<Rightarrow> RunEvent result" where
  "scan_run_event x =
     and_then (ParseID (ID_String (ev_id x))) (\<lambda>i.
     and_then (ParseID (ID_String (ev_run x))) (\<lambda>run.
       Inr \<lparr>event_ID = i, event_RunID = run, event_Sequence = ev_sequence x, event_Type = ev_type x,
            event_Data = Some (ev_payload x), event_OccurredAt = ToUTC (ev_occurred x)\<rparr>))"

fun scan_run_events :: "run_event_row list \<Rightarrow> RunEvent list result" where
  "scan_run_events [] = Inr []"
| "scan_run_events (x # xs) = and_then (scan_run_event x) (\<lambda>e. and_then (scan_run_events xs) (\<lambda>es. Inr (e # es)))"

definition ListRunEvents :: "ID \<Rightarrow> ID \<Rightarrow> int \<Rightarrow> int \<Rightarrow> DB \<Rightarrow> RunEventWindow result" where
  "ListRunEvents tenant run after limit db =
     and_then (repository_valid tenant) (\<lambda>_.
       if IsZero run \<or> after < 0 \<or> limit < 1 \<or> limit > 256 then Inl (New ''invalid run event query'')
       else if find_run tenant run db = None then Inl (NewError CodeNotFound ''run not found'')
       else
         let stored = run_events_of tenant run db; sequences = map ev_sequence stored;
             oldest = (case sequences of [] \<Rightarrow> 0 | x # xs \<Rightarrow> fold min xs x); latest = (case sequences of [] \<Rightarrow> 0 | x # xs \<Rightarrow> fold max xs x)
         in and_then (scan_run_events (take (nat limit) (sort_key ev_sequence (filter (\<lambda>e. after < ev_sequence e) stored)))) (\<lambda>events.
              Inr \<lparr>window_Events = events, window_OldestRetained = oldest, window_Latest = latest\<rparr>))"

definition RunEvent_Validate :: "RunEvent \<Rightarrow> unit result" where
  "RunEvent_Validate e =
     (if IsZero (event_ID e) \<or> IsZero (event_RunID e) \<or> event_Sequence e < 1 \<or> \<not> signalNamePattern (event_Type e) \<or> event_Data e = None
         \<or> IsZeroTime (event_OccurredAt e)
      then Inl (New ''run event is invalid'')
      else if isl (RequireUTC (event_OccurredAt e)) then Inl (New ''run event time is invalid'') else Inr ())"

section \<open>What the run tables promise\<close>

definition run_row_ok :: "run_row \<Rightarrow> bool" where
  "run_row_ok r \<longleftrightarrow>
     run_check r \<and> int64 (r_state_version r) \<and> int64 (r_fencing_token r) \<and> (Terminal (r_state r) \<longrightarrow> r_lease_id r = None)"

definition events_ok :: "DB \<Rightarrow> bool" where
  "events_ok db \<longleftrightarrow> (\<forall>t i. map ev_sequence (run_events_of t i db) = [1..int (length (run_events_of t i db))])"

definition runs_inv :: "DB \<Rightarrow> bool" where
  "runs_inv db \<longleftrightarrow> unique_key r_id (runs db) \<and> list_all run_row_ok (runs db) \<and> events_ok db"

definition row_forward :: "run_row \<Rightarrow> run_row \<Rightarrow> bool" where
  "row_forward r s \<longleftrightarrow>
     r_id s = r_id r \<and> r_tenant s = r_tenant r \<and> r_agent s = r_agent r \<and> r_agent_version s = r_agent_version r \<and>
     r_parent s = r_parent r \<and> r_requested_by s = r_requested_by r \<and> r_created s = r_created r \<and>
     transitionAllowed\<^sup>*\<^sup>* (r_state r) (r_state s) \<and> r_state_version r \<le> r_state_version s \<and> r_fencing_token r \<le> r_fencing_token s \<and>
     (Terminal (r_state r) \<longrightarrow> s = r) \<and> (r_lease_id s \<noteq> None \<longrightarrow> r_lease_id s \<noteq> r_lease_id r \<longrightarrow> r_fencing_token r < r_fencing_token s)"

definition runs_forward :: "DB \<Rightarrow> DB \<Rightarrow> bool" where
  "runs_forward db db' \<longleftrightarrow> list_all2 row_forward (runs db) (take (length (runs db)) (runs db')) \<and> prefix (run_events db) (run_events db')"

lemma row_forward_refl: "row_forward r r"
  by (simp add: row_forward_def)

lemma row_forwardD:
  assumes "row_forward r s"
  shows "r_id s = r_id r" "r_tenant s = r_tenant r" "r_state_version r \<le> r_state_version s" "r_fencing_token r \<le> r_fencing_token s"
    "transitionAllowed\<^sup>*\<^sup>* (r_state r) (r_state s)"
    "r_lease_id s \<noteq> None \<longrightarrow> r_lease_id s \<noteq> r_lease_id r \<longrightarrow> r_fencing_token r < r_fencing_token s"
  using assms unfolding row_forward_def by simp_all

lemma row_forward_trans:
  assumes "row_forward r s" "row_forward s t"
  shows "row_forward r t"
proof (cases "Terminal (r_state r)")
  case True
  then have "s = r" using assms(1) by (simp add: row_forward_def)
  then show ?thesis using assms(2) by simp
next
  case False
  have "transitionAllowed\<^sup>*\<^sup>* (r_state r) (r_state t)"
    using rtranclp_trans[OF row_forwardD(5)[OF assms(1)] row_forwardD(5)[OF assms(2)]] .
  moreover have "r_lease_id t \<noteq> None \<longrightarrow> r_lease_id t \<noteq> r_lease_id r \<longrightarrow> r_fencing_token r < r_fencing_token t"
    using row_forwardD(4,6)[OF assms(1)] row_forwardD(4,6)[OF assms(2)] by (cases "r_lease_id t = r_lease_id s") auto
  ultimately show ?thesis using assms False unfolding row_forward_def by simp
qed

lemma runs_forward_refl: "runs_forward db db"
  by (simp add: runs_forward_def list.rel_refl row_forward_refl)

lemma runs_forward_trans:
  assumes "runs_forward a b" "runs_forward b c"
  shows "runs_forward a c"
proof -
  let ?n = "length (runs a)"
  have ab: "list_all2 row_forward (runs a) (take ?n (runs b))" and bc: "list_all2 row_forward (runs b) (take (length (runs b)) (runs c))"
    using assms by (simp_all add: runs_forward_def)
  have n: "?n \<le> length (runs b)" using list_all2_lengthD[OF ab] by simp
  have "list_all2 row_forward (take ?n (runs b)) (take ?n (runs c))" using list_all2_takeI[OF bc, of ?n] n by (simp add: min_absorb1)
  then have "list_all2 row_forward (runs a) (take ?n (runs c))"
    using list_all2_trans[of row_forward row_forward row_forward "runs a" "take ?n (runs b)" "take ?n (runs c)", OF row_forward_trans] ab by simp
  moreover have "prefix (run_events a) (run_events c)"
    using assms prefix_order.trans[of "run_events a" "run_events b" "run_events c"] by (simp add: runs_forward_def)
  ultimately show ?thesis by (simp add: runs_forward_def)
qed


definition runs_evolve :: "DB \<Rightarrow> DB \<Rightarrow> bool" where
  "runs_evolve db db' \<longleftrightarrow> (runs_inv db \<longrightarrow> runs_inv db' \<and> runs_forward db db')"

lemma runs_evolveI: "(runs_inv db \<Longrightarrow> runs_inv db' \<and> runs_forward db db') \<Longrightarrow> runs_evolve db db'"
  by (simp add: runs_evolve_def)

lemma runs_evolve_same: "runs db' = runs db \<Longrightarrow> run_events db' = run_events db \<Longrightarrow> runs_evolve db db'"
  by (simp add: runs_evolve_def runs_inv_def events_ok_def run_events_of_def runs_forward_def list.rel_refl row_forward_refl)

lemma runs_evolve_trans:
  assumes "runs_evolve a b" "runs_inv b \<Longrightarrow> runs_evolve b c"
  shows "runs_evolve a c"
proof (rule runs_evolveI)
  assume "runs_inv a"
  then have "runs_inv b" "runs_forward a b" using assms(1) by (simp_all add: runs_evolve_def)
  moreover have "runs_inv c" "runs_forward b c" using assms(2) calculation(1) by (simp_all add: runs_evolve_def)
  ultimately show "runs_inv c \<and> runs_forward a c" by (simp add: runs_forward_trans[of a b c])
qed

lemma runs_evolve_update:
  assumes "\<And>r. r \<in> set (runs db) \<Longrightarrow> p r \<Longrightarrow> runs_inv db \<Longrightarrow> row_forward r (f r) \<and> run_row_ok (f r)"
  shows "runs_evolve db (db\<lparr>runs := update_where p f (runs db)\<rparr>)"
proof (rule runs_evolveI)
  assume inv: "runs_inv db"
  have id: "r_id (if p r then f r else r) = r_id r" if "r \<in> set (runs db)" for r
    using assms[OF that _ inv] by (simp add: row_forward_def)
  have "map r_id (update_where p f (runs db)) = map r_id (runs db)"
    unfolding update_where_def map_map by (rule map_cong[OF refl]) (simp only: o_apply id)
  moreover have "length (update_where p f (runs db)) = length (runs db)" by (simp add: update_where_def)
  moreover have "list_all2 row_forward (runs db) (update_where p f (runs db))"
    unfolding update_where_def list.rel_map by (rule list.rel_refl_strong) (simp add: assms inv row_forward_refl)
  moreover have "list_all run_row_ok (update_where p f (runs db))"
    using inv assms[OF _ _ inv] by (auto simp: set_update_where list_all_iff runs_inv_def)
  ultimately show "runs_inv (db\<lparr>runs := update_where p f (runs db)\<rparr>) \<and> runs_forward db (db\<lparr>runs := update_where p f (runs db)\<rparr>)"
    using inv by (simp add: runs_inv_def runs_forward_def unique_key_def events_ok_def run_events_of_def)
qed

lemma runs_evolve_insert:
  assumes "run_row_ok r" "\<forall>x \<in> set (runs db). r_id x \<noteq> r_id r"
  shows "runs_evolve db (db\<lparr>runs := runs db @ [r]\<rparr>)"
proof (rule runs_evolveI)
  assume "runs_inv db"
  moreover have "unique_key r_id (runs db @ [r])" if "unique_key r_id (runs db)" using that assms(2) by (force simp: unique_key_def)
  ultimately show "runs_inv (db\<lparr>runs := runs db @ [r]\<rparr>) \<and> runs_forward db (db\<lparr>runs := runs db @ [r]\<rparr>)"
    using assms(1) by (simp add: runs_inv_def runs_forward_def events_ok_def run_events_of_def list.rel_refl row_forward_refl)
qed

lemma foldr_max_init: "0 \<le> a \<Longrightarrow> foldr max xs a = max a (foldr max xs 0)" for a :: int
  by (induction xs) (simp_all add: max.left_commute max.absorb1)

lemma foldr_max_upto: "foldr max [1..int n] 0 = int n"
proof (induction n)
  case (Suc n)
  then show ?case using foldr_max_init[of "int (Suc n)" "[1..int n]"] upto_rec2[of 1 "int (Suc n)"] by simp
qed simp

lemma next_sequence_max: "next_sequence t i db = foldr max (map ev_sequence (run_events_of t i db)) 0 + 1"
proof -
  have "foldr (\<lambda>e n. if ev_tenant e = t \<and> ev_run e = i then max (ev_sequence e) n else n) es 0 =
      foldr max (map ev_sequence (filter (\<lambda>e. ev_tenant e = t \<and> ev_run e = i) es)) 0" for es
    by (induction es) auto
  then show ?thesis by (simp add: next_sequence_def run_events_of_def)
qed

lemma next_sequence_ok:
  assumes "events_ok db"
  shows "next_sequence t i db = int (length (run_events_of t i db)) + 1"
  unfolding next_sequence_max assms[unfolded events_ok_def, rule_format] foldr_max_upto by (rule refl)

lemma insert_run_event_evolve:
  assumes "insert_run_event e db = Inr db'" "events_ok db \<Longrightarrow> ev_sequence e = next_sequence (ev_tenant e) (ev_run e) db"
  shows "runs_evolve db db'"
proof (rule runs_evolveI)
  assume inv: "runs_inv db"
  then have ok: "events_ok db" by (simp add: runs_inv_def)
  have db': "db' = db\<lparr>run_events := run_events db @ [e]\<rparr>" using assms(1) by (auto simp: insert_run_event_def and_then_Inr pg_insert_Inr)
  have "map ev_sequence (run_events_of t i db') = [1..int (length (run_events_of t i db'))]" for t i
  proof (cases "ev_tenant e = t \<and> ev_run e = i")
    case True
    then have "run_events_of t i db' = run_events_of t i db @ [e]" by (simp add: run_events_of_def db')
    moreover have "ev_sequence e = int (length (run_events_of t i db)) + 1" using True assms(2)[OF ok] next_sequence_ok[OF ok, of t i] by simp
    ultimately show ?thesis using ok upto_rec2[of 1 "int (length (run_events_of t i db)) + 1"] by (simp add: events_ok_def add.commute)
  next
    case False
    then have "run_events_of t i db' = run_events_of t i db" by (auto simp: run_events_of_def db')
    then show ?thesis using ok by (simp add: events_ok_def)
  qed
  then show "runs_inv db' \<and> runs_forward db db'"
    using inv by (simp add: runs_inv_def events_ok_def runs_forward_def db' list.rel_refl row_forward_refl)
qed


lemma insert_outbox_evolve: "insert_outbox m db = Inr db' \<Longrightarrow> runs_evolve db db'"
  using insert_outbox_same[of m db db'] by (intro runs_evolve_same) simp_all

lemma insert_audit_evolve: "insert_audit env a db = Inr db' \<Longrightarrow> runs_evolve db db'"
  using insert_audit_same[of env a db db'] by (intro runs_evolve_same) simp_all

lemma insert_signal_evolve: "insert_signal s db = Inr db' \<Longrightarrow> runs_evolve db db'"
  by (rule runs_evolve_same) (auto simp: insert_signal_def and_then_Inr split: if_splits)

lemma insert_run_event_with_outbox_evolve:
  assumes "insert_run_event_with_outbox e db = Inr db'" "events_ok db \<Longrightarrow> ev_sequence e = next_sequence (ev_tenant e) (ev_run e) db"
  shows "runs_evolve db db'"
proof -
  obtain db1 m where "insert_run_event e db = Inr db1" "insert_outbox m db1 = Inr db'"
    using assms(1) by (auto simp: insert_run_event_with_outbox_def and_then_Inr)
  then show ?thesis by (intro runs_evolve_trans[OF insert_run_event_evolve[OF _ assms(2)] insert_outbox_evolve]) simp_all
qed

lemma appendWorkerEventWithID_evolve:
  assumes "appendWorkerEventWithID lease i type actor l occurred payload db = Inr db'"
  shows "runs_evolve db db'"
proof -
  obtain s v extra where "insert_run_event_with_outbox (worker_event lease i type actor s v (next_sequence (lease_TenantID lease) (lease_RunID lease) db) occurred extra) db = Inr db'"
    using assms by (auto simp: appendWorkerEventWithID_def and_then_Inr Let_def split: option.splits prod.splits)
  then show ?thesis by (rule insert_run_event_with_outbox_evolve) (simp add: worker_event_def)
qed

lemma appendWorkerEvent_evolve:
  "appendWorkerEvent env lease type l occurred payload db = Inr db' \<Longrightarrow> runs_evolve db db'"
  unfolding appendWorkerEvent_def and_then_Inr by (elim exE conjE) (rule appendWorkerEventWithID_evolve)

lemma update_run_Inr:
  "update_run p f db = Inr (db', n) \<longleftrightarrow>
     (\<forall>r \<in> set (runs db). p r \<longrightarrow> run_check (f r)) \<and> db' = db\<lparr>runs := update_where p f (runs db)\<rparr> \<and> n = rows_affected p (runs db)"
  by (auto simp: update_run_def and_then_Inr pg_update_Inr)

lemma update_run_evolve:
  assumes "update_run p f db = Inr (db', n)"
    and "\<And>r. r \<in> set (runs db) \<Longrightarrow> p r \<Longrightarrow> unique_key r_id (runs db) \<Longrightarrow> run_row_ok r \<Longrightarrow> run_check (f r) \<Longrightarrow> row_forward r (f r) \<and> run_row_ok (f r)"
  shows "runs_evolve db db'"
proof -
  have u: "\<forall>r \<in> set (runs db). p r \<longrightarrow> run_check (f r)" "db' = db\<lparr>runs := update_where p f (runs db)\<rparr>" using assms(1) by (simp_all add: update_run_Inr)
  show ?thesis unfolding u(2)
  proof (rule runs_evolve_update)
    fix r assume r: "r \<in> set (runs db)" "p r" "runs_inv db"
    show "row_forward r (f r) \<and> run_row_ok (f r)"
      by (rule assms(2)[OF r(1,2)]) (use r u(1) in \<open>simp_all add: runs_inv_def list_all_iff\<close>)
  qed
qed

lemma claim_candidate_Some:
  assumes "claim_candidate t w now db = Some r"
  shows "r \<in> set (runs db)" "claimable t w now db r"
proof -
  let ?rs = "sort_key (\<lambda>r. (unix_nano (r_created r), r_id r)) (filter (claimable t w now db) (runs db))"
  have "r \<in> set ?rs" using assms unfolding claim_candidate_def by (cases ?rs) simp_all
  then show "r \<in> set (runs db)" "claimable t w now db r" by simp_all
qed

lemma NextFencingToken_Inr: "int64 n \<Longrightarrow> NextFencingToken n = Inr m \<longleftrightarrow> 0 \<le> n \<and> n \<noteq> MaxInt64 \<and> m = n + 1"
  by (auto simp: NextFencingToken_def int64_simps wrap64_def)

lemma worker_transaction_Inr [simp]: "worker_transaction m = Inr x \<longleftrightarrow> m = Inr x"
  by (simp add: worker_transaction_def split: sum.splits)

lemma ClaimRun_Inr:
  assumes "ClaimRun env t w l now expires db = Inr (lease, db')"
  obtains r db1 fence where "claim_candidate t w now db = Some r" "NextFencingToken (r_fencing_token r) = Inr fence"
    "update_run (\<lambda>x. r_tenant x = t \<and> r_id x = r_id r)
      (\<lambda>x. x\<lparr>r_lease_id := Some l, r_lease_expires := Some expires, r_fencing_token := fence\<rparr>) db = Inr (db1, 1)"
    "lease = \<lparr>lease_RunID = r_id r, lease_TenantID = t, lease_LeaseID = l, lease_WorkerID = w, lease_FencingToken = fence, lease_ExpiresAt = expires\<rparr>"
    "appendWorkerEvent env lease ''run.claimed'' None now (expiry_field expires) db1 = Inr db'"
    "\<not> IsZero t" "\<not> IsZero w" "\<not> IsZero l" "After expires now" "uuid7 (r_id r)"
proof -
  note D = assms[unfolded ClaimRun_def]
  obtain r where r: "claim_candidate t w now db = Some r" using D by (cases "claim_candidate t w now db") (simp_all split: if_splits)
  obtain fence where f: "NextFencingToken (r_fencing_token r) = Inr fence"
    using D by (cases "NextFencingToken (r_fencing_token r)") (simp_all add: r and_then_Inr split: if_splits)
  obtain db1 where "update_run (\<lambda>x. r_tenant x = t \<and> r_id x = r_id r)
      (\<lambda>x. x\<lparr>r_lease_id := Some l, r_lease_expires := Some expires, r_fencing_token := fence\<rparr>) db = Inr (db1, 1)"
    "lease = \<lparr>lease_RunID = r_id r, lease_TenantID = t, lease_LeaseID = l, lease_WorkerID = w, lease_FencingToken = fence, lease_ExpiresAt = expires\<rparr>"
    "appendWorkerEvent env lease ''run.claimed'' None now (expiry_field expires) db1 = Inr db'"
    "\<not> IsZero t" "\<not> IsZero w" "\<not> IsZero l" "After expires now" "uuid7 (r_id r)"
    using D by (auto simp: r f and_then_Inr ParseID_ID_String Let_def split: if_splits)
  then show ?thesis by (rule that[OF r f])
qed

lemma ClaimRun_evolve:
  assumes "ClaimRun env t w l now expires db = Inr (lease, db')"
  shows "runs_evolve db db'"
  using assms
proof (rule ClaimRun_Inr)
  fix r db1 fence
  assume c: "claim_candidate t w now db = Some r" and f: "NextFencingToken (r_fencing_token r) = Inr fence"
    and u: "update_run (\<lambda>x. r_tenant x = t \<and> r_id x = r_id r) (\<lambda>x. x\<lparr>r_lease_id := Some l, r_lease_expires := Some expires, r_fencing_token := fence\<rparr>) db = Inr (db1, 1)"
    and a: "appendWorkerEvent env lease ''run.claimed'' None now (expiry_field expires) db1 = Inr db'"
  note r = claim_candidate_Some[OF c]
  have "runs_evolve db db1"
  proof (rule update_run_evolve[OF u])
    fix x assume x: "x \<in> set (runs db)" "r_tenant x = t \<and> r_id x = r_id r" "unique_key r_id (runs db)" "run_row_ok x"
      "run_check (x\<lparr>r_lease_id := Some l, r_lease_expires := Some expires, r_fencing_token := fence\<rparr>)"
    have eq: "x = r" using unique_keyD[OF x(3,1) r(1)] x(2) by simp
    have "\<not> Terminal (r_state r)" using r(2) by (auto simp: claimable_def)
    moreover have "fence = r_fencing_token r + 1" "r_fencing_token r \<noteq> MaxInt64" "int64 (r_fencing_token r)"
      using f x(4) by (simp_all add: eq run_row_ok_def NextFencingToken_Inr)
    ultimately show "row_forward x (x\<lparr>r_lease_id := Some l, r_lease_expires := Some expires, r_fencing_token := fence\<rparr>) \<and>
        run_row_ok (x\<lparr>r_lease_id := Some l, r_lease_expires := Some expires, r_fencing_token := fence\<rparr>)"
      using x(4,5) by (simp add: eq row_forward_def run_row_ok_def int64_simps)
  qed
  then show ?thesis by (rule runs_evolve_trans) (rule appendWorkerEvent_evolve[OF a])
qed


lemma leased_run_Some:
  assumes "leased_run lease now db = Some r"
  shows "r \<in> set (runs db)" "lease_row lease r" "\<exists>e. r_lease_expires r = Some e \<and> unix_nano now < unix_nano e"
  using assms by (auto simp: leased_run_def find_Some_iff split: option.splits)

lemma lease_row_live: "lease_row lease r \<Longrightarrow> run_row_ok r \<Longrightarrow> \<not> Terminal (r_state r)"
  by (auto simp: lease_row_def run_row_ok_def)

lemma Transition_changed:
  assumes "Transition \<lparr>State = s, Version = v, UpdatedAt = u, TerminalAt = e\<rparr> c = Inr (final, True)" "int64 v"
  shows "transitionAllowed s (To c)" "State final = To c" "Version final = v + 1" "int64 (v + 1)" "\<not> Terminal s"
    "TerminalAt final = (if Terminal (To c) then Some (Unix_UTC (wrap64 (unix_nano (At c)))) else None)" "RunState_Valid (To c)"
proof -
  have T: "\<not> Terminal s" "transitionAllowed s (To c)" "v \<noteq> MaxInt64" "RunState_Valid (To c)"
    "final = \<lparr>State = To c, Version = wrap64 (v + 1), UpdatedAt = Unix_UTC (wrap64 (unix_nano (At c))),
      TerminalAt = (if Terminal (To c) then Some (Unix_UTC (wrap64 (unix_nano (At c)))) else None)\<rparr>"
    using assms(1) by (auto simp: Transition_Inr split: if_splits)
  moreover have "int64 (v + 1)" using assms(2) T(3) by (simp add: int64_simps)
  moreover from this have "wrap64 (v + 1) = v + 1" by (rule wrap64_id)
  ultimately show "transitionAllowed s (To c)" "State final = To c" "Version final = v + 1" "int64 (v + 1)" "\<not> Terminal s"
    "TerminalAt final = (if Terminal (To c) then Some (Unix_UTC (wrap64 (unix_nano (At c)))) else None)" "RunState_Valid (To c)"
    by simp_all
qed

lemma HeartbeatRun_Inr:
  assumes "HeartbeatRun env lease now expires db = Inr (lease', db')"
  obtains r db1 where "leased_run lease now db = Some r"
    "update_run (lease_row lease) (\<lambda>x. x\<lparr>r_lease_expires := Some expires\<rparr>) db = Inr (db1, 1)"
    "appendWorkerEvent env lease ''run.heartbeat'' None now (expiry_field expires) db1 = Inr db'" "lease' = lease\<lparr>lease_ExpiresAt := expires\<rparr>"
proof -
  note D = assms[unfolded HeartbeatRun_def]
  obtain r where r: "leased_run lease now db = Some r" using D by (cases "leased_run lease now db") (simp_all split: if_splits)
  show ?thesis using D by (auto simp: r and_then_Inr split: if_splits intro: that[OF r])
qed

lemma HeartbeatRun_evolve:
  assumes "HeartbeatRun env lease now expires db = Inr (lease', db')"
  shows "runs_evolve db db'"
  using assms
proof (rule HeartbeatRun_Inr)
  fix r db1
  assume r: "leased_run lease now db = Some r" and u: "update_run (lease_row lease) (\<lambda>x. x\<lparr>r_lease_expires := Some expires\<rparr>) db = Inr (db1, 1)"
    and a: "appendWorkerEvent env lease ''run.heartbeat'' None now (expiry_field expires) db1 = Inr db'"
  have "runs_evolve db db1"
  proof (rule update_run_evolve[OF u])
    fix x assume x: "x \<in> set (runs db)" "lease_row lease x" "unique_key r_id (runs db)" "run_row_ok x" "run_check (x\<lparr>r_lease_expires := Some expires\<rparr>)"
    show "row_forward x (x\<lparr>r_lease_expires := Some expires\<rparr>) \<and> run_row_ok (x\<lparr>r_lease_expires := Some expires\<rparr>)"
      using x(4,5) lease_row_live[OF x(2,4)] by (simp add: row_forward_def run_row_ok_def)
  qed
  then show ?thesis by (rule runs_evolve_trans) (rule appendWorkerEvent_evolve[OF a])
qed

lemma mutate_run_evolve:
  assumes "mutate_run lease operation target actor i now db = Inr db'"
  shows "runs_evolve db db'"
proof -
  note D = assms[unfolded mutate_run_def]
  obtain r where r: "leased_run lease now db = Some r" using D by (cases "leased_run lease now db") simp_all
  let ?c = "\<lparr>To = target, Actor = actor, ExpectedVersion = r_state_version r, At = now\<rparr>"
  let ?l = "\<lparr>State = r_state r, Version = r_state_version r, UpdatedAt = ToUTC (r_updated r), TerminalAt = r_terminal r\<rparr>"
  obtain final changed where t: "Transition ?l ?c = Inr (final, changed)" using D by (cases "Transition ?l ?c") (auto simp: r)
  show ?thesis
  proof (cases changed)
    case False
    then have "db' = db" using D by (simp add: r t)
    then show ?thesis by (simp add: runs_evolve_same)
  next
    case True
    then have changed: "Transition ?l ?c = Inr (final, True)" using t by simp
    let ?f = "\<lambda>x. x\<lparr>r_state := target, r_state_version := Version final, r_updated := now, r_terminal := TerminalAt final,
        r_lease_id := (if Terminal target then None else r_lease_id x), r_lease_expires := (if Terminal target then None else r_lease_expires x)\<rparr>"
    obtain db1 where u: "update_run (lease_row lease) ?f db = Inr (db1, 1)"
      and a: "appendWorkerEventWithID lease i (''run.'' @ workerEventSuffix operation) actor (Some final) now
        (Some [(''previous_state'', JStr (RunState_text (r_state r)))]) db1 = Inr db'"
      using D True by (auto simp: r t and_then_Inr split: if_splits)
    have "runs_evolve db db1"
    proof (rule update_run_evolve[OF u])
      fix x assume x: "x \<in> set (runs db)" "lease_row lease x" "unique_key r_id (runs db)" "run_row_ok x" "run_check (?f x)"
      have eq: "x = r" using unique_keyD[OF x(3,1) leased_run_Some(1)[OF r]] x(2) leased_run_Some(2)[OF r] by (simp add: lease_row_def)
      have "int64 (r_state_version r)" using x(4) by (simp add: eq run_row_ok_def)
      note T = Transition_changed[OF changed this]
      show "row_forward x (?f x) \<and> run_row_ok (?f x)"
        using x(4,5) T lease_row_live[OF x(2,4)] by (simp add: eq row_forward_def run_row_ok_def r_into_rtranclp)
    qed
    then show ?thesis by (rule runs_evolve_trans) (rule appendWorkerEventWithID_evolve[OF a])
  qed
qed

lemma MutateWorkerRun_evolve: "runs_evolve db (snd (MutateWorkerRun lease operation i now db))"
proof (cases "snd (MutateWorkerRun lease operation i now db) = db")
  case False
  then obtain target actor where "mutate_run lease operation target actor i now db = Inr (snd (MutateWorkerRun lease operation i now db))"
    by (auto simp: MutateWorkerRun_def split: if_splits sum.splits prod.splits)
  then show ?thesis by (rule mutate_run_evolve)
qed (simp add: runs_evolve_same)


lemma find_run_Some:
  assumes "find_run t i db = Some r"
  shows "r \<in> set (runs db)" "r_tenant r = t" "r_id r = i"
  using assms by (auto simp: find_run_def find_Some_iff)

lemma cancel_statement_evolve:
  assumes "cancel_statement env c e r final (next_sequence (cancel_TenantID c) (cancel_RunID c) db) db = Inr db'"
    and r: "find_run (cancel_TenantID c) (cancel_RunID c) db = Some r" "r_fencing_token r \<noteq> MaxInt64"
    and t: "Transition \<lparr>State = r_state r, Version = r_state_version r, UpdatedAt = u, TerminalAt = w\<rparr>
      \<lparr>To = RunCancelled, Actor = RunActorCaller, ExpectedVersion = v, At = now\<rparr> = Inr (final, True)"
  shows "runs_evolve db db'"
proof -
  let ?p = "\<lambda>x. r_tenant x = cancel_TenantID c \<and> r_id x = cancel_RunID c \<and> r_state_version x = r_state_version r \<and> r_state x = r_state r"
  let ?f = "\<lambda>x. x\<lparr>r_state := RunCancelled, r_state_version := Version final, r_updated := cancel_CreatedAt c, r_terminal := Some (cancel_CreatedAt c),
      r_lease_id := None, r_lease_expires := None, r_fencing_token := r_fencing_token x + 1\<rparr>"
  obtain db1 n where u: "update_run ?p ?f db = Inr (db1, n)"
    and rest: "(if n = 0 then Inr db1 else and_then (insert_signal (cancel_signal c e) db1) (\<lambda>db2.
      and_then (insert_run_event (cancel_event c e (r_state r) final (next_sequence (cancel_TenantID c) (cancel_RunID c) db)) db2) (\<lambda>db3.
      and_then (insert_audit env (cancel_audit c e (r_state r) final (next_sequence (cancel_TenantID c) (cancel_RunID c) db)) db3)
        (insert_outbox (cancel_message c e (r_state r) final (next_sequence (cancel_TenantID c) (cancel_RunID c) db)))))) = Inr db'"
    using assms(1) by (auto simp: cancel_statement_def and_then_Inr)
  have "run_events db1 = run_events db" using u by (simp add: update_run_Inr)
  have "runs_evolve db db1"
  proof (rule update_run_evolve[OF u])
    fix x assume x: "x \<in> set (runs db)" "?p x" "unique_key r_id (runs db)" "run_row_ok x" "run_check (?f x)"
    have eq: "x = r" using unique_keyD[OF x(3,1) find_run_Some(1)[OF r(1)]] x(2) find_run_Some(3)[OF r(1)] by simp
    have "int64 (r_state_version r)" "int64 (r_fencing_token r)" using x(4) by (simp_all add: eq run_row_ok_def)
    note T = Transition_changed[OF t this(1)]
    show "row_forward x (?f x) \<and> run_row_ok (?f x)"
      using x(5) T r(2) \<open>int64 (r_fencing_token r)\<close> by (simp add: eq row_forward_def run_row_ok_def r_into_rtranclp int64_simps)
  qed
  moreover have "runs_evolve db1 db'"
  proof (cases "n = 0")
    case False
    then obtain db2 db3 db4 where 1: "insert_signal (cancel_signal c e) db1 = Inr db2"
      and 2: "insert_run_event (cancel_event c e (r_state r) final (next_sequence (cancel_TenantID c) (cancel_RunID c) db)) db2 = Inr db3"
      and 3: "insert_audit env (cancel_audit c e (r_state r) final (next_sequence (cancel_TenantID c) (cancel_RunID c) db)) db3 = Inr db4"
      and 4: "insert_outbox (cancel_message c e (r_state r) final (next_sequence (cancel_TenantID c) (cancel_RunID c) db)) db4 = Inr db'"
      using rest by (auto simp: and_then_Inr)
    have "run_events db2 = run_events db" using 1 \<open>run_events db1 = run_events db\<close> by (auto simp: insert_signal_def and_then_Inr split: if_splits)
    then have "runs_evolve db2 db3" by (intro insert_run_event_evolve[OF 2]) (simp add: cancel_event_def next_sequence_def)
    from runs_evolve_trans[OF insert_signal_evolve[OF 1] this] show ?thesis
      by (rule runs_evolve_trans) (rule runs_evolve_trans[OF insert_audit_evolve[OF 3] insert_outbox_evolve[OF 4]])
  qed (use rest in \<open>simp add: runs_evolve_same\<close>)
  ultimately show ?thesis by (rule runs_evolve_trans)
qed

lemma cancel_run_evolve:
  assumes "cancel_run env c e db = Inr db'"
  shows "runs_evolve db db'"
proof -
  note D = assms[unfolded cancel_run_def Let_def]
  obtain r where r: "find_run (cancel_TenantID c) (cancel_RunID c) db = Some r" using D by (cases "find_run (cancel_TenantID c) (cancel_RunID c) db") simp_all
  let ?c = "\<lparr>To = RunCancelled, Actor = RunActorCaller, ExpectedVersion = (case cancel_ExpectedStateVersion c of None \<Rightarrow> r_state_version r | Some v \<Rightarrow> v), At = cancel_CreatedAt c\<rparr>"
  let ?l = "\<lparr>State = r_state r, Version = r_state_version r, UpdatedAt = ToUTC (r_updated r), TerminalAt = r_terminal r\<rparr>"
  show ?thesis
  proof (cases "db' = db")
    case False
    then have live: "\<not> Terminal (r_state r)" using D by (auto simp: r)
    obtain final changed where t: "Transition ?l ?c = Inr (final, changed)" using D live by (cases "Transition ?l ?c") (auto simp: r split: if_splits)
    have changed: "Transition ?l ?c = Inr (final, True)" using D t live False by (auto simp: r split: if_splits)
    show ?thesis
      by (rule cancel_statement_evolve[OF _ r _ changed]) (use D live in \<open>auto simp: r changed and_then_Inr split: if_splits\<close>)
  qed (simp add: runs_evolve_same)
qed

lemma CancelRun_evolve: "runs_evolve db (snd (CancelRun env t c e db))"
proof (cases "snd (CancelRun env t c e db) = db")
  case False
  then have "cancel_run env c e db = Inr (snd (CancelRun env t c e db))"
    by (auto simp: CancelRun_def and_then_Inr split: if_splits sum.splits)
  then show ?thesis by (rule cancel_run_evolve)
qed (simp add: runs_evolve_same)


lemma AppendRunSignal_evolve:
  assumes "AppendRunSignal env t s e db = Inr (event, db')"
  shows "runs_evolve db db'"
proof (cases "db' = db")
  case False
  let ?t = "sig_TenantID s" and ?i = "sig_RunID s" and ?p = "the (raw_value (sig_Payload s))"
  have D: "append_signal env s ?p e db = Inr (event, db')" using assms by (auto simp: AppendRunSignal_def and_then_Inr split: if_splits)
  obtain r where "find_run ?t ?i db = Some r" using D by (auto simp: append_signal_def split: option.splits)
  then have "signal_statement env s ?p e r (next_sequence ?t ?i db) db = Inr db'"
    using D False by (auto simp: append_signal_def and_then_Inr Let_def split: option.splits if_splits)
  then obtain db1 db2 db3 where 1: "insert_signal (signal_row s ?p) db = Inr db1"
    and 2: "insert_run_event (signal_event s ?p e r (next_sequence ?t ?i db)) db1 = Inr db2"
    and 3: "insert_audit env (signal_audit s e (next_sequence ?t ?i db)) db2 = Inr db3"
    and 4: "insert_outbox (signal_message s ?p e (next_sequence ?t ?i db)) db3 = Inr db'"
    by (auto simp: signal_statement_def and_then_Inr)
  have "run_events db1 = run_events db" using 1 by (auto simp: insert_signal_def and_then_Inr split: if_splits)
  then have "runs_evolve db1 db2" by (intro insert_run_event_evolve[OF 2]) (simp add: signal_event_def next_sequence_def)
  from runs_evolve_trans[OF insert_signal_evolve[OF 1] this] show ?thesis
    by (rule runs_evolve_trans) (rule runs_evolve_trans[OF insert_audit_evolve[OF 3] insert_outbox_evolve[OF 4]])
qed (simp add: runs_evolve_same)

section \<open>Fencing\<close>

text \<open>A lease that the store no longer honours: its run has a later token, or the same token without the lease.\<close>

definition superseded :: "RunLease \<Rightarrow> DB \<Rightarrow> bool" where
  "superseded lease db \<longleftrightarrow>
     list_ex (\<lambda>r. r_tenant r = lease_TenantID lease \<and> r_id r = lease_RunID lease \<and>
       (lease_FencingToken lease < r_fencing_token r \<or> lease_FencingToken lease = r_fencing_token r \<and> r_lease_id r \<noteq> Some (lease_LeaseID lease))) (runs db)"

lemma runs_forward_row:
  assumes "runs_forward db db'" "r \<in> set (runs db)"
  shows "\<exists>x \<in> set (runs db'). row_forward r x"
proof -
  obtain k where "k < length (runs db)" "runs db ! k = r" using assms(2) by (auto simp: in_set_conv_nth)
  then show ?thesis using assms(1) by (intro bexI[of _ "runs db' ! k"]) (auto simp: runs_forward_def list_all2_conv_all_nth min_def split: if_splits)
qed

lemma superseded_forward:
  assumes "runs_forward db db'" "superseded lease db"
  shows "superseded lease db'"
proof -
  obtain r where r: "r \<in> set (runs db)" "r_tenant r = lease_TenantID lease" "r_id r = lease_RunID lease"
    "lease_FencingToken lease < r_fencing_token r \<or> lease_FencingToken lease = r_fencing_token r \<and> r_lease_id r \<noteq> Some (lease_LeaseID lease)"
    using assms(2) by (auto simp: superseded_def list_ex_iff)
  obtain x where x: "x \<in> set (runs db')" "row_forward r x"
    using runs_forward_row[OF assms(1) r(1)] by blast
  note f = row_forwardD[OF x(2)]
  have "lease_FencingToken lease < r_fencing_token x \<or> lease_FencingToken lease = r_fencing_token x \<and> r_lease_id x \<noteq> Some (lease_LeaseID lease)"
    using r(4) f(4,6) by (cases "r_lease_id x = r_lease_id r"; cases "r_lease_id x") auto
  then show ?thesis using x(1) f(1,2) r(2,3) by (auto simp: superseded_def list_ex_iff)
qed

lemma superseded_not_leased:
  assumes "unique_key r_id (runs db)" "superseded lease db"
  shows "leased_run lease now db = None"
proof (rule ccontr)
  assume "leased_run lease now db \<noteq> None"
  then obtain x where x: "x \<in> set (runs db)" "lease_row lease x" using leased_run_Some by blast
  obtain r where r: "r \<in> set (runs db)" "r_id r = lease_RunID lease"
    "lease_FencingToken lease < r_fencing_token r \<or> lease_FencingToken lease = r_fencing_token r \<and> r_lease_id r \<noteq> Some (lease_LeaseID lease)"
    using assms(2) by (auto simp: superseded_def list_ex_iff)
  have "r = x" using unique_keyD[OF assms(1) r(1) x(1)] r(2) x(2) by (simp add: lease_row_def)
  then show False using r(3) x(2) by (simp add: lease_row_def)
qed

lemma superseded_rejected:
  assumes "unique_key r_id (runs db)" "superseded lease db"
  shows "isl (HeartbeatRun env lease now expires db)" "isl (fst (MutateWorkerRun lease operation i now db))"
    "snd (MutateWorkerRun lease operation i now db) = db"
  using superseded_not_leased[OF assms, of now]
  by (auto simp: HeartbeatRun_def MutateWorkerRun_def mutate_run_def worker_transaction_def split: sum.splits)

lemma claimed_row:
  assumes "ClaimRun env t w l now expires db = Inr (lease, db')" "unique_key r_id (runs db)" "list_all run_row_ok (runs db)"
  obtains r where "r \<in> set (runs db)" "claimable t w now db r" "r_tenant r = t" "lease_RunID lease = r_id r" "lease_TenantID lease = t"
    "lease_LeaseID lease = l" "lease_FencingToken lease = r_fencing_token r + 1"
    "find_run t (r_id r) db' = Some (r\<lparr>r_lease_id := Some l, r_lease_expires := Some expires, r_fencing_token := r_fencing_token r + 1\<rparr>)"
  using assms(1)
proof (rule ClaimRun_Inr)
  fix r db1 fence
  assume c: "claim_candidate t w now db = Some r" and f: "NextFencingToken (r_fencing_token r) = Inr fence"
    and u: "update_run (\<lambda>x. r_tenant x = t \<and> r_id x = r_id r) (\<lambda>x. x\<lparr>r_lease_id := Some l, r_lease_expires := Some expires, r_fencing_token := fence\<rparr>) db = Inr (db1, 1)"
    and a: "appendWorkerEvent env lease ''run.claimed'' None now (expiry_field expires) db1 = Inr db'"
    and lease: "lease = \<lparr>lease_RunID = r_id r, lease_TenantID = t, lease_LeaseID = l, lease_WorkerID = w, lease_FencingToken = fence, lease_ExpiresAt = expires\<rparr>"
  note r = claim_candidate_Some[OF c]
  have t: "r_tenant r = t" using r(2) by (simp add: claimable_def)
  have fence: "fence = r_fencing_token r + 1" using f assms(3) r(1) by (simp add: list_all_iff run_row_ok_def NextFencingToken_Inr)
  let ?f = "\<lambda>x. x\<lparr>r_lease_id := Some l, r_lease_expires := Some expires, r_fencing_token := fence\<rparr>"
  have "find_run t (r_id r) db = Some r"
    unfolding find_run_def by (rule unique_key_find[OF assms(2) r(1)]) (simp_all add: t)
  then have "find_run t (r_id r) db1 = Some (?f r)"
    using find_update_first[of "\<lambda>x. r_tenant x = t \<and> r_id x = r_id r" "runs db" r "\<lambda>x. r_tenant x = t \<and> r_id x = r_id r" ?f] t u
    by (simp add: find_run_def update_run_Inr)
  moreover have "runs db' = runs db1"
    using a by (auto simp: appendWorkerEvent_def appendWorkerEventWithID_def and_then_Inr Let_def split: option.splits dest!: insert_run_event_with_outbox_same)
  ultimately show ?thesis by (intro that[OF r t]) (simp_all add: lease fence find_run_def)
qed

end
