(* ===== verification/Admission.thy ===== *)
theory Admission
  imports RunStore "HOL-Library.Log_Nat"
begin

text \<open>
  Admission of runs (internal/adapters/postgres/run\_admission.go, internal/domain/run\_admission.go, resource\_envelope.go and version\_resolution.go):
  the resolved version of a run and its evidence, the grants that a resolution gives to the root envelope, and the transaction that inserts the run with its
  resolution, envelope, first event, audit event, outbox message, grants and balances, for a root run and, with the parent link and the
  reservation, for a child. The lemmas give the exact store after an admission, that the ledger stays conserved and
  that the run tables keep what they promise.
\<close>

section \<open>Resource grants of a root envelope\<close>

text \<open>
  \<open>float64\<close> of an integer that is not negative: 53 significant bits, ties to even.
\<close>

definition float64_of :: "int \<Rightarrow> int" where
  "float64_of n =
     (let e = floorlog 2 (nat n) - 53; q = n div 2 ^ e; r = n mod 2 ^ e
      in if e = 0 then n else (q + (if 2 * r > 2 ^ e \<or> 2 * r = 2 ^ e \<and> odd q then 1 else 0)) * 2 ^ e)"

text \<open>
  The integer value of a number. An \<open>int\<close>, an \<open>int64\<close> and a \<open>json.Number\<close> are read from their text. A \<open>float64\<close> whose text has an
  exponent is known by the different text that \<open>json.Marshal\<close> writes for it, which is the shortest one that the number rounds to; the others
  have the same value read either way. The value \<open>2 ^ 63\<close> passes the range test of the sources without having an \<open>int64\<close>; the
  conversion gives the smallest integer, which is refused.
\<close>

definition float_integer :: "string \<Rightarrow> int option" where
  "float_integer s =
     (let negative = (s \<noteq> [] \<and> hd s = CHR ''-''); digits = (if negative then tl s else s) in
      if digits = [] \<or> \<not> list_all is_digit digits then None
      else let v = float64_of (int (digits_value digits)) in if v > MaxInt64 then None else Some (if negative then - v else v))"

definition number_integer :: "any_value \<Rightarrow> int option" where
  "number_integer v =
     (case v of
        ANum t j \<Rightarrow>
          (case ParseInt64 t of
             Some n \<Rightarrow> Some n
           | None \<Rightarrow> (case j of None \<Rightarrow> None | Some m \<Rightarrow> if m = t then None else float_integer m))
      | _ \<Rightarrow> None)"

definition exactNonnegativeInt64 :: "any_value \<Rightarrow> int result" where
  "exactNonnegativeInt64 v =
     (case number_integer v of
        None \<Rightarrow> Inl ErrInvalidResourceDimension
      | Some n \<Rightarrow> if n < 0 then Inl ErrInvalidResourceDimension else Inr n)"

record RootResourceGrant =
  rg_DimensionName :: string
  rg_Coefficient :: int

definition rootResourceConstraintDimensions :: "(string \<times> string) list" where
  "rootResourceConstraintDimensions =
     [(''max_budget_usd_microunits'', ''budget_usd_microunits''), (''max_llm_tokens'', ''llm_tokens''), (''max_tool_calls'', ''tool_calls''),
      (''max_tool_calls_per_minute'', ''tool_calls_per_minute''), (''max_active_children'', ''active_children''),
      (''max_total_children'', ''total_children''), (''max_delegation_depth'', ''delegation_depth'')]"

definition root_grant :: "constraints \<Rightarrow> string \<times> string \<Rightarrow> RootResourceGrant list \<Rightarrow> RootResourceGrant list result" where
  "root_grant cs = (\<lambda>(key, name) grants.
     case map_of cs key of
       None \<Rightarrow> Inr grants
     | Some v \<Rightarrow>
         (case exactNonnegativeInt64 v of
            Inl _ \<Rightarrow> Inl (Wrapf (key @ '' must be an exact nonnegative integer'') ErrInvalidResourceDimension)
          | Inr c \<Rightarrow> Inr (grants @ [\<lparr>rg_DimensionName = name, rg_Coefficient = c\<rparr>])))"

definition RootResourceGrants :: "constraints \<Rightarrow> RootResourceGrant list result" where
  "RootResourceGrants cs = and_then (fold_result (root_grant cs) rootResourceConstraintDimensions []) (\<lambda>grants. Inr (sort_key rg_DimensionName grants))"

section \<open>Version resolution and admission\<close>

datatype VersionResolutionMode = ResolutionAutomatic | ResolutionPinned | ResolutionRollback | ResolutionOther string

fun VersionResolutionMode_text :: "VersionResolutionMode \<Rightarrow> string" where
  "VersionResolutionMode_text ResolutionAutomatic = ''AUTOMATIC''"
| "VersionResolutionMode_text ResolutionPinned = ''PINNED''"
| "VersionResolutionMode_text ResolutionRollback = ''ROLLBACK''"
| "VersionResolutionMode_text (ResolutionOther s) = s"

record RunVersionResolution =
  vr_RunID :: ID
  vr_TenantID :: ID
  vr_AgentID :: ID
  vr_AgentVersionID :: ID
  vr_ApprovalID :: ID
  vr_AgentContentDigest :: string
  vr_PolicyBundleDigest :: string
  vr_PolicyActivationVersion :: int
  vr_Mode :: VersionResolutionMode
  vr_InvocationDecisionID :: ID
  vr_SelectionDecisionID :: ID
  vr_ResolvedConstraints :: "constraints option"
  vr_ResolvedAt :: Time

definition RunVersionResolution_Validate :: "RunVersionResolution \<Rightarrow> unit result" where
  "RunVersionResolution_Validate r =
     (if IsZero (vr_RunID r) \<or> IsZero (vr_TenantID r) \<or> IsZero (vr_AgentID r) \<or> IsZero (vr_AgentVersionID r) \<or> IsZero (vr_ApprovalID r)
         \<or> IsZero (vr_InvocationDecisionID r)
      then Inl (New ''version resolution identifiers must be set'')
      else if \<not> ValidDigest (vr_AgentContentDigest r) \<or> \<not> ValidDigest (vr_PolicyBundleDigest r) \<or> vr_PolicyActivationVersion r < 1
      then Inl (New ''version resolution policy or content metadata is invalid'')
      else if vr_Mode r \<noteq> ResolutionAutomatic \<and> vr_Mode r \<noteq> ResolutionPinned \<and> vr_Mode r \<noteq> ResolutionRollback
      then Inl (New ''version resolution mode is invalid'')
      else if vr_Mode r = ResolutionAutomatic \<and> \<not> IsZero (vr_SelectionDecisionID r) \<or> vr_Mode r \<noteq> ResolutionAutomatic \<and> IsZero (vr_SelectionDecisionID r)
      then Inl (New ''controlled version selection requires separate policy evidence'')
      else if vr_ResolvedConstraints r = None then Inl (New ''version resolution constraints must be present'')
      else if isl (RequireUTC (vr_ResolvedAt r)) \<or> IsZeroTime (vr_ResolvedAt r)
      then Inl (New ''version resolution time must be a non-zero UTC timestamp'')
      else Inr ())"

record RunAdmission =
  adm_RunID :: ID
  adm_EnvelopeID :: ID
  adm_TenantID :: ID
  adm_AgentID :: ID
  adm_AgentVersionID :: ID
  adm_AgentVersionDigest :: string
  adm_RequestedBy :: ID
  adm_PolicyDecisionID :: ID
  adm_State :: RunState
  adm_StateVersion :: int
  adm_Constraints :: "constraints option"
  adm_DeadlineAt :: "Time option"
  adm_CreatedAt :: Time
  adm_UpdatedAt :: Time

definition RunAdmission_Validate :: "RunAdmission \<Rightarrow> unit result" where
  "RunAdmission_Validate a =
     (if IsZero (adm_RunID a) \<or> IsZero (adm_EnvelopeID a) \<or> IsZero (adm_TenantID a) \<or> IsZero (adm_AgentID a) \<or> IsZero (adm_AgentVersionID a)
         \<or> IsZero (adm_RequestedBy a) \<or> IsZero (adm_PolicyDecisionID a)
      then Inl (New ''run admission identifiers must be set'')
      else if \<not> ValidDigest (adm_AgentVersionDigest a) then Inl (New ''run admission version digest must be canonical'')
      else if adm_State a \<noteq> RunAdmitted \<or> adm_StateVersion a \<noteq> 1 \<or> adm_Constraints a = None
      then Inl (New ''run admission must establish admitted state version one and constraints'')
      else case RequireUTC (adm_CreatedAt a) of
        Inl _ \<Rightarrow> Inl (New ''run admission creation time must be non-zero UTC'')
      | Inr created \<Rightarrow>
          if IsZeroTime created then Inl (New ''run admission creation time must be non-zero UTC'')
          else (case RequireUTC (adm_UpdatedAt a) of
              Inl _ \<Rightarrow> Inl (New ''run admission update time must equal creation time'')
            | Inr updated \<Rightarrow>
                if \<not> EqualTime updated created then Inl (New ''run admission update time must equal creation time'')
                else (case adm_DeadlineAt a of
                    None \<Rightarrow> Inr ()
                  | Some d \<Rightarrow>
                      (case RequireUTC d of
                         Inl _ \<Rightarrow> Inl (New ''run admission deadline must be UTC and after creation'')
                       | Inr deadline \<Rightarrow>
                           if After deadline created then Inr () else Inl (New ''run admission deadline must be UTC and after creation'')))))"

section \<open>Admission in the store\<close>

record RunAdmissionEvidence =
  ae_EventID :: ID
  ae_AuditID :: ID
  ae_OutboxID :: ID
  ae_RequestID :: ID
  ae_ReasonCodes :: "string list"

definition optionalResolutionID :: "ID \<Rightarrow> string" where
  "optionalResolutionID i = (if IsZero i then [] else ID_String i)"

text \<open>The evidence of the resolution as JSON; the selection is left out when it is empty.\<close>

definition stored_resolution :: "RunVersionResolution \<Rightarrow> json option" where
  "stored_resolution r =
     map_option (\<lambda>cs. JObj ([(''mode'', JStr (VersionResolutionMode_text (vr_Mode r))),
         (''invocation_decision_id'', JStr (ID_String (vr_InvocationDecisionID r)))]
       @ (let s = optionalResolutionID (vr_SelectionDecisionID r) in if s = [] then [] else [(''selection_decision_id'', JStr s)])
       @ [(''resolved_constraints'', cs)]))
     (map_json (vr_ResolvedConstraints r))"

text \<open>\<open>json.Marshal\<close> with the bound of 64 KiB.\<close>

definition bounded_json :: "string \<Rightarrow> json option \<Rightarrow> json result" where
  "bounded_json message j =
     (case j of None \<Rightarrow> Inl (NewError CodeInvalidArgument message)
      | Some v \<Rightarrow> if length (json_text v) > 65536 then Inl (NewError CodeInvalidArgument message) else Inr v)"

definition admission_audit :: "RunAdmission \<Rightarrow> RunVersionResolution \<Rightarrow> RunAdmissionEvidence \<Rightarrow> AuditEvent" where
  "admission_audit a r e =
     \<lparr>au_ID = ae_AuditID e, au_TenantID = Some (adm_TenantID a), au_PrincipalID = Some (adm_RequestedBy a), au_Action = ''runs.create'', au_ResourceType = ''run'',
      au_ResourceID = ID_String (adm_RunID a), au_Outcome = ''SUCCEEDED'', au_ReasonCodes = JArr (map JStr (ae_ReasonCodes e)),
      au_PolicyDecisionID = Some (adm_PolicyDecisionID a), au_RequestID = Some (ae_RequestID e), au_TraceID = [],
      au_Metadata = JObj [(''agent_id'', JStr (ID_String (adm_AgentID a))), (''agent_version_id'', JStr (ID_String (adm_AgentVersionID a))),
        (''envelope_id'', JStr (ID_String (adm_EnvelopeID a))), (''policy_activation_version'', JNum (vr_PolicyActivationVersion r)),
        (''policy_bundle_digest'', JStr (vr_PolicyBundleDigest r))],
      au_PreviousHash = [], au_OccurredAt = adm_CreatedAt a\<rparr>"

definition admission_message :: "RunAdmission \<Rightarrow> RunAdmissionEvidence \<Rightarrow> OutboxMessage" where
  "admission_message a e =
     \<lparr>ob_ID = ae_OutboxID e, ob_TenantID = Some (adm_TenantID a), ob_AggregateType = ''run'', ob_AggregateID = ID_String (adm_RunID a),
      ob_EventType = ''run.admitted'', ob_SchemaVersion = 1,
      ob_Payload = JObj [(''agent_id'', JStr (ID_String (adm_AgentID a))), (''agent_version_id'', JStr (ID_String (adm_AgentVersionID a))),
        (''envelope_id'', JStr (ID_String (adm_EnvelopeID a))), (''run_id'', JStr (ID_String (adm_RunID a))),
        (''state'', JStr (RunState_text (adm_State a))), (''state_version'', JNum (adm_StateVersion a))],
      ob_Headers = JObj [], ob_OccurredAt = adm_CreatedAt a, ob_AvailableAt = adm_CreatedAt a\<rparr>"

text \<open>The latest decision on a version: \<open>ORDER BY created_at DESC, id DESC LIMIT 1\<close>.\<close>

definition approval_order :: "approval_row \<Rightarrow> int \<times> ID" where
  "approval_order a = (unix_nano (ap_created a), ap_id a)"

definition latest_decision :: "ID \<Rightarrow> ID \<Rightarrow> DB \<Rightarrow> AgentVersionDecision option" where
  "latest_decision tenant version db =
     (case rev (sort_key approval_order (filter (\<lambda>a. ap_tenant a = tenant \<and> ap_agent_version a = version) (agent_version_approvals db))) of
        [] \<Rightarrow> None | a # _ \<Rightarrow> Some (ap_decision a))"

definition admission_version :: "RunAdmission \<Rightarrow> RunVersionResolution \<Rightarrow> agent_version_row \<Rightarrow> bool" where
  "admission_version a r v \<longleftrightarrow>
     av_tenant v = adm_TenantID a \<and> av_agent v = adm_AgentID a \<and> av_id v = adm_AgentVersionID a \<and> av_content_digest v = vr_AgentContentDigest r"

definition version_eligible :: "RunAdmission \<Rightarrow> RunVersionResolution \<Rightarrow> DB \<Rightarrow> bool" where
  "version_eligible a r db \<longleftrightarrow>
     list_ex (admission_version a r) (agent_versions db) \<and>
     (latest_decision (adm_TenantID a) (adm_AgentVersionID a) db = Some DecisionApprove
      \<or> vr_Mode r = ResolutionRollback \<and> latest_decision (adm_TenantID a) (adm_AgentVersionID a) db = Some DecisionDeprecate)"

definition approval_matches :: "RunAdmission \<Rightarrow> RunVersionResolution \<Rightarrow> approval_row \<Rightarrow> bool" where
  "approval_matches a r p \<longleftrightarrow>
     ap_tenant p = adm_TenantID a \<and> ap_id p = vr_ApprovalID r \<and> ap_agent p = adm_AgentID a \<and> ap_agent_version p = adm_AgentVersionID a \<and>
     ap_decision p = DecisionApprove"

definition admitted_row :: "RunAdmission \<Rightarrow> json \<Rightarrow> run_row" where
  "admitted_row a cs =
     \<lparr>r_id = adm_RunID a, r_tenant = adm_TenantID a, r_agent = adm_AgentID a, r_agent_version = adm_AgentVersionID a, r_parent = None,
      r_requested_by = adm_RequestedBy a, r_state = RunAdmitted, r_state_version = 1, r_constraints = cs, r_deadline = adm_DeadlineAt a,
      r_lease_id = None, r_lease_expires = None, r_fencing_token = 0, r_created = adm_CreatedAt a, r_updated = adm_CreatedAt a, r_terminal = None\<rparr>"

definition admitted_resolution :: "RunAdmission \<Rightarrow> RunVersionResolution \<Rightarrow> json \<Rightarrow> resolution_row" where
  "admitted_resolution a r resolution =
     \<lparr>rv_run = adm_RunID a, rv_tenant = adm_TenantID a, rv_agent = adm_AgentID a, rv_agent_version = adm_AgentVersionID a,
      rv_agent_content_digest = vr_AgentContentDigest r, rv_policy_bundle_digest = vr_PolicyBundleDigest r,
      rv_policy_activation_version = vr_PolicyActivationVersion r, rv_approval = vr_ApprovalID r, rv_resolution = resolution, rv_resolved = vr_ResolvedAt r\<rparr>"

definition admitted_envelope :: "RunAdmission \<Rightarrow> envelope_row" where
  "admitted_envelope a =
     \<lparr>e_id = adm_EnvelopeID a, e_tenant = adm_TenantID a, e_run = adm_RunID a, e_parent = None, e_version = 1, e_issued_by = adm_RequestedBy a,
      e_decision = adm_PolicyDecisionID a, e_issued_at = adm_CreatedAt a\<rparr>"

definition envelope_conflict :: "envelope_row \<Rightarrow> envelope_row \<Rightarrow> bool" where
  "envelope_conflict e f \<longleftrightarrow> e_id e = e_id f \<or> e_tenant e = e_tenant f \<and> e_run e = e_run f"

definition envelope_check :: "envelope_row \<Rightarrow> bool" where
  "envelope_check e \<longleftrightarrow> 0 < e_version e \<and> e_parent e \<noteq> Some (e_id e)"

definition admitted_event :: "RunAdmission \<Rightarrow> RunAdmissionEvidence \<Rightarrow> run_event_row" where
  "admitted_event a e =
     \<lparr>ev_id = ae_EventID e, ev_tenant = adm_TenantID a, ev_run = adm_RunID a, ev_sequence = 1, ev_type = ''run.admitted'', ev_actor_type = RunActorSystem,
      ev_actor = None, ev_state = Some RunAdmitted, ev_state_version = Some 1,
      ev_payload = JObj [(''agent_id'', JStr (ID_String (adm_AgentID a))), (''agent_version_id'', JStr (ID_String (adm_AgentVersionID a))),
        (''envelope_id'', JStr (ID_String (adm_EnvelopeID a)))], ev_occurred = adm_CreatedAt a\<rparr>"

text \<open>
  The statement that inserts the aggregate. Its parts are chained: each inserts only what the one before has returned, so a missing
  approval leaves no row to return. References are checked at its end; the only one that the statement does not establish itself is
  that of the requester.
\<close>

definition ErrIneligible :: goerror where
  "ErrIneligible = NewError CodeConflict ''agent version is no longer eligible for admission''"

definition admission_statement ::
  "Env \<Rightarrow> RunAdmission \<Rightarrow> RunVersionResolution \<Rightarrow> json \<Rightarrow> json \<Rightarrow> RunAdmissionEvidence \<Rightarrow> DB \<Rightarrow> DB option result" where
  "admission_statement env a r cs resolution e db =
     (if \<not> version_eligible a r db then Inr None
      else and_then (pg_insert run_check (\<lambda>x y. r_id x = r_id y) (admitted_row a cs) (runs db)) (\<lambda>rows.
        let db = db\<lparr>runs := rows\<rparr> in
        if \<not> list_ex (approval_matches a r) (agent_version_approvals db) then Inr None
        else and_then (pg_insert resolution_check resolution_conflict (admitted_resolution a r resolution) (run_version_resolutions db)) (\<lambda>rows.
          let db = db\<lparr>run_version_resolutions := rows\<rparr> in
          and_then (pg_insert envelope_check envelope_conflict (admitted_envelope a) (resource_envelopes db)) (\<lambda>rows.
            let db = db\<lparr>resource_envelopes := rows\<rparr> in
            and_then (insert_run_event (admitted_event a e) db) (\<lambda>db.
            and_then (insert_audit env (admission_audit a r e) db) (\<lambda>db.
            and_then (insert_outbox (admission_message a e) db) (\<lambda>db.
              if \<not> list_ex (\<lambda>p. p_tenant p = adm_TenantID a \<and> p_id p = adm_RequestedBy a) (principals db) then Inl foreign_key_violation
              else Inr (Some db))))))))"

definition insert_aggregate ::
  "Env \<Rightarrow> RunAdmission \<Rightarrow> RunVersionResolution \<Rightarrow> json \<Rightarrow> json \<Rightarrow> RunAdmissionEvidence \<Rightarrow> DB \<Rightarrow> DB result" where
  "insert_aggregate env a r cs resolution e db =
     (case admission_statement env a r cs resolution e db of
        Inl err \<Rightarrow>
          Inl (if err = unique_violation then WrapError CodeConflict ''run admission identifier already exists'' err
               else if err = foreign_key_violation \<or> err = check_violation then WrapError CodeInvalidArgument ''run admission references are invalid'' err
               else Wrapf ''admit run'' err)
      | Inr None \<Rightarrow> Inl ErrIneligible
      | Inr (Some db) \<Rightarrow> Inr db)"

text \<open>The grants that the dimensions of the tenant allow, and their balances.\<close>

definition grant_rows :: "RunAdmission \<Rightarrow> RootResourceGrant list \<Rightarrow> DB \<Rightarrow> grant_row list" where
  "grant_rows a grants db =
     concat (map (\<lambda>g. map (\<lambda>d. \<lparr>g_tenant = adm_TenantID a, g_envelope = adm_EnvelopeID a, g_dimension = dim_ID d, g_granted = rg_Coefficient g,
         g_unit = dim_Unit d, g_scale = dim_Scale d\<rparr>)
       (filter (\<lambda>d. dim_TenantID d = adm_TenantID a \<and> dim_Name d = rg_DimensionName g \<and> dim_Minimum d \<le> rg_Coefficient g \<and> rg_Coefficient g \<le> dim_Maximum d)
         (resource_dimensions db))) grants)"

definition issue_grant :: "Time \<Rightarrow> grant_row \<Rightarrow> DB \<Rightarrow> DB result" where
  "issue_grant issued g db =
     and_then (pg_insert grant_check (\<lambda>g h. grant_key g = grant_key h) g (resource_envelope_grants db)) (\<lambda>grants.
     and_then (pg_insert balance_check (\<lambda>b c. balance_key b = balance_key c)
         \<lparr>b_tenant = g_tenant g, b_envelope = g_envelope g, b_dimension = g_dimension g, b_available = g_granted g, b_direct_consumed = 0,
          b_allocated_open = 0, b_state_version = 1, b_updated = issued\<rparr> (resource_balances db)) (\<lambda>balances.
       Inr (db\<lparr>resource_envelope_grants := grants, resource_balances := balances\<rparr>)))"

definition issue_grants :: "RunAdmission \<Rightarrow> RootResourceGrant list \<Rightarrow> DB \<Rightarrow> DB result" where
  "issue_grants a grants db =
     (if grants = [] then Inr db
      else let rows = grant_rows a grants db in
        and_then (wrapping ''issue root resource grants'' (fold_result (issue_grant (adm_CreatedAt a)) rows db)) (\<lambda>db.
          if length rows \<noteq> length grants
          then Inl (WithRetryable (NewError CodeUnavailable ''policy resource dimension is unavailable or outside configured bounds''))
          else Inr db))"

definition admission_mismatch :: "ID \<Rightarrow> RunAdmission \<Rightarrow> RunVersionResolution \<Rightarrow> bool" where
  "admission_mismatch tenant a r \<longleftrightarrow>
     adm_TenantID a \<noteq> tenant \<or> vr_TenantID r \<noteq> tenant \<or> vr_RunID r \<noteq> adm_RunID a \<or> vr_AgentID r \<noteq> adm_AgentID a
     \<or> vr_AgentVersionID r \<noteq> adm_AgentVersionID a \<or> vr_InvocationDecisionID r \<noteq> adm_PolicyDecisionID a"

definition evidence_missing :: "RunAdmissionEvidence \<Rightarrow> bool" where
  "evidence_missing e \<longleftrightarrow> IsZero (ae_EventID e) \<or> IsZero (ae_AuditID e) \<or> IsZero (ae_OutboxID e) \<or> IsZero (ae_RequestID e) \<or> ae_ReasonCodes e = []"

definition AdmitRun :: "Env \<Rightarrow> ID \<Rightarrow> RunAdmission \<Rightarrow> RunVersionResolution \<Rightarrow> RunAdmissionEvidence \<Rightarrow> DB \<Rightarrow> DB result" where
  "AdmitRun env tenant a r e db =
     and_then (repository_valid tenant) (\<lambda>_.
       if admission_mismatch tenant a r then Inl (New ''run admission does not match repository scope or resolution'')
       else and_then (RunAdmission_Validate a) (\<lambda>_. and_then (RunVersionResolution_Validate r) (\<lambda>_.
         case RootResourceGrants (case_option [] id (vr_ResolvedConstraints r)) of
           Inl err \<Rightarrow> Inl (WrapError CodeInvalidArgument ''resolved resource grants are invalid'' err)
         | Inr grants \<Rightarrow>
             if evidence_missing e then Inl (New ''run admission evidence is invalid'')
             else and_then (bounded_json ''run constraints are invalid or exceed bounds'' (map_json (adm_Constraints a))) (\<lambda>cs.
               and_then (bounded_json ''version resolution evidence exceeds bounds'' (stored_resolution r)) (\<lambda>resolution.
               and_then (validateEvidence (admission_audit a r e) (admission_message a e)) (\<lambda>_.
                 if \<not> list_ex (admission_version a r) (agent_versions db) then Inl ErrIneligible
                 else and_then (insert_aggregate env a r cs resolution e db) (issue_grants a grants)))))))"

section \<open>Admission of a child\<close>

definition link_envelope :: "ID \<Rightarrow> ID \<Rightarrow> ID \<Rightarrow> DB \<Rightarrow> DB result" where
  "link_envelope tenant child parent db =
     and_then (wrapping ''link child resource envelope''
       (pg_update envelope_check (\<lambda>e. e_tenant e = tenant \<and> e_id e = child \<and> e_parent e = None) (\<lambda>e. e\<lparr>e_parent := Some parent\<rparr>) (resource_envelopes db)))
     (\<lambda>(rows, n). if n \<noteq> 1 then Inl (NewError CodeConflict ''child resource envelope could not be linked'') else Inr (db\<lparr>resource_envelopes := rows\<rparr>))"

definition AdmitChildRun ::
  "Env \<Rightarrow> ID \<Rightarrow> RunAdmission \<Rightarrow> RunVersionResolution \<Rightarrow> RunAdmissionEvidence \<Rightarrow> ResourceReservation \<Rightarrow> DB \<Rightarrow> (ResourceReservation \<times> DB) result" where
  "AdmitChildRun env tenant a r e reservation db =
     (if rv_TenantID reservation \<noteq> adm_TenantID a \<or> rv_ChildRunID reservation \<noteq> adm_RunID a \<or> rv_ChildEnvelopeID reservation \<noteq> adm_EnvelopeID a
         \<or> IsZero (rv_ParentEnvelopeID reservation)
      then Inl (NewError CodeInvalidArgument ''child admission reservation does not match the run'')
      else and_then (AdmitRun env tenant a r e db) (\<lambda>db.
        and_then (lockParentResourceEnvelope tenant (rv_ParentEnvelopeID reservation) db) (\<lambda>_.
        and_then (link_envelope tenant (adm_EnvelopeID a) (rv_ParentEnvelopeID reservation) db) (\<lambda>db.
          ReserveChildResources tenant reservation db))))"

section \<open>Effect on the ledger\<close>

definition grant_balance :: "Time \<Rightarrow> grant_row \<Rightarrow> balance_row" where
  "grant_balance issued g =
     \<lparr>b_tenant = g_tenant g, b_envelope = g_envelope g, b_dimension = g_dimension g, b_available = g_granted g, b_direct_consumed = 0,
      b_allocated_open = 0, b_state_version = 1, b_updated = issued\<rparr>"

lemma grant_balance_simps [simp]: "balance_key (grant_balance issued g) = grant_key g" "b_available (grant_balance issued g) = g_granted g"
  "b_direct_consumed (grant_balance issued g) = 0" "b_allocated_open (grant_balance issued g) = 0" "b_state_version (grant_balance issued g) = 1"
  by (simp_all add: grant_balance_def balance_key_def grant_key_def)

lemma issue_grant_Inr:
  "issue_grant issued g db = Inr db' \<longleftrightarrow>
     grant_check g \<and> balance_check (grant_balance issued g) \<and> \<not> has_grant db (grant_key g) \<and> \<not> has_balance db (grant_key g) \<and>
     db' = db\<lparr>resource_envelope_grants := resource_envelope_grants db @ [g], resource_balances := resource_balances db @ [grant_balance issued g]\<rparr>"
  unfolding issue_grant_def grant_balance_def[symmetric]
  by (auto simp: and_then_Inr pg_insert_Inr has_grant_def has_balance_def image_iff)

lemma issue_grant_inv:
  assumes "ledger_inv db" "issue_grant issued g db = Inr db'"
  shows "ledger_inv db'"
proof -
  have g: "balance_check (grant_balance issued g)" "\<not> has_grant db (grant_key g)" "\<not> has_balance db (grant_key g)"
    and db': "db' = db\<lparr>resource_envelope_grants := resource_envelope_grants db @ [g], resource_balances := resource_balances db @ [grant_balance issued g]\<rparr>"
    using assms(2) by (simp_all add: issue_grant_Inr)
  have same: "resource_reservations db' = resource_reservations db" "resource_dimensions db' = resource_dimensions db" "resource_reservation_items db' = resource_reservation_items db"
    "resource_extensions db' = resource_extensions db" "resource_extension_items db' = resource_extension_items db"
    by (simp_all add: db')
  have reserved: "reserved_open db' k = reserved_open db k" for k by (simp add: reserved_open_def reservation_open_def same)
  have granted: "granted_total db' k = granted_total db k + (if k = grant_key g then g_granted g else 0)" for k
    by (simp add: granted_total_def extended_def extension_of_def same) (auto simp: db')
  have hb: "has_balance db' k \<longleftrightarrow> has_balance db k \<or> k = grant_key g" for k by (auto simp: has_balance_def db')
  have hg: "has_grant db' k \<longleftrightarrow> has_grant db k \<or> k = grant_key g" for k by (auto simp: has_grant_def db')
  have "balance_conserved db' b" if "b \<in> set (resource_balances db')" for b
  proof (cases "b \<in> set (resource_balances db)")
    case True
    then have "balance_key b \<noteq> grant_key g" using g(3) by (auto simp: has_balance_def image_iff)
    then show ?thesis using ledger_inv_balance[OF assms(1) True] by (simp add: balance_conserved_def hg granted reserved)
  next
    case False
    then have b: "b = grant_balance issued g" using that by (simp add: db')
    obtain t e d where k: "grant_key g = (t, e, d)" by (cases "grant_key g") auto
    show ?thesis using g reserved_open_no_balance[OF assms(1), of t e d] granted_no_grant[OF assms(1) g(2)]
      by (simp add: b balance_conserved_def hg granted reserved k)
  qed
  moreover have "keys_ok db'"
    using assms(1) g(2,3) by (auto simp: ledger_inv_def keys_ok_def db' unique_key_def has_grant_def has_balance_def)
  moreover have "reservation_item_ok db' i" if "i \<in> set (resource_reservation_items db')" for i
  proof -
    have "reservation_item_ok db i" using assms(1) that by (simp add: same ledger_inv_def list_all_iff)
    then show ?thesis unfolding reservation_item_ok_def hb same by blast
  qed
  moreover have "extension_item_ok db' i" if "i \<in> set (resource_extension_items db')" for i
  proof -
    have "extension_item_ok db i" using assms(1) that by (simp add: same ledger_inv_def list_all_iff)
    then show ?thesis unfolding extension_item_ok_def hg same by blast
  qed
  ultimately show ?thesis by (simp add: ledger_inv_def list_all_iff)
qed

text \<open>The accounts that an admission opens, and nothing else of the store.\<close>

definition open_account :: "grant_row \<Rightarrow> accounts \<Rightarrow> accounts" where
  "open_account g m = m(grant_key g \<mapsto> \<lparr>avail = g_granted g, consumed = 0, allocated = 0\<rparr>)"

lemma issue_grant_accounts:
  "issue_grant issued g db = Inr db' \<Longrightarrow> accounts db' = open_account g (accounts db)"
proof -
  assume "issue_grant issued g db = Inr db'"
  then have "\<not> has_balance db (grant_key g)" "resource_balances db' = resource_balances db @ [grant_balance issued g]" by (simp_all add: issue_grant_Inr)
  then show ?thesis using accounts_insert[of db "grant_balance issued g" db'] by (simp add: open_account_def account_of_def)
qed

lemma issue_all_Inr:
  assumes "fold_result (issue_grant issued) gs db = Inr db'"
  shows "ledger_inv db \<Longrightarrow> ledger_inv db'" "accounts db' = fold open_account gs (accounts db)" "\<forall>g \<in> set gs. \<not> has_balance db (grant_key g)" "distinct (map grant_key gs)"
    "db' = db\<lparr>resource_envelope_grants := resource_envelope_grants db @ gs, resource_balances := resource_balances db @ map (grant_balance issued) gs\<rparr>"
proof -
  have "(ledger_inv db \<longrightarrow> ledger_inv db') \<and> accounts db' = fold open_account gs (accounts db) \<and> (\<forall>g \<in> set gs. \<not> has_balance db (grant_key g)) \<and> distinct (map grant_key gs) \<and>
    db' = db\<lparr>resource_envelope_grants := resource_envelope_grants db @ gs, resource_balances := resource_balances db @ map (grant_balance issued) gs\<rparr>"
    using assms
  proof (induction gs arbitrary: db)
    case (Cons g gs)
    then obtain db1 where 1: "issue_grant issued g db = Inr db1" "fold_result (issue_grant issued) gs db1 = Inr db'" by (auto simp: and_then_Inr)
    note i = issue_grant_Inr[THEN iffD1, OF 1(1)]
    have h: "has_balance db1 k \<longleftrightarrow> has_balance db k \<or> k = grant_key g" for k using i by (auto simp: has_balance_def)
    show ?case using Cons.IH[OF 1(2)] issue_grant_inv[OF _ 1(1)] issue_grant_accounts[OF 1(1)] i h by auto
  qed simp
  then show "ledger_inv db \<Longrightarrow> ledger_inv db'" "accounts db' = fold open_account gs (accounts db)" "\<forall>g \<in> set gs. \<not> has_balance db (grant_key g)" "distinct (map grant_key gs)"
    "db' = db\<lparr>resource_envelope_grants := resource_envelope_grants db @ gs, resource_balances := resource_balances db @ map (grant_balance issued) gs\<rparr>"
    by blast+
qed

text \<open>The store after the aggregate has been inserted, before the grants.\<close>

definition with_aggregate :: "Env \<Rightarrow> RunAdmission \<Rightarrow> RunVersionResolution \<Rightarrow> json \<Rightarrow> json \<Rightarrow> RunAdmissionEvidence \<Rightarrow> DB \<Rightarrow> DB" where
  "with_aggregate env a r cs resolution e db =
     db\<lparr>runs := runs db @ [admitted_row a cs], run_version_resolutions := run_version_resolutions db @ [admitted_resolution a r resolution],
        resource_envelopes := resource_envelopes db @ [admitted_envelope a], run_events := run_events db @ [admitted_event a e],
        audit_events := audit_events db @ [audit_row_of env (admission_audit a r e)],
        outbox_messages := outbox_messages db @ [outbox_row_of (admission_message a e)]\<rparr>"

lemma insert_run_event_Inr:
  "insert_run_event e db = Inr db' \<longleftrightarrow> run_event_check e \<and> (\<forall>f \<in> set (run_events db). \<not> run_event_conflict e f) \<and> db' = db\<lparr>run_events := run_events db @ [e]\<rparr>"
  by (auto simp: insert_run_event_def and_then_Inr pg_insert_Inr)

lemma admission_statement_Inr:
  assumes "admission_statement env a r cs resolution e db = Inr (Some db')"
  shows "version_eligible a r db" "list_ex (approval_matches a r) (agent_version_approvals db)" "db' = with_aggregate env a r cs resolution e db"
    "run_check (admitted_row a cs)" "\<forall>x \<in> set (runs db). r_id x \<noteq> adm_RunID a" "\<forall>x \<in> set (resource_envelopes db). \<not> envelope_conflict (admitted_envelope a) x"
    "\<forall>x \<in> set (run_events db). \<not> run_event_conflict (admitted_event a e) x"
    "\<exists>p \<in> set (principals db). p_tenant p = adm_TenantID a \<and> p_id p = adm_RequestedBy a"
proof -
  obtain db5 db6 db7 where i: "version_eligible a r db" "list_ex (approval_matches a r) (agent_version_approvals db)" "run_check (admitted_row a cs)"
      "\<forall>x \<in> set (runs db). r_id (admitted_row a cs) \<noteq> r_id x" "\<forall>x \<in> set (resource_envelopes db). \<not> envelope_conflict (admitted_envelope a) x"
    and s: "insert_run_event (admitted_event a e) (db\<lparr>runs := runs db @ [admitted_row a cs], run_version_resolutions := run_version_resolutions db @ [admitted_resolution a r resolution],
        resource_envelopes := resource_envelopes db @ [admitted_envelope a]\<rparr>) = Inr db5"
      "insert_audit env (admission_audit a r e) db5 = Inr db6" "insert_outbox (admission_message a e) db6 = Inr db7"
      "list_ex (\<lambda>p. p_tenant p = adm_TenantID a \<and> p_id p = adm_RequestedBy a) (principals db7)" "db' = db7"
    using assms by (auto simp: admission_statement_def and_then_Inr pg_insert_Inr Let_def split: if_splits)
  note e5 = s(1)[unfolded insert_run_event_Inr]
  show "version_eligible a r db" "list_ex (approval_matches a r) (agent_version_approvals db)" "run_check (admitted_row a cs)"
    "\<forall>x \<in> set (resource_envelopes db). \<not> envelope_conflict (admitted_envelope a) x" using i by simp_all
  show "\<forall>x \<in> set (runs db). r_id x \<noteq> adm_RunID a" using i(4) by (simp add: admitted_row_def eq_commute)
  show "\<forall>x \<in> set (run_events db). \<not> run_event_conflict (admitted_event a e) x" using e5 by simp
  show "db' = with_aggregate env a r cs resolution e db"
    using e5 insert_audit_Inr[OF s(2)] insert_outbox_Inr[OF s(3)] s(5) by (simp add: with_aggregate_def)
  show "\<exists>p \<in> set (principals db). p_tenant p = adm_TenantID a \<and> p_id p = adm_RequestedBy a"
    using s(4) e5 insert_audit_Inr[OF s(2)] insert_outbox_Inr[OF s(3)] by (auto simp: list_ex_iff)
qed

lemma insert_aggregate_Inr: "insert_aggregate env a r cs resolution e db = Inr db' \<longleftrightarrow> admission_statement env a r cs resolution e db = Inr (Some db')"
  by (auto simp: insert_aggregate_def split: sum.splits option.splits)

lemma issue_grants_Inr:
  "issue_grants a grants db = Inr db' \<longleftrightarrow> length (grant_rows a grants db) = length grants \<and> fold_result (issue_grant (adm_CreatedAt a)) (grant_rows a grants db) db = Inr db'"
  by (cases "grants = []") (auto simp: issue_grants_def grant_rows_def and_then_Inr Let_def split: if_splits)

lemma bounded_json_Inr: "bounded_json message j = Inr v \<Longrightarrow> j = Some v"
  by (auto simp: bounded_json_def split: option.splits if_splits)

lemma grant_rows_with_aggregate: "grant_rows a grants (with_aggregate env a' r cs resolution e db) = grant_rows a grants db"
  by (simp add: grant_rows_def with_aggregate_def)

lemma AdmitRun_Inr:
  assumes "AdmitRun env t a r e db = Inr db'"
  obtains grants cs resolution where "\<not> admission_mismatch t a r" "RunAdmission_Validate a = Inr ()" "RunVersionResolution_Validate r = Inr ()"
    "RootResourceGrants (case_option [] id (vr_ResolvedConstraints r)) = Inr grants" "map_json (adm_Constraints a) = Some cs" "stored_resolution r = Some resolution"
    "admission_statement env a r cs resolution e db = Inr (Some (with_aggregate env a r cs resolution e db))"
    "length (grant_rows a grants db) = length grants"
    "fold_result (issue_grant (adm_CreatedAt a)) (grant_rows a grants db) (with_aggregate env a r cs resolution e db) = Inr db'"
proof -
  obtain grants cs resolution db1 where v: "\<not> admission_mismatch t a r" "RunAdmission_Validate a = Inr ()" "RunVersionResolution_Validate r = Inr ()"
      "RootResourceGrants (case_option [] id (vr_ResolvedConstraints r)) = Inr grants"
    and j: "bounded_json ''run constraints are invalid or exceed bounds'' (map_json (adm_Constraints a)) = Inr cs"
      "bounded_json ''version resolution evidence exceeds bounds'' (stored_resolution r) = Inr resolution"
    and s: "insert_aggregate env a r cs resolution e db = Inr db1" "issue_grants a grants db1 = Inr db'"
    using assms unfolding AdmitRun_def and_then_Inr by (auto simp: and_then_Inr split: if_splits sum.splits)
  note s1 = s(1)[unfolded insert_aggregate_Inr] and s2 = s(2)[unfolded issue_grants_Inr]
  note d = admission_statement_Inr(3)[OF s1]
  show ?thesis by (rule that[OF v bounded_json_Inr[OF j(1)] bounded_json_Inr[OF j(2)]]) (use s1 s2 d in \<open>simp_all add: grant_rows_with_aggregate\<close>)
qed

lemma AdmitRun_ledger:
  assumes "AdmitRun env t a r e db = Inr db'" "ledger_inv db"
  shows "ledger_inv db'"
proof -
  obtain grants cs resolution where f: "fold_result (issue_grant (adm_CreatedAt a)) (grant_rows a grants db) (with_aggregate env a r cs resolution e db) = Inr db'"
    using AdmitRun_Inr[OF assms(1)] by blast
  have "ledger_inv (with_aggregate env a r cs resolution e db)" using assms(2) by (subst ledger_inv_cong[of _ db]) (simp_all add: with_aggregate_def)
  then show ?thesis by (rule issue_all_Inr(1)[OF f])
qed

section \<open>Effect on the runs\<close>

lemma first_event:
  assumes "events_ok db" "\<forall>x \<in> set (run_events db). \<not> run_event_conflict (admitted_event a e) x"
  shows "run_events_of (adm_TenantID a) (adm_RunID a) db = []" "next_sequence (adm_TenantID a) (adm_RunID a) db = 1"
proof -
  let ?es = "run_events_of (adm_TenantID a) (adm_RunID a) db"
  have none: "1 \<notin> set (map ev_sequence ?es)" using assms(2) by (auto simp: run_events_of_def run_event_conflict_def admitted_event_def)
  have "map ev_sequence ?es = [1..int (length ?es)]" using assms(1) by (simp add: events_ok_def)
  then have "1 \<notin> set [1..int (length ?es)]" using none by simp
  then show "?es = []" by (cases ?es) simp_all
  then show "next_sequence (adm_TenantID a) (adm_RunID a) db = 1" by (simp add: next_sequence_ok[OF assms(1)])
qed

lemma admitted_row_ok: "run_check (admitted_row a cs) \<Longrightarrow> run_row_ok (admitted_row a cs)"
  by (simp add: run_row_ok_def int64_simps) (simp add: admitted_row_def Terminal_def)

lemma AdmitRun_store:
  assumes "AdmitRun env t a r e db = Inr db'"
  obtains grants cs resolution where
    "db' = (with_aggregate env a r cs resolution e db)\<lparr>resource_envelope_grants := resource_envelope_grants db @ grant_rows a grants db,
       resource_balances := resource_balances db @ map (grant_balance (adm_CreatedAt a)) (grant_rows a grants db)\<rparr>"
    "adm_TenantID a = t" "RunAdmission_Validate a = Inr ()" "RunVersionResolution_Validate r = Inr ()"
    "RootResourceGrants (case_option [] id (vr_ResolvedConstraints r)) = Inr grants" "map_json (adm_Constraints a) = Some cs"
    "length (grant_rows a grants db) = length grants" "accounts db' = fold open_account (grant_rows a grants db) (accounts db)"
    "\<forall>g \<in> set (grant_rows a grants db). \<not> has_balance db (grant_key g)" "distinct (map grant_key (grant_rows a grants db))"
    "version_eligible a r db" "list_ex (approval_matches a r) (agent_version_approvals db)" "run_check (admitted_row a cs)"
    "\<forall>x \<in> set (runs db). r_id x \<noteq> adm_RunID a" "\<forall>x \<in> set (resource_envelopes db). \<not> envelope_conflict (admitted_envelope a) x"
    "\<forall>x \<in> set (run_events db). \<not> run_event_conflict (admitted_event a e) x"
    "\<exists>p \<in> set (principals db). p_tenant p = t \<and> p_id p = adm_RequestedBy a"
proof -
  obtain grants cs resolution where v: "\<not> admission_mismatch t a r" "RunAdmission_Validate a = Inr ()" "RunVersionResolution_Validate r = Inr ()"
      "RootResourceGrants (case_option [] id (vr_ResolvedConstraints r)) = Inr grants" "map_json (adm_Constraints a) = Some cs"
    and s: "admission_statement env a r cs resolution e db = Inr (Some (with_aggregate env a r cs resolution e db))"
    and l: "length (grant_rows a grants db) = length grants"
    and f: "fold_result (issue_grant (adm_CreatedAt a)) (grant_rows a grants db) (with_aggregate env a r cs resolution e db) = Inr db'"
    using AdmitRun_Inr[OF assms] by metis
  note s = admission_statement_Inr[OF s] and i = issue_all_Inr[OF f]
  have b: "has_balance (with_aggregate env a r cs resolution e db) = has_balance db" "accounts (with_aggregate env a r cs resolution e db) = accounts db"
    by (auto simp: has_balance_def with_aggregate_def intro!: accounts_cong)
  have t: "adm_TenantID a = t" using v(1) by (auto simp: admission_mismatch_def)
  have d: "db' = (with_aggregate env a r cs resolution e db)\<lparr>resource_envelope_grants := resource_envelope_grants db @ grant_rows a grants db,
       resource_balances := resource_balances db @ map (grant_balance (adm_CreatedAt a)) (grant_rows a grants db)\<rparr>"
    using i(5) by (simp add: with_aggregate_def)
  show ?thesis by (rule that[OF d t v(2-5) l i(2)[unfolded b] i(3)[unfolded b] i(4) s(1,2,4-7) s(8)[unfolded t]])
qed

lemma AdmitRun_evolve:
  assumes "AdmitRun env t a r e db = Inr db'"
  shows "runs_evolve db db'"
proof -
  obtain grants cs resolution where
    db': "db' = (with_aggregate env a r cs resolution e db)\<lparr>resource_envelope_grants := resource_envelope_grants db @ grant_rows a grants db,
       resource_balances := resource_balances db @ map (grant_balance (adm_CreatedAt a)) (grant_rows a grants db)\<rparr>"
    and s: "run_check (admitted_row a cs)" "\<forall>x \<in> set (runs db). r_id x \<noteq> adm_RunID a" "\<forall>x \<in> set (run_events db). \<not> run_event_conflict (admitted_event a e) x"
    by (rule AdmitRun_store[OF assms])
  let ?db1 = "db\<lparr>runs := runs db @ [admitted_row a cs]\<rparr>"
  let ?db2 = "?db1\<lparr>run_events := run_events ?db1 @ [admitted_event a e]\<rparr>"
  have 1: "runs_evolve db ?db1" using s(2) by (intro runs_evolve_insert admitted_row_ok[OF s(1)]) (simp add: admitted_row_def)
  have check: "run_event_check (admitted_event a e)" by (simp add: run_event_check_def admitted_event_def RunActor_Valid_def RunState_Valid_def)
  have i: "insert_run_event (admitted_event a e) ?db1 = Inr ?db2" using s(3) check by (simp add: insert_run_event_Inr)
  have 2: "runs_evolve ?db1 ?db2"
  proof (rule insert_run_event_evolve[OF i])
    assume "events_ok ?db1"
    then show "ev_sequence (admitted_event a e) = next_sequence (ev_tenant (admitted_event a e)) (ev_run (admitted_event a e)) ?db1"
      using first_event(2)[of ?db1 a e] s(3) by (simp add: admitted_event_def)
  qed
  have 3: "runs_evolve ?db2 db'" by (rule runs_evolve_same) (simp_all add: db' with_aggregate_def)
  show ?thesis by (rule runs_evolve_trans[OF 1 runs_evolve_trans[OF 2 3]])
qed

lemma link_envelope_Inr:
  "link_envelope t child parent db = Inr db' \<Longrightarrow> \<exists>rows. db' = db\<lparr>resource_envelopes := rows\<rparr>"
  by (auto simp: link_envelope_def and_then_Inr pg_update_Inr split: if_splits)

lemma AdmitChildRun_Inr:
  assumes "AdmitChildRun env t a r e q db = Inr (res, db')"
  obtains db1 rows where "AdmitRun env t a r e db = Inr db1" "ReserveChildResources t q (db1\<lparr>resource_envelopes := rows\<rparr>) = Inr (res, db')"
  using assms by (auto simp: AdmitChildRun_def and_then_Inr dest!: link_envelope_Inr split: if_splits)

lemma AdmitChildRun_ledger:
  assumes "AdmitChildRun env t a r e q db = Inr (res, db')" "ledger_inv db"
  shows "ledger_inv db'"
proof -
  obtain db1 rows where 1: "AdmitRun env t a r e db = Inr db1" "ReserveChildResources t q (db1\<lparr>resource_envelopes := rows\<rparr>) = Inr (res, db')"
    by (rule AdmitChildRun_Inr[OF assms(1)])
  have "ledger_inv (db1\<lparr>resource_envelopes := rows\<rparr>)" using AdmitRun_ledger[OF 1(1) assms(2)] by (subst ledger_inv_cong[of _ db1]) simp_all
  then show ?thesis by (rule ReserveChildResources_inv[OF _ 1(2)])
qed

end
