(* ===== verification/System.thy ===== *)
theory System
  imports Admission Freshness
begin

text \<open>
  The components together. A store operation is one transaction of the resource ledger, of the run tables or of the revocation authority;
  the theory frames each of them against the tables of the other components, gives one step function for all and interprets the contract of
  monotone operations on it, so that the promises of each component hold along every interleaving with the others.
\<close>

section \<open>Frames\<close>

text \<open>The tables that the revocation authority reads and writes, and the tables of runs.\<close>

definition same_authority :: "DB \<Rightarrow> DB \<Rightarrow> bool" where
  "same_authority db db' \<longleftrightarrow>
     revocations db' = revocations db \<and> revocation_changes db' = revocation_changes db \<and> revocation_log db' = revocation_log db \<and>
     security_epoch db' = security_epoch db \<and> tenant_security_epochs db' = tenant_security_epochs db \<and>
     agent_security_epochs db' = agent_security_epochs db \<and> gateway_checkpoints db' = gateway_checkpoints db"

definition same_runs :: "DB \<Rightarrow> DB \<Rightarrow> bool" where
  "same_runs db db' \<longleftrightarrow> runs db' = runs db \<and> run_events db' = run_events db"

lemma same_authority_trans: "same_authority a b \<Longrightarrow> same_authority b c \<Longrightarrow> same_authority a c"
  by (simp add: same_authority_def)

lemma same_runs_trans: "same_runs a b \<Longrightarrow> same_runs b c \<Longrightarrow> same_runs a c"
  by (simp add: same_runs_def)

lemma same_refl [simp]: "same_authority db db" "same_runs db db"
  by (simp_all add: same_authority_def same_runs_def)

lemma same_runs_evolve: "same_runs db db' \<Longrightarrow> runs_evolve db db'"
  by (simp add: same_runs_def runs_evolve_same)

lemma fold_result_same:
  assumes "fold_result f xs db = Inr db'" "\<And>x db db'. f x db = Inr db' \<Longrightarrow> same_authority db db' \<and> same_runs db db'"
  shows "same_authority db db' \<and> same_runs db db'"
  using assms(1)
proof (induction xs arbitrary: db)
  case (Cons x xs)
  then obtain db1 where "f x db = Inr db1" "fold_result f xs db1 = Inr db'" by (auto simp: and_then_Inr)
  then show ?case using assms(2)[of x db db1] Cons.IH[of db1] same_authority_trans[of db db1 db'] same_runs_trans[of db db1 db'] by simp
qed simp

lemma update_balance_frame: "update_balance k p f db = Inr (db', n) \<Longrightarrow> same_authority db db' \<and> same_runs db db'"
  by (auto simp: update_balance_def and_then_Inr same_authority_def same_runs_def)

lemma insert_audit_frame: "insert_audit env a db = Inr db' \<Longrightarrow> same_authority db db' \<and> same_runs db db'"
  by (auto simp: insert_audit_def and_then_Inr same_authority_def same_runs_def)

lemma insert_outbox_frame: "insert_outbox m db = Inr db' \<Longrightarrow> same_authority db db' \<and> same_runs db db'"
  by (auto simp: insert_outbox_def and_then_Inr same_authority_def same_runs_def)

lemma insert_run_event_frame: "insert_run_event e db = Inr db' \<Longrightarrow> same_authority db db'"
  by (auto simp: insert_run_event_def and_then_Inr same_authority_def)

lemma insert_run_event_with_outbox_frame: "insert_run_event_with_outbox e db = Inr db' \<Longrightarrow> same_authority db db'"
  by (auto simp: insert_run_event_with_outbox_def insert_run_event_def insert_outbox_def and_then_Inr same_authority_def)

lemma reserve_amount_frame: "reserve_amount t q locked a db = Inr db' \<Longrightarrow> same_authority db db' \<and> same_runs db db'"
  by (auto simp: reserve_amount_def debit_parent_def update_balance_def Let_def and_then_Inr same_authority_def same_runs_def split: if_splits)

lemma extend_addition_frame: "extend_addition t xid e now a db = Inr db' \<Longrightarrow> same_authority db db' \<and> same_runs db db'"
  by (auto simp: extend_addition_def credit_extension_def update_balance_def Let_def and_then_Inr same_authority_def same_runs_def split: option.splits if_splits)

lemma settle_item_frame: "settle_item m c t s p now x db = Inr db' \<Longrightarrow> same_authority db db' \<and> same_runs db db'"
  by (auto simp: settle_item_def replacing_error_def update_balance_def Let_def and_then_Inr same_authority_def same_runs_def split: option.splits if_splits sum.splits)

lemma ReserveChildResources_frame:
  assumes "ReserveChildResources t q db = Inr (r, db')"
  shows "same_authority db db' \<and> same_runs db db'"
proof -
  obtain locked db1 where i: "insert_reservation t r db = Inr db1" and f: "fold_result (reserve_amount t r locked) (rv_Amounts r) db1 = Inr db'"
    by (rule ReserveChildResources_Inr[OF assms])
  have "same_authority db db1 \<and> same_runs db db1" using i by (auto simp: insert_reservation_def same_authority_def same_runs_def split: sum.splits)
  moreover have "same_authority db1 db' \<and> same_runs db1 db'" using f by (rule fold_result_same) (rule reserve_amount_frame)
  ultimately show ?thesis using same_authority_trans same_runs_trans by blast
qed


lemma settlement_frame:
  assumes "insert_settlement m t s digest reason db = Inr db1"
    "fold_result (settle_item m' c t' sid p now) items db1 = Inr db2" "close_reservation t'' rid state now' db2 = Inr (db3, n)"
  shows "same_authority db db3 \<and> same_runs db db3"
proof -
  have "same_authority db db1 \<and> same_runs db db1" using assms(1) by (auto simp: insert_settlement_def and_then_Inr same_authority_def same_runs_def)
  moreover have "same_authority db1 db2 \<and> same_runs db1 db2" using assms(2) by (rule fold_result_same) (rule settle_item_frame)
  moreover have "same_authority db2 db3 \<and> same_runs db2 db3" using assms(3) by (auto simp: close_reservation_def and_then_Inr same_authority_def same_runs_def)
  ultimately show ?thesis by (simp add: same_authority_def same_runs_def)
qed

lemma SettleReservation_frame:
  assumes "SettleReservation env t q ev db = Inr (res, db')"
  shows "same_authority db db' \<and> same_runs db db'"
  using assms
proof (cases rule: SettleReservation_cases)
  case (new s rr)
  obtain items db1 db2 db3 n db4 where 1: "insert_settlement ''insert settlement'' t s (resourceSettlementDigest (env_sha256 env) s) ReasonTerminal db = Inr db1"
    "fold_result (settle_item ''insert settlement item'' ''parent settlement balance changed or overflowed'' t (set_ID s) (rr_parent rr) (set_SettledAt s)) items db1 = Inr db2"
    "close_reservation t (set_ReservationID s) SETTLED (set_SettledAt s) db2 = Inr (db3, n)"
    and 2: "insert_audit env (settlement_audit s ev) db3 = Inr db4" "insert_outbox (settlement_message s ev) db4 = Inr db'"
    by (rule settle_open_Inr[OF new(6)])
  show ?thesis using settlement_frame[OF 1] insert_audit_frame[OF 2(1)] insert_outbox_frame[OF 2(2)] by (simp add: same_authority_def same_runs_def)
qed simp

lemma reconcile_selected_frame:
  assumes "reconcile_selected env s ev expired rr db = Inr (res, db')"
  shows "same_authority db db' \<and> same_runs db db'"
proof -
  let ?t = "set_TenantID s"
  obtain db1 db2 db3 n db4 where 1: "insert_settlement ''insert reconciled settlement'' ?t s (resourceSettlementDigest (env_sha256 env) s)
       (if expired then ReasonExpired else ReasonReconciled) db = Inr db1"
    "fold_result (settle_item ''insert reconciled settlement item'' ''parent reconciliation balance changed or overflowed''
       ?t (set_ID s) (rr_parent rr) (set_SettledAt s)) (locked_items ?t (rr_id rr) (rr_child rr) (rr_parent rr) db) db1 = Inr db2"
    "close_reservation ?t (rr_id rr) (if expired then EXPIRED_SETTLED else SETTLED) (set_SettledAt s) db2 = Inr (db3, n)"
    and 2: "insert_audit env (reconciliation_audit s ev expired) db3 = Inr db4"
      "insert_outbox (reconciliation_message s ev (if expired then ReasonExpired else ReasonReconciled)) db4 = Inr db'"
    using assms by (auto simp: reconcile_selected_def Let_def and_then_Inr split: if_splits)
  show ?thesis using settlement_frame[OF 1] insert_audit_frame[OF 2(1)] insert_outbox_frame[OF 2(2)] by (simp add: same_authority_def same_runs_def)
qed

lemma expire_child_evolve:
  assumes "expire_child t system now ev rr ru db = Inr db'" "find_run t (rr_run rr) db = Some ru"
  shows "runs_evolve db db' \<and> same_authority db db'"
proof -
  let ?l = "\<lparr>State = r_state ru, Version = r_state_version ru, UpdatedAt = ToUTC (r_updated ru), TerminalAt = None\<rparr>"
  let ?c = "\<lparr>To = RunTimedOut, Actor = RunActorSystem, ExpectedVersion = r_state_version ru, At = now\<rparr>"
  note D = assms(1)[unfolded expire_child_def]
  obtain final where t: "Transition ?l ?c = Inr (final, True)" and token: "r_fencing_token ru \<noteq> MaxInt64"
    using D by (auto split: if_splits sum.splits prod.splits)
  let ?p = "\<lambda>r. r_tenant r = t \<and> r_id r = rr_run rr \<and> r_state_version r = r_state_version ru"
  let ?f = "\<lambda>r. r\<lparr>r_state := RunTimedOut, r_state_version := Version final, r_updated := now, r_terminal := Some now, r_lease_id := None,
      r_lease_expires := None, r_fencing_token := wrap64 (r_fencing_token ru + 1)\<rparr>"
  obtain db1 n e where u: "update_run ?p ?f db = Inr (db1, n)" and e: "insert_run_event_with_outbox e db1 = Inr db'"
    "ev_sequence e = next_sequence (ev_tenant e) (ev_run e) db1"
    using D by (auto simp: t token time_out_run_def update_run_def and_then_Inr split: if_splits)
  have "runs_evolve db db1"
  proof (rule update_run_evolve[OF u])
    fix x assume x: "x \<in> set (runs db)" "?p x" "unique_key r_id (runs db)" "run_row_ok x" "run_check (?f x)"
    have eq: "x = ru" using unique_keyD[OF x(3,1) find_run_Some(1)[OF assms(2)]] x(2) find_run_Some(3)[OF assms(2)] by simp
    have i: "int64 (r_state_version ru)" "int64 (r_fencing_token ru)" using x(4) by (simp_all add: eq run_row_ok_def)
    have "int64 (r_fencing_token ru + 1)" using i(2) token by (simp add: int64_simps)
    then show "row_forward x (?f x) \<and> run_row_ok (?f x)"
      using x(5) Transition_changed[OF t i(1)] by (simp add: eq row_forward_def run_row_ok_def r_into_rtranclp wrap64_id)
  qed
  moreover have "runs_evolve db1 db'" by (rule insert_run_event_with_outbox_evolve[OF e])
  moreover have "same_authority db db1" using u by (simp add: update_run_Inr same_authority_def)
  ultimately show ?thesis using insert_run_event_with_outbox_frame[OF e(1)] runs_evolve_trans[of db db1 db'] same_authority_trans[of db db1 db'] by simp
qed

lemma ReconcileNextReservation_evolve:
  assumes "ReconcileNextReservation env t system now ev db = Inr (res, db')"
  shows "runs_evolve db db' \<and> same_authority db db'"
proof -
  obtain w rr ru db1 where c: "reconciliation_candidate t system w db = Some (rr, ru)"
    and e: "if Terminal (r_state ru) then db1 = db else expire_child t system w ev rr ru db = Inr db1"
    and s: "reconcile_selected env (reconciliation_settlement t system w ev (rr_id rr) (if Terminal (r_state ru) then r_state ru else RunTimedOut))
       ev (\<not> Terminal (r_state ru)) rr db1 = Inr (res, db')"
    by (rule ReconcileNextReservation_Inr[OF assms])
  have "find_run t (rr_run rr) db = Some ru" using reconciliation_candidate_Some(2,3)[OF c] by (simp add: reconcilable_def)
  then have "runs_evolve db db1 \<and> same_authority db db1"
    using e expire_child_evolve[of t system w ev rr ru db db1] by (auto simp: runs_evolve_same split: if_splits)
  then show ?thesis using reconcile_selected_frame[OF s] runs_evolve_trans[OF _ same_runs_evolve, of db db1 db'] same_authority_trans[of db db1 db'] by simp
qed


lemma extend_new_evolve:
  assumes "extend_new env t x digest ev db = Inr (res, db')"
  shows "runs_evolve db db' \<and> same_authority db db'"
proof -
  obtain e r deadline db1 db2 state version db3 where
    1: "extension_target t (ext_RunID x) (ext_ActorPrincipalID x) db = Some (e, r)" "\<not> Terminal (r_state r)"
    and 2: "insert_extension t x digest e r deadline db = Inr db1"
    and 3: "fold_result (extend_addition t (ext_ID x) (e_id e) (ext_CreatedAt x)) (ext_Additions x) db1 = Inr db2"
    and 4: "resumed_state r (ext_CreatedAt x) = Inr (state, version)"
    and 5: "extend_run t (ext_RunID x) deadline state version (ext_CreatedAt x) (version_envelope t (e_id e) (wrap64 (e_version e + 1)) db2) = Inr db3"
    and 6: "extension_evidence env t x ev (e_id e) (wrap64 (e_version e + 1)) (r_state r = RunPausedForBudget) state version db3 = Inr db'"
    by (rule extend_new_Inr[OF assms])
  let ?db = "version_envelope t (e_id e) (wrap64 (e_version e + 1)) db2"
  let ?f = "\<lambda>r. r\<lparr>r_deadline := deadline, r_state := state, r_state_version := version, r_updated := ext_CreatedAt x\<rparr>"
  have "same_authority db db1 \<and> same_runs db db1" using 2 by (auto simp: insert_extension_def and_then_Inr same_authority_def same_runs_def)
  moreover have "same_authority db1 db2 \<and> same_runs db1 db2" using 3 by (rule fold_result_same) (rule extend_addition_frame)
  moreover have "same_authority db2 ?db \<and> same_runs db2 ?db" by (simp add: version_envelope_def same_authority_def same_runs_def)
  ultimately have a: "same_authority db ?db" "same_runs db ?db" by (simp_all add: same_authority_def same_runs_def)
  obtain n where u: "update_run (\<lambda>r. r_tenant r = t \<and> r_id r = ext_RunID x) ?f ?db = Inr (db3, n)"
    using 5 by (auto simp: extend_run_def update_run_def and_then_Inr)
  have r: "find_run t (ext_RunID x) db = Some r" using 1(1) by (auto simp: extension_target_def split: option.splits)
  have "runs_evolve ?db db3"
  proof (rule update_run_evolve[OF u])
    fix y assume y: "y \<in> set (runs ?db)" "r_tenant y = t \<and> r_id y = ext_RunID x" "unique_key r_id (runs ?db)" "run_row_ok y" "run_check (?f y)"
    have eq: "y = r" using y(1-3) find_run_Some[OF r] unique_keyD[of r_id "runs db" y r] a(2) by (simp add: same_runs_def)
    have "r_state_version r \<le> version \<and> int64 version \<and> transitionAllowed\<^sup>*\<^sup>* (r_state r) state \<and> \<not> Terminal state"
    proof (cases "r_state r = RunPausedForBudget")
      case True
      have i: "int64 (r_state_version r)" using y(4) by (simp add: eq run_row_ok_def)
      obtain resumed changed where t: "Transition \<lparr>State = RunPausedForBudget, Version = r_state_version r, UpdatedAt = ToUTC (r_updated r), TerminalAt = None\<rparr>
          \<lparr>To = RunRunning, Actor = RunActorGovernor, ExpectedVersion = r_state_version r, At = ext_CreatedAt x\<rparr> = Inr (resumed, changed)"
        "state = State resumed" "version = Version resumed"
        using 4 True by (auto simp: resumed_state_def split: sum.splits prod.splits)
      then have changed by (auto simp: Transition_Inr split: if_splits)
      with t(1) show ?thesis using Transition_changed[OF _ i, of RunPausedForBudget "ToUTC (r_updated r)" None _ resumed] t(2,3) True
        by (auto intro: r_into_rtranclp)
    qed (use 4 1(2) y(4) in \<open>simp add: resumed_state_def run_row_ok_def eq\<close>)
    then show "row_forward y (?f y) \<and> run_row_ok (?f y)" using y(4,5) 1(2) by (simp add: eq row_forward_def run_row_ok_def)
  qed
  moreover have "same_authority ?db db3" using u by (simp add: update_run_Inr same_authority_def)
  moreover have "runs_evolve db3 db' \<and> same_authority db3 db'"
  proof -
    obtain db4 db5 v where ev: "insert_run_event v db3 = Inr db4" "ev_sequence v = next_sequence (ev_tenant v) (ev_run v) db3"
      and o: "insert_audit env (extension_audit x ev (e_id e) (wrap64 (e_version e + 1)) (r_state r = RunPausedForBudget)) db4 = Inr db5"
        "insert_outbox (extension_message x ev (wrap64 (e_version e + 1)) (r_state r = RunPausedForBudget)) db5 = Inr db'"
      using 6 by (auto simp: extension_evidence_def and_then_Inr)
    show ?thesis
      using runs_evolve_trans[OF insert_run_event_evolve[OF ev] runs_evolve_trans[OF insert_audit_evolve[OF o(1)] insert_outbox_evolve[OF o(2)]]]
        insert_run_event_frame[OF ev(1)] insert_audit_frame[OF o(1)] insert_outbox_frame[OF o(2)] by (simp add: same_authority_def)
  qed
  ultimately show ?thesis
    using a same_runs_evolve[OF a(2)] runs_evolve_trans[of db ?db db3] runs_evolve_trans[of db db3 db'] same_authority_trans[of db ?db db3]
      same_authority_trans[of db db3 db'] by simp
qed

lemma ExtendResources_evolve:
  assumes "ExtendResources env t q ev db = Inr (res, db')"
  shows "runs_evolve db db' \<and> same_authority db db'"
  using assms by (cases rule: ExtendResources_cases) (simp_all add: runs_evolve_same extend_new_evolve)


lemma next_sequence_insert:
  assumes "insert_run_event_with_outbox e db = Inr db'" "ev_sequence e = next_sequence (ev_tenant e) (ev_run e) db"
  shows "next_sequence (ev_tenant e) (ev_run e) db' = next_sequence (ev_tenant e) (ev_run e) db + 1"
proof -
  have "run_events db' = run_events db @ [e]"
    using assms(1) by (auto simp: insert_run_event_with_outbox_def insert_run_event_def insert_outbox_def and_then_Inr pg_insert_Inr)
  then have "map ev_sequence (run_events_of (ev_tenant e) (ev_run e) db') = map ev_sequence (run_events_of (ev_tenant e) (ev_run e) db) @ [ev_sequence e]"
    by (simp add: run_events_of_def)
  moreover have "0 \<le> foldr max xs 0" for xs :: "int list" by (induction xs) simp_all
  ultimately show ?thesis
    unfolding assms(2) next_sequence_max
    by (simp add: foldr_max_init[of "foldr max (map ev_sequence (run_events_of (ev_tenant e) (ev_run e) db)) 0 + 1"])
qed

lemma exhaust_lifecycle_forward:
  assumes "exhaust_lifecycle v updatedAt token now disposition = Inr (exhausted, final, actor)" "int64 v"
  shows "transitionAllowed\<^sup>*\<^sup>* RunRunning (State final)" "Version final = v + 2" "int64 (Version final)"
proof -
  let ?l = "\<lparr>State = RunRunning, Version = v, UpdatedAt = updatedAt, TerminalAt = None\<rparr>"
  let ?c1 = "\<lparr>To = RunBudgetExhausted, Actor = RunActorGovernor, ExpectedVersion = v, At = now\<rparr>"
  from assms(1) obtain e changed1 where 1: "Transition ?l ?c1 = Inr (e, changed1)" by (auto simp: exhaust_lifecycle_def Let_def and_then_Inr)
  define c2 where "c2 = \<lparr>To = (if disposition = ExhaustionPause then RunPausedForBudget else RunFailedBudget),
    Actor = (if disposition = ExhaustionPause then RunActorGovernor else RunActorSystem), ExpectedVersion = Version e, At = now\<rparr>"
  from assms(1) 1 obtain changed2 where T2: "Transition e c2 = Inr (final, changed2)" "exhausted = e"
    by (cases "Transition e c2") (simp_all add: exhaust_lifecycle_def Let_def wrapping_def c2_def split: prod.splits if_splits)
  then have T1: "Transition ?l ?c1 = Inr (exhausted, changed1)" and T2: "Transition exhausted c2 = Inr (final, changed2)" using 1 by simp_all
  have "changed1" "State exhausted = RunBudgetExhausted" using T1 by (auto simp: Transition_Inr split: if_splits)
  then have A: "Transition \<lparr>State = RunRunning, Version = v, UpdatedAt = updatedAt, TerminalAt = None\<rparr>
      \<lparr>To = RunBudgetExhausted, Actor = RunActorGovernor, ExpectedVersion = v, At = now\<rparr> = Inr (exhausted, True)" using T1 by simp
  note A = Transition_changed[OF A assms(2)]
  have "changed2" using T2 \<open>State exhausted = RunBudgetExhausted\<close> by (auto simp: Transition_Inr split: if_splits)
  then have "Transition \<lparr>State = RunBudgetExhausted, Version = v + 1, UpdatedAt = UpdatedAt exhausted, TerminalAt = TerminalAt exhausted\<rparr> c2 = Inr (final, True)"
    using T2 A(2,3) by (cases exhausted) simp
  note B = Transition_changed[OF this A(4)]
  show "Version final = v + 2" "int64 (Version final)" using B(3,4) by simp_all
  have "transitionAllowed RunRunning RunBudgetExhausted" "transitionAllowed RunBudgetExhausted (State final)" using B(1,2) by simp_all
  then show "transitionAllowed\<^sup>*\<^sup>* RunRunning (State final)" by (rule rtranclp.rtrancl_into_rtrancl[OF r_into_rtranclp])
qed

lemma applyBudgetExhaustion_evolve:
  assumes "applyBudgetExhaustion env u (r_state_version r) (ToUTC (r_updated r)) (r_fencing_token r) disposition db = Inr db'"
    "find_run (usage_TenantID u) (usage_RunID u) db = Some r" "r_state r = RunRunning"
  shows "runs_evolve db db' \<and> same_authority db db'"
proof -
  let ?v = "r_state_version r" and ?t = "usage_TenantID u" and ?i = "usage_RunID u"
  from assms(1) obtain exhausted final actor n db1 db2 db3 i1 i2 i3 where
    0: "exhaust_lifecycle ?v (ToUTC (r_updated r)) (r_fencing_token r) (usage_RecordedAt u) disposition = Inr (exhausted, final, actor)"
    and 1: "exhaust_run ?t ?i final (usage_RecordedAt u) (wrap64 (r_fencing_token r + 1)) ?v db = Inr (db1, n)"
    and 2: "insert_run_event_with_outbox (exhaustion_event u i1 (next_sequence ?t ?i db1) ''run.budget_exhausted'' RunActorGovernor exhausted) db1 = Inr db2"
    and 3: "insert_run_event_with_outbox (exhaustion_event u i2 (next_sequence ?t ?i db1 + 1) (budgetDispositionEvent disposition) actor final) db2 = Inr db3"
    and 4: "insert_audit env (exhaustion_audit u i3 final disposition) db3 = Inr db'"
    by (auto simp: applyBudgetExhaustion_def Let_def and_then_Inr split: if_splits)
  note token = exhaust_lifecycle_Inr(2)[OF 0]
  let ?p = "\<lambda>x. r_tenant x = ?t \<and> r_id x = ?i \<and> r_state x = RunRunning \<and> r_state_version x = ?v"
  let ?f = "\<lambda>x. x\<lparr>r_state := State final, r_state_version := Version final, r_updated := usage_RecordedAt u, r_terminal := TerminalAt final,
      r_lease_id := None, r_lease_expires := None, r_fencing_token := wrap64 (r_fencing_token r + 1)\<rparr>"
  have u: "update_run ?p ?f db = Inr (db1, n)" using 1 by (simp add: exhaust_run_def update_run_def)
  have "runs_evolve db db1"
  proof (rule update_run_evolve[OF u])
    fix x assume x: "x \<in> set (runs db)" "?p x" "unique_key r_id (runs db)" "run_row_ok x" "run_check (?f x)"
    have eq: "x = r" using unique_keyD[OF x(3,1) find_run_Some(1)[OF assms(2)]] x(2) find_run_Some(3)[OF assms(2)] by simp
    have i: "int64 ?v" "int64 (r_fencing_token r)" using x(4) by (simp_all add: eq run_row_ok_def)
    have t: "int64 (r_fencing_token r + 1)" using i(2) token by (simp add: int64_simps)
    show "row_forward x (?f x) \<and> run_row_ok (?f x)"
      using x(5) t assms(3) exhaust_lifecycle_forward[OF 0 i(1)] by (simp add: eq row_forward_def run_row_ok_def wrap64_id)
  qed
  moreover have "runs_evolve db1 db2" by (rule insert_run_event_with_outbox_evolve[OF 2]) (simp add: exhaustion_event_def)
  moreover have "next_sequence ?t ?i db2 = next_sequence ?t ?i db1 + 1" using next_sequence_insert[OF 2] by (simp add: exhaustion_event_def)
  then have "runs_evolve db2 db3" by (intro insert_run_event_with_outbox_evolve[OF 3]) (simp add: exhaustion_event_def)
  moreover have "same_authority db db1" using u by (simp add: update_run_Inr same_authority_def)
  moreover note insert_audit_evolve[OF 4] insert_run_event_with_outbox_frame[OF 2] insert_run_event_with_outbox_frame[OF 3] insert_audit_frame[OF 4]
  ultimately show ?thesis
    using runs_evolve_trans[of db db1 db2] runs_evolve_trans[of db db2 db3] runs_evolve_trans[of db db3 db'] by (simp add: same_authority_def)
qed

lemma RecordTrustedUsage_evolve:
  assumes "RecordTrustedUsage env t q hint disposition db = Inr (receipt, db')"
  shows "runs_evolve db db' \<and> same_authority db db'"
  using assms
proof (cases rule: RecordTrustedUsage_cases)
  case (new u)
  obtain e d g r db1 db2 left db3 where 1: "usage_target t (usage_RunID u) (usage_ProducerID u) (usage_ResourceName u) db = Some (e, d, g, r)" "r_state r = RunRunning"
    and 2: "enforce_throughput t (e_id e) u hint db = Inr db1"
    and 3: "apply_usage (t, e_id e, dim_ID d) (coefficient (amount (usage_Quantity u))) (usage_RecordedAt u) db1 = Inr (db2, left)"
    and 4: "insert_usage t u (e_id e) (dim_ID d) db2 = Inr db3"
    and 5: "if left = 0 then applyBudgetExhaustion env u (r_state_version r) (ToUTC (r_updated r)) (r_fencing_token r) disposition db3 = Inr db' else db' = db3"
    by (rule record_new_usage_Inr[OF new(2)])
  have "same_authority db db1 \<and> same_runs db db1" using enforce_throughput_Inr[OF 2] by (auto simp: same_authority_def same_runs_def)
  moreover have "same_authority db1 db2 \<and> same_runs db1 db2"
    using 3 by (auto simp: apply_usage_def and_then_Inr dest!: update_balance_frame split: if_splits option.splits)
  moreover have "same_authority db2 db3 \<and> same_runs db2 db3" using 4 by (auto simp: insert_usage_def and_then_Inr same_authority_def same_runs_def)
  ultimately have s: "same_authority db db3" "same_runs db db3" by (simp_all add: same_authority_def same_runs_def)
  show ?thesis
  proof (cases "left = 0")
    case True
    have "usage_TenantID u = t"
      using assms ValidateTrustedUsage_Inr(1)[OF new(1)] by (simp add: RecordTrustedUsage_def and_then_Inr split: if_splits)
    then have "find_run (usage_TenantID u) (usage_RunID u) db3 = Some r"
      using 1(1) s(2) by (auto simp: usage_target_def find_run_def same_runs_def split: option.splits)
    then show ?thesis
      using applyBudgetExhaustion_evolve[of env u r disposition db3 db'] 5 True 1(2) s same_runs_evolve[OF s(2)] runs_evolve_trans[of db db3 db'] same_authority_trans[of db db3 db'] by simp
  qed (use 5 s same_runs_evolve in simp)
qed (simp add: runs_evolve_same)


text \<open>The operations on runs leave the ledger and the authority alone.\<close>

definition only_runs :: "DB \<Rightarrow> DB \<Rightarrow> bool" where
  "only_runs db db' \<longleftrightarrow> same_ledger db db' \<and> same_authority db db'"

lemma only_runs_refl [simp]: "only_runs db db"
  by (simp add: only_runs_def)

lemma only_runs_trans: "only_runs a b \<Longrightarrow> only_runs b c \<Longrightarrow> only_runs a c"
  by (simp add: only_runs_def same_ledger_def same_authority_def)

lemma update_run_only: "update_run p f db = Inr (db', n) \<Longrightarrow> only_runs db db'"
  by (simp add: update_run_Inr only_runs_def same_ledger_def same_authority_def)

lemma insert_run_event_with_outbox_only: "insert_run_event_with_outbox e db = Inr db' \<Longrightarrow> only_runs db db'"
  using insert_run_event_with_outbox_same insert_run_event_with_outbox_frame by (simp add: only_runs_def)

lemma appendWorkerEventWithID_only:
  "appendWorkerEventWithID lease i type actor l occurred payload db = Inr db' \<Longrightarrow> only_runs db db'"
  by (auto simp: appendWorkerEventWithID_def and_then_Inr Let_def split: option.splits dest!: insert_run_event_with_outbox_only)

lemma appendWorkerEvent_only: "appendWorkerEvent env lease type l occurred payload db = Inr db' \<Longrightarrow> only_runs db db'"
  by (auto simp: appendWorkerEvent_def and_then_Inr dest!: appendWorkerEventWithID_only)

lemma ClaimRun_only: "ClaimRun env t w l now expires db = Inr (lease, db') \<Longrightarrow> only_runs db db'"
  by (erule ClaimRun_Inr) (auto dest!: update_run_only appendWorkerEvent_only elim: only_runs_trans)

lemma HeartbeatRun_only: "HeartbeatRun env lease now expires db = Inr (lease', db') \<Longrightarrow> only_runs db db'"
  by (erule HeartbeatRun_Inr) (auto dest!: update_run_only appendWorkerEvent_only elim: only_runs_trans)

lemma mutate_run_only:
  assumes "mutate_run lease operation target actor i now db = Inr db'"
  shows "only_runs db db'"
proof (cases "db' = db")
  case False
  then obtain db1 f n l extra type where "update_run (lease_row lease) f db = Inr (db1, n)" "appendWorkerEventWithID lease i type actor l now extra db1 = Inr db'"
    using assms by (auto simp: mutate_run_def and_then_Inr split: option.splits sum.splits prod.splits if_splits)
  then show ?thesis using only_runs_trans[OF update_run_only appendWorkerEventWithID_only] by blast
qed simp

lemma MutateWorkerRun_only: "only_runs db (snd (MutateWorkerRun lease operation i now db))"
  by (auto simp: MutateWorkerRun_def dest!: mutate_run_only split: sum.splits prod.splits)

lemma insert_signal_only: "insert_signal s db = Inr db' \<Longrightarrow> only_runs db db'"
  by (auto simp: insert_signal_def and_then_Inr only_runs_def same_ledger_def same_authority_def split: if_splits)

lemma insert_run_event_only: "insert_run_event e db = Inr db' \<Longrightarrow> only_runs db db'"
  using insert_run_event_same insert_run_event_frame by (simp add: only_runs_def)

lemma insert_audit_only: "insert_audit env a db = Inr db' \<Longrightarrow> only_runs db db'"
  using insert_audit_same insert_audit_frame by (simp add: only_runs_def)

lemma insert_outbox_only: "insert_outbox m db = Inr db' \<Longrightarrow> only_runs db db'"
  using insert_outbox_same insert_outbox_frame by (simp add: only_runs_def)

lemma signal_statement_only: "signal_statement env s payload e r n db = Inr db' \<Longrightarrow> only_runs db db'"
  unfolding signal_statement_def and_then_Inr
  by (elim exE conjE) (rule only_runs_trans[OF insert_signal_only only_runs_trans[OF insert_run_event_only only_runs_trans[OF insert_audit_only insert_outbox_only]]])

lemma AppendRunSignal_only: "AppendRunSignal env t s e db = Inr (event, db') \<Longrightarrow> only_runs db db'"
  by (auto simp: AppendRunSignal_def append_signal_def and_then_Inr Let_def dest!: signal_statement_only split: if_splits option.splits)

lemma cancel_statement_only:
  assumes "cancel_statement env c e r final n db = Inr db'"
  shows "only_runs db db'"
proof -
  obtain p f db1 k where u: "update_run p f db = Inr (db1, k)"
    and rest: "(if k = 0 then Inr db1 else and_then (insert_signal (cancel_signal c e) db1) (\<lambda>db2. and_then (insert_run_event (cancel_event c e (r_state r) final n) db2) (\<lambda>db3.
      and_then (insert_audit env (cancel_audit c e (r_state r) final n) db3) (insert_outbox (cancel_message c e (r_state r) final n))))) = Inr db'"
    using assms by (auto simp: cancel_statement_def and_then_Inr)
  have "only_runs db1 db'"
  proof (cases "k = 0")
    case False
    then have "and_then (insert_signal (cancel_signal c e) db1) (\<lambda>db2. and_then (insert_run_event (cancel_event c e (r_state r) final n) db2) (\<lambda>db3.
      and_then (insert_audit env (cancel_audit c e (r_state r) final n) db3) (insert_outbox (cancel_message c e (r_state r) final n)))) = Inr db'"
      using rest by simp
    then show ?thesis unfolding and_then_Inr
      by (elim exE conjE) (rule only_runs_trans[OF insert_signal_only only_runs_trans[OF insert_run_event_only only_runs_trans[OF insert_audit_only insert_outbox_only]]])
  qed (use rest in simp)
  then show ?thesis using only_runs_trans[OF update_run_only[OF u]] by simp
qed

lemma CancelRun_only: "only_runs db (snd (CancelRun env t c e db))"
  by (auto simp: CancelRun_def cancel_run_def and_then_Inr Let_def dest!: cancel_statement_only split: sum.splits if_splits option.splits prod.splits)


lemma record_change_frame:
  "record_change env skipped t e v change actor reason approval now db = Inr (res, db') \<Longrightarrow> same_ledger db db' \<and> same_runs db db'"
  using record_change_Inr(1)[of env skipped t e v change actor reason approval now db res db'] by (auto simp: same_ledger_def same_runs_def)

lemma changeRevocation_frame:
  assumes "changeRevocation env skipped t v lift e db = Inr (res, db')"
  shows "same_ledger db db' \<and> same_runs db db'"
  using assms
proof (cases rule: changeRevocation_cases)
  case created
  then show ?thesis using record_change_frame[OF created(3)] by (simp add: same_ledger_def same_runs_def)
next
  case (lifted l r c)
  then show ?thesis using record_change_frame by blast
qed

lemma revocation_step_frame: "revocation_step env c db = Inr (x, db') \<Longrightarrow> same_ledger db db' \<and> same_runs db db'"
proof (cases c)
  case (Checkpoint g)
  assume "revocation_step env c db = Inr (x, db')"
  then have "SaveGatewayCheckpoint g db = Inr db'" by (auto simp: Checkpoint and_then_Inr)
  then show ?thesis by (cases rule: SaveGatewayCheckpoint_cases) (simp_all add: same_ledger_def same_runs_def)
qed (auto simp: and_then_Inr dest!: CreateRevocation_change LiftRevocation_change changeRevocation_frame)

lemma AdmitRun_frame: "AdmitRun env t a r e db = Inr db' \<Longrightarrow> same_authority db db'"
  by (erule AdmitRun_store) (simp add: same_authority_def with_aggregate_def)

lemma AdmitChildRun_frame:
  assumes "AdmitChildRun env t a r e q db = Inr (s, db')"
  shows "runs_evolve db db' \<and> same_authority db db'"
proof -
  obtain db1 rows where 1: "AdmitRun env t a r e db = Inr db1" "ReserveChildResources t q (db1\<lparr>resource_envelopes := rows\<rparr>) = Inr (s, db')"
    by (rule AdmitChildRun_Inr[OF assms])
  note f = ReserveChildResources_frame[OF 1(2)]
  have "runs_evolve db1 db'" using f by (intro same_runs_evolve) (simp add: same_runs_def)
  moreover have "same_authority db1 db'" using f by (simp add: same_authority_def)
  ultimately show ?thesis
    using runs_evolve_trans[OF AdmitRun_evolve[OF 1(1)]] same_authority_trans[OF AdmitRun_frame[OF 1(1)]] by blast
qed

section \<open>The store as a whole\<close>

text \<open>One transaction of any component, with the identifiers and the digest it is given.\<close>

datatype store_operation =
    Admit ID RunAdmission RunVersionResolution RunAdmissionEvidence
  | AdmitChild ID RunAdmission RunVersionResolution RunAdmissionEvidence ResourceReservation
  | Reserve ID ResourceReservation
  | Meter ID TrustedUsage ThroughputHint ExhaustionDisposition
  | Extend ID ResourceExtension ResourceExtensionEvidence
  | Settle ID ResourceSettlement ResourceSettlementEvidence
  | Reconcile ID ID Time ResourceReconciliationEvidence
  | Claim ID ID ID Time Time
  | Heartbeat RunLease Time Time
  | Operate RunLease WorkerRunOperation ID Time
  | Cancel ID RunCancellation RunCancellationEvidence
  | Signal ID RunSignal RunSignalEvidence
  | Authority revocation_operation

definition commits :: "('a \<times> DB) result \<Rightarrow> (unit \<times> DB) result" where
  "commits m = and_then m (\<lambda>(_, db). Inr ((), db))"

fun store_step :: "Env \<times> store_operation \<Rightarrow> DB \<Rightarrow> (unit \<times> DB) result" where
  "store_step (env, Admit t a r e) db = and_then (AdmitRun env t a r e db) (\<lambda>db. Inr ((), db))"
| "store_step (env, AdmitChild t a r e q) db = commits (AdmitChildRun env t a r e q db)"
| "store_step (env, Reserve t q) db = commits (ReserveChildResources t q db)"
| "store_step (env, Meter t u hint disposition) db = commits (RecordTrustedUsage env t u hint disposition db)"
| "store_step (env, Extend t x e) db = commits (ExtendResources env t x e db)"
| "store_step (env, Settle t q e) db = commits (SettleReservation env t q e db)"
| "store_step (env, Reconcile t system now e) db = commits (ReconcileNextReservation env t system now e db)"
| "store_step (env, Claim t w l now expires) db = commits (ClaimRun env t w l now expires db)"
| "store_step (env, Heartbeat lease now expires) db = commits (HeartbeatRun env lease now expires db)"
| "store_step (env, Operate lease operation i now) db = Inr ((), snd (MutateWorkerRun lease operation i now db))"
| "store_step (env, Cancel t c e) db = Inr ((), snd (CancelRun env t c e db))"
| "store_step (env, Signal t s e) db = commits (AppendRunSignal env t s e db)"
| "store_step (env, Authority c) db = revocation_step env c db"

definition store_inv :: "DB \<Rightarrow> bool" where
  "store_inv db \<longleftrightarrow> ledger_inv db \<and> runs_inv db \<and> revocation_inv db"

definition store_forward :: "DB \<Rightarrow> DB \<Rightarrow> bool" where
  "store_forward db db' \<longleftrightarrow> runs_forward db db' \<and> revocation_forward db db'"

lemma commits_Inr: "commits m = Inr (x, db) \<longleftrightarrow> (\<exists>r. m = Inr (r, db))"
  by (auto simp: commits_def and_then_Inr)

lemma same_authority_inv:
  assumes "same_authority db db'"
  shows "revocation_inv db' = revocation_inv db" "revocation_forward db db'"
proof -
  have e: "epochs_of db' = epochs_of db" using assms by (intro epochs_of_cong) (simp_all add: same_authority_def)
  show "revocation_inv db' = revocation_inv db" using assms e by (simp add: revocation_inv_def same_authority_def)
  have "revocation_forward db db" by (rule revocation_forward_refl)
  then show "revocation_forward db db'" using assms e by (simp add: revocation_forward_def same_authority_def)
qed

text \<open>The three ways an operation keeps the invariant: it works on the ledger, on the runs, or on the authority.\<close>

lemma ledger_step:
  assumes "store_inv db" "ledger_inv db'" "runs_evolve db db' \<and> same_authority db db'"
  shows "store_inv db' \<and> store_forward db db'"
  using assms same_authority_inv[of db db'] by (simp add: store_inv_def store_forward_def runs_evolve_def)

lemma runs_step:
  assumes "store_inv db" "runs_evolve db db'" "only_runs db db'"
  shows "store_inv db' \<and> store_forward db db'"
  using assms same_ledger_inv[of db db'] by (intro ledger_step) (simp_all add: store_inv_def only_runs_def)

lemma store_step_inv:
  assumes "store_inv db" "store_step c db = Inr (x, db')"
  shows "store_inv db' \<and> store_forward db db'"
proof -
  obtain env op where c: "c = (env, op)" by (cases c)
  have l: "ledger_inv db" and a: "revocation_inv db" using assms(1) by (simp_all add: store_inv_def)
  note D = assms(2)[unfolded c]
  show ?thesis
  proof (cases op)
    case (Admit t a r e)
    then have "AdmitRun env t a r e db = Inr db'" using D by (auto simp: and_then_Inr)
    then show ?thesis using AdmitRun_ledger[OF _ l] AdmitRun_evolve AdmitRun_frame by (intro ledger_step[OF assms(1)]) blast+
  next
    case (AdmitChild t a r e q)
    then obtain s where "AdmitChildRun env t a r e q db = Inr (s, db')" using D by (auto simp: commits_Inr)
    then show ?thesis using AdmitChildRun_ledger[OF _ l] AdmitChildRun_frame by (intro ledger_step[OF assms(1)]) blast+
  next
    case (Reserve t q)
    then obtain r where "ReserveChildResources t q db = Inr (r, db')" using D by (auto simp: commits_Inr)
    then show ?thesis using ReserveChildResources_inv[OF l] ReserveChildResources_frame same_runs_evolve by (intro ledger_step[OF assms(1)]) blast+
  next
    case (Meter t u hint disposition)
    then obtain r where "RecordTrustedUsage env t u hint disposition db = Inr (r, db')" using D by (auto simp: commits_Inr)
    then show ?thesis using RecordTrustedUsage_inv[OF l] RecordTrustedUsage_evolve by (intro ledger_step[OF assms(1)]) blast+
  next
    case (Extend t q e)
    then obtain r where "ExtendResources env t q e db = Inr (r, db')" using D by (auto simp: commits_Inr)
    then show ?thesis using ExtendResources_inv[OF l] ExtendResources_evolve by (intro ledger_step[OF assms(1)]) blast+
  next
    case (Settle t q e)
    then obtain r where "SettleReservation env t q e db = Inr (r, db')" using D by (auto simp: commits_Inr)
    then show ?thesis using SettleReservation_inv[OF l] SettleReservation_frame same_runs_evolve by (intro ledger_step[OF assms(1)]) blast+
  next
    case (Reconcile t system now e)
    then obtain r where "ReconcileNextReservation env t system now e db = Inr (r, db')" using D by (auto simp: commits_Inr)
    then show ?thesis using ReconcileNextReservation_inv[OF l] ReconcileNextReservation_evolve by (intro ledger_step[OF assms(1)]) blast+
  next
    case (Claim t w i now expires)
    then obtain r where "ClaimRun env t w i now expires db = Inr (r, db')" using D by (auto simp: commits_Inr)
    then show ?thesis by (intro runs_step[OF assms(1)] ClaimRun_evolve ClaimRun_only)
  next
    case (Heartbeat lease now expires)
    then obtain r where "HeartbeatRun env lease now expires db = Inr (r, db')" using D by (auto simp: commits_Inr)
    then show ?thesis by (intro runs_step[OF assms(1)] HeartbeatRun_evolve HeartbeatRun_only)
  next
    case (Signal t s e)
    then obtain r where "AppendRunSignal env t s e db = Inr (r, db')" using D by (auto simp: commits_Inr)
    then show ?thesis by (intro runs_step[OF assms(1)] AppendRunSignal_evolve AppendRunSignal_only)
  next
    case (Authority r)
    then have r: "revocation_step env r db = Inr (x, db')" using D by simp
    note f = revocation_step_frame[OF r]
    show ?thesis
      using revocation_step_inv[OF r a] same_ledger_inv[of db db'] same_runs_evolve[of db db'] f assms(1)
      by (simp add: store_inv_def store_forward_def runs_evolve_def)
  qed (use D runs_step[OF assms(1)] MutateWorkerRun_evolve MutateWorkerRun_only CancelRun_evolve CancelRun_only in auto)
qed

interpretation store_history: monotone_operations store_step store_inv store_forward
proof unfold_locales
  fix s s' c and r :: unit
  assume "store_inv s" "store_step c s = Inr (r, s')"
  then show "store_inv s'" "store_forward s s'" using store_step_inv by simp_all
next
  fix s t u :: DB
  show "store_forward s s" by (simp add: store_forward_def runs_forward_refl revocation_forward_refl)
  assume "store_forward s t" "store_forward t u"
  then show "store_forward s u"
    using runs_forward_trans[of s t u] revocation_forward_trans[of s t u] by (simp add: store_forward_def)
qed


section \<open>Properties\<close>

lemma history_inv:
  assumes "store_inv db"
  shows "store_inv (run_all store_step cs db)" "runs_forward db (run_all store_step cs db)" "revocation_forward db (run_all store_step cs db)"
  using store_history.run_all_inv[OF assms] store_history.run_all_forward[OF assms] by (simp_all add: store_forward_def)

lemma store_inv_runs: "store_inv db \<Longrightarrow> unique_key r_id (runs db)" "store_inv db \<Longrightarrow> list_all run_row_ok (runs db)"
  by (simp_all add: store_inv_def runs_inv_def)

text \<open>
  C1: the store is conserved as a whole. Along every sequence of admissions of runs and of children, reservations, usage events, extensions, settlements, reconciliations, claims, heartbeats,
  worker operations, cancellations, signals, revocations, lifts and checkpoints, of any tenants and in any order, each committed or rolled back,
  every account keeps splitting what it was granted, the run tables and the tables of the authority keep what they promise, no run loses ground
  and no epoch moves back.
\<close>

theorem store_conserved:
  assumes "store_inv db"
  shows "ledger_inv (run_all store_step cs db) \<and> runs_inv (run_all store_step cs db) \<and> revocation_inv (run_all store_step cs db) \<and>
    runs_forward db (run_all store_step cs db) \<and> revocation_forward db (run_all store_step cs db)"
  using history_inv[OF assms, of cs] by (simp add: store_inv_def)

text \<open>
  C15: stored runs are well typed. After any sequence of transactions each run has an identifier of its own and a state of the lifecycle; its version is positive and
  its fencing token not negative, both within 64 bits; it has a lease exactly when it has a lease expiry, a terminal time exactly when its state is terminal, and no lease then; and the events of each
  run are numbered from one without a gap.
\<close>

theorem stored_runs_well_typed:
  assumes "store_inv db" "db' = run_all store_step cs db" "r \<in> set (runs db')"
  shows "RunState_Valid (r_state r) \<and> 0 < r_state_version r \<and> r_state_version r \<le> MaxInt64 \<and> 0 \<le> r_fencing_token r \<and> r_fencing_token r \<le> MaxInt64 \<and>
    (r_lease_id r = None) = (r_lease_expires r = None) \<and> Terminal (r_state r) = (r_terminal r \<noteq> None) \<and> (Terminal (r_state r) \<longrightarrow> r_lease_id r = None) \<and>
    (\<forall>x \<in> set (runs db'). r_id x = r_id r \<longrightarrow> x = r) \<and>
    map ev_sequence (run_events_of (r_tenant r) (r_id r) db') = [1..int (length (run_events_of (r_tenant r) (r_id r) db'))]"
proof -
  have inv: "store_inv db'" using history_inv(1)[OF assms(1)] by (simp add: assms(2))
  note u = store_inv_runs[OF inv]
  have "run_row_ok r" using u(2) assms(3) by (simp add: list_all_iff)
  moreover have "\<forall>x \<in> set (runs db'). r_id x = r_id r \<longrightarrow> x = r" using unique_keyD[OF u(1)] assms(3) by blast
  moreover have "map ev_sequence (run_events_of (r_tenant r) (r_id r) db') = [1..int (length (run_events_of (r_tenant r) (r_id r) db'))]"
    using inv unfolding store_inv_def runs_inv_def events_ok_def by (elim conjE allE)
  ultimately show ?thesis by (simp add: run_row_ok_def run_check_def int64_simps)
qed

text \<open>
  C2: a superseded worker is fenced off. Once a run has been claimed again, in whatever store the transactions in between and after have left, the earlier lease has the smaller
  fencing token, its heartbeats are refused and its operations neither succeed nor change anything.
\<close>

theorem stale_lease_rejected:
  assumes "store_inv db" "ClaimRun env t w l now expires db = Inr (lease, db1)"
    and "db2 = run_all store_step cs db1" "ClaimRun env' t w' l' now' expires' db2 = Inr (lease', db3)" "lease_RunID lease' = lease_RunID lease"
    and "db4 = run_all store_step ds db3"
  shows "lease_FencingToken lease < lease_FencingToken lease' \<and> isl (HeartbeatRun env'' lease now'' expires'' db4) \<and>
    isl (fst (MutateWorkerRun lease operation i now'' db4)) \<and> snd (MutateWorkerRun lease operation i now'' db4) = db4"
proof -
  have 1: "store_inv db1" using store_step_inv[OF assms(1), of "(env, Claim t w l now expires)"] assms(2) by (simp add: commits_Inr)
  have 2: "store_inv db2" "runs_forward db1 db2" using history_inv[OF 1] by (simp_all add: assms(3))
  have 3: "store_inv db3" using store_step_inv[OF 2(1), of "(env', Claim t w' l' now' expires')"] assms(4) by (simp add: commits_Inr)
  have 4: "store_inv db4" "runs_forward db3 db4" using history_inv[OF 3] by (simp_all add: assms(6))
  obtain r where r: "lease_RunID lease = r_id r" "lease_TenantID lease = t" "lease_FencingToken lease = r_fencing_token r + 1"
    "find_run t (r_id r) db1 = Some (r\<lparr>r_lease_id := Some l, r_lease_expires := Some expires, r_fencing_token := r_fencing_token r + 1\<rparr>)"
    by (rule claimed_row[OF assms(2) store_inv_runs[OF assms(1)]])
  obtain s where s: "s \<in> set (runs db2)" "lease_RunID lease' = r_id s" "lease_FencingToken lease' = r_fencing_token s + 1"
    "find_run t (r_id s) db3 = Some (s\<lparr>r_lease_id := Some l', r_lease_expires := Some expires', r_fencing_token := r_fencing_token s + 1\<rparr>)"
    by (rule claimed_row[OF assms(4) store_inv_runs[OF 2(1)]])
  obtain x where x: "x \<in> set (runs db2)" "row_forward (r\<lparr>r_lease_id := Some l, r_lease_expires := Some expires, r_fencing_token := r_fencing_token r + 1\<rparr>) x"
    using runs_forward_row[OF 2(2) find_run_Some(1)[OF r(4)]] by blast
  have "x = s" using unique_keyD[OF store_inv_runs(1)[OF 2(1)] x(1) s(1)] row_forwardD(1)[OF x(2)] assms(5) r(1) s(2) by simp
  then have token: "lease_FencingToken lease < lease_FencingToken lease'" using row_forwardD(4)[OF x(2)] r(3) s(3) by simp
  have "superseded lease db3"
    using find_run_Some[OF s(4)] token r(1,2) s(2,3) assms(5) by (auto simp: superseded_def list_ex_iff intro!: bexI[OF _ find_run_Some(1)[OF s(4)]])
  then have "superseded lease db4" by (rule superseded_forward[OF 4(2)])
  then show ?thesis using token superseded_rejected[OF store_inv_runs(1)[OF 4(1)]] by simp
qed

text \<open>
  An ended run is final. Whatever transactions follow, of whatever component, the row of a run in a terminal state is never changed or removed again.
\<close>

theorem terminal_run_final:
  assumes "store_inv db" "r \<in> set (runs db)" "Terminal (r_state r)"
  shows "r \<in> set (runs (run_all store_step cs db))"
proof -
  obtain x where "x \<in> set (runs (run_all store_step cs db))" "row_forward r x" using runs_forward_row[OF history_inv(2)[OF assms(1)] assms(2)] by blast
  then show ?thesis using assms(3) by (simp add: row_forward_def)
qed

definition leaves_authority :: "store_operation \<Rightarrow> bool" where
  "leaves_authority c \<longleftrightarrow> (case c of Authority _ \<Rightarrow> False | _ \<Rightarrow> True)"

lemma store_step_authority:
  assumes "store_step (env, c) db = Inr (x, db')" "leaves_authority c"
  shows "same_authority db db'"
  using assms MutateWorkerRun_only CancelRun_only
  by (cases c) (auto simp: leaves_authority_def commits_Inr and_then_Inr only_runs_def dest!: AdmitRun_frame AdmitChildRun_frame ReserveChildResources_frame RecordTrustedUsage_evolve ExtendResources_evolve
      SettleReservation_frame ReconcileNextReservation_evolve ClaimRun_only HeartbeatRun_only AppendRunSignal_only)

lemma run_all_authority: "list_all (\<lambda>c. leaves_authority (snd c)) cs \<Longrightarrow> same_authority db (run_all store_step cs db)"
proof (induction cs arbitrary: db)
  case (Cons c cs)
  have "same_authority db (committed store_step c db)"
    using store_step_authority[of "fst c" "snd c" db] Cons.prems by (auto simp: committed_def split: sum.splits prod.splits)
  then show ?case using Cons same_authority_trans by simp
qed simp

definition revokes_claim :: "Revocation \<Rightarrow> ID \<Rightarrow> ID \<Rightarrow> run_row \<Rightarrow> bool" where
  "revokes_claim v tenant worker r \<longleftrightarrow>
     rvk_Scope v = RevocationGlobal
     \<or> rvk_Scope v = RevocationTenantID \<and> rvk_Target v = ID_String tenant
     \<or> rvk_Scope v = RevocationPrincipalID \<and> rvk_Target v = ID_String worker
     \<or> rvk_Scope v = RevocationRunID \<and> rvk_Target v = ID_String (r_id r)
     \<or> rvk_Scope v = RevocationAgentID \<and> rvk_Target v = ID_String (r_agent r)"

lemma created_revocation_stored:
  assumes "revocation_inv db" "CreateRevocation env skipped tenant v e db = Inr (res, db')"
    and "visible_to t (rvk_TenantID v)" "\<not> IsZero t" "\<not> IsZeroTime now"
    and "unix_nano (rvk_EffectiveAt (rres_Revocation res)) \<le> unix_nano now"
    and "case rvk_ExpiresAt (rres_Revocation res) of None \<Rightarrow> True | Some x \<Rightarrow> unix_nano now < unix_nano x"
  shows "\<exists>r \<in> set (revocations db'). visible_to t (rk_tenant r) \<and> revocation_active now db' r \<and> rk_scope r = rvk_Scope (rres_Revocation res) \<and> rk_target r = rvk_Target (rres_Revocation res)"
proof -
  obtain s where s: "AuthoritativeRevocations t 0 now db' = Inr s" "rres_Revocation res \<in> set (auth_Active s)"
    using created_revocation_read[OF assms, of 0] by blast
  then have "rres_Revocation res \<in> distributed_revocation ` set (active_revocations t now db')"
    by (auto simp: AuthoritativeRevocations_def RevocationSnapshot_def and_then_Inr Let_def split: if_splits)
  then show ?thesis by (auto simp: active_revocations_def distributed_revocation_def stored_revocation_def)
qed

text \<open>
  C3: the authority reaches the workers. Once a revocation of everything, of the tenant, of the worker, of the run or of its agent has committed, no claim returns that run while
  the revocation is in force, whatever transactions other than those of the authority have run in between.
\<close>

theorem revoked_run_not_claimed:
  assumes "store_inv db" "CreateRevocation env skipped tenant v e db = Inr (res, db1)" "list_all (\<lambda>c. leaves_authority (snd c)) cs" "db2 = run_all store_step cs db1"
    and "visible_to t (rvk_TenantID v)" "\<not> IsZeroTime now" "unix_nano (rvk_EffectiveAt (rres_Revocation res)) \<le> unix_nano now"
    and "case rvk_ExpiresAt (rres_Revocation res) of None \<Rightarrow> True | Some x \<Rightarrow> unix_nano now < unix_nano x"
    and "r \<in> set (runs db2)" "revokes_claim (rres_Revocation res) t w r"
  shows "\<forall>lease db3. ClaimRun env' t w l now expires db2 = Inr (lease, db3) \<longrightarrow> lease_RunID lease \<noteq> r_id r"
proof (intro allI impI notI)
  fix lease db3
  assume c: "ClaimRun env' t w l now expires db2 = Inr (lease, db3)" and same: "lease_RunID lease = r_id r"
  have 1: "store_inv db1" using store_step_inv[OF assms(1), of "(env, Authority (Create skipped tenant v e))"] assms(2) by simp
  have 2: "store_inv db2" using history_inv[OF 1] by (simp add: assms(4))
  have t: "\<not> IsZero t" using c by (rule ClaimRun_Inr) 
  obtain k where k: "k \<in> set (revocations db1)" "visible_to t (rk_tenant k)" "revocation_active now db1 k" "rk_scope k = rvk_Scope (rres_Revocation res)"
    "rk_target k = rvk_Target (rres_Revocation res)"
    using created_revocation_stored[OF _ assms(2,5) t assms(6-8)] assms(1) by (auto simp: store_inv_def)
  have a: "same_authority db1 db2" using run_all_authority[OF assms(3)] by (simp add: assms(4))
  then have k2: "k \<in> set (revocations db2)" "revocation_active now db2 k"
    using k(1,3) by (simp_all add: same_authority_def revocation_active_def latest_change_def)
  obtain x where x: "x \<in> set (runs db2)" "claimable t w now db2 x" "lease_RunID lease = r_id x" by (rule claimed_row[OF c store_inv_runs[OF 2]])
  have "x = r" using unique_keyD[OF store_inv_runs(1)[OF 2] x(1) assms(9)] x(3) same by simp
  moreover have "claim_revoked t w now db2 r"
    using k2 k(2,4,5) assms(10) by (auto simp: claim_revoked_def revokes_claim_def list_ex_iff)
  ultimately show False using x(2) by (simp add: claimable_def)
qed

lemma cancel_statement_runs:
  assumes "cancel_statement env c e r final n db = Inr db'"
  shows "runs db' = update_where
     (\<lambda>x. r_tenant x = cancel_TenantID c \<and> r_id x = cancel_RunID c \<and> r_state_version x = r_state_version r \<and> r_state x = r_state r)
     (\<lambda>x. x\<lparr>r_state := RunCancelled, r_state_version := Version final, r_updated := cancel_CreatedAt c, r_terminal := Some (cancel_CreatedAt c),
        r_lease_id := None, r_lease_expires := None, r_fencing_token := r_fencing_token x + 1\<rparr>) (runs db)"
  using assms
  by (auto simp: cancel_statement_def and_then_Inr update_run_Inr insert_signal_def insert_run_event_def split: if_splits dest!: insert_audit_same insert_outbox_same)

lemma cancel_run_ends:
  assumes "cancel_run env c e db = Inr db'"
  shows "\<exists>r. find_run (cancel_TenantID c) (cancel_RunID c) db' = Some r \<and> Terminal (r_state r)"
proof -
  note D = assms[unfolded cancel_run_def Let_def]
  obtain r where r: "find_run (cancel_TenantID c) (cancel_RunID c) db = Some r" using D by (cases "find_run (cancel_TenantID c) (cancel_RunID c) db") simp_all
  let ?c = "\<lparr>To = RunCancelled, Actor = RunActorCaller, ExpectedVersion = (case cancel_ExpectedStateVersion c of None \<Rightarrow> r_state_version r | Some v \<Rightarrow> v), At = cancel_CreatedAt c\<rparr>"
  let ?l = "\<lparr>State = r_state r, Version = r_state_version r, UpdatedAt = ToUTC (r_updated r), TerminalAt = r_terminal r\<rparr>"
  show ?thesis
  proof (cases "Terminal (r_state r)")
    case False
    obtain final changed where t: "Transition ?l ?c = Inr (final, changed)" using D False by (cases "Transition ?l ?c") (auto simp: r split: if_splits)
    then have "changed" using False by (auto simp: Transition_Inr split: if_splits)
    then have "cancel_statement env c e r final (next_sequence (cancel_TenantID c) (cancel_RunID c) db) db = Inr db'"
      using D False by (auto simp: r t and_then_Inr split: if_splits)
    note u = cancel_statement_runs[OF this]
    note f = find_update_first[OF r[unfolded find_run_def], where q = "\<lambda>x. r_tenant x = cancel_TenantID c \<and> r_id x = cancel_RunID c \<and>
       r_state_version x = r_state_version r \<and> r_state x = r_state r" and f = "\<lambda>x. x\<lparr>r_state := RunCancelled, r_state_version := Version final,
        r_updated := cancel_CreatedAt c, r_terminal := Some (cancel_CreatedAt c), r_lease_id := None, r_lease_expires := None, r_fencing_token := r_fencing_token x + 1\<rparr>"]
    show ?thesis using f find_run_Some(2,3)[OF r] by (simp add: find_run_def u)
  qed (use D r in simp)
qed

text \<open>
  C16: a cancellation is final. When a cancellation reports success, the run it names is in a terminal state, its row stays as it is through every later sequence of transactions, and
  a later cancellation of the run changes nothing.
\<close>

theorem cancellation_final:
  assumes "store_inv db" "CancelRun env t c e db = (Inr run, db1)" "db2 = run_all store_step cs db1"
  shows "\<exists>r. find_run t (cancel_RunID c) db1 = Some r \<and> Terminal (r_state r) \<and> find_run t (cancel_RunID c) db2 = Some r \<and>
    (\<forall>env' c' e'. cancel_RunID c' = cancel_RunID c \<longrightarrow> snd (CancelRun env' t c' e' db2) = db2)"
proof -
  have c: "cancel_run env c e db = Inr db1" "cancel_TenantID c = t"
    using assms(2) by (auto simp: CancelRun_def and_then_Inr split: sum.splits if_splits)
  obtain r where r: "find_run t (cancel_RunID c) db1 = Some r" "Terminal (r_state r)" using cancel_run_ends[OF c(1)] c(2) by blast
  have 1: "store_inv db1" using store_step_inv[OF assms(1), of "(env, Cancel t c e)"] assms(2) by simp
  have 2: "store_inv db2" "runs_forward db1 db2" using history_inv[OF 1] by (simp_all add: assms(3))
  obtain x where "x \<in> set (runs db2)" "row_forward r x" using runs_forward_row[OF 2(2) find_run_Some(1)[OF r(1)]] by blast
  then have in2: "r \<in> set (runs db2)" using r(2) by (simp add: row_forward_def)
  have f2: "find_run t (cancel_RunID c) db2 = Some r"
    unfolding find_run_def using find_run_Some[OF r(1)] by (intro unique_key_find[OF store_inv_runs(1)[OF 2(1)] in2]) simp_all
  have "snd (CancelRun env' t c' e' db2) = db2" if "cancel_RunID c' = cancel_RunID c" for env' c' e'
    using f2 r(2) that by (auto simp: CancelRun_def cancel_run_def and_then_Inr split: sum.splits if_splits)
  then show ?thesis using r f2 by blast
qed

lemma scan_run_events_sequence: "scan_run_events xs = Inr es \<Longrightarrow> map event_Sequence es = map ev_sequence xs"
  by (induction xs arbitrary: es) (auto simp: and_then_Inr scan_run_event_def)

lemma fold_max_upto: "fold max [a + 1..b] a = max a b" for a b :: int
proof (induction "nat (b - a)" arbitrary: a)
  case (Suc n)
  then show ?case using Suc.hyps(1)[of "a + 1"] by (simp add: upto_rec1)
qed (simp)

lemma fold_min_upto: "fold min [c..b] a = a" if "a < c" for a b c :: int
  using that
proof (induction "nat (b - c + 1)" arbitrary: c)
  case (Suc n)
  then show ?case using Suc.hyps(1)[of "c + 1"] by (simp add: upto_rec1)
qed (simp)

lemma filter_upto: "0 \<le> a \<Longrightarrow> filter (\<lambda>x. a < x) [1..n] = [a + 1..n]" for a n :: int
proof (induction "nat n" arbitrary: n)
  case (Suc k)
  have "filter (\<lambda>x. a < x) [1..n - 1] = [a + 1..n - 1]" using Suc by (intro Suc.hyps(1)) auto
  then show ?case using Suc.hyps(2) Suc.prems by (auto simp: upto_rec2)
qed simp

lemma take_upto: "0 \<le> k \<Longrightarrow> take (nat k) [a..b] = [a..min (a + k - 1) b]" for a b k :: int
proof (rule nth_equalityI)
  fix i assume "0 \<le> k" "i < length (take (nat k) [a..b])"
  then have i: "i < nat k" "i < nat (b - a + 1)" by simp_all
  then have "a + int i \<le> min (a + k - 1) b" by auto
  with i show "take (nat k) [a..b] ! i = [a..min (a + k - 1) b] ! i" by (simp add: nth_upto)
qed (auto simp: min_def)

text \<open>
  A page of run events has no gap. In a store that keeps its promises, reading the events of a run after a sequence number returns exactly the next ones in order, as
  many as the limit allows and the run has; the window reports the number of events as the latest sequence and one as the oldest retained, or zero when there are none.
\<close>

lemma run_event_page_exact:
  assumes "runs_inv db" "ListRunEvents t run after limit db = Inr w"
  shows "map event_Sequence (window_Events w) = [after + 1..min (after + limit) (window_Latest w)] \<and>
    window_Latest w = int (length (run_events_of t run db)) \<and> window_OldestRetained w = (if window_Latest w = 0 then 0 else 1)"
proof -
  let ?s = "run_events_of t run db"
  note D = assms(2)[unfolded ListRunEvents_def Let_def]
  have args: "0 \<le> after" "1 \<le> limit" using D by (auto simp: and_then_Inr split: if_splits)
  obtain es where es: "scan_run_events (take (nat limit) (sort_key ev_sequence (filter (\<lambda>e. after < ev_sequence e) ?s))) = Inr es"
    and w: "window_Events w = es" "window_OldestRetained w = (case map ev_sequence ?s of [] \<Rightarrow> 0 | x # xs \<Rightarrow> fold min xs x)"
      "window_Latest w = (case map ev_sequence ?s of [] \<Rightarrow> 0 | x # xs \<Rightarrow> fold max xs x)"
    using D by (auto simp: and_then_Inr split: if_splits)
  have seq: "map ev_sequence ?s = [1..int (length ?s)]" using assms(1) unfolding runs_inv_def events_ok_def by (elim conjE allE)
  have f: "map ev_sequence (filter (\<lambda>e. after < ev_sequence e) ?s) = [after + 1..int (length ?s)]"
    using filter_map[of "\<lambda>x. after < x" ev_sequence ?s] filter_upto[OF args(1), of "int (length ?s)"] by (simp add: seq o_def)
  have "map ev_sequence (sort_key ev_sequence (filter (\<lambda>e. after < ev_sequence e) ?s)) = [after + 1..int (length ?s)]"
    by (simp add: sort_key_id_if_sorted f)
  then have "map event_Sequence es = [after + 1..min (after + limit) (int (length ?s))]"
    using scan_run_events_sequence[OF es] args(2) by (simp add: take_map[symmetric] take_upto)
  moreover have "window_Latest w = int (length ?s) \<and> window_OldestRetained w = (if length ?s = 0 then 0 else 1)"
  proof (cases "1 \<le> int (length ?s)")
    case True
    then have "map ev_sequence ?s = 1 # [2..int (length ?s)]" using seq upto_rec1[OF True] by simp
    then show ?thesis using fold_max_upto[of 1 "int (length ?s)"] fold_min_upto[of 1 2 "int (length ?s)"] True unfolding w by auto
  next
    case False
    then have "?s = []" by (cases ?s) simp_all
    then show ?thesis by (simp add: w)
  qed
  ultimately show ?thesis by (simp add: w(1))
qed

section \<open>Witnesses\<close>

definition demo_env_from :: "nat \<Rightarrow> Env" where
  "demo_env_from n = demo_env\<lparr>env_NewID := \<lambda>k. Inr (demo_id (n + k))\<rparr>"

lemmas worker_eval = ClaimRun_def claim_candidate_def claimable_def claim_revoked_def ParseID_ID_String NextFencingToken_def update_run_def pg_update_def
  update_where_def rows_affected_def run_check_def appendWorkerEvent_def appendWorkerEventWithID_def expiry_field_def worker_event_def wrapping_def
  insert_run_event_with_outbox_def insert_run_event_def pg_insert_def run_event_check_def run_event_conflict_def insert_outbox_def outbox_check_def
  outbox_conflict_def validJSONObject_def OutboxMessage.defs find_run_def next_sequence_def After_def RunState_Valid_def RunActor_Valid_def

lemma demo_db_store_inv: "store_inv demo_db"
proof -
  have "runs_inv demo_db"
    by (simp add: runs_inv_def events_ok_def run_events_of_def demo_rows demo_ids unique_key_def run_row_ok_def run_check_def int64_simps RunState_Valid_def)
  then show ?thesis using demo_db_inv demo_db_revocation_inv by (simp add: store_inv_def)
qed

lemma demo_expiry: "time_json (demo_time 200) = Some (JStr ''1970-01-01T00:00:00.0000002Z'')" "time_json (demo_time 400) = Some (JStr ''1970-01-01T00:00:00.0000004Z'')"
  by code_simp+

lemma demo_claims:
  "\<exists>lease db1 lease' db2. ClaimRun (demo_env_from 200) demo_tenant operator (demo_id 301) (demo_time 100) (demo_time 200) demo_db = Inr (lease, db1) \<and>
     ClaimRun (demo_env_from 210) demo_tenant operator (demo_id 302) (demo_time 300) (demo_time 400) db1 = Inr (lease', db2) \<and>
     lease_RunID lease = parent_run \<and> lease_RunID lease' = parent_run"
  by (simp add: worker_eval demo_env_from_def demo_env_def demo_rows demo_ids Let_def int64_simps demo_expiry[unfolded demo_time_def])

theorem store_conserved_witness:
  "store_inv demo_db \<and> runs_inv (run_all store_step [(demo_env, Claim demo_tenant operator (demo_id 301) (demo_time 100) (demo_time 200)),
     (demo_env, Meter demo_tenant (demo_usage 40) demo_hint ExhaustionFail)] demo_db)"
  using demo_db_store_inv store_conserved[OF demo_db_store_inv] by blast

theorem stored_runs_well_typed_witness:
  "store_inv demo_db \<and> (\<exists>r \<in> set (runs demo_db). RunState_Valid (r_state r) \<and> r_state_version r = 3)"
proof -
  have r: "demo_run parent_run None \<in> set (runs (run_all store_step [] demo_db))" by (simp add: demo_db_def)
  then have "RunState_Valid (r_state (demo_run parent_run None))" using stored_runs_well_typed[OF demo_db_store_inv refl r] by simp
  then show ?thesis using r demo_db_store_inv by (intro conjI bexI[of _ "demo_run parent_run None"]) (simp_all add: demo_run_def)
qed

theorem stale_lease_rejected_witness:
  "\<exists>lease db1 lease' db2. ClaimRun (demo_env_from 200) demo_tenant operator (demo_id 301) (demo_time 100) (demo_time 200) demo_db = Inr (lease, db1) \<and>
     ClaimRun (demo_env_from 210) demo_tenant operator (demo_id 302) (demo_time 300) (demo_time 400) db1 = Inr (lease', db2) \<and>
     lease_FencingToken lease < lease_FencingToken lease' \<and> isl (HeartbeatRun demo_env lease (demo_time 310) (demo_time 500) db2)"
proof -
  obtain lease db1 lease' db2 where
    c: "ClaimRun (demo_env_from 200) demo_tenant operator (demo_id 301) (demo_time 100) (demo_time 200) demo_db = Inr (lease, db1)"
      "ClaimRun (demo_env_from 210) demo_tenant operator (demo_id 302) (demo_time 300) (demo_time 400) db1 = Inr (lease', db2)"
    and i: "lease_RunID lease' = lease_RunID lease" using demo_claims by metis
  have "db1 = run_all store_step [] db1" "db2 = run_all store_step [] db2" by simp_all
  note stale_lease_rejected[OF demo_db_store_inv c(1) this(1) c(2) i this(2), of demo_env "demo_time 310" "demo_time 500"]
  then show ?thesis using c by blast
qed

definition ended_db :: DB where
  "ended_db = demo_db\<lparr>runs := [(demo_run parent_run None)\<lparr>r_state := RunCompleted, r_terminal := Some (demo_time 90), r_updated := demo_time 90\<rparr>]\<rparr>"

lemma ended_db_store_inv: "store_inv ended_db"
proof -
  have "runs_inv ended_db"
    by (simp add: runs_inv_def events_ok_def run_events_of_def ended_db_def demo_rows demo_ids unique_key_def run_row_ok_def run_check_def int64_simps RunState_Valid_def)
  moreover have "ledger_inv ended_db" using demo_db_inv same_ledger_inv[of demo_db ended_db] by (simp add: same_ledger_def ended_db_def)
  moreover have "revocation_inv ended_db" using demo_db_revocation_inv same_authority_inv[of demo_db ended_db] by (simp add: same_authority_def ended_db_def)
  ultimately show ?thesis by (simp add: store_inv_def)
qed

theorem terminal_run_final_witness:
  "\<exists>r. Terminal (r_state r) \<and> r \<in> set (runs (run_all store_step [(demo_env, Claim demo_tenant operator (demo_id 301) (demo_time 100) (demo_time 200))] ended_db))"
proof -
  let ?r = "(demo_run parent_run None)\<lparr>r_state := RunCompleted, r_terminal := Some (demo_time 90), r_updated := demo_time 90\<rparr>"
  have "?r \<in> set (runs ended_db)" "Terminal (r_state ?r)" by (simp_all add: ended_db_def)
  from terminal_run_final[OF ended_db_store_inv this] this(2) show ?thesis by blast
qed

definition served_db :: DB where
  "served_db = demo_db\<lparr>agents := [\<lparr>a_id = demo_id 51, a_tenant = demo_tenant, a_owner = requester, a_risk_class = AgentRiskLow\<rparr>],
     run_version_resolutions := [\<lparr>rv_run = parent_run, rv_tenant = demo_tenant, rv_agent = demo_id 51, rv_agent_version = demo_id 52, rv_agent_content_digest = demo_digest,
       rv_policy_bundle_digest = demo_digest, rv_policy_activation_version = 1, rv_approval = demo_id 53, rv_resolution = JObj [], rv_resolved = demo_time 10\<rparr>]\<rparr>"

lemma served_db_store_inv: "store_inv served_db"
proof -
  have "runs_inv served_db" using demo_db_store_inv by (simp add: store_inv_def runs_inv_def events_ok_def run_events_of_def served_db_def)
  moreover have "ledger_inv served_db" using demo_db_inv same_ledger_inv[of demo_db served_db] by (simp add: same_ledger_def served_db_def)
  moreover have "revocation_inv served_db" using demo_db_revocation_inv same_authority_inv[of demo_db served_db] by (simp add: same_authority_def served_db_def)
  ultimately show ?thesis by (simp add: store_inv_def)
qed

definition demo_cancellation :: RunCancellation where
  "demo_cancellation = \<lparr>cancel_TenantID = demo_tenant, cancel_RunID = parent_run, cancel_ActorPrincipalID = requester, cancel_IdempotencyKey = ''cancel:1'',
     cancel_ReasonCode = [], cancel_ExpectedStateVersion = None, cancel_CreatedAt = demo_time 100\<rparr>"

definition demo_cancellation_evidence :: RunCancellationEvidence where
  "demo_cancellation_evidence = \<lparr>ce_SignalID = demo_id 401, ce_EventID = demo_id 402, ce_AuditID = demo_id 403, ce_OutboxID = demo_id 404, ce_RequestID = demo_id 405,
     ce_PolicyDecisionID = demo_id 406, ce_ReasonCodes = [''allowed'']\<rparr>"

lemmas cancel_eval = CancelRun_def cancel_run_def cancel_statement_def cancel_signal_def cancel_event_def cancel_audit_def cancel_message_def insert_signal_def
  run_signal_check_def run_signal_conflict_def Transition_def RunLifecycle_Validate_def RunCancellation_Validate_def validateEvidence_def repository_valid_def
  insert_audit_def audit_check_def audit_conflict_def hashAuditEvent_def validJSONArray_def AuditEvent.defs GetRun_def run_projection_def decode_id_def decode_parent_def

lemma demo_cancelled: "\<exists>run db. CancelRun demo_env demo_tenant demo_cancellation demo_cancellation_evidence served_db = (Inr run, db)"
proof -
  have keys: "\<not> restricted_key ''event_sequence''" "\<not> restricted_key ''previous_state''" "\<not> restricted_key ''reason_code''" "\<not> restricted_key ''state''" "\<not> restricted_key ''state_version''"
    "\<not> restricted_key ''event_id''" "\<not> restricted_key ''run_id''" "\<not> restricted_key ''sequence''"
    by code_simp+
  show ?thesis
  by (simp add: keys actorAllowed_def Before_def Run_Validate_def AgentRiskClass_Valid_def cancel_eval worker_eval served_db_def demo_cancellation_def demo_cancellation_evidence_def demo_rows demo_ids Let_def int64_simps demo_digest RequireUTC_eq Unix_UTC_def
     IsZeroTime_def zero_nano_def ToUTC_def)
qed

theorem cancellation_final_witness:
  "\<exists>run db r. CancelRun demo_env demo_tenant demo_cancellation demo_cancellation_evidence served_db = (Inr run, db) \<and>
     find_run demo_tenant parent_run db = Some r \<and> Terminal (r_state r)"
proof -
  obtain run db where c: "CancelRun demo_env demo_tenant demo_cancellation demo_cancellation_evidence served_db = (Inr run, db)" using demo_cancelled by blast
  have "db = run_all store_step [] db" by simp
  from cancellation_final[OF served_db_store_inv c this] c show ?thesis by (auto simp: demo_cancellation_def)
qed

definition run_revocation :: Revocation where
  "run_revocation = demo_revocation\<lparr>rvk_Scope := RevocationRunID, rvk_Target := ID_String parent_run\<rparr>"

lemma run_revoked: "\<exists>res db. CreateRevocation demo_env 0 demo_tenant run_revocation (demo_revocation_evidence 80) demo_db = Inr (res, db) \<and> rres_Revocation res = run_revocation \<and> runs db = runs demo_db"
proof -
  have "ValidateRevocation run_revocation = Inr run_revocation"
    using demo_revocation_valid(1)
    by (auto simp: ValidateRevocation_def run_revocation_def demo_revocation_def RevocationScope_Valid_def Let_def split: if_splits sum.splits)
  then show ?thesis
    by (simp add: revocation_eval run_revocation_def demo_revocation_def demo_revocation_evidence_def demo_epochs_def demo_rows demo_ids demo_digest Let_def int64_simps)
qed

theorem revoked_run_not_claimed_witness:
  "\<exists>res db. CreateRevocation demo_env 0 demo_tenant run_revocation (demo_revocation_evidence 80) demo_db = Inr (res, db) \<and>
     (\<forall>lease db'. ClaimRun demo_env demo_tenant operator (demo_id 301) (demo_time 150) (demo_time 200) db = Inr (lease, db') \<longrightarrow> lease_RunID lease \<noteq> parent_run)"
proof -
  obtain res db where c: "CreateRevocation demo_env 0 demo_tenant run_revocation (demo_revocation_evidence 80) demo_db = Inr (res, db)"
    and res: "rres_Revocation res = run_revocation" "runs db = runs demo_db" using run_revoked by blast
  have "db = run_all store_step [] db" "list_all (\<lambda>c. leaves_authority (snd c)) []" by simp_all
  note r = revoked_run_not_claimed[OF demo_db_store_inv c this(2,1), of demo_tenant "demo_time 150" "demo_run parent_run None" operator demo_env "demo_id 301" "demo_time 200"]
  have "\<forall>lease db'. ClaimRun demo_env demo_tenant operator (demo_id 301) (demo_time 150) (demo_time 200) db = Inr (lease, db') \<longrightarrow> lease_RunID lease \<noteq> r_id (demo_run parent_run None)"
    by (rule r) (simp_all add: res run_revocation_def demo_revocation_def visible_to_def demo_time_def IsZeroTime_def zero_nano_def revokes_claim_def demo_db_def demo_run_def)
  then show ?thesis using c by (auto simp: demo_run_def)
qed

definition evented_db :: DB where
  "evented_db = demo_db\<lparr>run_events := map (\<lambda>n. \<lparr>ev_id = demo_id (400 + nat n), ev_tenant = demo_tenant, ev_run = parent_run, ev_sequence = n, ev_type = ''run.heartbeat'',
     ev_actor_type = RunActorWorker, ev_actor = Some operator, ev_state = Some RunRunning, ev_state_version = Some 3, ev_payload = JObj [], ev_occurred = demo_time 100\<rparr>) [1..5]\<rparr>"

lemma demo_event_page:
  "\<exists>w. ListRunEvents demo_tenant parent_run 2 2 evented_db = Inr w \<and> map event_Sequence (window_Events w) = [3, 4]"
proof -
  have five: "[1..5] = [1, 2, 3, 4, 5 :: int]" by code_simp
  have "run_events_of t i evented_db = (if t = demo_tenant \<and> i = parent_run then run_events evented_db else [])" for t i
    by (simp add: run_events_of_def evented_db_def five)
  then have "events_ok evented_db" by (simp add: events_ok_def evented_db_def five o_def)
  moreover have "runs_inv demo_db" using demo_db_store_inv by (simp add: store_inv_def)
  ultimately have inv: "runs_inv evented_db" by (simp add: runs_inv_def evented_db_def)
  have "\<exists>w. ListRunEvents demo_tenant parent_run 2 2 evented_db = Inr w"
    by (simp add: ListRunEvents_def repository_valid_def find_run_def run_events_of_def evented_db_def five scan_run_event_def ParseID_ID_String Let_def demo_rows demo_ids)
  then obtain w where w: "ListRunEvents demo_tenant parent_run 2 2 evented_db = Inr w" ..
  have "length (run_events_of demo_tenant parent_run evented_db) = 5" by (simp add: run_events_of_def evented_db_def five)
  then show ?thesis using run_event_page_exact[OF inv w] w by (simp add: upto_rec1)
qed

end
