(* ===== verification/Services.thy ===== *)
theory Services
  imports System
begin

text \<open>
  The application services over the store (internal/application): the reconciliation loop of reservations, the worker service with its checks of
  the revocation authority, query, cancellation and signal of a run behind the policy, and the event stream with its retention window. The policy
  evaluator, the clock reading and the source of identifiers are arguments; the repository is the store, in the scope of a tenant. Dependencies
  that the constructors test for nil are always present here.
\<close>

section \<open>Identifiers and risk classes\<close>

text \<open>The identifiers that a service draws one after another, from the given position of its source.\<close>

fun new_ids :: "Env \<Rightarrow> nat \<Rightarrow> nat \<Rightarrow> ID list result" where
  "new_ids env k 0 = Inr []"
| "new_ids env k (Suc n) = and_then (env_NewID env k) (\<lambda>i. and_then (new_ids env (Suc k) n) (\<lambda>is. Inr (i # is)))"

fun AgentRiskClass_text :: "AgentRiskClass \<Rightarrow> string" where
  "AgentRiskClass_text AgentRiskLow = ''LOW''"
| "AgentRiskClass_text AgentRiskMedium = ''MEDIUM''"
| "AgentRiskClass_text AgentRiskHigh = ''HIGH''"
| "AgentRiskClass_text AgentRiskCritical = ''CRITICAL''"
| "AgentRiskClass_text (AgentRiskClassOther s) = s"

section \<open>Reconciliation of reservations\<close>

definition maxResourceReconciliationBatch :: int where
  "maxResourceReconciliationBatch = 1000"

definition reconciliation_evidence :: "ID list \<Rightarrow> ResourceReconciliationEvidence" where
  "reconciliation_evidence ids =
     \<lparr>rev_SettlementID = ids ! 0, rev_PolicyDecisionID = ids ! 1, rev_AuditID = ids ! 2, rev_OutboxID = ids ! 3, rev_RunEventID = ids ! 4\<rparr>"

text \<open>
  The loop of the service. Each round is a transaction of its own, so the results of the rounds before an error
  are returned with it, and the store keeps them.
\<close>

function reconcile_rounds ::
  "Env \<Rightarrow> ID \<Rightarrow> ID \<Rightarrow> Time \<Rightarrow> nat \<Rightarrow> ResourceReconciliationResult list \<Rightarrow> DB \<Rightarrow> ResourceReconciliationResult list \<times> goerror option \<times> DB" where
  "reconcile_rounds env tenant system now limit results db =
     (if length results < limit then
        (case new_ids env (5 * length results) 5 of
           Inl err \<Rightarrow> (results, Some (WrapError CodeInternal ''could not generate reconciliation evidence'' err), db)
         | Inr ids \<Rightarrow>
             (case ReconcileNextReservation env tenant system now (reconciliation_evidence ids) db of
                Inl err \<Rightarrow>
                  if errors_Is err ErrResourceReconciliationUnavailable then (results, None, db) else (results, Some err, db)
              | Inr (result, db) \<Rightarrow> reconcile_rounds env tenant system now limit (results @ [result]) db))
      else (results, None, db))"
  by pat_completeness auto
termination by (relation "measure (\<lambda>(_, _, _, _, limit, results, _). limit - length results)") auto

declare reconcile_rounds.simps [simp del]

definition ReconcileResources ::
  "Env \<Rightarrow> Time \<Rightarrow> ID \<Rightarrow> ID \<Rightarrow> int \<Rightarrow> DB \<Rightarrow> ResourceReconciliationResult list \<times> goerror option \<times> DB" where
  "ReconcileResources env clock tenant system limit db =
     (if IsZero tenant \<or> IsZero system \<or> limit \<le> 0 \<or> limit > maxResourceReconciliationBatch
      then ([], Some (NewError CodeInvalidArgument ''resource reconciliation request is invalid''), db)
      else case RequireUTC clock of
          Inl _ \<Rightarrow> ([], Some (NewError CodeInternal ''resource reconciliation clock is invalid''), db)
        | Inr now \<Rightarrow>
            if IsZeroTime now then ([], Some (NewError CodeInternal ''resource reconciliation clock is invalid''), db)
            else reconcile_rounds env tenant system now (nat limit) [] db)"

section \<open>Workers\<close>

definition maxRunLease :: Duration where
  "maxRunLease = 5 * Minute"

type_synonym authority = "ID \<Rightarrow> ID \<Rightarrow> Time \<Rightarrow> DB \<Rightarrow> RevocationAuthorityState result"

record RunWorkerService =
  rws_leaseDuration :: Duration
  rws_revocations :: "authority option"

definition NewRunWorkerService :: "Duration \<Rightarrow> RunWorkerService result" where
  "NewRunWorkerService leaseDuration =
     (if leaseDuration \<le> 0 \<or> leaseDuration > maxRunLease
      then Inl (New ''run worker service requires a repository, clock, and bounded lease duration'')
      else Inr \<lparr>rws_leaseDuration = leaseDuration, rws_revocations = None\<rparr>)"

definition NewGovernedRunWorkerService :: "authority option \<Rightarrow> Duration \<Rightarrow> RunWorkerService result" where
  "NewGovernedRunWorkerService a leaseDuration =
     and_then (NewRunWorkerService leaseDuration) (\<lambda>s.
       case a of None \<Rightarrow> Inl (New ''governed run worker requires revocation authority'')
       | Some a \<Rightarrow> Inr (s\<lparr>rws_revocations := Some a\<rparr>))"

definition worker_revoked :: "ID \<Rightarrow> ID \<Rightarrow> ID \<Rightarrow> Revocation \<Rightarrow> bool" where
  "worker_revoked tenant worker run v \<longleftrightarrow>
     rvk_Scope v = RevocationGlobal
     \<or> rvk_Scope v = RevocationTenantID \<and> rvk_Target v = ID_String tenant
     \<or> rvk_Scope v = RevocationPrincipalID \<and> rvk_Target v = ID_String worker
     \<or> \<not> IsZero run \<and> rvk_Scope v = RevocationRunID \<and> rvk_Target v = ID_String run"

definition checkWorkerRevocations :: "RunWorkerService \<Rightarrow> ID \<Rightarrow> ID \<Rightarrow> ID \<Rightarrow> Time \<Rightarrow> DB \<Rightarrow> unit result" where
  "checkWorkerRevocations service tenant worker run now db =
     (case rws_revocations service of
        None \<Rightarrow> Inr ()
      | Some a \<Rightarrow>
          (case a tenant 0 now db of
             Inl err \<Rightarrow> Inl (WithRetryable (WrapError CodeUnavailable ''worker revocation authority is unavailable'' err))
           | Inr state \<Rightarrow>
               if list_ex (worker_revoked tenant worker run) (auth_Active state)
               then Inl (NewError CodeForbidden ''worker operation is revoked'') else Inr ()))"

text \<open>
  A claim returns the lease together with the error of the second check, which the callers look at first; the lease
  stays in the store then.
\<close>

definition RunWorker_Claim :: "RunWorkerService \<Rightarrow> Env \<Rightarrow> Time \<Rightarrow> ID \<Rightarrow> ID \<Rightarrow> DB \<Rightarrow> RunLease result \<times> DB" where
  "RunWorker_Claim service env clock tenant worker db =
     (if IsZero tenant \<or> IsZero worker then (Inl (NewError CodeInvalidArgument ''worker claim is invalid''), db)
      else case RequireUTC clock of
          Inl err \<Rightarrow> (Inl (WrapError CodeInternal ''worker clock is invalid'' err), db)
        | Inr now \<Rightarrow>
            (case checkWorkerRevocations service tenant worker 0 now db of
               Inl err \<Rightarrow> (Inl err, db)
             | Inr _ \<Rightarrow>
                 (case env_NewID env 1 of
                    Inl err \<Rightarrow> (Inl (WrapError CodeInternal ''could not generate lease identifier'' err), db)
                  | Inr leaseID \<Rightarrow>
                      (case ClaimRun env tenant worker leaseID now (AddDuration now (rws_leaseDuration service)) db of
                         Inl err \<Rightarrow> (Inl err, db)
                       | Inr (lease, db) \<Rightarrow>
                           (and_then (checkWorkerRevocations service tenant worker (lease_RunID lease) now db) (\<lambda>_. Inr lease), db)))))"

definition RunWorker_Heartbeat :: "RunWorkerService \<Rightarrow> Env \<Rightarrow> Time \<Rightarrow> RunLease \<Rightarrow> DB \<Rightarrow> (RunLease \<times> DB) result" where
  "RunWorker_Heartbeat service env clock lease db =
     (case RequireUTC clock of
        Inl err \<Rightarrow> Inl (WrapError CodeInternal ''worker clock is invalid'' err)
      | Inr now \<Rightarrow>
          if \<not> ActiveAt lease now then Inl (NewError CodeConflict ''run lease is stale'')
          else and_then (checkWorkerRevocations service (lease_TenantID lease) (lease_WorkerID lease) (lease_RunID lease) now db) (\<lambda>_.
            HeartbeatRun env lease now (AddDuration now (rws_leaseDuration service)) db))"

definition RunWorker_Operate :: "RunWorkerService \<Rightarrow> Env \<Rightarrow> Time \<Rightarrow> RunLease \<Rightarrow> WorkerRunOperation \<Rightarrow> DB \<Rightarrow> Run result \<times> DB" where
  "RunWorker_Operate service env clock lease operation db =
     (case RequireUTC clock of
        Inl err \<Rightarrow> (Inl (WrapError CodeInternal ''worker clock is invalid'' err), db)
      | Inr now \<Rightarrow>
          if \<not> ActiveAt lease now then (Inl (NewError CodeConflict ''run lease is stale''), db)
          else case checkWorkerRevocations service (lease_TenantID lease) (lease_WorkerID lease) (lease_RunID lease) now db of
              Inl err \<Rightarrow> (Inl err, db)
            | Inr _ \<Rightarrow>
                if isl (Target operation) then (Inl (NewError CodeInvalidArgument ''worker operation is invalid''), db)
                else case env_NewID env 0 of
                    Inl err \<Rightarrow> (Inl (WrapError CodeInternal ''could not generate worker event identifier'' err), db)
                  | Inr eventID \<Rightarrow> MutateWorkerRun lease operation eventID now db)"

section \<open>Access to a run\<close>

text \<open>The fields that the commands on a run share; cancellation and signal add their own.\<close>

record RunCommand =
  cmd_TenantID :: ID
  cmd_PrincipalID :: ID
  cmd_RequestID :: ID
  cmd_RunID :: ID
  cmd_Roles :: "string list"
  cmd_Issuer :: string
  cmd_SecurityState :: SecurityState

record CancelCommand = RunCommand +
  cmd_IdempotencyKey :: string
  cmd_ReasonCode :: string
  cmd_ExpectedStateVersion :: "int option"

record SignalCommand = RunCommand +
  scmd_IdempotencyKey :: string
  scmd_Type :: RunSignalType
  scmd_Payload :: RawMessage
  scmd_ExpectedStateVersion :: "int option"

definition runNotFound :: "goerror \<Rightarrow> goerror" where
  "runNotFound err = (if ErrorCodeOf err = CodeNotFound then NewError CodeNotFound ''run not found'' else err)"

text \<open>The policy input of an action on a run. A copy of an empty list of roles is nil.\<close>

definition run_input :: "string \<Rightarrow> string \<Rightarrow> constraints \<Rightarrow> 'a RunCommand_scheme \<Rightarrow> RunAccessRecord \<Rightarrow> ID \<Rightarrow> Time \<Rightarrow> Input" where
  "run_input action resource attributes c record decisionID now =
     \<lparr>in_ContractVersion = ContractVersion, in_DecisionID = ID_String decisionID, in_RequestTime = now,
      in_Subject = \<lparr>sub_PrincipalID = ID_String (cmd_PrincipalID c), sub_TenantID = ID_String (cmd_TenantID c), sub_PrincipalType = ''human'',
        sub_Roles = (if cmd_Roles c = [] then None else Some (sort (cmd_Roles c))), sub_AuthenticationMethods = None, sub_Issuer = cmd_Issuer c\<rparr>,
      in_Action = action,
      in_Resource = \<lparr>res_Type = ''run'', res_ID = resource, res_TenantID = ID_String (cmd_TenantID c), res_Attributes = Some attributes\<rparr>,
      in_Agent = Some \<lparr>pa_ID = ID_String (run_AgentID (access_Run record)), pa_VersionDigest = run_VersionDigest (access_Run record),
        pa_RiskClass = ascii_lower (AgentRiskClass_text (access_AgentRiskClass record)), pa_Owner = ID_String (access_AgentOwnerID record),
        pa_Approved = True, pa_Revoked = False\<rparr>,
      in_RequestedConstraints = Some [], in_AuthorityConstraints = Some [], in_SecurityState = cmd_SecurityState c,
      in_Context = \<lparr>ctx_RequestID = ID_String (cmd_RequestID c), ctx_SourceWorkload = []\<rparr>\<rparr>"

text \<open>
  What query, cancellation and signal do alike before they act: read the run in the scope of the repository, check what it returned,
  ask the policy and hide a run that the caller may not see. The errors name the \<open>service\<close> and its \<open>purpose\<close>.
\<close>

definition run_authorization ::
  "string \<Rightarrow> string \<Rightarrow> string \<Rightarrow> (RunAccessRecord \<Rightarrow> string \<times> constraints) \<Rightarrow> ID \<Rightarrow> evaluator \<Rightarrow> Env \<Rightarrow> Time \<Rightarrow> 'a RunCommand_scheme \<Rightarrow> DB
    \<Rightarrow> (RunAccessRecord \<times> Time \<times> ID \<times> Decision) result" where
  "run_authorization service purpose action target scope evaluator env clock c db =
     (case GetRun scope (cmd_RunID c) db of
        Inl err \<Rightarrow> Inl (runNotFound err)
      | Inr record \<Rightarrow>
          if run_TenantID (access_Run record) \<noteq> cmd_TenantID c \<or> IsZero (access_AgentOwnerID record) \<or> \<not> AgentRiskClass_Valid (access_AgentRiskClass record)
          then Inl (NewError CodeInternal (service @ '' repository crossed its authority boundary''))
          else case RequireUTC clock of
              Inl err \<Rightarrow> Inl (WrapError CodeInternal (service @ '' clock is invalid'') err)
            | Inr now \<Rightarrow>
                (case env_NewID env 0 of
                   Inl err \<Rightarrow> Inl (WrapError CodeInternal (''could not generate '' @ purpose @ '' decision identifier'') err)
                 | Inr decisionID \<Rightarrow>
                     (case evaluator (run_input action (fst (target record)) (snd (target record)) c record decisionID now) of
                        Inl err \<Rightarrow> Inl (WithRetryable (WrapError CodeUnavailable (purpose @ '' policy is unavailable'') err))
                      | Inr r \<Rightarrow>
                          if dec_DecisionID (pr_Decision r) \<noteq> ID_String decisionID
                          then Inl (WithRetryable (NewError CodeUnavailable (purpose @ '' policy returned invalid evidence'')))
                          else if \<not> dec_Allow (pr_Decision r) then Inl (NewError CodeNotFound ''run not found'')
                          else Inr (record, now, decisionID, pr_Decision r))))"

definition command_incomplete :: "'a RunCommand_scheme \<Rightarrow> bool" where
  "command_incomplete c \<longleftrightarrow> IsZero (cmd_TenantID c) \<or> IsZero (cmd_PrincipalID c) \<or> IsZero (cmd_RequestID c) \<or> IsZero (cmd_RunID c)"

definition integer_value :: "int \<Rightarrow> any_value" where
  "integer_value n = ANum (FormatInt n) (Some (FormatInt n))"

definition RunQuery_Get :: "ID \<Rightarrow> evaluator \<Rightarrow> Env \<Rightarrow> Time \<Rightarrow> 'a RunCommand_scheme \<Rightarrow> DB \<Rightarrow> Run result" where
  "RunQuery_Get scope evaluator env clock c db =
     (if command_incomplete c then Inl (NewError CodeInvalidArgument ''run query is invalid'')
      else and_then (run_authorization ''run query'' ''run access'' ''runs.read''
          (\<lambda>record. (ID_String (run_ID (access_Run record)), [(''state'', AStr (RunState_text (run_State (access_Run record)))),
             (''requested_by'', AStr (ID_String (run_RequestedBy (access_Run record))))])) scope evaluator env clock c db) (\<lambda>(record, _).
        Inr (access_Run record)))"

definition reason_codes :: "Decision \<Rightarrow> string list" where
  "reason_codes d = (case dec_ReasonCodes d of None \<Rightarrow> [] | Some codes \<Rightarrow> codes)"

definition RunCancellation_Cancel :: "ID \<Rightarrow> evaluator \<Rightarrow> Env \<Rightarrow> Time \<Rightarrow> CancelCommand \<Rightarrow> DB \<Rightarrow> Run result \<times> DB" where
  "RunCancellation_Cancel scope evaluator env clock c db =
     (if command_incomplete c \<or> cmd_IdempotencyKey c = [] then (Inl (NewError CodeInvalidArgument ''run cancellation is invalid''), db)
      else case run_authorization ''run cancellation'' ''run cancellation'' ''runs.cancel''
          (\<lambda>record. (ID_String (cmd_RunID c), [(''state'', AStr (RunState_text (run_State (access_Run record)))),
             (''state_version'', integer_value (run_StateVersion (access_Run record))),
             (''requested_by'', AStr (ID_String (run_RequestedBy (access_Run record))))])) scope evaluator env clock c db of
          Inl err \<Rightarrow> (Inl err, db)
        | Inr (record, now, decisionID, decision) \<Rightarrow>
            (case new_ids env 1 4 of
               Inl err \<Rightarrow> (Inl (WrapError CodeInternal ''could not generate run cancellation evidence identifier'' err), db)
             | Inr ids \<Rightarrow>
                 let cancellation = \<lparr>cancel_TenantID = cmd_TenantID c, cancel_RunID = cmd_RunID c, cancel_ActorPrincipalID = cmd_PrincipalID c,
                       cancel_IdempotencyKey = ''cancel:'' @ cmd_IdempotencyKey c, cancel_ReasonCode = cmd_ReasonCode c,
                       cancel_ExpectedStateVersion = cmd_ExpectedStateVersion c, cancel_CreatedAt = now\<rparr>
                 in case RunCancellation_Validate cancellation of
                      Inl err \<Rightarrow> (Inl (WrapError CodeInvalidArgument ''run cancellation is invalid'' err), db)
                    | Inr _ \<Rightarrow> CancelRun env scope cancellation
                        \<lparr>ce_SignalID = ids ! 0, ce_EventID = ids ! 1, ce_AuditID = ids ! 2, ce_OutboxID = ids ! 3, ce_RequestID = cmd_RequestID c,
                         ce_PolicyDecisionID = decisionID, ce_ReasonCodes = reason_codes decision\<rparr> db))"

definition RunSignal_Signal :: "ID \<Rightarrow> evaluator \<Rightarrow> Env \<Rightarrow> Time \<Rightarrow> SignalCommand \<Rightarrow> DB \<Rightarrow> (RunEvent \<times> DB) result" where
  "RunSignal_Signal scope evaluator env clock c db =
     (if command_incomplete c \<or> scmd_IdempotencyKey c = [] then Inl (NewError CodeInvalidArgument ''run signal is invalid'')
      else and_then (run_authorization ''run signal'' ''run signal'' ''runs.signal''
          (\<lambda>record. (ID_String (cmd_RunID c), [(''state'', AStr (RunState_text (run_State (access_Run record)))),
             (''state_version'', integer_value (run_StateVersion (access_Run record))),
             (''signal_type'', AStr (RunSignalType_text (scmd_Type c)))])) scope evaluator env clock c db) (\<lambda>(record, now, decisionID, decision).
        case new_ids env 1 4 of
          Inl err \<Rightarrow> Inl (WrapError CodeInternal ''could not generate run signal evidence identifier'' err)
        | Inr ids \<Rightarrow>
            let s = \<lparr>sig_ID = ids ! 0, sig_TenantID = cmd_TenantID c, sig_RunID = cmd_RunID c, sig_ActorPrincipalID = cmd_PrincipalID c,
                  sig_Type = scmd_Type c, sig_Payload = scmd_Payload c, sig_IdempotencyKey = scmd_IdempotencyKey c,
                  sig_ExpectedStateVersion = scmd_ExpectedStateVersion c, sig_CreatedAt = now\<rparr>
            in case RunSignal_Validate s of
                 Inl err \<Rightarrow> Inl (WrapError CodeInvalidArgument ''run signal payload is invalid'' err)
               | Inr _ \<Rightarrow> AppendRunSignal env scope s
                   \<lparr>se_EventID = ids ! 1, se_AuditID = ids ! 2, se_OutboxID = ids ! 3, se_RequestID = cmd_RequestID c,
                    se_PolicyDecisionID = decisionID, se_ReasonCodes = reason_codes decision\<rparr> db))"

section \<open>The event stream\<close>

definition ErrRunEventCursorGone :: goerror where
  "ErrRunEventCursorGone = New ''run event cursor is outside retention''"

fun events_ordered :: "ID \<Rightarrow> int \<Rightarrow> RunEvent list \<Rightarrow> bool" where
  "events_ordered run previous [] = True"
| "events_ordered run previous (e # es) =
     (if isl (RunEvent_Validate e) \<or> event_RunID e \<noteq> run \<or> event_Sequence e \<le> previous then False
      else events_ordered run (event_Sequence e) es)"

definition retention_floor :: "int \<Rightarrow> RunEventWindow \<Rightarrow> int" where
  "retention_floor retain w =
     (let floor = window_Latest w - retain; floor = (if floor < 0 then 0 else floor); physical = window_OldestRetained w - 1
      in if physical > floor then physical else floor)"

definition RunEventStream_Events :: "ID \<Rightarrow> int \<Rightarrow> ID \<Rightarrow> int \<Rightarrow> int \<Rightarrow> DB \<Rightarrow> RunEvent list result" where
  "RunEventStream_Events scope retain run after limit db =
     (if IsZero run \<or> after < 0 \<or> limit < 1 \<or> limit > 256 then Inl (NewError CodeInvalidArgument ''run event request is invalid'')
      else case ListRunEvents scope run after limit db of
          Inl err \<Rightarrow> Inl (runNotFound err)
        | Inr window \<Rightarrow>
            let floor = retention_floor retain window in
            and_then (if after = 0 \<and> floor > 0 then (case ListRunEvents scope run floor limit db of Inl err \<Rightarrow> Inl (runNotFound err) | Inr w \<Rightarrow> Inr w)
                      else if after < floor then Inl ErrRunEventCursorGone else Inr window) (\<lambda>window.
              if events_ordered run (if after < floor then floor else after) (window_Events window) then Inr (window_Events window)
              else Inl (NewError CodeInternal ''run event repository returned invalid ordering'')))"

section \<open>Reconciliation ends\<close>

text \<open>The result does not report the given error.\<close>

definition never :: "goerror \<Rightarrow> 'a result \<Rightarrow> bool" where
  "never target m \<longleftrightarrow> (\<forall>err. m = Inl err \<longrightarrow> \<not> errors_Is err target)"

lemma never_Inr [simp]: "never target (Inr x)"
  by (simp add: never_def)

lemma never_and_then: "never target m \<Longrightarrow> (\<And>x. never target (f x)) \<Longrightarrow> never target (and_then m f)"
  by (cases m) (auto simp: never_def)

lemma never_if: "never target m \<Longrightarrow> never target n \<Longrightarrow> never target (if b then m else n)"
  by simp

lemma never_fold: "(\<And>x s. never target (f x s)) \<Longrightarrow> never target (fold_result f xs s)"
  by (induction xs arbitrary: s) (auto intro!: never_and_then)

lemma never_wrapping: "never (New text) m \<Longrightarrow> never (New text) (wrapping message m)"
  by (cases m) (auto simp: never_def wrapping_def)

lemma never_new [simp]: "never (New a) (Inl (New b)) \<longleftrightarrow> a \<noteq> b" "validErrorCode code \<Longrightarrow> never (New a) (Inl (NewError code d))"
  by (auto simp: never_def)

lemma errors_Is_New [simp]: "errors_Is (WrapError code d err) (New a) \<longleftrightarrow> errors_Is err (New a)"
  by (simp add: WrapError_def NewError_def)

lemma never_sum: "(\<And>e. m = Inl e \<Longrightarrow> never target (f e)) \<Longrightarrow> (\<And>x. m = Inr x \<Longrightarrow> never target (g x)) \<Longrightarrow> never target (case m of Inl e \<Rightarrow> f e | Inr x \<Rightarrow> g x)"
  by (cases m) simp_all

lemma never_option: "never target m \<Longrightarrow> (\<And>x. never target (f x)) \<Longrightarrow> never target (case v of None \<Rightarrow> m | Some x \<Rightarrow> f x)"
  by (cases v) simp_all

lemmas lifecycle_errors = ErrInvalidRunState_def ErrInvalidRunActor_def ErrRunActorNotPermitted_def ErrRunVersionConflict_def ErrRunTerminal_def
  ErrRunTransition_def ErrRunTransitionTime_def

lemma never_pg_insert: "never ErrResourceReconciliationUnavailable (pg_insert check conflict r rows)"
  unfolding pg_insert_def unique_violation_def check_violation_def ErrResourceReconciliationUnavailable_def by (intro never_if) simp_all

lemma never_pg_update: "never ErrResourceReconciliationUnavailable (pg_update check p f rows)"
  unfolding pg_update_def check_violation_def ErrResourceReconciliationUnavailable_def by (intro never_if) simp_all

lemma never_ParseID: "never ErrResourceReconciliationUnavailable (ParseID (ID_String i))"
  by (simp add: ParseID_ID_String ErrInvalidID_def ErrResourceReconciliationUnavailable_def)

lemma never_RequireUTC: "never ErrResourceReconciliationUnavailable (RequireUTC t)"
  by (simp add: RequireUTC_def ErrTimestampNotUTC_def ErrResourceReconciliationUnavailable_def split: Location.splits)

lemma never_validateEvidence: "never ErrResourceReconciliationUnavailable (validateEvidence a m)"
  unfolding validateEvidence_def
  by (intro never_if never_and_then never_RequireUTC) (simp_all add: ErrResourceReconciliationUnavailable_def)

lemma never_Transition: "never ErrResourceReconciliationUnavailable (Transition l c)"
  unfolding Transition_def RunLifecycle_Validate_def lifecycle_errors ErrResourceReconciliationUnavailable_def
  by (intro never_if never_and_then never_sum never_option) simp_all

lemma never_wrapping_unavailable: "never ErrResourceReconciliationUnavailable m \<Longrightarrow> never ErrResourceReconciliationUnavailable (wrapping message m)"
  unfolding ErrResourceReconciliationUnavailable_def by (rule never_wrapping)

lemma never_error: "never ErrResourceReconciliationUnavailable (Inl (Error code d retryable None))"
  "a \<noteq> ''no resource reservation is available for reconciliation'' \<Longrightarrow> never ErrResourceReconciliationUnavailable (Inl (New a))"
  by (simp_all add: ErrResourceReconciliationUnavailable_def never_def)

lemmas never_intros = never_if never_and_then never_fold never_option never_wrapping_unavailable never_pg_insert never_pg_update never_ParseID
  never_validateEvidence

lemma never_expire_child: "never ErrResourceReconciliationUnavailable (expire_child t system now ev rr ru db)"
proof -
  have w: "never ErrResourceReconciliationUnavailable (Inl (WrapError CodeConflict d e))" if "never ErrResourceReconciliationUnavailable (Inl e :: 'b result)" for d e
    using that by (simp add: never_def ErrResourceReconciliationUnavailable_def)
  have "never ErrResourceReconciliationUnavailable (Inl e :: (RunLifecycle \<times> bool) result)" if "Transition l c = Inl e" for l c e
    using never_Transition[of l c] that by simp
  then show ?thesis unfolding expire_child_def time_out_run_def insert_run_event_with_outbox_def insert_run_event_def insert_outbox_def
    by (auto intro!: never_intros never_sum w simp: never_error split: prod.splits)
qed

lemma never_reconcile_selected: "never ErrResourceReconciliationUnavailable (reconcile_selected env s ev expired rr db)"
  unfolding reconcile_selected_def check_items_def insert_settlement_def settle_item_def close_reservation_def insert_audit_def insert_outbox_def
    loadSettlementResult_def replacing_error_def update_balance_def Let_def
  by (auto intro!: never_intros never_sum simp: never_error split: prod.splits)

lemma reconciliation_unavailable:
  assumes "RequireUTC now = Inr now" "ReconcileNextReservation env t system now ev db = Inl err" "errors_Is err ErrResourceReconciliationUnavailable"
  shows "reconciliation_candidate t system now db = None"
proof (rule ccontr)
  assume "reconciliation_candidate t system now db \<noteq> None"
  then obtain rr ru where c: "reconciliation_candidate t system now db = Some (rr, ru)" by auto
  have "never ErrResourceReconciliationUnavailable (ReconcileNextReservation env t system now ev db)"
    by (auto simp: ReconcileNextReservation_def assms(1) c Let_def never_error intro!: never_and_then never_expire_child never_reconcile_selected)
  then show False using assms(2,3) by (simp add: never_def)
qed

lemma reconcile_rounds_effect:
  assumes "store_inv db" "RequireUTC now = Inr now" "reconcile_rounds env t system now limit results db = (results', err, db')" "length results \<le> limit"
  shows "store_inv db' \<and> length results' \<le> limit \<and> length results' + open_reservations db' = length results + open_reservations db \<and>
    (err = None \<longrightarrow> length results' = limit \<or> reconciliation_candidate t system now db' = None)"
  using assms
proof (induction env t system now limit results db rule: reconcile_rounds.induct)
  case (1 env t system now limit results db)
  note D = 1(4)[unfolded reconcile_rounds.simps[of env t system now limit results db]]
  show ?case
  proof (cases "length results < limit")
    case True
    show ?thesis
    proof (cases "new_ids env (5 * length results) 5")
      case (Inr ids)
      let ?ev = "reconciliation_evidence ids"
      show ?thesis
      proof (cases "ReconcileNextReservation env t system now ?ev db")
        case (Inl e)
        then show ?thesis using D True \<open>new_ids _ _ _ = _\<close> 1(2,3,5) reconciliation_unavailable[OF 1(3) Inl] by (auto split: if_splits)
      next
        case next_round: (Inr p)
        obtain result db1 where p: "p = (result, db1)" by (cases p)
        note r = next_round[unfolded p]
        have "store_inv db1" using store_step_inv[OF 1(2), of "(env, Reconcile t system now ?ev)"] r by (simp add: commits_Inr)
        moreover have "Suc (open_reservations db1) = open_reservations db"
          by (rule reconcile_effect[OF _ r]) (use 1(2) in \<open>simp add: store_inv_def\<close>)
        moreover have "reconcile_rounds env t system now limit (results @ [result]) db1 = (results', err, db')"
          using D True Inr r by simp
        ultimately show ?thesis using 1(1)[OF True Inr r refl _ 1(3)] True by simp
      qed
    qed (use D True 1(2) in auto)
  qed (use D 1(2,5) in auto)
qed

text \<open>
  C7: reconciliation ends. A call of the service always returns, after at most as many rounds as its limit and as there are open reservations; each round closes exactly one
  reservation and keeps every promise of the store, also when a later round fails. Without an error it has used up its limit or left no candidate, so a limit above
  the number of open reservations leaves none.
\<close>

theorem reconciliation_terminates:
  assumes "store_inv db" "ReconcileResources env clock t system limit db = (results, err, db')"
  shows "length results + open_reservations db' = open_reservations db \<and> store_inv db' \<and> int (length results) \<le> max 0 (min limit 1000) \<and>
    (err = None \<longrightarrow> (\<exists>now. RequireUTC clock = Inr now \<and> (int (length results) = limit \<or> reconciliation_candidate t system now db' = None))) \<and>
    (err = None \<and> int (open_reservations db) < limit \<longrightarrow> (\<exists>now. RequireUTC clock = Inr now \<and> reconciliation_candidate t system now db' = None))"
proof (cases "\<exists>now. RequireUTC clock = Inr now \<and> 0 < limit \<and> limit \<le> maxResourceReconciliationBatch \<and> reconcile_rounds env t system now (nat limit) [] db = (results, err, db')")
  case True
  then obtain now where n: "RequireUTC clock = Inr now" "0 < limit" "limit \<le> maxResourceReconciliationBatch"
    and r: "reconcile_rounds env t system now (nat limit) [] db = (results, err, db')" by blast
  have "RequireUTC now = Inr now" using n(1) by (auto simp: RequireUTC_eq Unix_UTC_def split: if_splits)
  from reconcile_rounds_effect[OF assms(1) this r] n show ?thesis by (auto simp: maxResourceReconciliationBatch_def)
next
  case False
  then have "results = []" "err \<noteq> None" "db' = db" using assms(2) by (auto simp: ReconcileResources_def split: if_splits sum.splits)
  then show ?thesis using assms(1) by auto
qed

section \<open>Workers and the authority\<close>

lemma authority_read_same: "same_authority db db' \<Longrightarrow> AuthoritativeRevocations t agent now db' = AuthoritativeRevocations t agent now db"
  by (simp add: same_authority_def AuthoritativeRevocations_def RevocationSnapshot_def find_tenant_epoch_def find_agent_epoch_def max_sequence_def max_agent_epoch_def
      active_revocations_def revocation_active_def latest_change_def)

lemma checkWorkerRevocations_refuses:
  assumes "rws_revocations service = Some AuthoritativeRevocations" "AuthoritativeRevocations t 0 now db = Inr s" "v \<in> set (auth_Active s)" "worker_revoked t w r v"
  shows "checkWorkerRevocations service t w r now db = Inl (NewError CodeForbidden ''worker operation is revoked'')"
  using assms by (auto simp: checkWorkerRevocations_def list_ex_iff)


section \<open>Callers and the policy\<close>

lemma uuid7_not_zero: "uuid7 x \<Longrightarrow> \<not> IsZero x"
proof
  assume "uuid7 x" "IsZero x"
  moreover have "\<not> uuid7 0" by code_simp
  ultimately show False by (simp add: IsZero_def)
qed

lemma decode_id_Inr: "decode_id i = Inr j \<longleftrightarrow> j = i \<and> uuid7 i"
  by (auto simp: decode_id_def ParseID_ID_String)

lemma Run_Validate_same: "Run_Validate run = Inr run' \<Longrightarrow> run' = run"
  by (auto simp: Run_Validate_def split: if_splits sum.splits option.splits)

lemma GetRun_Inr:
  assumes "GetRun t i db = Inr record"
  shows "run_TenantID (access_Run record) = t" "\<not> IsZero (access_AgentOwnerID record)" "AgentRiskClass_Valid (access_AgentRiskClass record)"
    "run_ID (access_Run record) = i" "\<exists>r. find_run t i db = Some r \<and> run_State (access_Run record) = r_state r \<and> run_AgentID (access_Run record) = r_agent r"
proof -
  obtain r digest version a where p: "run_projection t i db = Some (r, digest, version, a)"
    using assms by (cases "run_projection t i db") (auto simp: GetRun_def and_then_Inr split: if_splits)
  then have f: "find_run t i db = Some r" by (auto simp: run_projection_def split: option.splits)
  obtain parent where "Run_Validate \<lparr>run_ID = r_id r, run_TenantID = r_tenant r, run_AgentID = r_agent r, run_AgentVersionID = r_agent_version r, run_RequestedBy = r_requested_by r,
      run_VersionDigest = digest, run_ParentRunID = parent, run_State = r_state r, run_StateVersion = r_state_version r,
      run_EnvelopeVersion = version, run_DeadlineAt = map_option ToUTC (r_deadline r), run_CreatedAt = ToUTC (r_created r), run_UpdatedAt = ToUTC (r_updated r)\<rparr> = Inr (access_Run record)"
    and a: "access_AgentOwnerID record = a_owner a" "uuid7 (a_owner a)" "AgentRiskClass_Valid (access_AgentRiskClass record)"
    using assms by (auto simp: GetRun_def and_then_Inr p decode_id_Inr Let_def split: if_splits)
  note run = Run_Validate_same[OF this(1)]
  show "run_TenantID (access_Run record) = t" "run_ID (access_Run record) = i" using find_run_Some[OF f] by (simp_all add: run)
  show "\<not> IsZero (access_AgentOwnerID record)" using uuid7_not_zero[OF a(2)] by (simp add: a(1))
  show "AgentRiskClass_Valid (access_AgentRiskClass record)" by (rule a(3))
  show "\<exists>r. find_run t i db = Some r \<and> run_State (access_Run record) = r_state r \<and> run_AgentID (access_Run record) = r_agent r" using f by (simp add: run)
qed

lemma GetRun_missing: "find_run t i db = None \<Longrightarrow> \<not> IsZero t \<Longrightarrow> \<not> IsZero i \<Longrightarrow> GetRun t i db = Inl (NewError CodeNotFound ''run not found'')"
  by (simp add: GetRun_def repository_valid_def run_projection_def)

definition policy_denies :: "evaluator \<Rightarrow> ID \<Rightarrow> bool" where
  "policy_denies evaluator i \<longleftrightarrow>
     (\<forall>input. in_DecisionID input = ID_String i \<longrightarrow>
       (\<exists>r. evaluator input = Inr r \<and> dec_DecisionID (pr_Decision r) = ID_String i \<and> \<not> dec_Allow (pr_Decision r)))"

lemma run_authorization_denied:
  assumes "GetRun (cmd_TenantID c) (cmd_RunID c) db = Inr record" "RequireUTC clock = Inr now" "env_NewID env 0 = Inr i" "policy_denies evaluator i"
  shows "run_authorization service purpose action target (cmd_TenantID c) evaluator env clock c db = Inl (NewError CodeNotFound ''run not found'')"
proof -
  note g = GetRun_Inr(1,2,3)[OF assms(1)]
  let ?input = "run_input action (fst (target record)) (snd (target record)) c record i now"
  obtain r where "evaluator ?input = Inr r" "dec_DecisionID (pr_Decision r) = ID_String i" "\<not> dec_Allow (pr_Decision r)"
    using assms(4) unfolding policy_denies_def by (metis run_input_def Input.select_convs(2))
  then show ?thesis using g by (simp add: run_authorization_def assms(1,2,3))
qed

text \<open>
  C13: a run that the caller may not see looks like a run that does not exist. When the policy denies, query, cancellation and signal give the very answer that they give in a
  store without the run, and the store stays as it is.
\<close>

theorem denied_run_hidden:
  assumes "GetRun t run db = Inr record" "find_run t run db0 = None" "\<not> IsZero t" "\<not> IsZero run"
    and "RequireUTC clock = Inr now" "env_NewID env 0 = Inr i" "policy_denies evaluator i"
    and "cmd_TenantID q = t" "cmd_RunID q = run" "cmd_TenantID c = t" "cmd_RunID c = run" "cmd_TenantID s = t" "cmd_RunID s = run"
  shows "RunQuery_Get t evaluator env clock q db = RunQuery_Get t evaluator env clock q db0 \<and>
    fst (RunCancellation_Cancel t evaluator env clock c db) = fst (RunCancellation_Cancel t evaluator env clock c db0) \<and>
    snd (RunCancellation_Cancel t evaluator env clock c db) = db \<and>
    RunSignal_Signal t evaluator env clock s db = RunSignal_Signal t evaluator env clock s db0"
proof -
  have missing: "run_authorization service purpose action target t evaluator env clock x db0 = Inl (NewError CodeNotFound ''run not found'')"
    if "cmd_RunID x = run" for service purpose action target and x :: "'x RunCommand_scheme"
    using GetRun_missing[OF assms(2-4)] that by (simp add: run_authorization_def runNotFound_def)
  have denied: "run_authorization service purpose action target t evaluator env clock x db = Inl (NewError CodeNotFound ''run not found'')"
    if "cmd_TenantID x = t" "cmd_RunID x = run" for service purpose action target and x :: "'x RunCommand_scheme"
    using run_authorization_denied[OF _ assms(5-7), of x db] that assms(1) by simp
  show ?thesis
    by (simp add: RunQuery_Get_def RunCancellation_Cancel_def RunSignal_Signal_def missing denied assms(8-13))
qed

lemma run_authorization_Inr:
  assumes "run_authorization service purpose action target scope evaluator env clock c db = Inr (record, now, decisionID, decision)"
  shows "GetRun scope (cmd_RunID c) db = Inr record" "cmd_TenantID c = scope" "RequireUTC clock = Inr now" "env_NewID env 0 = Inr decisionID"
    "\<exists>r. evaluator (run_input action (fst (target record)) (snd (target record)) c record decisionID now) = Inr r \<and> pr_Decision r = decision"
    "dec_Allow decision" "dec_DecisionID decision = ID_String decisionID"
proof -
  show g: "GetRun scope (cmd_RunID c) db = Inr record" using assms by (auto simp: run_authorization_def split: sum.splits if_splits)
  show "cmd_TenantID c = scope" "RequireUTC clock = Inr now" "env_NewID env 0 = Inr decisionID"
    "\<exists>r. evaluator (run_input action (fst (target record)) (snd (target record)) c record decisionID now) = Inr r \<and> pr_Decision r = decision"
    "dec_Allow decision" "dec_DecisionID decision = ID_String decisionID"
    using assms GetRun_Inr(1)[OF g] by (auto simp: run_authorization_def g split: sum.splits if_splits)
qed

text \<open>The policy allowed the action of the command, and the store has the audit event that names its decision and the caller.\<close>

definition authorized_change :: "evaluator \<Rightarrow> string \<Rightarrow> 'a RunCommand_scheme \<Rightarrow> DB \<Rightarrow> DB \<Rightarrow> bool" where
  "authorized_change evaluator action c db db' \<longleftrightarrow>
     (\<exists>record attributes now i r. GetRun (cmd_TenantID c) (cmd_RunID c) db = Inr record \<and>
        evaluator (run_input action (ID_String (cmd_RunID c)) attributes c record i now) = Inr r \<and> dec_Allow (pr_Decision r) \<and> dec_DecisionID (pr_Decision r) = ID_String i \<and>
        (\<exists>a \<in> set (audit_events db'). au_PolicyDecisionID a = Some i \<and> au_PrincipalID a = Some (cmd_PrincipalID c) \<and> au_Action a = action \<and>
           au_ResourceID a = ID_String (cmd_RunID c)))"

lemma authorized_changeI:
  assumes "GetRun (cmd_TenantID c) (cmd_RunID c) db = Inr r"
    and "\<exists>x. evaluator (run_input action (ID_String (cmd_RunID c)) attributes c r i now) = Inr x \<and> dec_Allow (pr_Decision x) \<and> dec_DecisionID (pr_Decision x) = ID_String i"
    and "\<exists>a \<in> set (audit_events db'). au_PolicyDecisionID a = Some i \<and> au_PrincipalID a = Some (cmd_PrincipalID c) \<and> au_Action a = action \<and>
      au_ResourceID a = ID_String (cmd_RunID c)"
  shows "authorized_change evaluator action c db db'"
  using assms unfolding authorized_change_def by blast

lemma insert_audit_stored:
  assumes "insert_audit env a db = Inr db'"
  shows "\<exists>x \<in> set (audit_events db'). au_PolicyDecisionID x = au_PolicyDecisionID a \<and> au_PrincipalID x = au_PrincipalID a \<and> au_Action x = au_Action a \<and>
    au_ResourceID x = au_ResourceID a"
  using assms by (auto simp: insert_audit_def and_then_Inr pg_insert_def AuditEvent.defs split: if_splits)

lemma insert_outbox_audit: "insert_outbox m db = Inr db' \<Longrightarrow> audit_events db' = audit_events db"
  by (auto simp: insert_outbox_def and_then_Inr)

lemma cancel_statement_evidence:
  assumes "cancel_statement env c e r final n db = Inr db'" "db' \<noteq> db"
  shows "\<exists>x \<in> set (audit_events db'). au_PolicyDecisionID x = Some (ce_PolicyDecisionID e) \<and> au_PrincipalID x = Some (cancel_ActorPrincipalID c) \<and>
    au_Action x = ''runs.cancel'' \<and> au_ResourceID x = ID_String (cancel_RunID c)"
proof -
  obtain p f db1 k where u: "update_run p f db = Inr (db1, k)"
    and rest: "(if k = 0 then Inr db1 else and_then (insert_signal (cancel_signal c e) db1) (\<lambda>db2. and_then (insert_run_event (cancel_event c e (r_state r) final n) db2) (\<lambda>db3.
      and_then (insert_audit env (cancel_audit c e (r_state r) final n) db3) (insert_outbox (cancel_message c e (r_state r) final n))))) = Inr db'"
    using assms(1) by (auto simp: cancel_statement_def and_then_Inr)
  have "k \<noteq> 0"
  proof
    assume "k = 0"
    then have "update_where p f (runs db) = runs db" using u by (auto simp: update_run_Inr rows_affected_def update_where_def filter_empty_conv intro!: map_idI)
    then show False using u rest assms(2) \<open>k = 0\<close> by (simp add: update_run_Inr)
  qed
  then obtain db3 db4 where a: "insert_audit env (cancel_audit c e (r_state r) final n) db3 = Inr db4" "insert_outbox (cancel_message c e (r_state r) final n) db4 = Inr db'"
    using rest by (auto simp: and_then_Inr)
  show ?thesis using insert_audit_stored[OF a(1)] insert_outbox_audit[OF a(2)] by (simp add: cancel_audit_def)
qed

lemma CancelRun_evidence:
  assumes "CancelRun env t c e db = (res, db')" "db' \<noteq> db"
  shows "\<exists>x \<in> set (audit_events db'). au_PolicyDecisionID x = Some (ce_PolicyDecisionID e) \<and> au_PrincipalID x = Some (cancel_ActorPrincipalID c) \<and>
    au_Action x = ''runs.cancel'' \<and> au_ResourceID x = ID_String (cancel_RunID c)"
proof -
  have "cancel_run env c e db = Inr db'" using assms by (auto simp: CancelRun_def and_then_Inr split: sum.splits if_splits)
  then obtain r final n where "cancel_statement env c e r final n db = Inr db'"
    using assms(2) by (auto simp: cancel_run_def Let_def and_then_Inr split: option.splits if_splits sum.splits)
  then show ?thesis using assms(2) by (rule cancel_statement_evidence)
qed

lemma AppendRunSignal_evidence:
  assumes "AppendRunSignal env t s e db = Inr (event, db')" "db' \<noteq> db"
  shows "\<exists>x \<in> set (audit_events db'). au_PolicyDecisionID x = Some (se_PolicyDecisionID e) \<and> au_PrincipalID x = Some (sig_ActorPrincipalID s) \<and>
    au_Action x = ''runs.signal'' \<and> au_ResourceID x = ID_String (sig_RunID s)"
proof -
  obtain payload r n where "signal_statement env s payload e r n db = Inr db'"
    using assms by (auto simp: AppendRunSignal_def append_signal_def Let_def and_then_Inr split: option.splits if_splits)
  then obtain db3 db4 where a: "insert_audit env (signal_audit s e n) db3 = Inr db4" "insert_outbox (signal_message s payload e n) db4 = Inr db'"
    by (auto simp: signal_statement_def and_then_Inr)
  show ?thesis using insert_audit_stored[OF a(1)] insert_outbox_audit[OF a(2)] by (simp add: signal_audit_def)
qed

text \<open>
  C6: no change of a run without the policy. When a cancellation or a signal of a caller changes the store, the policy has allowed exactly this action of this caller on this run of the caller's tenant,
  and the store then holds an audit event that names the caller, the run and the decision.
\<close>

theorem run_changes_authorized:
  shows "(snd (RunCancellation_Cancel t evaluator env clock c db) \<noteq> db \<longrightarrow>
      authorized_change evaluator ''runs.cancel'' c db (snd (RunCancellation_Cancel t evaluator env clock c db))) \<and>
    (\<forall>event db'. RunSignal_Signal t evaluator env clock s db = Inr (event, db') \<and> db' \<noteq> db \<longrightarrow> authorized_change evaluator ''runs.signal'' s db db')"
proof (intro conjI impI allI)
  let ?target = "\<lambda>record. (ID_String (cmd_RunID c), [(''state'', AStr (RunState_text (run_State (access_Run record)))),
     (''state_version'', integer_value (run_StateVersion (access_Run record))), (''requested_by'', AStr (ID_String (run_RequestedBy (access_Run record))))])"
  assume changed: "snd (RunCancellation_Cancel t evaluator env clock c db) \<noteq> db"
  then obtain ra now i d where a: "run_authorization ''run cancellation'' ''run cancellation'' ''runs.cancel'' ?target t evaluator env clock c db = Inr (ra, now, i, d)"
    by (auto simp: RunCancellation_Cancel_def split: sum.splits if_splits)
  obtain cancellation e where "snd (RunCancellation_Cancel t evaluator env clock c db) = snd (CancelRun env t cancellation e db)"
    and e: "ce_PolicyDecisionID e = i" "cancel_ActorPrincipalID cancellation = cmd_PrincipalID c" "cancel_RunID cancellation = cmd_RunID c"
    using changed by (auto simp: RunCancellation_Cancel_def a Let_def split: sum.splits if_splits)
  then show "authorized_change evaluator ''runs.cancel'' c db (snd (RunCancellation_Cancel t evaluator env clock c db))"
    using CancelRun_evidence[of env t cancellation e db, OF prod.collapse[symmetric]] changed run_authorization_Inr[OF a]
    by (intro authorized_changeI[where r = ra and i = i and now = now and attributes = "snd (?target ra)"]) auto
next
  fix event db'
  let ?target = "\<lambda>record. (ID_String (cmd_RunID s), [(''state'', AStr (RunState_text (run_State (access_Run record)))),
     (''state_version'', integer_value (run_StateVersion (access_Run record))), (''signal_type'', AStr (RunSignalType_text (scmd_Type s)))])"
  assume changed: "RunSignal_Signal t evaluator env clock s db = Inr (event, db') \<and> db' \<noteq> db"
  then obtain ra now i d where a: "run_authorization ''run signal'' ''run signal'' ''runs.signal'' ?target t evaluator env clock s db = Inr (ra, now, i, d)"
    by (auto simp: RunSignal_Signal_def and_then_Inr split: if_splits)
  obtain x e where "AppendRunSignal env t x e db = Inr (event, db')"
    and e: "se_PolicyDecisionID e = i" "sig_ActorPrincipalID x = cmd_PrincipalID s" "sig_RunID x = cmd_RunID s"
    using changed by (auto simp: RunSignal_Signal_def a Let_def split: sum.splits if_splits)
  then show "authorized_change evaluator ''runs.signal'' s db db'"
    using AppendRunSignal_evidence[of env t x e db event db'] changed run_authorization_Inr[OF a]
    by (intro authorized_changeI[where r = ra and i = i and now = now and attributes = "snd (?target ra)"]) auto
qed

text \<open>The revocation covers the caller of the command, its tenant, its run or the agent of the run.\<close>

definition revokes_caller :: "Revocation \<Rightarrow> 'a RunCommand_scheme \<Rightarrow> DB \<Rightarrow> bool" where
  "revokes_caller v c db \<longleftrightarrow>
     rvk_Scope v = RevocationGlobal
     \<or> rvk_Scope v = RevocationTenantID \<and> rvk_Target v = ID_String (cmd_TenantID c)
     \<or> rvk_Scope v = RevocationPrincipalID \<and> rvk_Target v = ID_String (cmd_PrincipalID c)
     \<or> rvk_Scope v = RevocationRunID \<and> rvk_Target v = ID_String (cmd_RunID c)
     \<or> rvk_Scope v = RevocationAgentID \<and> (\<exists>r. find_run (cmd_TenantID c) (cmd_RunID c) db = Some r \<and> rvk_Target v = ID_String (r_agent r))"

lemma isl_and_then: "isl m \<Longrightarrow> isl (and_then m f)"
  by (cases m) simp_all

lemma isl_case: "isl m \<Longrightarrow> (case m of Inl err \<Rightarrow> (Inl err, db) | Inr x \<Rightarrow> f x) = (Inl (projl m), db)"
  by (cases m) simp_all

lemma revoked_authorization:
  assumes "\<And>agent. \<exists>s. AuthoritativeRevocations (cmd_TenantID c) agent (ToUTC instant) db = Inr s \<and> v \<in> set (auth_Active s)"
    and "revokes_caller v c db" "uuid7 (cmd_TenantID c)" "\<And>ra. run_ID (access_Run ra) = cmd_RunID c \<Longrightarrow> fst (target ra) = ID_String (cmd_RunID c)"
  shows "isl (run_authorization service purpose action target (cmd_TenantID c)
    (\<lambda>i. fst (RevocationEvaluator_Decide decide (\<lambda>t a n. AuthoritativeRevocations t a n db) instant i)) env clock c db)"
proof (rule ccontr)
  let ?t = "cmd_TenantID c" and ?authority = "\<lambda>t a n. AuthoritativeRevocations t a n db"
  let ?e = "\<lambda>i. fst (RevocationEvaluator_Decide decide ?authority instant i)"
  assume "\<not> isl (run_authorization service purpose action target ?t ?e env clock c db)"
  then obtain ra now i d where a: "run_authorization service purpose action target ?t ?e env clock c db = Inr (ra, now, i, d)"
    by (cases "run_authorization service purpose action target ?t ?e env clock c db") auto
  let ?i = "run_input action (fst (target ra)) (snd (target ra)) c ra i now"
  note run = GetRun_Inr(4,5)[OF run_authorization_Inr(1)[OF a]]
  have parse: "ParseID (sub_TenantID (in_Subject ?i)) = Inr ?t" using assms(3) by (simp add: run_input_def ParseID_ID_String)
  have matches: "revocationMatches v ?i"
    using assms(2) run assms(4)[OF run(1)] by (auto simp: revokes_caller_def revocationMatches_def run_input_def)
  obtain s where "AuthoritativeRevocations ?t (case in_Agent ?i of None \<Rightarrow> 0 | Some a \<Rightarrow> (case ParseID (pa_ID a) of Inl _ \<Rightarrow> 0 | Inr x \<Rightarrow> x)) (ToUTC instant) db = Inr s"
    "v \<in> set (auth_Active s)" using assms(1) by blast
  then have "\<exists>r. ?e ?i = Inr r \<and> \<not> dec_Allow (pr_Decision r)"
    by (intro matching_input_denied[where authority = ?authority, OF parse _ _ matches])
  then show False using run_authorization_Inr(5,6)[OF a] by auto
qed

text \<open>
  C4: revoked callers are locked out of runs. Once a revocation of everything, of the tenant, of the caller, of the run or of its agent has committed, a query, a cancellation and a signal that are decided by
  the revocation evaluator over the store fail and change nothing while it is in force, whatever the policy behind the evaluator answers and
  whatever transactions other than those of the authority have run in between.
\<close>

theorem revoked_caller_refused:
  assumes "store_inv db" "CreateRevocation env skipped tenant v e db = Inr (res, db1)" "list_all (\<lambda>c. leaves_authority (snd c)) cs" "db2 = run_all store_step cs db1"
    and "uuid7 t" "visible_to t (rvk_TenantID v)" "\<not> IsZeroTime instant" "unix_nano (rvk_EffectiveAt (rres_Revocation res)) \<le> unix_nano instant"
    and "case rvk_ExpiresAt (rres_Revocation res) of None \<Rightarrow> True | Some x \<Rightarrow> unix_nano instant < unix_nano x"
    and "evaluator = (\<lambda>i. fst (RevocationEvaluator_Decide decide (\<lambda>t a n. AuthoritativeRevocations t a n db2) instant i))"
    and "cmd_TenantID c = t" "revokes_caller (rres_Revocation res) c db2" "cmd_TenantID s = t" "revokes_caller (rres_Revocation res) s db2"
  shows "isl (RunQuery_Get t evaluator env' clock c db2) \<and> isl (fst (RunCancellation_Cancel t evaluator env' clock c db2)) \<and>
    snd (RunCancellation_Cancel t evaluator env' clock c db2) = db2 \<and> isl (RunSignal_Signal t evaluator env' clock s db2)"
proof -
  have now: "unix_nano (ToUTC instant) = unix_nano instant" "IsZeroTime (ToUTC instant) = IsZeroTime instant" by (simp_all add: ToUTC_def IsZeroTime_def)
  have r: "revocation_inv db" using assms(1) by (simp add: store_inv_def)
  have "\<exists>s. AuthoritativeRevocations t agent (ToUTC instant) db1 = Inr s \<and> rres_Revocation res \<in> set (auth_Active s)" for agent
    using created_revocation_read[OF r assms(2,6) uuid7_not_zero[OF assms(5)], where now = "ToUTC instant" and agent = agent, unfolded now, OF assms(7-9)] by blast
  then have active: "\<exists>s. AuthoritativeRevocations t agent (ToUTC instant) db2 = Inr s \<and> rres_Revocation res \<in> set (auth_Active s)" for agent
    using authority_read_same[OF run_all_authority[OF assms(3)], of t agent "ToUTC instant" db1] by (simp add: assms(4))
  note refused = revoked_authorization[where instant = instant and decide = decide and clock = clock and env = env' and v = "rres_Revocation res" and db = db2, folded assms(10)]
  have c: "isl (run_authorization service purpose action target t evaluator env' clock c db2)"
    if "\<And>ra. run_ID (access_Run ra) = cmd_RunID c \<Longrightarrow> fst (target ra) = ID_String (cmd_RunID c)" for service purpose action target
    using refused[of c target, unfolded assms(11), OF active assms(12,5) that] .
  have s: "isl (run_authorization service purpose action target t evaluator env' clock s db2)"
    if "\<And>ra. run_ID (access_Run ra) = cmd_RunID s \<Longrightarrow> fst (target ra) = ID_String (cmd_RunID s)" for service purpose action target
    using refused[of s target, unfolded assms(13), OF active assms(14,5) that] .
  show ?thesis
    by (intro conjI; simp add: RunQuery_Get_def RunCancellation_Cancel_def RunSignal_Signal_def isl_and_then c s isl_case)
qed

section \<open>The stream of a run\<close>

text \<open>
  C14: the event stream neither repeats nor skips. A successful read returns exactly the events that follow the cursor, or for the initial cursor zero the beginning of the retained window, in order
  and as many as the limit allows; a positive cursor is only ever served when it lies within the window.
\<close>

theorem event_stream_exact:
  assumes "runs_inv db" "RunEventStream_Events t retain run after limit db = Inr es" "latest = int (length (run_events_of t run db))"
    and "start = (if after = 0 then max 0 (latest - retain) else after)"
  shows "map event_Sequence es = [start + 1..min (start + limit) latest] \<and> max 0 (latest - retain) \<le> start \<and> list_all (\<lambda>e. event_RunID e = run) es"
proof -
  note D = assms(2)[unfolded RunEventStream_Events_def Let_def]
  have after: "0 \<le> after" using D by (auto split: if_splits)
  obtain w where w: "ListRunEvents t run after limit db = Inr w" using D by (auto split: if_splits sum.splits)
  note page = run_event_page_exact[OF assms(1) w]
  have floor: "retention_floor retain w = max 0 (latest - retain)"
    using page by (auto simp: retention_floor_def Let_def assms(3))
  have run: "list_all (\<lambda>e. event_RunID e = run) es" if "events_ordered run n es" for n
    using that by (induction run n es rule: events_ordered.induct) (auto split: if_splits)
  show ?thesis
  proof (cases "after = 0 \<and> 0 < retention_floor retain w")
    case True
    then obtain v where v: "ListRunEvents t run (retention_floor retain w) limit db = Inr v" "es = window_Events v" "events_ordered run (retention_floor retain w) es"
      using D True w by (cases "ListRunEvents t run (retention_floor retain w) limit db") (auto simp: and_then_Inr split: if_splits)
    show ?thesis using run_event_page_exact[OF assms(1) v(1)] v(2) run[OF v(3)] True floor by (simp add: assms(3,4))
  next
    case False
    then have "es = window_Events w" "retention_floor retain w \<le> after" "events_ordered run after es" using D after by (auto simp: w and_then_Inr split: if_splits)
    then show ?thesis using page run floor False after by (auto simp: assms(3,4))
  qed
qed

section \<open>Witnesses\<close>

definition reconciler_env :: Env where
  "reconciler_env = demo_env\<lparr>env_NewID := \<lambda>k. Inr ([demo_id 76, demo_id 62, demo_id 77, demo_id 78, demo_id 79] ! (k mod 5))\<rparr>"

lemma expired_db_store_inv: "store_inv expired_db"
proof -
  have "runs_inv expired_db"
    by (simp add: runs_inv_def events_ok_def run_events_of_def delegated_db_def demo_rows demo_ids unique_key_def run_row_ok_def run_check_def int64_simps RunState_Valid_def)
  moreover have "revocation_inv expired_db" using demo_db_revocation_inv same_authority_inv[of demo_db expired_db] by (simp add: same_authority_def delegated_db_def)
  ultimately show ?thesis using delegated_db_inv by (simp add: store_inv_def)
qed

lemma demo_reconciliation_round:
  "\<exists>res. ReconcileResources reconciler_env (demo_time 600) demo_tenant reconciler 1 expired_db = ([res], None, reconciled_db)"
proof -
  obtain res where r: "ReconcileNextReservation demo_env demo_tenant reconciler (demo_time 600) demo_reconciliation_evidence expired_db = Inr (res, reconciled_db)"
    using demo_reconciliation_run(1) by blast
  have same: "insert_audit reconciler_env = insert_audit demo_env" "env_sha256 reconciler_env = env_sha256 demo_env"
    by (intro ext) (simp_all add: insert_audit_def hashAuditEvent_def reconciler_env_def)
  have "reconcile_selected reconciler_env = reconcile_selected demo_env"
    by (intro ext) (simp only: reconcile_selected_def same)
  then have n: "ReconcileNextReservation reconciler_env demo_tenant reconciler (demo_time 600) demo_reconciliation_evidence expired_db = Inr (res, reconciled_db)"
    using r by (simp only: ReconcileNextReservation_def)
  have ids: "new_ids reconciler_env 0 5 = Inr [demo_id 76, demo_id 62, demo_id 77, demo_id 78, demo_id 79]"
  proof -
    have "new_ids reconciler_env 0 (Suc (Suc (Suc (Suc (Suc 0))))) = Inr [demo_id 76, demo_id 62, demo_id 77, demo_id 78, demo_id 79]"
      by (simp add: reconciler_env_def)
    then show ?thesis by (simp add: numeral_eq_Suc)
  qed
  have e: "reconciliation_evidence [demo_id 76, demo_id 62, demo_id 77, demo_id 78, demo_id 79] = demo_reconciliation_evidence"
    by (simp add: reconciliation_evidence_def demo_reconciliation_evidence_def)
  have stop: "reconcile_rounds reconciler_env demo_tenant reconciler (demo_time 600) 1 [res] reconciled_db = ([res], None, reconciled_db)"
    by (subst reconcile_rounds.simps) simp
  have "reconcile_rounds reconciler_env demo_tenant reconciler (demo_time 600) 1 [] expired_db = ([res], None, reconciled_db)"
    by (subst reconcile_rounds.simps) (simp only: list.size mult_0_right ids e n sum.case prod.case append_Nil stop zero_less_one if_True)
  moreover have "RequireUTC (demo_time 600) = Inr (demo_time 600)" "\<not> IsZeroTime (demo_time 600)" "\<not> IsZero demo_tenant" "\<not> IsZero reconciler"
    by (simp_all add: RequireUTC_eq demo_time_def Unix_UTC_def int64_simps IsZeroTime_def zero_nano_def demo_tenant_def reconciler_def)
  ultimately show ?thesis by (simp add: ReconcileResources_def maxResourceReconciliationBatch_def)
qed

theorem reconciliation_terminates_witness:
  "store_inv expired_db \<and> (\<exists>res db. ReconcileResources reconciler_env (demo_time 600) demo_tenant reconciler 1 expired_db = ([res], None, db) \<and>
     Suc (open_reservations db) = open_reservations expired_db)"
proof -
  obtain res where r: "ReconcileResources reconciler_env (demo_time 600) demo_tenant reconciler 1 expired_db = ([res], None, reconciled_db)"
    using demo_reconciliation_round by blast
  show ?thesis using reconciliation_terminates[OF expired_db_store_inv r] r expired_db_store_inv by auto
qed

definition demo_lease :: RunLease where
  "demo_lease = \<lparr>lease_RunID = parent_run, lease_TenantID = demo_tenant, lease_LeaseID = demo_id 301, lease_WorkerID = operator, lease_FencingToken = 2, lease_ExpiresAt = demo_time 200\<rparr>"

lemma demo_time_utc: "int64 n \<Longrightarrow> RequireUTC (demo_time n) = Inr (demo_time n)" "n \<noteq> zero_nano \<Longrightarrow> \<not> IsZeroTime (demo_time n)"
  by (simp_all add: RequireUTC_eq demo_time_def Unix_UTC_def IsZeroTime_def)


definition demo_command :: RunCommand where
  "demo_command = \<lparr>cmd_TenantID = demo_tenant, cmd_PrincipalID = requester, cmd_RequestID = demo_id 410, cmd_RunID = parent_run, cmd_Roles = [''operator''], cmd_Issuer = ''https://issuer'',
     cmd_SecurityState = in_SecurityState demo_input\<rparr>"

definition demo_cancel_command :: CancelCommand where
  "demo_cancel_command = RunCommand.extend demo_command \<lparr>cmd_IdempotencyKey = ''1'', cmd_ReasonCode = [], cmd_ExpectedStateVersion = None\<rparr>"

definition demo_signal_command :: SignalCommand where
  "demo_signal_command = RunCommand.extend demo_command \<lparr>scmd_IdempotencyKey = ''2'', scmd_Type = RunSignalResume,
     scmd_Payload = \<lparr>raw_length = 2, raw_value = Some (JObj [])\<rparr>, scmd_ExpectedStateVersion = None\<rparr>"

lemmas demo_commands = demo_command_def demo_cancel_command_def demo_signal_command_def RunCommand.defs CancelCommand.defs SignalCommand.defs

lemma demo_run_read: "\<exists>ra. GetRun demo_tenant parent_run served_db = Inr ra"
  by (simp add: GetRun_def repository_valid_def run_projection_def decode_id_def decode_parent_def find_run_def served_db_def demo_rows demo_ids ParseID_ID_String wrapping_def Run_Validate_def
      AgentRiskClass_Valid_def demo_digest RequireUTC_eq Unix_UTC_def ToUTC_def IsZeroTime_def zero_nano_def int64_simps Before_def RunState_Valid_def Let_def)

definition deny_all :: evaluator where
  "deny_all i = Inr (denied i ''action.not_permitted'')"

theorem denied_run_hidden_witness:
  "(\<exists>ra. GetRun demo_tenant parent_run served_db = Inr ra) \<and>
   RunQuery_Get demo_tenant deny_all demo_env (demo_time 100) demo_command served_db = RunQuery_Get demo_tenant deny_all demo_env (demo_time 100) demo_command empty_db"
proof -
  obtain ra where g: "GetRun demo_tenant parent_run served_db = Inr ra" using demo_run_read by blast
  have m: "find_run demo_tenant parent_run empty_db = None" by (simp add: find_run_def empty_db_def)
  have z: "\<not> IsZero demo_tenant" "\<not> IsZero parent_run" by (simp_all add: demo_ids)
  have now: "RequireUTC (demo_time 100) = Inr (demo_time 100)" by (simp add: demo_time_utc int64_simps)
  have denies: "policy_denies deny_all (demo_id 100)" by (simp add: policy_denies_def deny_all_def denied_def)
  show ?thesis
    using denied_run_hidden[OF g m z now demo_new_id[of 0, simplified] denies, of demo_command demo_cancel_command demo_signal_command] g
    by (simp add: demo_commands)
qed

definition allow_all :: evaluator where
  "allow_all i = Inr \<lparr>pr_Decision = demo_decision\<lparr>dec_DecisionID := in_DecisionID i\<rparr>, pr_Metadata = pr_Metadata (denied i [])\<rparr>"

lemma demo_evidence_ids: "new_ids demo_env 1 4 = Inr [demo_id 101, demo_id 102, demo_id 103, demo_id 104]"
proof -
  have "new_ids demo_env 1 (Suc (Suc (Suc (Suc 0)))) = Inr [demo_id 101, demo_id 102, demo_id 103, demo_id 104]"
    by (simp add: demo_new_id)
  then show ?thesis by (simp add: numeral_eq_Suc)
qed

lemma demo_service_cancel:
  "\<exists>run db. RunCancellation_Cancel demo_tenant allow_all demo_env (demo_time 100) demo_cancel_command served_db = (Inr run, db) \<and> db \<noteq> served_db"
proof -
  let ?e = "\<lparr>ce_SignalID = demo_id 101, ce_EventID = demo_id 102, ce_AuditID = demo_id 103, ce_OutboxID = demo_id 104, ce_RequestID = demo_id 410, ce_PolicyDecisionID = demo_id 100,
    ce_ReasonCodes = [''agent.invoke.allowed'']\<rparr>"
  have keys: "\<not> restricted_key ''event_sequence''" "\<not> restricted_key ''previous_state''" "\<not> restricted_key ''reason_code''" "\<not> restricted_key ''state''" "\<not> restricted_key ''state_version''"
    by code_simp+
  have "\<exists>run db. CancelRun demo_env demo_tenant demo_cancellation ?e served_db = (Inr run, db)"
    by (simp add: keys actorAllowed_def Before_def Run_Validate_def AgentRiskClass_Valid_def cancel_eval worker_eval served_db_def demo_cancellation_def demo_rows demo_ids Let_def int64_simps
       demo_digest RequireUTC_eq Unix_UTC_def IsZeroTime_def zero_nano_def ToUTC_def)
  then obtain run db where c: "CancelRun demo_env demo_tenant demo_cancellation ?e served_db = (Inr run, db)" by blast
  have "cancel_run demo_env demo_cancellation ?e served_db = Inr db" using c by (auto simp: CancelRun_def and_then_Inr split: sum.splits if_splits)
  then have "db \<noteq> served_db"
    using cancel_run_ends[of demo_env demo_cancellation ?e served_db db] by (auto simp: demo_cancellation_def find_run_def served_db_def demo_db_def demo_run_def)
  moreover have ids: "\<not> IsZero demo_tenant" "\<not> IsZero parent_run" "\<not> IsZero requester" by (simp_all add: demo_ids)
  obtain ra where g: "GetRun demo_tenant parent_run served_db = Inr ra" using demo_run_read by blast
  have "RunCancellation_Validate demo_cancellation = Inr demo_cancellation"
    by (simp add: RunCancellation_Validate_def demo_cancellation_def demo_ids RequireUTC_eq demo_time_def IsZeroTime_def zero_nano_def)
  then have "RunCancellation_Cancel demo_tenant allow_all demo_env (demo_time 100) demo_cancel_command served_db = CancelRun demo_env demo_tenant demo_cancellation ?e served_db"
    using GetRun_Inr(1-3)[OF g] g ids demo_new_id[of 0]
    by (simp add: RunCancellation_Cancel_def run_authorization_def command_incomplete_def demo_commands demo_time_utc int64_simps demo_evidence_ids[unfolded One_nat_def] allow_all_def run_input_def
        demo_cancellation_def reason_codes_def demo_decision_def Let_def)
  ultimately show ?thesis using c by auto
qed

theorem run_changes_authorized_witness:
  "\<exists>run db. RunCancellation_Cancel demo_tenant allow_all demo_env (demo_time 100) demo_cancel_command served_db = (Inr run, db) \<and>
     authorized_change allow_all ''runs.cancel'' demo_cancel_command served_db db"
proof -
  obtain run db where c: "RunCancellation_Cancel demo_tenant allow_all demo_env (demo_time 100) demo_cancel_command served_db = (Inr run, db)" "db \<noteq> served_db"
    using demo_service_cancel by blast
  then show ?thesis
    using run_changes_authorized[of demo_tenant allow_all demo_env "demo_time 100" demo_cancel_command served_db demo_signal_command] by auto
qed

lemma run_revoked_served:
  "\<exists>res db. CreateRevocation demo_env 0 demo_tenant run_revocation (demo_revocation_evidence 80) served_db = Inr (res, db) \<and> rres_Revocation res = run_revocation"
proof -
  have "ValidateRevocation run_revocation = Inr run_revocation"
    using demo_revocation_valid(1)
    by (auto simp: ValidateRevocation_def run_revocation_def demo_revocation_def RevocationScope_Valid_def Let_def split: if_splits sum.splits)
  then show ?thesis
    by (simp add: revocation_eval run_revocation_def demo_revocation_def demo_revocation_evidence_def demo_epochs_def served_db_def demo_rows demo_ids demo_digest Let_def int64_simps)
qed

theorem revoked_caller_refused_witness:
  "\<exists>res db. CreateRevocation demo_env 0 demo_tenant run_revocation (demo_revocation_evidence 80) served_db = Inr (res, db) \<and>
     snd (RunCancellation_Cancel demo_tenant (\<lambda>i. fst (RevocationEvaluator_Decide allow_all (\<lambda>t a n. AuthoritativeRevocations t a n db) (demo_time 150) i))
       demo_env (demo_time 150) demo_cancel_command db) = db"
proof -
  obtain res db where c: "CreateRevocation demo_env 0 demo_tenant run_revocation (demo_revocation_evidence 80) served_db = Inr (res, db)"
    and res: "rres_Revocation res = run_revocation" using run_revoked_served by blast
  have n: "db = run_all store_step [] db" "list_all (\<lambda>c. leaves_authority (snd c)) []" by simp_all
  have "snd (RunCancellation_Cancel demo_tenant (\<lambda>i. fst (RevocationEvaluator_Decide allow_all (\<lambda>t a n. AuthoritativeRevocations t a n db) (demo_time 150) i))
       demo_env (demo_time 150) demo_cancel_command db) = db"
    by (rule revoked_caller_refused[OF served_db_store_inv c n(2,1), where s = demo_signal_command and instant = "demo_time 150" and decide = allow_all, THEN conjunct2, THEN conjunct2, THEN conjunct1])
      (simp_all add: demo_uuid res run_revocation_def demo_revocation_def visible_to_def demo_time_def IsZeroTime_def zero_nano_def revokes_caller_def demo_commands)
  then show ?thesis using c by blast
qed

lemma evented_db_inv: "runs_inv evented_db"
proof -
  have five: "[1..5] = [1, 2, 3, 4, 5 :: int]" by code_simp
  have "run_events_of t i evented_db = (if t = demo_tenant \<and> i = parent_run then run_events evented_db else [])" for t i
    by (simp add: run_events_of_def evented_db_def five)
  then have "events_ok evented_db" by (simp add: events_ok_def evented_db_def five o_def)
  moreover have "runs_inv demo_db" using demo_db_store_inv by (simp add: store_inv_def)
  ultimately show ?thesis by (simp add: runs_inv_def evented_db_def)
qed

theorem event_stream_exact_witness:
  "\<exists>es. RunEventStream_Events demo_tenant 3 parent_run 0 2 evented_db = Inr es \<and> map event_Sequence es = [3, 4]"
proof -
  have five: "[1..5] = [1, 2, 3, 4, 5 :: int]" by code_simp
  have "signalNamePattern ''run.heartbeat''" by code_simp
  then have "\<exists>es. RunEventStream_Events demo_tenant 3 parent_run 0 2 evented_db = Inr es"
    by (simp add: RunEventStream_Events_def ListRunEvents_def repository_valid_def find_run_def run_events_of_def evented_db_def five scan_run_event_def ParseID_ID_String Let_def
       retention_floor_def RunEvent_Validate_def RequireUTC_eq IsZeroTime_def zero_nano_def ToUTC_def demo_rows demo_ids)
  then obtain es where es: "RunEventStream_Events demo_tenant 3 parent_run 0 2 evented_db = Inr es" ..
  have "length (run_events_of demo_tenant parent_run evented_db) = 5" by (simp add: run_events_of_def evented_db_def five)
  then show ?thesis using event_stream_exact[OF evented_db_inv es refl refl] es by (simp add: upto_rec1)
qed

end
