(* ===== verification/Distribution.thy ===== *)
theory Distribution
  imports Services
begin

text \<open>
  The distribution of revocations to gateways (internal/application/revocation_distribution.go): the authorization of a gateway, the deltas
  and checkpoints of its stream, and the reconciliation that answers a delta or a full snapshot and moves the gateway's checkpoint.
\<close>

section \<open>Distribution to gateways\<close>

definition maxRevocationDelta :: int where
  "maxRevocationDelta = 10000"

record ReconcileRevocations =
  rq_TenantID :: ID
  rq_GatewayPrincipalID :: ID
  rq_Roles :: "string list"
  rq_LastSequence :: int
  rq_Epochs :: EpochVector

record RevocationReconciliation =
  out_Mode :: string
  out_AuthoritativeSequence :: int
  out_Epochs :: EpochVector
  out_Changes :: "RevocationLogEntry list"
  out_Snapshot :: "Revocation list"
  out_SnapshotDigest :: string
  out_ReconciledAt :: Time

definition authorizeGateway :: "evaluator \<Rightarrow> Env \<Rightarrow> Time \<Rightarrow> ID \<Rightarrow> ID \<Rightarrow> string list \<Rightarrow> unit result" where
  "authorizeGateway evaluator env clock tenant caller roles =
     (if IsZero tenant \<or> IsZero caller then Inl (NewError CodeUnauthenticated ''verified gateway identity is invalid'')
      else case RequireUTC clock of
          Inl _ \<Rightarrow> Inl (NewError CodeInternal ''revocation distribution clock is invalid'')
        | Inr now \<Rightarrow>
            (case env_NewID env 0 of
               Inl _ \<Rightarrow> Inl (NewError CodeInternal ''could not generate gateway authorization identifier'')
             | Inr decisionID \<Rightarrow>
                 (case evaluator
                    \<lparr>in_ContractVersion = ContractVersion, in_DecisionID = ID_String decisionID, in_RequestTime = now,
                     in_Subject = \<lparr>sub_PrincipalID = ID_String caller, sub_TenantID = ID_String tenant, sub_PrincipalType = ''gateway'',
                       sub_Roles = NormalizeStrings (Some roles), sub_AuthenticationMethods = None, sub_Issuer = []\<rparr>,
                     in_Action = ''revocations.reconcile'',
                     in_Resource = \<lparr>res_Type = ''revocation'', res_ID = ID_String tenant, res_TenantID = ID_String tenant, res_Attributes = Some []\<rparr>,
                     in_Agent = None, in_RequestedConstraints = Some [], in_AuthorityConstraints = Some [],
                     in_SecurityState = \<lparr>ss_GlobalEpoch = 0, ss_TenantPolicyEpoch = 0, ss_TenantRevocationEpoch = 0, ss_AgentRevocationEpoch = 0,
                       ss_AgeSeconds = 0, ss_FreshnessMaxAgeSeconds = 0, ss_HasGap = False, ss_Authoritative = True\<rparr>,
                     in_Context = \<lparr>ctx_RequestID = ID_String decisionID, ctx_SourceWorkload = []\<rparr>\<rparr> of
                    Inl err \<Rightarrow> Inl (WithRetryable (WrapError CodeUnavailable ''gateway authorization policy is unavailable'' err))
                  | Inr r \<Rightarrow>
                      if dec_DecisionID (pr_Decision r) \<noteq> ID_String decisionID
                      then Inl (WithRetryable (NewError CodeUnavailable ''gateway authorization policy returned invalid evidence''))
                      else if \<not> dec_Allow (pr_Decision r) then Inl (NewError CodeForbidden ''gateway revocation access is not authorized'')
                      else Inr ())))"

definition RevocationDistribution_Changes :: "Duration \<Rightarrow> evaluator \<Rightarrow> Env \<Rightarrow> Time \<Rightarrow> ID \<Rightarrow> ID \<Rightarrow> string list \<Rightarrow> int \<Rightarrow> int \<Rightarrow> DB \<Rightarrow> RevocationLogEntry list result" where
  "RevocationDistribution_Changes retention evaluator env clock tenant gateway roles after limit db =
     and_then (authorizeGateway evaluator env clock tenant gateway roles) (\<lambda>_.
     and_then (RequireUTC clock) (\<lambda>now.
       RevocationChanges tenant after limit (AddDuration now (- retention)) db))"

definition CheckpointStream :: "evaluator \<Rightarrow> Env \<Rightarrow> Time \<Rightarrow> ID \<Rightarrow> ID \<Rightarrow> string list \<Rightarrow> int \<Rightarrow> EpochVector \<Rightarrow> DB \<Rightarrow> DB result" where
  "CheckpointStream evaluator env clock tenant gateway roles sequence epochs db =
     and_then (authorizeGateway evaluator env clock tenant gateway roles) (\<lambda>_.
     and_then (RequireUTC clock) (\<lambda>now.
       SaveGatewayCheckpoint \<lparr>gw_TenantID = tenant, gw_GatewayPrincipalID = gateway, gw_LastSequence = sequence, gw_Epochs = epochs,
         gw_LastStreamReceivedAt = Some now, gw_LastReconciledAt = None, gw_UpdatedAt = now\<rparr> db))"

text \<open>
  The encoding of a revocation; the zero identifier and times outside the years 0 to 9999 are refused. The encoder's error is dropped, and
  the digest is then that of no bytes at all.
\<close>

definition id_json :: "ID \<Rightarrow> json option" where
  "id_json i = (if IsZero i then None else Some (JStr (ID_String i)))"

definition nullable_json :: "('a \<Rightarrow> json option) \<Rightarrow> 'a option \<Rightarrow> json option" where
  "nullable_json f v = (case v of None \<Rightarrow> Some JNull | Some x \<Rightarrow> f x)"

definition revocation_json :: "Revocation \<Rightarrow> json option" where
  "revocation_json v =
     (case (id_json (rvk_ID v), id_json (rvk_ActorPrincipalID v), nullable_json id_json (rvk_TenantID v), time_json (rvk_EffectiveAt v),
            nullable_json time_json (rvk_ExpiresAt v), time_json (rvk_CreatedAt v)) of
        (Some i, Some actor, Some tenant, Some effective, Some expires, Some created) \<Rightarrow>
          Some (JObj [(''ID'', i), (''ActorPrincipalID'', actor), (''TenantID'', tenant), (''Scope'', JStr (RevocationScope_text (rvk_Scope v))),
            (''Target'', JStr (rvk_Target v)), (''ReasonCode'', JStr (rvk_ReasonCode v)), (''DetailReference'', JStr (rvk_DetailReference v)),
            (''ApprovalReference'', JStr (rvk_ApprovalReference v)), (''EffectiveAt'', effective), (''ExpiresAt'', expires), (''CreatedAt'', created)])
      | _ \<Rightarrow> None)"

definition snapshot_text :: "Revocation list \<Rightarrow> string" where
  "snapshot_text vs =
     (if vs = [] then json_text JNull
      else let js = map revocation_json (sort_key (ID_String \<circ> rvk_ID) vs) in
        if list_ex (\<lambda>j. j = None) js then [] else json_text (JArr (map the js)))"

definition RevocationDistribution_Reconcile :: "Duration \<Rightarrow> evaluator \<Rightarrow> Env \<Rightarrow> Time \<Rightarrow> ReconcileRevocations \<Rightarrow> DB \<Rightarrow> (RevocationReconciliation \<times> DB) result" where
  "RevocationDistribution_Reconcile retention evaluator env clock c db =
     and_then (authorizeGateway evaluator env clock (rq_TenantID c) (rq_GatewayPrincipalID c) (rq_Roles c)) (\<lambda>_.
       if rq_LastSequence c < 0 then Inl (NewError CodeInvalidArgument ''reconciliation cursor is invalid'')
       else and_then (RequireUTC clock) (\<lambda>now.
         and_then (RevocationSnapshot (rq_TenantID c) now db) (\<lambda>snapshot.
           let out = \<lparr>out_Mode = ''delta'', out_AuthoritativeSequence = snap_Sequence snapshot, out_Epochs = snap_Epochs snapshot, out_Changes = [],
                 out_Snapshot = [], out_SnapshotDigest = [], out_ReconciledAt = now\<rparr>
           in if rq_LastSequence c > snap_Sequence snapshot \<or> Security (rq_Epochs c) > Security (snap_Epochs snapshot)
                \<or> TenantPolicy (rq_Epochs c) > TenantPolicy (snap_Epochs snapshot) \<or> TenantRevocation (rq_Epochs c) > TenantRevocation (snap_Epochs snapshot)
              then Inl (NewError CodeConflict ''gateway state is ahead of authority'')
              else
                let changes = RevocationChanges (rq_TenantID c) (rq_LastSequence c) (maxRevocationDelta + 1) (AddDuration now (- retention)) db;
                    full = out\<lparr>out_Mode := ''snapshot'', out_Snapshot := snap_Active snapshot,
                      out_SnapshotDigest := digest_text (env_sha256 env) (snapshot_text (snap_Active snapshot))\<rparr>
                in and_then (case changes of
                     Inl err \<Rightarrow> if errors_Is err ErrRevocationCursorGone then Inr full else Inl err
                   | Inr entries \<Rightarrow> if int (length entries) > maxRevocationDelta then Inr full else Inr (out\<lparr>out_Changes := entries\<rparr>)) (\<lambda>out.
                   and_then (SaveGatewayCheckpoint \<lparr>gw_TenantID = rq_TenantID c, gw_GatewayPrincipalID = rq_GatewayPrincipalID c,
                       gw_LastSequence = out_AuthoritativeSequence out, gw_Epochs = out_Epochs out, gw_LastStreamReceivedAt = None,
                       gw_LastReconciledAt = Some now, gw_UpdatedAt = now\<rparr> db) (\<lambda>db. Inr (out, db))))))"

lemma reconcile_Inr:
  assumes "RevocationDistribution_Reconcile retention evaluator env clock c db = Inr (out, db')"
  obtains now where "RequireUTC clock = Inr now" "0 \<le> rq_LastSequence c" "rq_LastSequence c \<le> max_sequence (rq_TenantID c) db"
    "out_AuthoritativeSequence out = max_sequence (rq_TenantID c) db" "out_ReconciledAt out = now"
    "(out_Mode out = ''delta'' \<and> RevocationChanges (rq_TenantID c) (rq_LastSequence c) 10001 (AddDuration now (- retention)) db = Inr (out_Changes out) \<and> length (out_Changes out) \<le> 10000) \<or>
     (out_Mode out = ''snapshot'' \<and> out_Snapshot out = map distributed_revocation (active_revocations (rq_TenantID c) now db))"
    "SaveGatewayCheckpoint \<lparr>gw_TenantID = rq_TenantID c, gw_GatewayPrincipalID = rq_GatewayPrincipalID c, gw_LastSequence = out_AuthoritativeSequence out, gw_Epochs = out_Epochs out,
       gw_LastStreamReceivedAt = None, gw_LastReconciledAt = Some now, gw_UpdatedAt = now\<rparr> db = Inr db'"
proof -
  note D = assms[unfolded RevocationDistribution_Reconcile_def Let_def]
  obtain now where now: "RequireUTC clock = Inr now" using D by (auto simp: and_then_Inr split: if_splits)
  obtain s where s: "RevocationSnapshot (rq_TenantID c) now db = Inr s" using D by (auto simp: and_then_Inr now split: if_splits)
  have snap: "snap_Sequence s = max_sequence (rq_TenantID c) db" "snap_Active s = map distributed_revocation (active_revocations (rq_TenantID c) now db)"
    using s by (auto simp: RevocationSnapshot_def split: if_splits)
  let ?changes = "RevocationChanges (rq_TenantID c) (rq_LastSequence c) (maxRevocationDelta + 1) (AddDuration now (- retention)) db"
  show ?thesis
    by (cases ?changes) (use D snap in \<open>auto simp: and_then_Inr now s maxRevocationDelta_def split: if_splits intro!: that\<close>)
qed

lemma checkpoint_saved:
  assumes "SaveGatewayCheckpoint c db = Inr db'"
  shows "\<exists>cp \<in> set (gateway_checkpoints db'). checkpoint_key cp = (gw_TenantID c, gw_GatewayPrincipalID c) \<and> cp_last_sequence cp = gw_LastSequence c"
    "revocations db' = revocations db" "revocation_log db' = revocation_log db"
proof -
  let ?k = "(gw_TenantID c, gw_GatewayPrincipalID c)"
  note D = assms[unfolded SaveGatewayCheckpoint_def Let_def]
  show "revocations db' = revocations db" "revocation_log db' = revocation_log db" using D by (auto split: if_splits option.splits)
  show "\<exists>cp \<in> set (gateway_checkpoints db'). checkpoint_key cp = ?k \<and> cp_last_sequence cp = gw_LastSequence c"
  proof (cases "List.find (\<lambda>r. checkpoint_key r = ?k) (gateway_checkpoints db)")
    case None
    then have "new_checkpoint c \<in> set (gateway_checkpoints db')" using D by (auto split: if_splits)
    then show ?thesis by (rule bexI[rotated]) (simp add: checkpoint_key_def new_checkpoint_def)
  next
    case (Some r)
    then have r: "r \<in> set (gateway_checkpoints db)" "checkpoint_key r = ?k" by (auto simp: find_Some_iff)
    then have "checkpoint_update c r \<in> set (gateway_checkpoints db')" using D Some by (auto simp: update_where_def split: if_splits)
    then show ?thesis using r(2) by (intro bexI[of _ "checkpoint_update c r"]) (simp_all add: checkpoint_key_def checkpoint_update_def)
  qed
qed

text \<open>
  C8: a gateway that reconciles misses nothing. Where commit times follow the log numbers, a successful reconciliation either returns, in order, the number of every change that the gateway's tenant sees after its
  cursor, or returns the revocations in force; the gateway's checkpoint then stands at the authoritative sequence, which no visible log entry exceeds.
\<close>

theorem gateway_reconciliation_complete:
  assumes "revocation_inv db" "sorted (map (unix_nano \<circ> rl_committed) (revocation_log db))"
    and "RevocationDistribution_Reconcile retention evaluator env clock c db = Inr (out, db')"
  shows "(out_Mode out = ''delta'' \<and> map log_Sequence (out_Changes out) = map rl_sequence (filter (\<lambda>l. visible_to (rq_TenantID c) (rl_tenant l) \<and> rq_LastSequence c < rl_sequence l) (revocation_log db)) \<or>
      out_Mode out = ''snapshot'' \<and> (\<forall>r \<in> set (revocations db). visible_to (rq_TenantID c) (rk_tenant r) \<and> revocation_active (out_ReconciledAt out) db r \<longrightarrow> distributed_revocation r \<in> set (out_Snapshot out))) \<and>
    (\<forall>l \<in> set (revocation_log db). visible_to (rq_TenantID c) (rl_tenant l) \<longrightarrow> rl_sequence l \<le> out_AuthoritativeSequence out) \<and>
    (\<exists>cp \<in> set (gateway_checkpoints db'). checkpoint_key cp = (rq_TenantID c, rq_GatewayPrincipalID c) \<and> cp_last_sequence cp = out_AuthoritativeSequence out) \<and>
    revocations db' = revocations db \<and> revocation_log db' = revocation_log db"
  using assms(3)
proof (rule reconcile_Inr)
  fix now
  assume o: "out_AuthoritativeSequence out = max_sequence (rq_TenantID c) db" "out_ReconciledAt out = now"
    and mode: "(out_Mode out = ''delta'' \<and> RevocationChanges (rq_TenantID c) (rq_LastSequence c) 10001 (AddDuration now (- retention)) db = Inr (out_Changes out) \<and> length (out_Changes out) \<le> 10000) \<or>
     (out_Mode out = ''snapshot'' \<and> out_Snapshot out = map distributed_revocation (active_revocations (rq_TenantID c) now db))"
    and save: "SaveGatewayCheckpoint \<lparr>gw_TenantID = rq_TenantID c, gw_GatewayPrincipalID = rq_GatewayPrincipalID c, gw_LastSequence = out_AuthoritativeSequence out, gw_Epochs = out_Epochs out,
       gw_LastStreamReceivedAt = None, gw_LastReconciledAt = Some now, gw_UpdatedAt = now\<rparr> db = Inr db'"
  have max: "rl_sequence l \<le> foldr (\<lambda>l n. if visible_to t (rl_tenant l) then max (rl_sequence l) n else n) ls 0"
    if "l \<in> set ls" "visible_to t (rl_tenant l)" for l t ls
    using that by (induction ls) auto
  have "map log_Sequence (out_Changes out) = map rl_sequence (filter (\<lambda>l. visible_to (rq_TenantID c) (rl_tenant l) \<and> rq_LastSequence c < rl_sequence l) (revocation_log db))"
    if r: "RevocationChanges (rq_TenantID c) (rq_LastSequence c) 10001 (AddDuration now (- retention)) db = Inr (out_Changes out)" and n: "length (out_Changes out) \<le> 10000"
  proof -
    let ?all = "map rl_sequence (filter (\<lambda>l. visible_to (rq_TenantID c) (rl_tenant l) \<and> rq_LastSequence c < rl_sequence l) (revocation_log db))"
    have eq: "map log_Sequence (out_Changes out) = take (nat 10001) ?all" by (rule revocation_delta[OF assms(1,2) r])
    have "length (take (nat 10001) ?all) \<le> 10000" using n arg_cong[OF eq, of length] by (simp only: length_map)
    then have "length ?all \<le> 10000" by simp
    then show ?thesis using eq by (simp only: take_all)
  qed
  moreover have "distributed_revocation r \<in> set (map distributed_revocation (active_revocations (rq_TenantID c) now db))"
    if "r \<in> set (revocations db)" "visible_to (rq_TenantID c) (rk_tenant r)" "revocation_active now db r" for r
    using that by (simp add: active_revocations_def)
  ultimately show ?thesis using mode checkpoint_saved[OF save] max[of _ "revocation_log db" "rq_TenantID c"] by (auto simp: o max_sequence_def)
qed

section \<open>Witnesses\<close>

definition demo_gateway_request :: ReconcileRevocations where
  "demo_gateway_request = \<lparr>rq_TenantID = demo_tenant, rq_GatewayPrincipalID = operator, rq_Roles = [], rq_LastSequence = 3, rq_Epochs = \<lparr>Security = 0, TenantPolicy = 0, TenantRevocation = 0, AgentRevocation = 0\<rparr>\<rparr>"

theorem gateway_reconciliation_complete_witness:
  "\<exists>out db. RevocationDistribution_Reconcile 145 allow_all demo_env (demo_time 150) demo_gateway_request active_db = Inr (out, db) \<and>
     (\<exists>cp \<in> set (gateway_checkpoints db). checkpoint_key cp = (demo_tenant, operator) \<and> cp_last_sequence cp = out_AuthoritativeSequence out)"
proof -
  have "\<not> snd (retention_boundary demo_tenant (demo_time 5) active_db)"
    by (simp add: retention_boundary_def retained_def active_db_def demo_time_def Let_def)
  then obtain entries where e: "RevocationChanges demo_tenant 3 10001 (demo_time 5) active_db = Inr entries"
    by (cases "retention_boundary demo_tenant (demo_time 5) active_db") (simp add: RevocationChanges_def demo_tenant_def demo_time_def IsZeroTime_def zero_nano_def)
  have "AddDuration (demo_time 150) (- 145) = demo_time 5" by (simp add: AddDuration_def demo_time_def)
  moreover have ids: "\<not> IsZero demo_tenant" "\<not> IsZero operator" by (simp_all add: demo_ids)
  moreover have "actor_exists (Some demo_tenant) (Some operator) active_db" by (simp add: actor_exists_def active_db_def demo_rows demo_ids)
  moreover have "gateway_checkpoints active_db = []" "max_sequence demo_tenant active_db = 4" "security_epoch active_db = 1"
    "find_tenant_epoch demo_tenant active_db = Some \<lparr>te_tenant = demo_tenant, te_policy = 0, te_revocation = 1\<rparr>"
    by (simp_all add: active_db_def max_sequence_def visible_to_def find_tenant_epoch_def demo_db_def empty_db_def)
  moreover have "RequireUTC (demo_time 150) = Inr (demo_time 150)" "\<not> IsZeroTime (demo_time 150)" by (simp_all add: demo_time_utc int64_simps zero_nano_def)
  ultimately have "\<exists>out db. RevocationDistribution_Reconcile 145 allow_all demo_env (demo_time 150) demo_gateway_request active_db = Inr (out, db)"
    using e demo_new_id[of 0]
    by (cases "int (length entries) > maxRevocationDelta") (simp_all add: RevocationDistribution_Reconcile_def authorizeGateway_def demo_gateway_request_def allow_all_def RevocationSnapshot_def
       SaveGatewayCheckpoint_def maxRevocationDelta_def demo_decision_def Let_def)
  then obtain out db where r: "RevocationDistribution_Reconcile 145 allow_all demo_env (demo_time 150) demo_gateway_request active_db = Inr (out, db)" by blast
  have times: "sorted (map (unix_nano \<circ> rl_committed) (revocation_log active_db))" by (simp add: active_db_def)
  show ?thesis using gateway_reconciliation_complete[OF active_db_revocation_inv times r] r by (auto simp: demo_gateway_request_def)
qed

end
