(* ===== verification/Idempotency.thy ===== *)
theory Idempotency
  imports Services
begin

text \<open>
  Idempotent requests: the records of src/migrations/005_create_delivery_primitives.sql and the operations of
  src/internal/adapters/postgres/idempotency.go and idempotency_store.go on them. A record is unique for a tenant, principal, route
  and key; the upsert that acquires it replaces an expired record, or failed or abandoned work of the same request, and nothing else.
  The lemmas show that the table keeps its keys and checks under every sequence of operations, that a completed request is
  replayed until its record expires, and that a running request has one owner.
\<close>

section \<open>Idempotent requests\<close>

datatype IdempotencyState = IN_PROGRESS | COMPLETED | FAILED

datatype IdempotencyOutcome = IdempotencyAcquired | IdempotencyReplay

record IdempotencyRequest =
  ir_PrincipalID :: ID
  ir_Route :: string
  ir_Key :: string
  ir_RequestHash :: string
  ir_Lease :: Duration
  ir_TTL :: Duration

text \<open>The headers are a JSON document, \<open>None\<close> when they do not decode.\<close>

record IdempotencyResponse =
  resp_Status :: int
  resp_Headers :: "json option"
  resp_Body :: string

record IdempotencyAcquisition =
  acq_Outcome :: IdempotencyOutcome
  acq_RecordID :: ID
  acq_OwnerToken :: ID
  acq_Response :: "IdempotencyResponse option"

record idempotency_row =
  im_id :: ID
  im_tenant :: ID
  im_principal :: ID
  im_route :: string
  im_key :: string
  im_hash :: string
  im_state :: IdempotencyState
  im_status :: "int option"
  im_headers :: "json option"
  im_body :: "string option"
  im_owner :: ID
  im_locked_until :: Time
  im_created :: Time
  im_completed :: "Time option"
  im_expires :: Time

definition idempotency_key :: "idempotency_row \<Rightarrow> ID \<times> ID \<times> string \<times> string" where
  "idempotency_key x = (im_tenant x, im_principal x, im_route x, im_key x)"

definition idempotency_check :: "idempotency_row \<Rightarrow> bool" where
  "idempotency_check x \<longleftrightarrow>
     1 \<le> length (im_route x) \<and> length (im_route x) \<le> 256 \<and> 1 \<le> length (im_key x) \<and> length (im_key x) \<le> 256 \<and> ValidDigest (im_hash x) \<and>
     (case im_status x of None \<Rightarrow> True | Some s \<Rightarrow> 100 \<le> s \<and> s \<le> 599) \<and>
     (case im_headers x of None \<Rightarrow> True | Some h \<Rightarrow> validJSONObject h) \<and>
     unix_nano (im_created x) < unix_nano (im_expires x) \<and>
     (im_state x = COMPLETED) = (im_completed x \<noteq> None) \<and> (im_state x = COMPLETED) = (im_status x \<noteq> None) \<and>
     (case im_completed x of None \<Rightarrow> True | Some t \<Rightarrow> unix_nano (im_created x) \<le> unix_nano t)"

definition ErrIdempotencyConflict :: goerror where
  "ErrIdempotencyConflict = New ''idempotency key reused with a different request''"

definition ErrIdempotencyInFlight :: goerror where
  "ErrIdempotencyInFlight = New ''idempotent request is already in progress''"

definition ErrIdempotencyOwnership :: goerror where
  "ErrIdempotencyOwnership = New ''idempotency ownership lost''"

definition HashIdempotencyRequest :: "Env \<Rightarrow> string \<Rightarrow> string" where
  "HashIdempotencyRequest env normalized = digest_text (env_sha256 env) normalized"

definition validateIdempotencyRequest :: "ID \<Rightarrow> IdempotencyRequest \<Rightarrow> Time \<Rightarrow> unit result" where
  "validateIdempotencyRequest tenant q now =
     (if IsZero tenant \<or> IsZero (ir_PrincipalID q) then Inl (New ''idempotency request requires tenant and principal'')
      else if length (ir_Route q) < 1 \<or> length (ir_Route q) > 256 \<or> length (ir_Key q) < 1 \<or> length (ir_Key q) > 256
      then Inl (New ''idempotency route and key must contain 1 to 256 bytes'')
      else if \<not> ValidDigest (ir_RequestHash q) then Inl (New ''idempotency request hash must be canonical SHA-256'')
      else if ir_Lease q \<le> 0 \<or> ir_TTL q \<le> 0 \<or> ir_Lease q > ir_TTL q
      then Inl (New ''idempotency lease and TTL must be positive and lease must not exceed TTL'')
      else and_then (RequireUTC now) (\<lambda>_. Inr ()))"

definition new_record :: "ID \<Rightarrow> IdempotencyRequest \<Rightarrow> ID \<Rightarrow> ID \<Rightarrow> Time \<Rightarrow> idempotency_row" where
  "new_record tenant q recordID ownerToken now =
     \<lparr>im_id = recordID, im_tenant = tenant, im_principal = ir_PrincipalID q, im_route = ir_Route q, im_key = ir_Key q, im_hash = ir_RequestHash q,
      im_state = IN_PROGRESS, im_status = None, im_headers = None, im_body = None, im_owner = ownerToken,
      im_locked_until = AddDuration now (ir_Lease q), im_created = now, im_completed = None, im_expires = AddDuration now (ir_TTL q)\<rparr>"

text \<open>The WHERE clause of the upsert: an expired record, or failed or abandoned work of the same request.\<close>

definition replaceable :: "idempotency_row \<Rightarrow> idempotency_row \<Rightarrow> bool" where
  "replaceable new x \<longleftrightarrow>
     unix_nano (im_expires x) \<le> unix_nano (im_created new) \<or>
     im_hash x = im_hash new \<and> (im_state x = FAILED \<or> im_state x = IN_PROGRESS \<and> unix_nano (im_locked_until x) \<le> unix_nano (im_created new))"

text \<open>
  The upsert on the unique key, with the row it returns, if any. The updated row has every column of the new one;
  the principal is a reference, the identifier the primary key.
\<close>

definition upsert_record :: "principal_row list \<Rightarrow> idempotency_row \<Rightarrow> idempotency_row list \<Rightarrow> (idempotency_row option \<times> idempotency_row list) result" where
  "upsert_record ps new rows =
     (let others = filter (\<lambda>x. idempotency_key x \<noteq> idempotency_key new) rows in
      if \<not> idempotency_check new then Inl check_violation
      else if \<not> list_ex (\<lambda>p. p_tenant p = im_tenant new \<and> p_id p = im_principal new) ps then Inl foreign_key_violation
      else case List.find (\<lambda>x. idempotency_key x = idempotency_key new) rows of
          None \<Rightarrow> if list_ex (\<lambda>x. im_id x = im_id new) rows then Inl unique_violation else Inr (Some new, rows @ [new])
        | Some x \<Rightarrow>
            if \<not> replaceable new x then Inr (None, rows)
            else if list_ex (\<lambda>x. im_id x = im_id new) others then Inl unique_violation
            else Inr (Some new, update_where (\<lambda>x. idempotency_key x = idempotency_key new) (\<lambda>_. new) rows))"

definition scanIdempotency :: "idempotency_row \<Rightarrow> string \<Rightarrow> bool \<Rightarrow> IdempotencyAcquisition result" where
  "scanIdempotency x expectedHash ownsRecord =
     (if im_hash x \<noteq> expectedHash then Inl ErrIdempotencyConflict
      else and_then (wrapping ''decode idempotency record ID'' (ParseID (ID_String (im_id x)))) (\<lambda>recordID.
        and_then (wrapping ''decode idempotency owner token'' (ParseID (ID_String (im_owner x)))) (\<lambda>ownerToken.
          case im_state x of
            IN_PROGRESS \<Rightarrow>
              if \<not> ownsRecord then Inl ErrIdempotencyInFlight
              else Inr \<lparr>acq_Outcome = IdempotencyAcquired, acq_RecordID = recordID, acq_OwnerToken = ownerToken, acq_Response = None\<rparr>
          | COMPLETED \<Rightarrow>
              (case (im_status x, im_headers x) of
                 (Some status, Some headers) \<Rightarrow>
                   if \<not> validJSONObject headers then Inl (New ''invalid completed idempotency record'')
                   else Inr \<lparr>acq_Outcome = IdempotencyReplay, acq_RecordID = recordID, acq_OwnerToken = ownerToken,
                     acq_Response = Some \<lparr>resp_Status = status, resp_Headers = Some headers, resp_Body = (case im_body x of None \<Rightarrow> [] | Some b \<Rightarrow> b)\<rparr>\<rparr>
               | _ \<Rightarrow> Inl (New ''invalid completed idempotency record''))
          | FAILED \<Rightarrow> Inl ErrIdempotencyInFlight)))"

definition AcquireIdempotency ::
  "Env \<Rightarrow> principal_row list \<Rightarrow> ID \<Rightarrow> IdempotencyRequest \<Rightarrow> Time \<Rightarrow> idempotency_row list \<Rightarrow> IdempotencyAcquisition result \<times> idempotency_row list" where
  "AcquireIdempotency env ps tenant q now rows =
     (case and_then (validateIdempotencyRequest tenant q now) (\<lambda>_.
         and_then (wrapping ''generate idempotency record ID'' (env_NewID env 0)) (\<lambda>recordID.
         and_then (wrapping ''generate idempotency owner token'' (env_NewID env 1)) (\<lambda>ownerToken.
           wrapping ''acquire idempotency record'' (upsert_record ps (new_record tenant q recordID ownerToken now) rows)))) of
        Inl err \<Rightarrow> (Inl err, rows)
      | Inr (Some x, rows) \<Rightarrow> (wrapping ''acquire idempotency record'' (scanIdempotency x (ir_RequestHash q) True), rows)
      | Inr (None, rows) \<Rightarrow>
          (wrapping ''read contended idempotency record''
            (case List.find (\<lambda>x. idempotency_key x = (tenant, ir_PrincipalID q, ir_Route q, ir_Key q)) rows of
               None \<Rightarrow> Inl no_rows | Some x \<Rightarrow> scanIdempotency x (ir_RequestHash q) False), rows))"

text \<open>The condition under which the holder of an acquisition may finish it.\<close>

definition owned_record :: "ID \<Rightarrow> IdempotencyAcquisition \<Rightarrow> idempotency_row \<Rightarrow> bool" where
  "owned_record tenant a x \<longleftrightarrow>
     im_tenant x = tenant \<and> im_id x = acq_RecordID a \<and> im_owner x = acq_OwnerToken a \<and> im_state x = IN_PROGRESS"

definition CompleteIdempotency ::
  "ID \<Rightarrow> IdempotencyAcquisition \<Rightarrow> IdempotencyResponse \<Rightarrow> Time \<Rightarrow> idempotency_row list \<Rightarrow> idempotency_row list result" where
  "CompleteIdempotency tenant a r now rows =
     (if IsZero tenant \<or> IsZero (acq_RecordID a) \<or> IsZero (acq_OwnerToken a) then Inl (New ''invalid idempotency completion ownership'')
      else and_then (RequireUTC now) (\<lambda>_.
        if resp_Status r < 100 \<or> resp_Status r > 599 \<or> (case resp_Headers r of None \<Rightarrow> True | Some h \<Rightarrow> \<not> validJSONObject h)
        then Inl (New ''invalid idempotency response'')
        else and_then (wrapping ''complete idempotency record'' (pg_update idempotency_check (owned_record tenant a)
            (\<lambda>x. x\<lparr>im_state := COMPLETED, im_status := Some (resp_Status r), im_headers := resp_Headers r, im_body := Some (resp_Body r),
                   im_completed := Some now, im_locked_until := now\<rparr>) rows)) (\<lambda>(rows, n).
          if n = 0 then Inl ErrIdempotencyOwnership else Inr rows)))"

definition FailIdempotency :: "ID \<Rightarrow> IdempotencyAcquisition \<Rightarrow> Time \<Rightarrow> idempotency_row list \<Rightarrow> idempotency_row list result" where
  "FailIdempotency tenant a now rows =
     (if IsZero tenant \<or> IsZero (acq_RecordID a) \<or> IsZero (acq_OwnerToken a) then Inl (New ''invalid idempotency failure ownership'')
      else and_then (RequireUTC now) (\<lambda>_.
        and_then (wrapping ''fail idempotency record'' (pg_update idempotency_check (owned_record tenant a)
            (\<lambda>x. x\<lparr>im_state := FAILED, im_locked_until := now\<rparr>) rows)) (\<lambda>(rows, n).
          if n \<noteq> 1 then Inl ErrIdempotencyOwnership else Inr rows)))"

definition ErrTenantRequired :: goerror where
  "ErrTenantRequired = New ''postgres tenant repository requires a tenant ID''"

text \<open>The store that the transport uses reports conflicts as domain errors.\<close>

definition IdempotencyStore_Acquire ::
  "Env \<Rightarrow> principal_row list \<Rightarrow> ID \<Rightarrow> IdempotencyRequest \<Rightarrow> Time \<Rightarrow> idempotency_row list \<Rightarrow> IdempotencyAcquisition result \<times> idempotency_row list" where
  "IdempotencyStore_Acquire env ps tenant q now rows =
     (case (if IsZero tenant then (Inl ErrTenantRequired, rows) else AcquireIdempotency env ps tenant q now rows) of
        (Inl err, rows) \<Rightarrow>
          (Inl (if errors_Is err ErrIdempotencyConflict then NewError CodeConflict ''idempotency key was already used for a different request''
                else if errors_Is err ErrIdempotencyInFlight then WithRetryable (NewError CodeConflict ''idempotent request is already in progress'')
                else err), rows)
      | (Inr a, rows) \<Rightarrow> (Inr a, rows))"

definition IdempotencyStore_Complete ::
  "ID \<Rightarrow> IdempotencyAcquisition \<Rightarrow> IdempotencyResponse \<Rightarrow> Time \<Rightarrow> idempotency_row list \<Rightarrow> idempotency_row list result" where
  "IdempotencyStore_Complete tenant a r now rows = (if IsZero tenant then Inl ErrTenantRequired else CompleteIdempotency tenant a r now rows)"

definition IdempotencyStore_Fail :: "ID \<Rightarrow> IdempotencyAcquisition \<Rightarrow> Time \<Rightarrow> idempotency_row list \<Rightarrow> idempotency_row list result" where
  "IdempotencyStore_Fail tenant a now rows = (if IsZero tenant then Inl ErrTenantRequired else FailIdempotency tenant a now rows)"

section \<open>What the records promise\<close>

datatype idempotency_operation =
    Acquire Env ID IdempotencyRequest Time
  | Complete ID IdempotencyAcquisition IdempotencyResponse Time
  | Fail ID IdempotencyAcquisition Time

fun idempotency_step :: "principal_row list \<Rightarrow> idempotency_operation \<Rightarrow> idempotency_row list \<Rightarrow> (unit \<times> idempotency_row list) result" where
  "idempotency_step ps (Acquire env t q now) rows = Inr ((), snd (AcquireIdempotency env ps t q now rows))"
| "idempotency_step ps (Complete t a r now) rows = and_then (CompleteIdempotency t a r now rows) (\<lambda>rows. Inr ((), rows))"
| "idempotency_step ps (Fail t a now) rows = and_then (FailIdempotency t a now rows) (\<lambda>rows. Inr ((), rows))"

fun operation_time :: "idempotency_operation \<Rightarrow> int" where
  "operation_time (Acquire env t q now) = unix_nano now"
| "operation_time (Complete t a r now) = unix_nano now"
| "operation_time (Fail t a now) = unix_nano now"

fun abandons :: "ID \<Rightarrow> idempotency_operation \<Rightarrow> bool" where
  "abandons i (Fail t a now) = (acq_RecordID a = i)"
| "abandons i _ = False"

definition idempotency_inv :: "idempotency_row list \<Rightarrow> bool" where
  "idempotency_inv rows \<longleftrightarrow> unique_key idempotency_key rows \<and> unique_key im_id rows \<and> list_all idempotency_check rows"

lemma upsert_record_cases:
  assumes "upsert_record ps new rows = Inr (x, rows')"
  obtains (insert) "x = Some new" "rows' = rows @ [new]" "idempotency_check new" "\<forall>y \<in> set rows. idempotency_key y \<noteq> idempotency_key new \<and> im_id y \<noteq> im_id new"
  | (replace) old where "x = Some new" "rows' = update_where (\<lambda>y. idempotency_key y = idempotency_key new) (\<lambda>_. new) rows" "idempotency_check new"
      "old \<in> set rows" "idempotency_key old = idempotency_key new" "replaceable new old" "\<forall>y \<in> set rows. idempotency_key y \<noteq> idempotency_key new \<longrightarrow> im_id y \<noteq> im_id new"
  | (keep) old where "x = None" "rows' = rows" "old \<in> set rows" "idempotency_key old = idempotency_key new" "\<not> replaceable new old"
proof -
  let ?find = "List.find (\<lambda>x. idempotency_key x = idempotency_key new) rows"
  show ?thesis
  proof (cases ?find)
    case None
    have "x = Some new \<and> rows' = rows @ [new] \<and> idempotency_check new \<and> \<not> list_ex (\<lambda>x. im_id x = im_id new) rows"
      using assms by (auto simp: upsert_record_def Let_def None split: if_splits)
    moreover have "\<forall>y \<in> set rows. idempotency_key y \<noteq> idempotency_key new" using None by (auto simp: find_None_iff)
    ultimately show ?thesis by (intro insert) (auto simp: list_ex_iff)
  next
    case (Some old)
    note old = find_SomeD[OF Some]
    show ?thesis
    proof (cases "replaceable new old")
      case True
      then show ?thesis using assms old Some by (intro replace[of old]) (auto simp: upsert_record_def Let_def list_ex_iff split: if_splits)
    next
      case False
      then show ?thesis using assms old Some by (intro keep[of old]) (auto simp: upsert_record_def Let_def split: if_splits)
    qed
  qed
qed

lemma AcquireIdempotency_rows:
  assumes "snd (AcquireIdempotency env ps t q now rows) \<noteq> rows"
  shows "\<exists>i o'. upsert_record ps (new_record t q i o' now) rows = Inr (Some (new_record t q i o' now), snd (AcquireIdempotency env ps t q now rows))"
proof -
  let ?m = "and_then (validateIdempotencyRequest t q now) (\<lambda>_. and_then (wrapping ''generate idempotency record ID'' (env_NewID env 0)) (\<lambda>recordID.
     and_then (wrapping ''generate idempotency owner token'' (env_NewID env 1)) (\<lambda>ownerToken.
       wrapping ''acquire idempotency record'' (upsert_record ps (new_record t q recordID ownerToken now) rows))))"
  obtain x rows' where m: "?m = Inr (x, rows')" using assms by (cases ?m) (auto simp: AcquireIdempotency_def)
  then obtain i o' where u: "upsert_record ps (new_record t q i o' now) rows = Inr (x, rows')" by (auto simp: and_then_Inr)
  have "snd (AcquireIdempotency env ps t q now rows) = rows'" using m by (cases x) (simp_all add: AcquireIdempotency_def)
  moreover have "x = Some (new_record t q i o' now)" using assms calculation by (cases rule: upsert_record_cases[OF u]) simp_all
  ultimately show ?thesis using u by blast
qed

lemma upsert_record_inv:
  assumes "upsert_record ps new rows = Inr (x, rows')" "idempotency_inv rows"
  shows "idempotency_inv rows'"
proof (cases rule: upsert_record_cases[OF assms(1)])
  case 1
  then show ?thesis using assms(2) by (auto simp: idempotency_inv_def unique_key_def)
next
  case (2 old)
  have keys: "map idempotency_key rows' = map idempotency_key rows" by (auto simp: 2(2) update_where_def)
  have "distinct (map im_id rows')"
  proof -
    have "distinct (map idempotency_key rows)" "distinct (map im_id rows)" using assms(2) by (simp_all add: idempotency_inv_def unique_key_def)
    then show ?thesis using 2(7) unfolding 2(2) update_where_def
      by (induction rows) (auto simp: image_iff)
  qed
  moreover have "list_all idempotency_check rows'" using assms(2) 2(3) by (auto simp: idempotency_inv_def list_all_iff 2(2) update_where_def)
  ultimately show ?thesis using assms(2) keys by (simp add: idempotency_inv_def unique_key_def)
qed (use assms(2) in simp)

lemma finish_inv:
  assumes "pg_update idempotency_check (owned_record t a) f rows = Inr (rows', n)" "idempotency_inv rows" "\<And>x. idempotency_key (f x) = idempotency_key x" "\<And>x. im_id (f x) = im_id x"
  shows "idempotency_inv rows'"
proof -
  have r: "rows' = update_where (owned_record t a) f rows" "\<forall>r \<in> set rows. owned_record t a r \<longrightarrow> idempotency_check (f r)" using assms(1) by (simp_all add: pg_update_Inr)
  then have "list_all idempotency_check rows'" using assms(2) by (auto simp: idempotency_inv_def list_all_iff update_where_def)
  then show ?thesis using assms(2-4) by (simp add: r(1) idempotency_inv_def)
qed

lemma CompleteIdempotency_Inr:
  assumes "CompleteIdempotency t a r now rows = Inr rows'"
  shows "\<exists>n. n \<noteq> 0 \<and> pg_update idempotency_check (owned_record t a) (\<lambda>x. x\<lparr>im_state := COMPLETED, im_status := Some (resp_Status r), im_headers := resp_Headers r,
      im_body := Some (resp_Body r), im_completed := Some now, im_locked_until := now\<rparr>) rows = Inr (rows', n)"
    "\<exists>h. resp_Headers r = Some h \<and> validJSONObject h"
  using assms by (auto simp: CompleteIdempotency_def and_then_Inr simp del: pg_update_Inr split: if_splits option.splits)

lemma FailIdempotency_Inr:
  assumes "FailIdempotency t a now rows = Inr rows'"
  shows "pg_update idempotency_check (owned_record t a) (\<lambda>x. x\<lparr>im_state := FAILED, im_locked_until := now\<rparr>) rows = Inr (rows', 1)"
  using assms by (auto simp: FailIdempotency_def and_then_Inr split: if_splits)

lemma idempotency_step_inv:
  assumes "idempotency_inv rows" "idempotency_step ps c rows = Inr (u, rows')"
  shows "idempotency_inv rows'"
proof (cases c)
  case (Acquire env t q now)
  then have r: "rows' = snd (AcquireIdempotency env ps t q now rows)" using assms(2) by simp
  show ?thesis
  proof (cases "rows' = rows")
    case False
    then show ?thesis using AcquireIdempotency_rows[of env ps t q now rows] upsert_record_inv assms(1) r by blast
  qed (use assms(1) in simp)
next
  case (Complete t a r now)
  then obtain n where "pg_update idempotency_check (owned_record t a) (\<lambda>x. x\<lparr>im_state := COMPLETED, im_status := Some (resp_Status r), im_headers := resp_Headers r,
      im_body := Some (resp_Body r), im_completed := Some now, im_locked_until := now\<rparr>) rows = Inr (rows', n)"
    using assms(2) CompleteIdempotency_Inr(1)[of t a r now rows rows'] by (auto simp: and_then_Inr)
  then show ?thesis by (rule finish_inv[OF _ assms(1)]) (simp_all add: idempotency_key_def)
next
  case (Fail t a now)
  then obtain n where "pg_update idempotency_check (owned_record t a) (\<lambda>x. x\<lparr>im_state := FAILED, im_locked_until := now\<rparr>) rows = Inr (rows', n)"
    using assms(2) FailIdempotency_Inr[of t a now rows rows'] by (auto simp: and_then_Inr)
  then show ?thesis by (rule finish_inv[OF _ assms(1)]) (simp_all add: idempotency_key_def)
qed

interpretation idempotency_history: operations "idempotency_step ps" idempotency_inv
  by unfold_locales (rule idempotency_step_inv)

lemma new_record_sel [simp]:
  "idempotency_key (new_record t q i w now) = (t, ir_PrincipalID q, ir_Route q, ir_Key q)" "im_created (new_record t q i w now) = now" "im_hash (new_record t q i w now) = ir_RequestHash q"
  by (simp_all add: new_record_def idempotency_key_def)

lemma in_update_where: "x \<in> set rows \<Longrightarrow> \<not> p x \<Longrightarrow> x \<in> set (update_where p f rows)"
  by (force simp: update_where_def)

text \<open>A record survives an operation that could not replace it and is not its own.\<close>

lemma acquire_keeps:
  assumes "idempotency_inv rows" "x \<in> set rows" "\<And>q i w. \<not> replaceable (new_record t q i w now) x \<or> idempotency_key x \<noteq> (t, ir_PrincipalID q, ir_Route q, ir_Key q)"
  shows "x \<in> set (snd (AcquireIdempotency env ps t q now rows))"
proof (cases "snd (AcquireIdempotency env ps t q now rows) = rows")
  case False
  then obtain i w where u: "upsert_record ps (new_record t q i w now) rows = Inr (Some (new_record t q i w now), snd (AcquireIdempotency env ps t q now rows))"
    using AcquireIdempotency_rows by blast
  show ?thesis
  proof (cases rule: upsert_record_cases[OF u])
    case 1
    then show ?thesis using assms(2) by simp
  next
    case (2 old)
    have "old = x" if "idempotency_key x = idempotency_key (new_record t q i w now)"
      using unique_keyD[of idempotency_key rows old x] assms(1,2) 2(4,5) that by (simp add: idempotency_inv_def)
    then have "idempotency_key x \<noteq> idempotency_key (new_record t q i w now)" using assms(3)[of q i w] 2(6) by auto
    then show ?thesis using assms(2) by (simp add: 2(2) in_update_where)
  qed simp
qed (use assms(2) in simp)

lemma finished_kept:
  assumes "pg_update idempotency_check (owned_record t a) f rows = Inr (rows', n)" "x \<in> set rows" "\<not> owned_record t a x"
  shows "x \<in> set rows'"
  using assms by (simp add: pg_update_Inr in_update_where)

lemma completed_kept:
  assumes "idempotency_inv rows" "x \<in> set rows" "im_state x = COMPLETED" "operation_time c < unix_nano (im_expires x)"
  shows "x \<in> set (committed (idempotency_step ps) c rows)"
proof (cases c)
  case (Acquire env t q now)
  have "\<not> replaceable (new_record t r i w now) x" for r i w using assms(3,4) Acquire by (simp add: replaceable_def)
  then show ?thesis using acquire_keeps[OF assms(1,2), where t = t and now = now and q = q and env = env and ps = ps] Acquire by (simp add: committed_def)
next
  case (Complete t a r now)
  then show ?thesis using CompleteIdempotency_Inr(1)[of t a r now rows] finished_kept[OF _ assms(2), of t a] assms(2,3)
    by (cases "CompleteIdempotency t a r now rows") (auto simp: committed_def owned_record_def)
next
  case (Fail t a now)
  then show ?thesis using FailIdempotency_Inr[of t a now rows] finished_kept[OF _ assms(2), of t a] assms(2,3)
    by (cases "FailIdempotency t a now rows") (auto simp: committed_def owned_record_def)
qed

lemma completed_history:
  assumes "idempotency_inv rows" "x \<in> set rows" "im_state x = COMPLETED" "list_all (\<lambda>c. operation_time c < unix_nano (im_expires x)) cs"
  shows "x \<in> set (run_all (idempotency_step ps) cs rows)"
  using assms
proof (induction cs arbitrary: rows)
  case (Cons c cs)
  then show ?case using completed_kept[of rows x c ps] idempotency_history.committed_inv[of rows ps c] by simp
qed simp

lemma acquire_contended:
  assumes "idempotency_inv rows" "x \<in> set rows" "idempotency_key x = (t, ir_PrincipalID q, ir_Route q, ir_Key q)" "\<And>i w. \<not> replaceable (new_record t q i w now) x"
    and "AcquireIdempotency env ps t q now rows = (res, rows')"
  shows "rows' = rows \<and> (isl res \<or> res = wrapping ''read contended idempotency record'' (scanIdempotency x (ir_RequestHash q) False))"
proof -
  let ?m = "and_then (validateIdempotencyRequest t q now) (\<lambda>_. and_then (wrapping ''generate idempotency record ID'' (env_NewID env 0)) (\<lambda>recordID.
     and_then (wrapping ''generate idempotency owner token'' (env_NewID env 1)) (\<lambda>ownerToken.
       wrapping ''acquire idempotency record'' (upsert_record ps (new_record t q recordID ownerToken now) rows))))"
  have find: "List.find (\<lambda>y. idempotency_key y = (t, ir_PrincipalID q, ir_Route q, ir_Key q)) rows = Some x"
    by (rule unique_key_find[of idempotency_key]) (use assms(1-3) in \<open>simp_all add: idempotency_inv_def\<close>)
  show ?thesis
  proof (cases ?m)
    case (Inr p)
    obtain y rows1 where p: "p = (y, rows1)" by (cases p)
    obtain i w where u: "upsert_record ps (new_record t q i w now) rows = Inr (y, rows1)" using Inr p by (auto simp: and_then_Inr)
    have "y = None" "rows1 = rows" using u find assms(4)[of i w] by (auto simp: upsert_record_def Let_def split: if_splits)
    then show ?thesis using assms(5) Inr p find by (simp add: AcquireIdempotency_def)
  qed (use assms(5) in \<open>auto simp: AcquireIdempotency_def\<close>)
qed

lemma new_record_check: "validateIdempotencyRequest t q now = Inr u \<Longrightarrow> idempotency_check (new_record t q i w now)"
  by (auto simp: validateIdempotencyRequest_def idempotency_check_def new_record_def AddDuration_def Suc_le_eq split: if_splits)

lemma acquire_contended_scan:
  assumes "idempotency_inv rows" "x \<in> set rows" "idempotency_key x = (t, ir_PrincipalID q, ir_Route q, ir_Key q)" "\<And>i w. \<not> replaceable (new_record t q i w now) x"
    and "validateIdempotencyRequest t q now = Inr ()" "env_NewID env 0 = Inr i" "env_NewID env 1 = Inr w" "list_ex (\<lambda>p. p_tenant p = t \<and> p_id p = ir_PrincipalID q) ps"
  shows "AcquireIdempotency env ps t q now rows = (wrapping ''read contended idempotency record'' (scanIdempotency x (ir_RequestHash q) False), rows)"
proof -
  have find: "List.find (\<lambda>y. idempotency_key y = (t, ir_PrincipalID q, ir_Route q, ir_Key q)) rows = Some x"
    by (rule unique_key_find[of idempotency_key]) (use assms(1-3) in \<open>simp_all add: idempotency_inv_def\<close>)
  have "list_ex (\<lambda>p. p_tenant p = im_tenant (new_record t q i w now) \<and> p_id p = im_principal (new_record t q i w now)) ps" using assms(8) by (simp add: new_record_def)
  then have "upsert_record ps (new_record t q i w now) rows = Inr (None, rows)"
    using new_record_check[OF assms(5)] find assms(4)[of i w] by (simp add: upsert_record_def)
  then show ?thesis by (simp add: AcquireIdempotency_def assms(5,6) assms(7)[unfolded One_nat_def] find wrapping_def)
qed

text \<open>
  C11: a completed request is replayed. From the completion of a request until its record expires, whatever other requests are acquired, completed or abandoned in between, acquiring the same key again changes
  nothing: for the same request it returns exactly the stored response, and for another request under the key a conflict.
\<close>

theorem completed_request_replayed:
  assumes "idempotency_inv rows" "x \<in> set rows" "owned_record t a x" "uuid7 (im_id x)" "uuid7 (im_owner x)" "CompleteIdempotency t a r done rows = Inr rows1"
    and "list_all (\<lambda>c. operation_time c < unix_nano (im_expires x)) cs" "rows2 = run_all (idempotency_step ps) cs rows1"
    and "idempotency_key x = (t, ir_PrincipalID q, ir_Route q, ir_Key q)" "unix_nano now < unix_nano (im_expires x)" "validateIdempotencyRequest t q now = Inr ()"
    and "env_NewID env 0 = Inr i" "env_NewID env 1 = Inr w" "list_ex (\<lambda>p. p_tenant p = t \<and> p_id p = ir_PrincipalID q) ps"
  shows "snd (AcquireIdempotency env ps t q now rows2) = rows2 \<and>
    (ir_RequestHash q = im_hash x \<longrightarrow> fst (AcquireIdempotency env ps t q now rows2) =
       Inr \<lparr>acq_Outcome = IdempotencyReplay, acq_RecordID = im_id x, acq_OwnerToken = im_owner x, acq_Response = Some r\<rparr>) \<and>
    (ir_RequestHash q \<noteq> im_hash x \<longrightarrow> (\<exists>err. fst (AcquireIdempotency env ps t q now rows2) = Inl err \<and> errors_Is err ErrIdempotencyConflict))"
proof -
  let ?x = "x\<lparr>im_state := COMPLETED, im_status := Some (resp_Status r), im_headers := resp_Headers r, im_body := Some (resp_Body r), im_completed := Some done, im_locked_until := done\<rparr>"
  have x1: "?x \<in> set rows1"
    using CompleteIdempotency_Inr(1)[OF assms(6)] assms(2,3) by (auto simp: pg_update_Inr update_where_def intro!: image_eqI[of _ _ x])
  have inv1: "idempotency_inv rows1" using idempotency_step_inv[OF assms(1), of ps "Complete t a r done"] assms(6) by simp
  have inv2: "idempotency_inv rows2" using idempotency_history.run_all_inv[OF inv1] by (simp add: assms(8))
  have x2: "?x \<in> set rows2" using completed_history[OF inv1 x1] assms(7) by (simp add: assms(8))
  have key: "idempotency_key ?x = (t, ir_PrincipalID q, ir_Route q, ir_Key q)" using assms(9) by (simp add: idempotency_key_def)
  have keep: "\<not> replaceable (new_record t q j v now) ?x" for j v using assms(10) by (simp add: replaceable_def)
  obtain h where h: "resp_Headers r = Some h" "validJSONObject h" using CompleteIdempotency_Inr(2)[OF assms(6)] by blast
  have r: "\<lparr>resp_Status = resp_Status r, resp_Headers = Some h, resp_Body = resp_Body r\<rparr> = r" using h(1) by (cases r) simp
  show ?thesis
    unfolding acquire_contended_scan[OF inv2 x2 key keep assms(11-14)]
    by (auto simp: scanIdempotency_def ParseID_ID_String assms(4,5) h r wrapping_def)
qed

text \<open>The record of the key is still the one that is being worked on, or has been completed by its owner.\<close>

definition busy :: "idempotency_row \<Rightarrow> idempotency_row list \<Rightarrow> bool" where
  "busy x rows \<longleftrightarrow> (\<exists>y \<in> set rows. idempotency_key y = idempotency_key x \<and> im_id y = im_id x \<and> im_hash y = im_hash x \<and> im_expires y = im_expires x \<and> (y = x \<or> im_state y = COMPLETED))"

lemma busy_kept:
  assumes "idempotency_inv rows" "busy x rows" "im_state x = IN_PROGRESS" "unix_nano (im_locked_until x) \<le> unix_nano (im_expires x)"
    and "operation_time c < unix_nano (im_locked_until x)" "\<not> abandons (im_id x) c"
  shows "busy x (committed (idempotency_step ps) c rows)"
proof -
  obtain y where y: "y \<in> set rows" "idempotency_key y = idempotency_key x" "im_id y = im_id x" "im_hash y = im_hash x" "im_expires y = im_expires x" "y = x \<or> im_state y = COMPLETED"
    using assms(2) by (auto simp: busy_def)
  have stays: "busy x rows'" if "y \<in> set rows'" for rows' using y that by (auto simp: busy_def)
  show ?thesis
  proof (cases c)
    case (Acquire env t q now)
    have "\<not> replaceable (new_record t p i w now) y" for p i w using y(5,6) assms(3,4,5) Acquire by (auto simp: replaceable_def)
    then show ?thesis using acquire_keeps[OF assms(1) y(1), where t = t and now = now and q = q and env = env and ps = ps] Acquire stays by (simp add: committed_def)
  next
    case (Complete t a r now)
    show ?thesis
    proof (cases "CompleteIdempotency t a r now rows")
      case (Inr rows')
      let ?f = "\<lambda>x. x\<lparr>im_state := COMPLETED, im_status := Some (resp_Status r), im_headers := resp_Headers r, im_body := Some (resp_Body r), im_completed := Some now, im_locked_until := now\<rparr>"
      have rows': "rows' = update_where (owned_record t a) ?f rows" using CompleteIdempotency_Inr(1)[OF Inr] by (auto simp: pg_update_Inr)
      have "busy x rows'"
      proof (cases "owned_record t a y")
        case True
        then have "?f y \<in> set rows'" using y(1) by (force simp: rows' update_where_def)
        then show ?thesis using y(2-5) unfolding busy_def by (intro bexI[of _ "?f y"]) (simp_all add: idempotency_key_def)
      qed (use stays y(1) in \<open>simp add: rows' in_update_where\<close>)
      then show ?thesis using Complete Inr by (simp add: committed_def)
    qed (use Complete stays y(1) in \<open>simp add: committed_def\<close>)
  next
    case (Fail t a now)
    have "\<not> owned_record t a y" using assms(6) Fail y(3) by (auto simp: owned_record_def)
    then show ?thesis using FailIdempotency_Inr[of t a now rows] finished_kept[OF _ y(1), of t a] stays y(1) Fail
      by (cases "FailIdempotency t a now rows") (auto simp: committed_def)
  qed
qed

lemma busy_history:
  assumes "idempotency_inv rows" "busy x rows" "im_state x = IN_PROGRESS" "unix_nano (im_locked_until x) \<le> unix_nano (im_expires x)"
    and "list_all (\<lambda>c. operation_time c < unix_nano (im_locked_until x) \<and> \<not> abandons (im_id x) c) cs"
  shows "busy x (run_all (idempotency_step ps) cs rows)"
  using assms
proof (induction cs arbitrary: rows)
  case (Cons c cs)
  then show ?case using busy_kept[of rows x c ps] idempotency_history.committed_inv[of rows ps c] by simp
qed simp

text \<open>
  C12: a request has one owner at a time. As long as the lease of an acquired record runs and its owner has not given it up, nobody acquires the key again, whatever happens to other
  records: a further attempt either fails or replays what the owner has completed, and changes nothing.
\<close>

theorem request_owner_exclusive:
  assumes "idempotency_inv rows" "x \<in> set rows" "im_state x = IN_PROGRESS" "unix_nano (im_locked_until x) \<le> unix_nano (im_expires x)"
    and "list_all (\<lambda>c. operation_time c < unix_nano (im_locked_until x) \<and> \<not> abandons (im_id x) c) cs" "rows' = run_all (idempotency_step ps) cs rows"
    and "idempotency_key x = (t, ir_PrincipalID q, ir_Route q, ir_Key q)" "unix_nano now < unix_nano (im_locked_until x)"
  shows "snd (AcquireIdempotency env ps t q now rows') = rows' \<and>
    (\<forall>a. fst (AcquireIdempotency env ps t q now rows') = Inr a \<longrightarrow> acq_Outcome a = IdempotencyReplay \<and> acq_RecordID a = im_id x)"
proof -
  have inv: "idempotency_inv rows'" using idempotency_history.run_all_inv[OF assms(1)] by (simp add: assms(6))
  have "busy x rows'" using busy_history[OF assms(1) _ assms(3,4,5)] assms(2) by (auto simp: busy_def assms(6))
  then obtain y where y: "y \<in> set rows'" "idempotency_key y = (t, ir_PrincipalID q, ir_Route q, ir_Key q)" "im_id y = im_id x" "im_expires y = im_expires x" "y = x \<or> im_state y = COMPLETED"
    using assms(7) by (auto simp: busy_def)
  have keep: "\<not> replaceable (new_record t q i w now) y" for i w using y(4,5) assms(3,4,8) by (auto simp: replaceable_def)
  obtain res rows3 where r: "AcquireIdempotency env ps t q now rows' = (res, rows3)" by (cases "AcquireIdempotency env ps t q now rows'")
  have scan: "acq_Outcome a = IdempotencyReplay \<and> acq_RecordID a = im_id x" if "scanIdempotency y (ir_RequestHash q) False = Inr a" for a
    using that y(3) by (auto simp: scanIdempotency_def and_then_Inr ParseID_ID_String split: if_splits IdempotencyState.splits option.splits)
  note c = acquire_contended[OF inv y(1,2) keep r]
  have "acq_Outcome a = IdempotencyReplay \<and> acq_RecordID a = im_id x" if "res = Inr a" for a
  proof (rule scan)
    have "wrapping ''read contended idempotency record'' (scanIdempotency y (ir_RequestHash q) False) = Inr a" using c that by simp
    then show "scanIdempotency y (ir_RequestHash q) False = Inr a" by simp
  qed
  then show ?thesis using c r by simp
qed

section \<open>Witnesses\<close>

text \<open>A request that the requester acquires at 100 for 50 nanoseconds, to be forgotten at 1100.\<close>

definition demo_idempotent :: IdempotencyRequest where
  "demo_idempotent = \<lparr>ir_PrincipalID = requester, ir_Route = ''POST /runs'', ir_Key = ''key'', ir_RequestHash = demo_digest, ir_Lease = 50, ir_TTL = 1000\<rparr>"

definition demo_record :: idempotency_row where
  "demo_record = new_record demo_tenant demo_idempotent (demo_id 100) (demo_id 101) (demo_time 100)"

definition demo_acquired :: IdempotencyAcquisition where
  "demo_acquired = \<lparr>acq_Outcome = IdempotencyAcquired, acq_RecordID = demo_id 100, acq_OwnerToken = demo_id 101, acq_Response = None\<rparr>"

definition demo_response :: IdempotencyResponse where
  "demo_response = \<lparr>resp_Status = 201, resp_Headers = Some (JObj []), resp_Body = ''{}''\<rparr>"

lemmas demo_idempotency = demo_idempotent_def demo_record_def demo_acquired_def demo_response_def new_record_def

lemma demo_record_simps:
  "im_state demo_record = IN_PROGRESS" "unix_nano (im_locked_until demo_record) = 150" "unix_nano (im_expires demo_record) = 1100" "im_id demo_record = demo_id 100"
  "im_owner demo_record = demo_id 101" "im_hash demo_record = demo_digest" "im_tenant demo_record = demo_tenant"
  "idempotency_key demo_record = (demo_tenant, ir_PrincipalID demo_idempotent, ir_Route demo_idempotent, ir_Key demo_idempotent)"
  by (simp_all add: demo_idempotency idempotency_key_def AddDuration_def demo_time_def int64_simps)

lemma unix_nano_demo [simp]: "unix_nano (demo_time n) = n"
  by (simp add: demo_time_def)

lemma demo_hash: "ir_RequestHash demo_idempotent = demo_digest"
  by (simp add: demo_idempotent_def)

lemma demo_record_inv: "idempotency_inv [demo_record]"
  by (simp add: idempotency_inv_def unique_key_def idempotency_check_def demo_idempotency AddDuration_def demo_time_def int64_simps demo_digest)

lemma demo_acquisition:
  "AcquireIdempotency demo_env (principals demo_db) demo_tenant demo_idempotent (demo_time 100) [] = (Inr demo_acquired, [demo_record])"
proof -
  have "validateIdempotencyRequest demo_tenant demo_idempotent (demo_time 100) = Inr ()"
    by (simp add: validateIdempotencyRequest_def demo_idempotent_def demo_ids demo_digest demo_time_utc int64_simps)
  moreover have "upsert_record (principals demo_db) demo_record [] = Inr (Some demo_record, [demo_record])"
    using demo_record_inv by (simp add: upsert_record_def idempotency_inv_def demo_record_def new_record_def demo_idempotent_def demo_rows)
  moreover have "scanIdempotency demo_record demo_digest True = Inr demo_acquired"
    by (simp add: scanIdempotency_def demo_record_simps ParseID_ID_String demo_uuid demo_acquired_def wrapping_def)
  ultimately show ?thesis using demo_new_id[of 0] demo_new_id[of 1]
    by (simp add: AcquireIdempotency_def demo_record_def[symmetric] demo_hash wrapping_def)
qed

theorem request_owner_exclusive_witness:
  "AcquireIdempotency demo_env (principals demo_db) demo_tenant demo_idempotent (demo_time 100) [] = (Inr demo_acquired, [demo_record]) \<and>
   snd (AcquireIdempotency (demo_env_from 200) (principals demo_db) demo_tenant demo_idempotent (demo_time 120) [demo_record]) = [demo_record]"
  using request_owner_exclusive[OF demo_record_inv, of demo_record "[]" "[demo_record]" "principals demo_db" demo_tenant demo_idempotent "demo_time 120" "demo_env_from 200"] demo_acquisition
  by (simp add: demo_record_simps demo_time_def)

theorem completed_request_replayed_witness:
  "\<exists>rows. CompleteIdempotency demo_tenant demo_acquired demo_response (demo_time 140) [demo_record] = Inr rows \<and>
     AcquireIdempotency (demo_env_from 200) (principals demo_db) demo_tenant demo_idempotent (demo_time 500) rows =
       (Inr \<lparr>acq_Outcome = IdempotencyReplay, acq_RecordID = demo_id 100, acq_OwnerToken = demo_id 101, acq_Response = Some demo_response\<rparr>, rows)"
proof -
  obtain rows where c: "CompleteIdempotency demo_tenant demo_acquired demo_response (demo_time 140) [demo_record] = Inr rows"
    using demo_record_inv
    by (simp add: CompleteIdempotency_def idempotency_inv_def idempotency_check_def pg_update_def update_where_def rows_affected_def owned_record_def demo_time_utc int64_simps demo_ids
        demo_idempotency validJSONObject_def AddDuration_def wrapping_def unix_nano_demo)
  have own: "owned_record demo_tenant demo_acquired demo_record" by (simp add: owned_record_def demo_record_simps demo_acquired_def)
  have v: "validateIdempotencyRequest demo_tenant demo_idempotent (demo_time 500) = Inr ()"
    by (simp add: validateIdempotencyRequest_def demo_idempotent_def demo_ids demo_digest demo_time_utc int64_simps)
  have p: "list_ex (\<lambda>p. p_tenant p = demo_tenant \<and> p_id p = ir_PrincipalID demo_idempotent) (principals demo_db)" by (simp add: demo_rows demo_idempotent_def)
  have n: "env_NewID (demo_env_from 200) 0 = Inr (demo_id 200)" "env_NewID (demo_env_from 200) 1 = Inr (demo_id 201)" by (simp_all add: demo_env_from_def)
  have u: "uuid7 (im_id demo_record)" "uuid7 (im_owner demo_record)" by (simp_all add: demo_record_simps demo_uuid)
  have t: "unix_nano (demo_time 500) < unix_nano (im_expires demo_record)" by (simp add: demo_record_simps demo_time_def)
  have e: "rows = run_all (idempotency_step (principals demo_db)) [] rows" "list_all (\<lambda>c. operation_time c < unix_nano (im_expires demo_record)) []" by simp_all
  note r = completed_request_replayed[OF demo_record_inv _ own u c e(2,1) demo_record_simps(8) t v n p]
  have "ir_RequestHash demo_idempotent = im_hash demo_record" by (simp add: demo_record_simps demo_idempotent_def)
  then show ?thesis using r c by (simp add: demo_record_simps prod_eq_iff)
qed

end
