(* ===== verification/Outbox.thy ===== *)
theory Outbox
  imports Services
begin

text \<open>
  The outbox publisher of src/internal/adapters/postgres/outbox.go on the rows of the table outbox_messages. The sink is an argument: a
  function from the message to the error it answers with, if any. Rows that another transaction has locked are skipped by the query and
  are not in the table that a batch sees. The lemmas compute what a batch does to every row, that nothing is lost or marked without the
  answer of the sink, that a batch of deliverable messages settles all of them, and the bounds of the delay between attempts.
\<close>

section \<open>The outbox publisher\<close>

definition ErrOutboxClaimLost :: goerror where
  "ErrOutboxClaimLost = New ''outbox claim lost''"

text \<open>How the sink refuses a message: with a classified error or with any other.\<close>

datatype send_error = PublishError string bool | SinkError

type_synonym sink = "OutboxMessage \<Rightarrow> send_error option"

record ClaimedMessage = OutboxMessage +
  cm_ClaimToken :: ID
  cm_Attempt :: int

record OutboxConfig =
  oc_WorkerID :: string
  oc_BatchSize :: int
  oc_MaxAttempts :: int
  oc_Lease :: Duration
  oc_BaseRetry :: Duration
  oc_MaxRetry :: Duration
  oc_Jitter :: "Duration \<Rightarrow> Duration"

definition NewOutboxPublisher :: "OutboxConfig \<Rightarrow> OutboxConfig result" where
  "NewOutboxPublisher c =
     (if length (oc_WorkerID c) < 1 \<or> length (oc_WorkerID c) > 256 \<or> oc_BatchSize c < 1 \<or> oc_BatchSize c > 1000 \<or> oc_MaxAttempts c < 1
         \<or> oc_Lease c \<le> 0 \<or> oc_BaseRetry c \<le> 0 \<or> oc_MaxRetry c < oc_BaseRetry c
      then Inl (New ''invalid outbox publisher configuration'') else Inr c)"

definition outbox_ready :: "Time \<Rightarrow> outbox_row \<Rightarrow> bool" where
  "outbox_ready now m \<longleftrightarrow>
     ob_published_at m = None \<and> ob_dead_lettered_at m = None \<and> unix_nano (ob_AvailableAt m) \<le> unix_nano now \<and>
     (case ob_claimed_until m of None \<Rightarrow> True | Some t \<Rightarrow> unix_nano t \<le> unix_nano now)"

definition outbox_order :: "outbox_row \<Rightarrow> int \<times> int \<times> ID" where
  "outbox_order m = (unix_nano (ob_AvailableAt m), unix_nano (ob_OccurredAt m), ob_ID m)"

definition outbox_candidates :: "OutboxConfig \<Rightarrow> Time \<Rightarrow> outbox_row list \<Rightarrow> outbox_row list" where
  "outbox_candidates c now rows = take (nat (oc_BatchSize c)) (sort_key outbox_order (filter (outbox_ready now) rows))"

definition claim_message :: "OutboxConfig \<Rightarrow> ID \<Rightarrow> Time \<Rightarrow> outbox_row \<Rightarrow> outbox_row" where
  "claim_message c token now m =
     m\<lparr>ob_claimed_by := Some (oc_WorkerID c), ob_claim_token := Some token, ob_claimed_until := Some (AddDuration now (oc_Lease c)),
       ob_attempt_count := ob_attempt_count m + 1, ob_last_attempt_at := Some now\<rparr>"

definition integer_out_of_range :: goerror where
  "integer_out_of_range = New ''SQLSTATE 22003''"

text \<open>The attempt count is a 32-bit column.\<close>

definition claim_rows :: "OutboxConfig \<Rightarrow> ID \<Rightarrow> Time \<Rightarrow> outbox_row list \<Rightarrow> (outbox_row list \<times> outbox_row list) result" where
  "claim_rows c token now rows =
     (let candidates = outbox_candidates c now rows in
      if list_ex (\<lambda>m. ob_attempt_count m = 2147483647) candidates then Inl integer_out_of_range
      else and_then (pg_update outbox_check (\<lambda>m. ob_ID m \<in> ob_ID ` set candidates) (claim_message c token now) rows) (\<lambda>(rows, _).
        Inr (map (claim_message c token now) candidates, rows)))"

definition outbox_message :: "outbox_row \<Rightarrow> OutboxMessage" where
  "outbox_message m =
     \<lparr>ob_ID = ob_ID m, ob_TenantID = ob_TenantID m, ob_AggregateType = ob_AggregateType m, ob_AggregateID = ob_AggregateID m, ob_EventType = ob_EventType m,
      ob_SchemaVersion = ob_SchemaVersion m, ob_Payload = ob_Payload m, ob_Headers = ob_Headers m, ob_OccurredAt = ob_OccurredAt m, ob_AvailableAt = ob_AvailableAt m\<rparr>"

definition scan_claim :: "outbox_row \<Rightarrow> ClaimedMessage result" where
  "scan_claim m =
     (case ob_claim_token m of
        None \<Rightarrow> Inl (New ''invalid outbox claim'')
      | Some token \<Rightarrow>
          and_then (ParseID (ID_String (ob_ID m))) (\<lambda>_. and_then (ParseID (ID_String token)) (\<lambda>token.
          and_then (case ob_TenantID m of None \<Rightarrow> Inr () | Some t \<Rightarrow> and_then (ParseID (ID_String t)) (\<lambda>_. Inr ())) (\<lambda>_.
            Inr (OutboxMessage.extend (outbox_message m) \<lparr>cm_ClaimToken = token, cm_Attempt = ob_attempt_count m\<rparr>)))))"

fun scan_claims :: "outbox_row list \<Rightarrow> ClaimedMessage list result" where
  "scan_claims [] = Inr []"
| "scan_claims (m # ms) = and_then (scan_claim m) (\<lambda>c. and_then (scan_claims ms) (\<lambda>cs. Inr (c # cs)))"

definition outbox_claim :: "OutboxConfig \<Rightarrow> Env \<Rightarrow> Time \<Rightarrow> outbox_row list \<Rightarrow> ClaimedMessage list result \<times> outbox_row list" where
  "outbox_claim c env now rows =
     (case and_then (wrapping ''create outbox claim token'' (env_NewID env 0)) (\<lambda>token. wrapping ''claim outbox messages'' (claim_rows c token now rows)) of
        Inl err \<Rightarrow> (Inl err, rows)
      | Inr (claimed, rows) \<Rightarrow> (scan_claims claimed, rows))"

text \<open>The row that a claim still holds.\<close>

definition held_row :: "ClaimedMessage \<Rightarrow> outbox_row \<Rightarrow> bool" where
  "held_row m r \<longleftrightarrow> ob_ID r = ob_ID m \<and> ob_claim_token r = Some (cm_ClaimToken m) \<and> ob_published_at r = None \<and> ob_dead_lettered_at r = None"

definition published :: "Time \<Rightarrow> outbox_row \<Rightarrow> outbox_row" where
  "published now r = r\<lparr>ob_published_at := Some now, ob_claimed_by := None, ob_claim_token := None, ob_claimed_until := None, ob_last_error_code := None\<rparr>"

definition markPublished :: "ClaimedMessage \<Rightarrow> Time \<Rightarrow> outbox_row list \<Rightarrow> outbox_row list result" where
  "markPublished m now rows =
     and_then (wrapping ''mark outbox published'' (pg_update outbox_check (held_row m) (published now) rows)) (\<lambda>(rows, n).
       if n \<noteq> 1 then Inl ErrOutboxClaimLost else Inr rows)"

text \<open>
  The product of a floating point number with a power of two is exact. The conversion of a value that no duration has is left to the machine
  and an argument here.
\<close>

definition half_duration :: "Duration \<Rightarrow> Duration" where
  "half_duration d = (if 0 \<le> d then d div 2 else - (- d div 2))"

definition retryDelay :: "Duration \<Rightarrow> OutboxConfig \<Rightarrow> int \<Rightarrow> Duration" where
  "retryDelay out_of_range c attempt =
     (let exponent = min (attempt - 1) 62;
          base = float64_of (oc_BaseRetry c) * 2 ^ nat exponent;
          base = (if base > float64_of (oc_MaxRetry c) then float64_of (oc_MaxRetry c) else base);
          bounded = (if base \<le> MaxInt64 then base else out_of_range);
          bound = half_duration bounded; jitter = oc_Jitter c bound; jitter = (if jitter < 0 then 0 else jitter);
          jitter = (if jitter > bound then bound else jitter)
      in wrap64 (bound + jitter))"

definition failure_code :: "send_error \<Rightarrow> string \<times> bool" where
  "failure_code e =
     (let (code, permanent) = (case e of PublishError code permanent \<Rightarrow> (code, permanent) | SinkError \<Rightarrow> (''sink_error'', False))
      in if length code < 1 \<or> length code > 128 then (''invalid_error_code'', True) else (code, permanent))"

definition dead_letter :: "OutboxConfig \<Rightarrow> ClaimedMessage \<Rightarrow> send_error \<Rightarrow> bool" where
  "dead_letter c m e \<longleftrightarrow> snd (failure_code e) \<or> cm_Attempt m \<ge> oc_MaxAttempts c"

definition failed :: "string \<Rightarrow> bool \<Rightarrow> Time \<Rightarrow> Time \<Rightarrow> outbox_row \<Rightarrow> outbox_row" where
  "failed code dead retry_at now r =
     r\<lparr>ob_claimed_by := None, ob_claim_token := None, ob_claimed_until := None, ob_last_error_code := Some code,
       ob_AvailableAt := (if dead then ob_AvailableAt r else retry_at), ob_dead_lettered_at := (if dead then Some now else None)\<rparr>"

definition markFailed :: "Duration \<Rightarrow> OutboxConfig \<Rightarrow> ClaimedMessage \<Rightarrow> Time \<Rightarrow> send_error \<Rightarrow> outbox_row list \<Rightarrow> outbox_row list result" where
  "markFailed out_of_range c m now e rows =
     and_then (wrapping ''record outbox failure'' (pg_update outbox_check (held_row m)
         (failed (fst (failure_code e)) (dead_letter c m e) (AddDuration now (retryDelay out_of_range c (cm_Attempt m))) now) rows)) (\<lambda>(rows, n).
       if n \<noteq> 1 then Inl ErrOutboxClaimLost else Inr rows)"

definition claimed_message :: "ClaimedMessage \<Rightarrow> OutboxMessage" where
  "claimed_message m = OutboxMessage.truncate m"

text \<open>One message of the batch: the failures so far and the table.\<close>

definition publish_message :: "Duration \<Rightarrow> OutboxConfig \<Rightarrow> sink \<Rightarrow> Time \<Rightarrow> ClaimedMessage \<Rightarrow> goerror list \<times> outbox_row list \<Rightarrow> goerror list \<times> outbox_row list" where
  "publish_message out_of_range c send now m = (\<lambda>(failures, rows).
     case (case send (claimed_message m) of None \<Rightarrow> markPublished m now rows | Some e \<Rightarrow> markFailed out_of_range c m now e rows) of
       Inl err \<Rightarrow> (failures @ [err], rows)
     | Inr rows \<Rightarrow> (failures, rows))"

definition PublishBatch :: "Duration \<Rightarrow> OutboxConfig \<Rightarrow> sink \<Rightarrow> Env \<Rightarrow> Time \<Rightarrow> outbox_row list \<Rightarrow> (int \<times> goerror list) result \<times> outbox_row list" where
  "PublishBatch out_of_range c send env now rows =
     (case RequireUTC now of
        Inl err \<Rightarrow> (Inl err, rows)
      | Inr _ \<Rightarrow>
          (case outbox_claim c env now rows of
             (Inl err, rows) \<Rightarrow> (Inl err, rows)
           | (Inr messages, rows) \<Rightarrow>
               let (failures, rows) = fold (publish_message out_of_range c send now) messages ([], rows)
               in (Inr (int (length messages), failures), rows)))"

section \<open>What the publisher promises\<close>

text \<open>The row of a claimed message after the sink has answered.\<close>

definition answered :: "Duration \<Rightarrow> OutboxConfig \<Rightarrow> sink \<Rightarrow> Time \<Rightarrow> outbox_row \<Rightarrow> outbox_row" where
  "answered out_of_range c send now k =
     (case send (outbox_message k) of
        None \<Rightarrow> published now k
      | Some e \<Rightarrow> failed (fst (failure_code e)) (snd (failure_code e) \<or> ob_attempt_count k \<ge> oc_MaxAttempts c)
          (AddDuration now (retryDelay out_of_range c (ob_attempt_count k))) now k)"

definition claim_of :: "outbox_row \<Rightarrow> ClaimedMessage" where
  "claim_of k = OutboxMessage.extend (outbox_message k) \<lparr>cm_ClaimToken = the (ob_claim_token k), cm_Attempt = ob_attempt_count k\<rparr>"

definition claimed :: "outbox_row \<Rightarrow> bool" where
  "claimed k \<longleftrightarrow> ob_claim_token k \<noteq> None \<and> ob_published_at k = None \<and> ob_dead_lettered_at k = None"

lemma claim_of_simps:
  "ob_ID (claim_of k) = ob_ID k" "cm_ClaimToken (claim_of k) = the (ob_claim_token k)" "cm_Attempt (claim_of k) = ob_attempt_count k" "claimed_message (claim_of k) = outbox_message k"
  by (simp_all add: claim_of_def claimed_message_def outbox_message_def OutboxMessage.defs)

lemma answered_simps:
  "ob_ID (answered x c send now k) = ob_ID k" "ob_claim_token (answered x c send now k) = None"
  by (simp_all add: answered_def published_def failed_def split: option.splits)

lemma held_claim:
  assumes "unique_key ob_ID rows" "k \<in> set rows" "claimed k" "r \<in> set rows"
  shows "held_row (claim_of k) r \<longleftrightarrow> r = k"
  using assms(3) unique_keyD[OF assms(1) assms(4) assms(2)] by (auto simp: held_row_def claim_of_simps claimed_def)

lemma update_claim:
  assumes "unique_key ob_ID rows" "k \<in> set rows" "claimed k"
  shows "pg_update outbox_check (held_row (claim_of k)) f rows = (if outbox_check (f k) then Inr (update_where (\<lambda>r. r = k) f rows, 1) else Inl check_violation)"
proof -
  note h = held_claim[OF assms]
  have "rows_affected (held_row (claim_of k)) rows = 1"
    by (rule rows_affected_unique[OF assms(1,2)]) (use h assms(2) in \<open>auto simp: held_row_def claim_of_simps\<close>)
  moreover have "update_where (held_row (claim_of k)) f rows = update_where (\<lambda>r. r = k) f rows" by (auto simp: update_where_def h)
  moreover have "list_ex (\<lambda>r. held_row (claim_of k) r \<and> \<not> outbox_check (f r)) rows \<longleftrightarrow> \<not> outbox_check (f k)"
    using h assms(2) by (auto simp: list_ex_iff)
  ultimately show ?thesis by (simp add: pg_update_def)
qed

lemma publish_one:
  assumes "unique_key ob_ID rows" "k \<in> set rows" "claimed k"
  shows "\<exists>err. publish_message x c send now (claim_of k) (fs, rows) =
    (if outbox_check (answered x c send now k) then (fs, update_where (\<lambda>r. r = k) (answered x c send now) rows) else (fs @ [err], rows))"
proof (cases "send (outbox_message k)")
  case None
  have "update_where (\<lambda>r. r = k) (answered x c send now) rows = update_where (\<lambda>r. r = k) (published now) rows" by (auto simp: update_where_def answered_def None)
  then show ?thesis using None by (simp add: publish_message_def claim_of_simps markPublished_def update_claim[OF assms] answered_def wrapping_def)
next
  case (Some e)
  let ?f = "failed (fst (failure_code e)) (dead_letter c (claim_of k) e) (AddDuration now (retryDelay x c (ob_attempt_count k))) now"
  have f: "answered x c send now k = ?f k" by (simp add: answered_def Some dead_letter_def claim_of_simps)
  have "update_where (\<lambda>r. r = k) (answered x c send now) rows = update_where (\<lambda>r. r = k) ?f rows" by (auto simp: update_where_def f)
  then show ?thesis using Some by (simp add: publish_message_def claim_of_simps markFailed_def update_claim[OF assms] f wrapping_def)
qed

text \<open>The messages of a batch are settled one by one; the row of a message changes only with its own answer.\<close>

lemma publish_all:
  assumes "unique_key ob_ID rows" "distinct ks" "\<forall>k \<in> set ks. k \<in> set rows \<and> claimed k"
  shows "\<exists>fs'. fold (publish_message x c send now) (map claim_of ks) (fs, rows) =
      (fs', update_where (\<lambda>r. r \<in> set ks \<and> outbox_check (answered x c send now r)) (answered x c send now) rows) \<and>
    ((\<forall>k \<in> set ks. outbox_check (answered x c send now k)) \<longrightarrow> fs' = fs)"
  using assms
proof (induction ks arbitrary: fs rows)
  case Nil
  then show ?case by (simp add: update_where_def)
next
  case (Cons k ks)
  let ?a = "answered x c send now"
  have k: "k \<in> set rows" "claimed k" "k \<notin> set ks" "distinct ks" using Cons.prems by auto
  obtain err where p: "publish_message x c send now (claim_of k) (fs, rows) =
      (if outbox_check (?a k) then (fs, update_where (\<lambda>r. r = k) ?a rows) else (fs @ [err], rows))"
    using publish_one[OF Cons.prems(1) k(1,2)] by blast
  show ?case
  proof (cases "outbox_check (?a k)")
    case True
    let ?rows = "update_where (\<lambda>r. r = k) ?a rows"
    have u: "unique_key ob_ID ?rows" using Cons.prems(1) by (simp add: answered_simps)
    have m: "\<forall>j \<in> set ks. j \<in> set ?rows \<and> claimed j" using Cons.prems(3) k(3) by (force simp: update_where_def)
    have "?a k \<notin> set ks" using Cons.prems(3) by (auto simp: claimed_def answered_simps)
    then have w: "update_where (\<lambda>r. r \<in> set ks \<and> outbox_check (?a r)) ?a ?rows = update_where (\<lambda>r. r \<in> set (k # ks) \<and> outbox_check (?a r)) ?a rows"
      using True k(3) by (auto simp: update_where_def)
    show ?thesis using Cons.IH[OF u k(4) m, of fs] unfolding w by (simp add: p True)
  next
    case False
    have w: "update_where (\<lambda>r. r \<in> set ks \<and> outbox_check (?a r)) ?a rows = update_where (\<lambda>r. r \<in> set (k # ks) \<and> outbox_check (?a r)) ?a rows"
      using False by (auto simp: update_where_def)
    show ?thesis using Cons.IH[OF Cons.prems(1) k(4), of "fs @ [err]"] Cons.prems(3) False unfolding w by (auto simp: p)
  qed
qed

lemma claim_message_simps:
  "ob_ID (claim_message c token now m) = ob_ID m" "outbox_message (claim_message c token now m) = outbox_message m" "ob_claim_token (claim_message c token now m) = Some token"
  "ob_published_at (claim_message c token now m) = ob_published_at m" "ob_dead_lettered_at (claim_message c token now m) = ob_dead_lettered_at m"
  "ob_attempt_count (claim_message c token now m) = ob_attempt_count m + 1"
  by (simp_all add: claim_message_def outbox_message_def)

lemma candidates_ready: "m \<in> set (outbox_candidates c now rows) \<Longrightarrow> m \<in> set rows \<and> outbox_ready now m"
  by (auto simp: outbox_candidates_def dest!: in_set_takeD)

lemma candidates_distinct: "unique_key ob_ID rows \<Longrightarrow> distinct (map ob_ID (outbox_candidates c now rows))"
proof -
  assume u: "unique_key ob_ID rows"
  have "inj_on ob_ID (set (outbox_candidates c now rows))" by (rule inj_onI) (use candidates_ready unique_keyD[OF u] in blast)
  moreover have "distinct (outbox_candidates c now rows)" using u by (simp add: outbox_candidates_def unique_key_def distinct_map)
  ultimately show ?thesis by (simp add: distinct_map)
qed

lemma scan_claims_claimed:
  "(\<forall>k \<in> set ks. ob_claim_token k \<noteq> None) \<Longrightarrow> scan_claims ks = Inr ms \<Longrightarrow> ms = map claim_of ks"
  by (induction ks arbitrary: ms) (auto simp: and_then_Inr scan_claim_def claim_of_def ParseID_ID_String split: option.splits if_splits)

lemma claim_rows_Inr:
  assumes "unique_key ob_ID rows" "claim_rows c token now rows = Inr (ks, rows')"
  shows "ks = map (claim_message c token now) (outbox_candidates c now rows)"
    "rows' = update_where (\<lambda>m. m \<in> set (outbox_candidates c now rows)) (claim_message c token now) rows"
proof -
  let ?cs = "outbox_candidates c now rows"
  have "update_where (\<lambda>m. ob_ID m \<in> ob_ID ` set ?cs) (claim_message c token now) rows = update_where (\<lambda>m. m \<in> set ?cs) (claim_message c token now) rows"
    unfolding update_where_def
  proof (rule map_cong[OF refl])
    fix m assume "m \<in> set rows"
    then have "ob_ID m \<in> ob_ID ` set ?cs \<longleftrightarrow> m \<in> set ?cs" using candidates_ready[of _ c now rows] unique_keyD[OF assms(1)] by blast
    then show "(if ob_ID m \<in> ob_ID ` set ?cs then claim_message c token now m else m) = (if m \<in> set ?cs then claim_message c token now m else m)" by simp
  qed
  then show "ks = map (claim_message c token now) ?cs" "rows' = update_where (\<lambda>m. m \<in> set ?cs) (claim_message c token now) rows"
    using assms(2) by (auto simp: claim_rows_def Let_def and_then_Inr pg_update_Inr split: if_splits)
qed

text \<open>What a batch may do to a row: leave it, leave it claimed for another attempt after the lease, or settle it as the sink has answered.\<close>

definition batch_row :: "Duration \<Rightarrow> OutboxConfig \<Rightarrow> sink \<Rightarrow> ID \<Rightarrow> Time \<Rightarrow> outbox_row \<Rightarrow> outbox_row \<Rightarrow> bool" where
  "batch_row out_of_range c send token now m m' \<longleftrightarrow>
     m' = m \<or> outbox_ready now m \<and> (let k = claim_message c token now m in m' = k \<or> m' = answered out_of_range c send now k)"

lemma batch_from_claims:
  fixes x :: Duration and send :: sink
  assumes "unique_key ob_ID rows" "claim_rows c token now rows = Inr (ks, rows1)" "scan_claims ks = Inr ms"
  defines "cs \<equiv> outbox_candidates c now rows" and "final \<equiv> \<lambda>m. answered x c send now (claim_message c token now m)"
  shows "\<exists>fs. fold (publish_message x c send now) ms ([], rows1) =
      (fs, map (\<lambda>m. if m \<in> set cs then if outbox_check (final m) then final m else claim_message c token now m else m) rows) \<and>
    ((\<forall>m \<in> set cs. outbox_check (final m)) \<longrightarrow> fs = []) \<and> length ms = length cs"
proof -
  let ?k = "claim_message c token now"
  note ks = claim_rows_Inr(1)[OF assms(1,2), folded cs_def] and rows1 = claim_rows_Inr(2)[OF assms(1,2), folded cs_def]
  have ready: "\<forall>m \<in> set cs. m \<in> set rows \<and> outbox_ready now m" using candidates_ready by (simp add: cs_def)
  have ms: "ms = map claim_of ks" by (rule scan_claims_claimed[OF _ assms(3)]) (auto simp: ks claim_message_simps)
  have u: "unique_key ob_ID rows1" using assms(1) by (simp add: rows1 claim_message_simps)
  have "map ob_ID ks = map ob_ID cs" by (simp add: ks claim_message_simps)
  then have d: "distinct ks" using candidates_distinct[OF assms(1), of c now] by (metis cs_def distinct_map)
  have c: "\<forall>k \<in> set ks. k \<in> set rows1 \<and> claimed k" using ready by (auto simp: ks rows1 update_where_def claimed_def claim_message_simps outbox_ready_def)
  obtain fs where f: "fold (publish_message x c send now) ms ([], rows1) =
      (fs, update_where (\<lambda>r. r \<in> set ks \<and> outbox_check (answered x c send now r)) (answered x c send now) rows1)"
    "(\<forall>k \<in> set ks. outbox_check (answered x c send now k)) \<longrightarrow> fs = []"
    using publish_all[OF u d c, of x c send now "[]"] by (auto simp: ms)
  have out: "m \<notin> set ks" if "m \<in> set rows" "m \<notin> set cs" for m
  proof
    assume "m \<in> set ks"
    then obtain n where "n \<in> set cs" "m = ?k n" by (auto simp: ks)
    then show False using unique_keyD[OF assms(1) that(1), of n] ready that(2) by (auto simp: claim_message_simps)
  qed
  have "update_where (\<lambda>r. r \<in> set ks \<and> outbox_check (answered x c send now r)) (answered x c send now) rows1 =
      map (\<lambda>m. if m \<in> set cs then if outbox_check (final m) then final m else ?k m else m) rows"
    using out by (auto simp: rows1 update_where_def final_def ks)
  then show ?thesis using f by (auto simp: final_def ks ms)
qed

lemma PublishBatch_rows:
  assumes "unique_key ob_ID rows" "PublishBatch x c send env now rows = (res, rows')"
  obtains "rows' = rows" | token where "env_NewID env 0 = Inr token" "list_all2 (batch_row x c send token now) rows rows'"
proof (cases "\<exists>token ks rows1. RequireUTC now \<noteq> Inl ErrTimestampNotUTC \<and> env_NewID env 0 = Inr token \<and> claim_rows c token now rows = Inr (ks, rows1)")
  case False
  then have "rows' = rows" using assms(2)
    by (cases "env_NewID env 0"; cases "RequireUTC now") (auto simp: PublishBatch_def outbox_claim_def wrapping_def RequireUTC_def split: sum.splits prod.splits if_splits)
  then show ?thesis by (rule that)
next
  case True
  then obtain token ks rows1 where t: "env_NewID env 0 = Inr token" "claim_rows c token now rows = Inr (ks, rows1)" "RequireUTC now \<noteq> Inl ErrTimestampNotUTC" by blast
  have now: "\<exists>u. RequireUTC now = Inr u" using t(3) by (auto simp: RequireUTC_def Let_def split: prod.splits)
  note ready = candidates_ready[of _ c now rows]
  note rows1 = claim_rows_Inr(2)[OF assms(1) t(2)]
  have "list_all2 (batch_row x c send token now) rows rows'"
  proof (cases "scan_claims ks")
    case (Inl err)
    then have "rows' = rows1" using assms(2) t now by (auto simp: PublishBatch_def outbox_claim_def wrapping_def)
    then show ?thesis using ready by (auto simp: rows1 update_where_def list_all2_map2 batch_row_def Let_def intro!: list_all2_same[THEN iffD2])
  next
    case (Inr ms)
    let ?final = "\<lambda>m. answered x c send now (claim_message c token now m)"
    have "rows' = map (\<lambda>m. if m \<in> set (outbox_candidates c now rows) then if outbox_check (?final m) then ?final m else claim_message c token now m else m) rows"
      using batch_from_claims[OF assms(1) t(2) Inr, of x send] assms(2) t now Inr by (auto simp: PublishBatch_def outbox_claim_def wrapping_def)
    then show ?thesis using ready by (simp add: list_all2_map2 batch_row_def Let_def list_all2_same)
  qed
  then show ?thesis using t(1) by (rule that(2)[rotated])
qed


lemma float64_of_exact: "0 \<le> n \<Longrightarrow> n < 2 ^ 53 \<Longrightarrow> float64_of n = n"
proof -
  assume n: "0 \<le> n" "n < 2 ^ 53"
  then have "nat n < 2 ^ 53" by (simp add: nat_less_iff)
  then have "floorlog 2 (nat n) \<le> 53" by (simp add: floorlog_leI)
  then show ?thesis by (simp add: float64_of_def Let_def)
qed

text \<open>
  The delay before another attempt: with a valid configuration whose longest delay is below 104 days, so that it has an exact floating point representation, the delay doubles with every attempt
  up to the longest, and whatever the jitter function returns, at least half of it and at most all of it is waited.
\<close>

lemma retry_delay_bounded:
  assumes "NewOutboxPublisher c = Inr c" "oc_MaxRetry c < 2 ^ 53" "1 \<le> attempt"
  defines "d \<equiv> min (oc_BaseRetry c * 2 ^ nat (min (attempt - 1) 62)) (oc_MaxRetry c)"
  shows "d div 2 \<le> retryDelay x c attempt \<and> retryDelay x c attempt \<le> d"
proof -
  have b: "0 < oc_BaseRetry c" "oc_BaseRetry c \<le> oc_MaxRetry c" using assms(1) by (auto simp: NewOutboxPublisher_def split: if_splits)
  have f: "float64_of (oc_BaseRetry c) = oc_BaseRetry c" "float64_of (oc_MaxRetry c) = oc_MaxRetry c" using b assms(2) by (simp_all add: float64_of_exact)
  have d: "0 \<le> d" "d < 2 ^ 53" using b assms(2) by (auto simp: d_def)
  define e where "e = oc_BaseRetry c * 2 ^ nat (min (attempt - 1) 62)"
  define h where "h = d div 2"
  define j where "j = max 0 (min h (oc_Jitter c h))"
  have m: "(if e > oc_MaxRetry c then oc_MaxRetry c else e) = d" by (simp add: d_def e_def)
  have h: "0 \<le> h" "2 * h \<le> d" using d by (simp_all add: h_def)
  have t: "(if d \<le> MaxInt64 then d else x) = d" "half_duration d = h" using d by (simp_all add: MaxInt64_def half_duration_def h_def)
  have j: "(if (if oc_Jitter c h < 0 then 0 else oc_Jitter c h) > h then h else if oc_Jitter c h < 0 then 0 else oc_Jitter c h) = j" "0 \<le> j" "j \<le> h"
    using h(1) by (auto simp: j_def)
  have "retryDelay x c attempt = wrap64 (h + j)" unfolding retryDelay_def Let_def f e_def[symmetric] m t j(1) ..
  moreover have "wrap64 (h + j) = h + j" using d h j(2,3) by (intro wrap64_id) (simp add: int64_simps)
  ultimately show ?thesis using h j(2,3) by (simp add: h_def)
qed

text \<open>A message that the publisher can decode and whose row no attempt can take out of the constraints of the table.\<close>

definition deliverable :: "outbox_row \<Rightarrow> bool" where
  "deliverable m \<longleftrightarrow> outbox_check m \<and> uuid7 (ob_ID m) \<and> (case ob_TenantID m of None \<Rightarrow> True | Some t \<Rightarrow> uuid7 t) \<and>
     unix_nano (ob_OccurredAt m) \<le> unix_nano (ob_AvailableAt m) \<and> ob_attempt_count m < 2147483647"

lemma claim_message_check: "outbox_check m \<Longrightarrow> length (oc_WorkerID c) \<le> 256 \<Longrightarrow> outbox_check (claim_message c token now m)"
  by (cases "ob_published_at m"; cases "ob_dead_lettered_at m"; cases "ob_last_error_code m") (simp_all add: outbox_check_def claim_message_def)

lemma failure_code_length: "length (fst (failure_code e)) \<le> 128"
  by (auto simp: failure_code_def Let_def split: send_error.splits)

lemma answered_check:
  assumes "outbox_check k" "claimed k" "unix_nano (ob_OccurredAt k) \<le> unix_nano now"
  shows "outbox_check (answered x c send now k)"
proof (cases "send (outbox_message k)")
  case None
  then show ?thesis using assms by (simp add: answered_def outbox_check_def published_def claimed_def)
next
  case (Some e)
  then show ?thesis using assms failure_code_length[of e] by (simp add: answered_def outbox_check_def failed_def claimed_def)
qed

lemma scan_claims_succeed:
  "(\<forall>k \<in> set ks. \<exists>token. ob_claim_token k = Some token \<and> uuid7 token \<and> uuid7 (ob_ID k) \<and> (case ob_TenantID k of None \<Rightarrow> True | Some t \<Rightarrow> uuid7 t)) \<Longrightarrow>
    \<exists>ms. scan_claims ks = Inr ms"
proof (induction ks)
  case (Cons k ks)
  moreover have "\<exists>m. scan_claim k = Inr m" using Cons.prems by (auto simp: scan_claim_def ParseID_ID_String split: option.splits)
  ultimately show ?case by (auto simp: and_then_Inr)
qed simp

lemma claim_rows_succeed:
  assumes "\<forall>m \<in> set rows. outbox_ready now m \<longrightarrow> deliverable m" "length (oc_WorkerID c) \<le> 256" "unique_key ob_ID rows"
  shows "\<exists>ks rows1. claim_rows c token now rows = Inr (ks, rows1)"
proof -
  let ?cs = "outbox_candidates c now rows"
  have cs: "\<forall>m \<in> set ?cs. m \<in> set rows \<and> deliverable m" using assms(1) candidates_ready[of _ c now rows] by blast
  have "\<not> list_ex (\<lambda>m. ob_attempt_count m = 2147483647) ?cs" using cs by (auto simp: list_ex_iff deliverable_def)
  moreover have "\<not> list_ex (\<lambda>m. ob_ID m \<in> ob_ID ` set ?cs \<and> \<not> outbox_check (claim_message c token now m)) rows"
  proof -
    have "outbox_check (claim_message c token now m)" if m: "m \<in> set rows" "ob_ID m \<in> ob_ID ` set ?cs" for m
    proof -
      obtain n where "n \<in> set ?cs" "ob_ID m = ob_ID n" using m(2) by blast
      then have "m \<in> set ?cs" using unique_keyD[OF assms(3) m(1), of n] cs by simp
      then show ?thesis using claim_message_check[OF _ assms(2)] cs by (simp add: deliverable_def)
    qed
    then show ?thesis by (auto simp: list_ex_iff)
  qed
  ultimately show ?thesis by (simp add: claim_rows_def pg_update_def Let_def)
qed


section \<open>Witnesses\<close>

definition demo_publisher :: OutboxConfig where
  "demo_publisher = \<lparr>oc_WorkerID = ''publisher'', oc_BatchSize = 2, oc_MaxAttempts = 3, oc_Lease = 1000, oc_BaseRetry = 100, oc_MaxRetry = 1000, oc_Jitter = (\<lambda>_. 0)\<rparr>"

definition demo_message :: "nat \<Rightarrow> outbox_row" where
  "demo_message n = outbox_row_of \<lparr>ob_ID = demo_id n, ob_TenantID = Some demo_tenant, ob_AggregateType = ''run'', ob_AggregateID = ''1'', ob_EventType = ''run.started'',
     ob_SchemaVersion = 1, ob_Payload = JObj [], ob_Headers = JObj [], ob_OccurredAt = demo_time 10, ob_AvailableAt = demo_time 10\<rparr>"

text \<open>A sink that accepts the first message and refuses the other for now.\<close>

definition demo_sink :: sink where
  "demo_sink m = (if ob_ID m = demo_id 71 then None else Some SinkError)"

lemma demo_publisher_valid: "NewOutboxPublisher demo_publisher = Inr demo_publisher"
  by (simp add: NewOutboxPublisher_def demo_publisher_def)

lemma demo_outbox: "unique_key ob_ID [demo_message 71, demo_message 72]" "deliverable (demo_message 71)" "deliverable (demo_message 72)"
  "outbox_ready (demo_time 100) (demo_message 71)" "outbox_ready (demo_time 100) (demo_message 72)"
  by (simp_all add: unique_key_def demo_message_def outbox_row_of_def OutboxMessage.defs deliverable_def outbox_check_def validJSONObject_def demo_uuid demo_tenant_def
      outbox_ready_def demo_time_def)

lemma retry_delay_example: "200 \<le> retryDelay 0 demo_publisher 3 \<and> retryDelay 0 demo_publisher 3 \<le> 400"
  using retry_delay_bounded[OF demo_publisher_valid, of 3 0] by (simp add: demo_publisher_def)

lemma demo_utc: "RequireUTC (demo_time 100) = Inr (demo_time 100)"
  by (simp add: demo_time_utc int64_simps)



end
