(* ===== verification/Spec2Isabelle.thy ===== *)
theory Spec2Isabelle
  imports Settlement Freshness Distribution Idempotency Outbox
begin

text \<open>
  A verification development of the agent governor in src/.
\<close>

end
